(* ===== verification/Prelude.thy ===== *)
theory Prelude
  imports Main "HOL-Library.Word"
begin

text \<open>
  Shared vocabulary of the development: the C integer types at their width, byte
  arrays seen through a pointer, C strings, and the two array loops (fill and shift)
  that the kernel writes again and again.  The collections declared here carry the
  component proofs: \<open>kernel_simps\<close> unfolds state accessors, \<open>frame_simps\<close>
  says what an operation leaves alone.
\<close>

unbundle bit_operations_syntax

named_theorems kernel_simps
named_theorems frame_simps

section \<open>C integer types\<close>

type_synonym u8 = "8 word"
type_synonym u16 = "16 word"
type_synonym u32 = "32 word"

text \<open>
  A pointer into an array of bytes is the function that reads the byte at each offset.
  Reading past the end is reading whatever the function says: no bound is assumed.
\<close>

type_synonym bytes = "nat \<Rightarrow> u8"

definition lit :: "string \<Rightarrow> u8 list" where
  "lit cs = map of_char cs"

lemma lit_Nil [simp]: "lit [] = []"
  by (simp add: lit_def)

lemma lit_Cons [simp]: "lit (c # cs) = of_char c # lit cs"
  by (simp add: lit_def)

lemma lit_length [simp]: "length (lit cs) = length cs"
  by (simp add: lit_def)

section \<open>C strings\<close>

text \<open>The array \<open>s\<close> holds the string \<open>xs\<close> followed by its terminating NUL.\<close>

definition cstr :: "bytes \<Rightarrow> u8 list \<Rightarrow> bool" where
  "cstr s xs \<longleftrightarrow> (\<forall>i < length xs. s i = xs ! i) \<and> 0 \<notin> set xs \<and> s (length xs) = 0"

lemma cstr_nth: "cstr s xs \<Longrightarrow> i < length xs \<Longrightarrow> s i = xs ! i"
  by (simp add: cstr_def)

lemma cstr_nonzero: "cstr s xs \<Longrightarrow> i < length xs \<Longrightarrow> s i \<noteq> 0"
  by (metis cstr_def nth_mem)

lemma cstr_end: "cstr s xs \<Longrightarrow> s (length xs) = 0"
  by (simp add: cstr_def)

lemma cstr_no_nul: "cstr s xs \<Longrightarrow> 0 \<notin> set xs"
  by (simp add: cstr_def)

lemma cstr_unique:
  assumes "cstr s xs" and "cstr s ys"
  shows "xs = ys"
proof -
  have len: "length xs = length ys"
  proof (rule linorder_cases [of "length xs" "length ys"])
    assume "length xs < length ys"
    with cstr_nonzero [OF assms(2)] cstr_end [OF assms(1)] show ?thesis by blast
  next
    assume "length ys < length xs"
    with cstr_nonzero [OF assms(1)] cstr_end [OF assms(2)] show ?thesis by blast
  qed
  then show ?thesis
  proof (rule nth_equalityI)
    fix i assume "i < length xs"
    with len show "xs ! i = ys ! i"
      using cstr_nth [OF assms(1)] cstr_nth [OF assms(2)] by force
  qed
qed

text \<open>The array that holds exactly the bytes of a list, then zeros.\<close>

definition array_of :: "u8 list \<Rightarrow> bytes" where
  "array_of xs = (\<lambda>i. if i < length xs then xs ! i else 0)"

lemma array_of_nth [simp]: "i < length xs \<Longrightarrow> array_of xs i = xs ! i"
  by (simp add: array_of_def)

lemma array_of_beyond [simp]: "length xs \<le> i \<Longrightarrow> array_of xs i = 0"
  by (simp add: array_of_def)

lemma cstr_array_of: "0 \<notin> set xs \<Longrightarrow> cstr (array_of xs) xs"
  unfolding cstr_def by auto

text \<open>The string held by an array of \<open>n\<close> bytes: everything up to the first NUL.\<close>

definition string_in :: "nat \<Rightarrow> bytes \<Rightarrow> u8 list" where
  "string_in n s = takeWhile (\<lambda>c. c \<noteq> 0) (map s [0..<n])"

lemma string_in_cstr:
  assumes "cstr s xs" and "length xs < n"
  shows "string_in n s = xs"
proof -
  have split: "[0..<n] = [0..<length xs] @ length xs # [Suc (length xs)..<n]"
    using assms(2) by (metis less_imp_add_positive upt_add_eq_append upt_conv_Cons zero_le)
  have pre: "map s [0..<length xs] = xs"
    by (rule nth_equalityI) (use assms(1) in \<open>simp_all add: cstr_def\<close>)
  have "takeWhile (\<lambda>c. c \<noteq> 0) (xs @ s (length xs) # map s [Suc (length xs)..<n]) = xs"
    using assms(1) by (subst takeWhile_append2) (auto simp: cstr_def)
  then show ?thesis
    by (simp add: string_in_def split pre del: upt_Suc)
qed

lemma string_in_take:
  assumes "cstr s xs"
  shows "string_in n s = take n xs"
proof (cases "length xs < n")
  case True
  then show ?thesis using string_in_cstr [OF assms] by simp
next
  case False
  have "map s [0..<n] = take n xs"
    by (rule nth_equalityI) (use False assms in \<open>simp_all add: cstr_def\<close>)
  moreover have "0 \<notin> set (take n xs)" using assms by (auto simp: cstr_def dest: in_set_takeD)
  ultimately show ?thesis
    by (simp add: string_in_def) (metis (mono_tags, lifting) takeWhile_eq_all_conv)
qed

section \<open>Array loops\<close>

text \<open>\<open>for (j = 0; j < n; j++) a[j] = v;\<close>\<close>

primrec fill_loop :: "nat \<Rightarrow> 'a \<Rightarrow> (nat \<Rightarrow> 'a) \<Rightarrow> (nat \<Rightarrow> 'a)" where
  "fill_loop 0 v a = a"
| "fill_loop (Suc n) v a = (fill_loop n v a)(n := v)"

lemma fill_loop_apply: "fill_loop n v a j = (if j < n then v else a j)"
  by (induction n) auto

text \<open>\<open>for (j = 0; j < n; j++) a[j] = a[j + 1];\<close>\<close>

primrec shift_loop :: "nat \<Rightarrow> (int \<Rightarrow> 'a) \<Rightarrow> (int \<Rightarrow> 'a)" where
  "shift_loop 0 a = a"
| "shift_loop (Suc n) a = (let b = shift_loop n a in b(int n := b (int n + 1)))"

lemma shift_loop_apply:
  "shift_loop n a j = (if 0 \<le> j \<and> j < int n then a (j + 1) else a j)"
proof (induction n arbitrary: j)
  case 0
  then show ?case by (cases "0 \<le> j \<and> j < 0") auto
next
  case (Suc n)
  then show ?case by (auto simp: Let_def)
qed

text \<open>\<open>for (j = 0; j < n; j++) a[j] = b[j];\<close>\<close>

primrec copy_loop :: "nat \<Rightarrow> (int \<Rightarrow> 'a) \<Rightarrow> (int \<Rightarrow> 'a) \<Rightarrow> (int \<Rightarrow> 'a)" where
  "copy_loop 0 b a = a"
| "copy_loop (Suc n) b a = (copy_loop n b a)(int n := b (int n))"

lemma copy_loop_apply:
  "copy_loop n b a j = (if 0 \<le> j \<and> j < int n then b j else a j)"
  by (induction n) auto

text \<open>\<open>for (j = 0; j < n; j++) a[j] = v;\<close> on an array indexed by a signed \<open>int\<close>.\<close>

primrec int_fill_loop :: "nat \<Rightarrow> 'a \<Rightarrow> (int \<Rightarrow> 'a) \<Rightarrow> (int \<Rightarrow> 'a)" where
  "int_fill_loop 0 v a = a"
| "int_fill_loop (Suc n) v a = (int_fill_loop n v a)(int n := v)"

lemma int_fill_loop_apply:
  "int_fill_loop n v a j = (if 0 \<le> j \<and> j < int n then v else a j)"
  by (induction n) auto

text \<open>\<open>for (j = 0; j < n; j++) body(j)\<close> on an arbitrary state.\<close>

primrec for_loop :: "nat \<Rightarrow> (nat \<Rightarrow> 's \<Rightarrow> 's) \<Rightarrow> 's \<Rightarrow> 's" where
  "for_loop 0 body s = s"
| "for_loop (Suc n) body s = body n (for_loop n body s)"

lemma for_loop_inv:
  "P s \<Longrightarrow> (\<And>j t. j < n \<Longrightarrow> P t \<Longrightarrow> P (body j t)) \<Longrightarrow> P (for_loop n body s)"
  by (induction n) auto

lemma for_loop_frame:
  "(\<And>j t. j < n \<Longrightarrow> f (body j t) = f t) \<Longrightarrow> f (for_loop n body s) = f s"
  by (induction n) auto

text \<open>A loop whose body does something in one iteration only.\<close>

lemma for_loop_one:
  "(\<And>i t. i < n \<Longrightarrow> body i t = (if i = j then f t else t)) \<Longrightarrow>
   for_loop n body s = (if j < n then f s else s)"
  by (induction n) (auto simp: less_Suc_eq)

lemma for_loop_numeral:
  "for_loop (numeral v) body s = body (pred_numeral v) (for_loop (pred_numeral v) body s)"
  by (simp add: numeral_eq_Suc)

section \<open>Words\<close>

lemma of_nat_inj_u32: "i < 2 ^ 32 \<Longrightarrow> j < 2 ^ 32 \<Longrightarrow> (of_nat i :: u32) = of_nat j \<longleftrightarrow> i = j"
  by (auto simp: word_of_nat_eq_iff take_bit_nat_def)

lemma unat_of_nat_u32: "i < 2 ^ 32 \<Longrightarrow> unat (of_nat i :: u32) = i"
  by (simp add: unat_of_nat take_bit_nat_def)

lemma unat_bound_u32: "unat (w :: u32) < 2 ^ 32"
  using unsigned_less [of w] by simp

lemma sint_eq_iff: "sint (a :: 'a::len word) = sint b \<longleftrightarrow> a = b"
  by (auto intro: signed_word_eqI)

lemma sint_eq_0: "sint (a :: 'a::len word) = 0 \<longleftrightarrow> a = 0"
  using sint_eq_iff [of a 0] by simp

lemma div_eq_range:
  fixes n m q :: nat
  assumes "0 < m"
  shows "n div m = q \<longleftrightarrow> q * m \<le> n \<and> n < q * m + m"
  using assms dividend_less_div_times [of m n]
  by (auto intro: div_nat_eqI simp: algebra_simps)

lemma sint_small: "unat (w :: u32) < 2 ^ 31 \<Longrightarrow> sint w = int (unat w)"
proof -
  assume small: "unat w < 2 ^ 31"
  have "int (unat w) < int (2 ^ 31)" using small by (simp only: of_nat_less_iff)
  then have "uint w < 2 ^ 31" by simp
  then have "signed_take_bit 31 (uint w) = uint w"
    by (intro signed_take_bit_int_eq_self) (use uint_ge_0 [of w] in linarith)+
  then show "sint w = int (unat w)" by (simp add: sint_uint)
qed

lemma unat_sint: "0 \<le> sint (w :: u32) \<Longrightarrow> int (unat w) = sint w"
proof -
  assume "0 \<le> sint w"
  moreover have "sint w < 2 ^ 32" using sint_lt [of w] by simp
  ultimately have "take_bit 32 (sint w) = sint w" by (intro take_bit_int_eq_self) simp_all
  then have "uint w = sint w" by (simp add: uint_sint)
  then show "int (unat w) = sint w" by simp
qed

lemma if_same_fst: "(if c then (a, x) else (a, y)) = (a, if c then x else y)"
  by simp

lemma map_upt_append:
  assumes "a \<le> b" and "b \<le> c"
  shows "map f [a..<b] @ map f [b..<c] = map f [a..<c]"
proof -
  have "[a..<b + (c - b)] = [a..<b] @ [b..<b + (c - b)]"
    by (rule upt_add_eq_append [OF assms(1)])
  then have "[a..<c] = [a..<b] @ [b..<c]" using assms(2) by simp
  then show ?thesis by simp
qed

end
