(* ===== verification/C_Memory.thy ===== *)
theory C_Memory
  imports Prelude
begin

text \<open>
  The memory routines of \<open>student-distrib/lib.c\<close>, which are inline assembly: the
  byte/dword loops of \<open>memset\<close> and \<open>memcpy\<close>, the direction choice of
  \<open>memmove\<close>.  Memory is a function from physical addresses to bytes; every access
  goes through an address translation \<open>tr\<close>, because the kernel maps the same frame at
  several addresses.  The contract of a copy routine is the locale \<open>copier\<close>; both
  assembly routines are instances of it.
\<close>

section \<open>Memory and its accesses\<close>

type_synonym memory = "u32 \<Rightarrow> u8"
type_synonym translation = "u32 \<Rightarrow> u32"

definition rd :: "translation \<Rightarrow> memory \<Rightarrow> u32 \<Rightarrow> u8" where
  "rd tr m a = m (tr a)"

definition wr :: "translation \<Rightarrow> memory \<Rightarrow> u32 \<Rightarrow> u8 \<Rightarrow> memory" where
  "wr tr m a v = m(tr a := v)"

text \<open>\<open>movsl\<close>: four bytes are read before four bytes are written.\<close>

definition movsl :: "translation \<Rightarrow> memory \<Rightarrow> u32 \<Rightarrow> u32 \<Rightarrow> memory" where
  "movsl tr m edi esi =
     (let b0 = rd tr m esi; b1 = rd tr m (esi + 1); b2 = rd tr m (esi + 2); b3 = rd tr m (esi + 3)
      in wr tr (wr tr (wr tr (wr tr m edi b0) (edi + 1) b1) (edi + 2) b2) (edi + 3) b3)"

text \<open>\<open>stosl\<close> and \<open>stosw\<close>: the bytes of \<open>%eax\<close>, lowest first.\<close>

definition byte_of :: "u32 \<Rightarrow> nat \<Rightarrow> u8" where
  "byte_of w k = ucast (drop_bit (8 * k) w)"

definition stosw :: "translation \<Rightarrow> memory \<Rightarrow> u32 \<Rightarrow> u32 \<Rightarrow> memory" where
  "stosw tr m edi eax = wr tr (wr tr m edi (byte_of eax 0)) (edi + 1) (byte_of eax 1)"

definition stosl :: "translation \<Rightarrow> memory \<Rightarrow> u32 \<Rightarrow> u32 \<Rightarrow> memory" where
  "stosl tr m edi eax =
     wr tr (wr tr (wr tr (wr tr m edi (byte_of eax 0)) (edi + 1) (byte_of eax 1))
       (edi + 2) (byte_of eax 2)) (edi + 3) (byte_of eax 3)"

section \<open>memcpy\<close>

text \<open>The label \<open>.memcpy_bottom\<close>: one byte per turn, \<open>%edx\<close> turns.\<close>

fun memcpy_bottom :: "translation \<Rightarrow> memory \<Rightarrow> u32 \<Rightarrow> u32 \<Rightarrow> nat \<Rightarrow> memory" where
  "memcpy_bottom tr m edi esi 0 = m"
| "memcpy_bottom tr m edi esi (Suc edx) =
     memcpy_bottom tr (wr tr m edi (rd tr m esi)) (edi + 1) (esi + 1) edx"

text \<open>\<open>rep movsl\<close> with \<open>%ecx\<close> turns, upwards.\<close>

fun rep_movsl :: "translation \<Rightarrow> memory \<Rightarrow> u32 \<Rightarrow> u32 \<Rightarrow> nat \<Rightarrow> memory" where
  "rep_movsl tr m edi esi 0 = m"
| "rep_movsl tr m edi esi (Suc ecx) =
     rep_movsl tr (movsl tr m edi esi) (edi + 4) (esi + 4) ecx"

definition memcpy_aligned :: "translation \<Rightarrow> memory \<Rightarrow> u32 \<Rightarrow> u32 \<Rightarrow> nat \<Rightarrow> memory" where
  "memcpy_aligned tr m edi esi ecx =
     (let q = ecx div 4
      in memcpy_bottom tr (rep_movsl tr m edi esi q)
           (edi + 4 * of_nat q) (esi + 4 * of_nat q) (ecx mod 4))"

fun memcpy_top :: "translation \<Rightarrow> memory \<Rightarrow> u32 \<Rightarrow> u32 \<Rightarrow> nat \<Rightarrow> memory" where
  "memcpy_top tr m edi esi 0 = m"
| "memcpy_top tr m edi esi (Suc ecx) =
     (if edi AND 3 = 0 then memcpy_aligned tr m edi esi (Suc ecx)
      else memcpy_top tr (wr tr m edi (rd tr m esi)) (edi + 1) (esi + 1) ecx)"

definition memcpy :: "translation \<Rightarrow> memory \<Rightarrow> u32 \<Rightarrow> u32 \<Rightarrow> nat \<Rightarrow> memory" where
  "memcpy tr m dest src n = memcpy_top tr m dest src n"

section \<open>memmove\<close>

fun rep_movsb_up :: "translation \<Rightarrow> memory \<Rightarrow> u32 \<Rightarrow> u32 \<Rightarrow> nat \<Rightarrow> memory" where
  "rep_movsb_up tr m edi esi 0 = m"
| "rep_movsb_up tr m edi esi (Suc ecx) =
     rep_movsb_up tr (wr tr m edi (rd tr m esi)) (edi + 1) (esi + 1) ecx"

fun rep_movsb_down :: "translation \<Rightarrow> memory \<Rightarrow> u32 \<Rightarrow> u32 \<Rightarrow> nat \<Rightarrow> memory" where
  "rep_movsb_down tr m edi esi 0 = m"
| "rep_movsb_down tr m edi esi (Suc ecx) =
     rep_movsb_down tr (wr tr m edi (rd tr m esi)) (edi - 1) (esi - 1) ecx"

definition memmove :: "translation \<Rightarrow> memory \<Rightarrow> u32 \<Rightarrow> u32 \<Rightarrow> nat \<Rightarrow> memory" where
  "memmove tr m dest src n =
     (if src \<ge> dest then rep_movsb_up tr m dest src n
      else rep_movsb_down tr m (dest + of_nat n - 1) (src + of_nat n - 1) n)"

section \<open>memset\<close>

fun memset_bottom :: "translation \<Rightarrow> memory \<Rightarrow> u32 \<Rightarrow> u32 \<Rightarrow> nat \<Rightarrow> memory" where
  "memset_bottom tr m edi eax 0 = m"
| "memset_bottom tr m edi eax (Suc edx) =
     memset_bottom tr (wr tr m edi (byte_of eax 0)) (edi + 1) eax edx"

fun rep_stosl :: "translation \<Rightarrow> memory \<Rightarrow> u32 \<Rightarrow> u32 \<Rightarrow> nat \<Rightarrow> memory" where
  "rep_stosl tr m edi eax 0 = m"
| "rep_stosl tr m edi eax (Suc ecx) = rep_stosl tr (stosl tr m edi eax) (edi + 4) eax ecx"

fun rep_stosw :: "translation \<Rightarrow> memory \<Rightarrow> u32 \<Rightarrow> u32 \<Rightarrow> nat \<Rightarrow> memory" where
  "rep_stosw tr m edi eax 0 = m"
| "rep_stosw tr m edi eax (Suc ecx) = rep_stosw tr (stosw tr m edi eax) (edi + 2) eax ecx"

definition memset_aligned :: "translation \<Rightarrow> memory \<Rightarrow> u32 \<Rightarrow> u32 \<Rightarrow> nat \<Rightarrow> memory" where
  "memset_aligned tr m edi eax ecx =
     (let q = ecx div 4
      in memset_bottom tr (rep_stosl tr m edi eax q) (edi + 4 * of_nat q) eax (ecx mod 4))"

fun memset_top :: "translation \<Rightarrow> memory \<Rightarrow> u32 \<Rightarrow> u32 \<Rightarrow> nat \<Rightarrow> memory" where
  "memset_top tr m edi eax 0 = m"
| "memset_top tr m edi eax (Suc ecx) =
     (if edi AND 3 = 0 then memset_aligned tr m edi eax (Suc ecx)
      else memset_top tr (wr tr m edi (byte_of eax 0)) (edi + 1) eax ecx)"

definition memset :: "translation \<Rightarrow> memory \<Rightarrow> u32 \<Rightarrow> u32 \<Rightarrow> nat \<Rightarrow> memory" where
  "memset tr m s c n =
     (let c' = c AND 0xFF;
          eax = push_bit 24 c' OR push_bit 16 c' OR push_bit 8 c' OR c'
      in memset_top tr m s eax n)"

definition memset_word :: "translation \<Rightarrow> memory \<Rightarrow> u32 \<Rightarrow> u32 \<Rightarrow> nat \<Rightarrow> memory" where
  "memset_word tr m s c n = rep_stosw tr m s c n"

definition memset_dword :: "translation \<Rightarrow> memory \<Rightarrow> u32 \<Rightarrow> u32 \<Rightarrow> nat \<Rightarrow> memory" where
  "memset_dword tr m s c n = rep_stosl tr m s c n"

section \<open>The contract of a copy\<close>

text \<open>
  \<open>apart\<close>: the destination bytes are distinct and none of them is a source byte.
  \<open>copied\<close>: every destination byte holds what the source byte held, and nothing else
  has changed.
\<close>

definition apart :: "translation \<Rightarrow> u32 \<Rightarrow> u32 \<Rightarrow> nat \<Rightarrow> bool" where
  "apart tr d s n \<longleftrightarrow>
     (\<forall>i < n. \<forall>j < n. tr (d + of_nat i) = tr (d + of_nat j) \<longrightarrow> i = j) \<and>
     (\<forall>i < n. \<forall>j < n. tr (d + of_nat i) \<noteq> tr (s + of_nat j))"

definition copied ::
  "translation \<Rightarrow> memory \<Rightarrow> memory \<Rightarrow> u32 \<Rightarrow> u32 \<Rightarrow> nat \<Rightarrow> bool" where
  "copied tr m m' d s n \<longleftrightarrow>
     (\<forall>i < n. m' (tr (d + of_nat i)) = m (tr (s + of_nat i))) \<and>
     (\<forall>p. (\<forall>i < n. p \<noteq> tr (d + of_nat i)) \<longrightarrow> m' p = m p)"

lemma copied_0 [simp]: "copied tr m m d s 0"
  by (simp add: copied_def)

lemma apart_inj: "apart tr d s n \<Longrightarrow> i < n \<Longrightarrow> j < n \<Longrightarrow>
    tr (d + of_nat i) = tr (d + of_nat j) \<Longrightarrow> i = j"
  by (simp add: apart_def)

lemma apart_src: "apart tr d s n \<Longrightarrow> i < n \<Longrightarrow> j < n \<Longrightarrow>
    tr (d + of_nat i) \<noteq> tr (s + of_nat j)"
  by (simp add: apart_def)

lemma apart_sub:
  assumes "apart tr d s n" and "k + j \<le> n"
  shows "apart tr (d + of_nat k) (s + of_nat k) j"
  unfolding apart_def
proof (intro conjI allI impI)
  fix i i' assume i: "i < j" "i' < j"
    and eq: "tr (d + of_nat k + of_nat i) = tr (d + of_nat k + of_nat i')"
  have "k + i = k + i'"
    by (rule apart_inj [OF assms(1)]) (use i assms(2) eq in \<open>simp_all add: add.assoc\<close>)
  then show "i = i'" by simp
next
  fix i i' assume i: "i < j" "i' < j"
  show "tr (d + of_nat k + of_nat i) \<noteq> tr (s + of_nat k + of_nat i')"
    using apart_src [OF assms(1), of "k + i" "k + i'"] i assms(2) by (simp add: add.assoc)
qed

lemma apart_take: "apart tr d s n \<Longrightarrow> k \<le> n \<Longrightarrow> apart tr d s k"
  using apart_sub [of tr d s n 0 k] by simp

lemma copied_trans:
  assumes ap: "apart tr d s (k + j)"
    and c1: "copied tr m m1 d s k"
    and c2: "copied tr m1 m2 (d + of_nat k) (s + of_nat k) j"
  shows "copied tr m m2 d s (k + j)"
  unfolding copied_def
proof (intro conjI allI impI)
  fix i assume i: "i < k + j"
  show "m2 (tr (d + of_nat i)) = m (tr (s + of_nat i))"
  proof (cases "i < k")
    case True
    have "tr (d + of_nat i) \<noteq> tr (d + of_nat k + of_nat i')" if "i' < j" for i'
      using apart_inj [OF ap, of i "k + i'"] True that by (auto simp: add.assoc)
    then show ?thesis using c1 c2 True by (simp add: copied_def)
  next
    case False
    then obtain i' where i': "i = k + i'" "i' < j"
      using i by (metis add_less_cancel_left le_iff_add not_less)
    have "tr (s + of_nat k + of_nat i') \<noteq> tr (d + of_nat l)" if "l < k" for l
      using apart_src [OF ap, of l "k + i'"] i' that by (auto simp: add.assoc)
    then show ?thesis using c1 c2 i' by (simp add: copied_def add.assoc)
  qed
next
  fix p assume p: "\<forall>i < k + j. p \<noteq> tr (d + of_nat i)"
  have "p \<noteq> tr (d + of_nat k + of_nat i)" if "i < j" for i
    using p that by (metis add.assoc nat_add_left_cancel_less of_nat_add)
  then have "m2 p = m1 p" using c2 by (simp add: copied_def)
  also have "\<dots> = m p" using c1 p by (simp add: copied_def)
  finally show "m2 p = m p" .
qed

lemma copied_byte: "copied tr m (wr tr m d (rd tr m s)) d s 1"
  by (simp add: copied_def wr_def rd_def)

lemma copied_step:
  assumes "apart tr d s (Suc n)" and "copied tr (wr tr m d (rd tr m s)) m' (d + 1) (s + 1) n"
  shows "copied tr m m' d s (Suc n)"
  using copied_trans [of tr d s 1 n, OF _ copied_byte [of tr m d s]] assms by simp

lemma apart_step: "apart tr d s (Suc n) \<Longrightarrow> apart tr (d + 1) (s + 1) n"
  using apart_sub [of tr d s "Suc n" 1 n] by simp

section \<open>memcpy copies\<close>

lemma memcpy_bottom_copied:
  "apart tr d s n \<Longrightarrow> copied tr m (memcpy_bottom tr m d s n) d s n"
proof (induction n arbitrary: m d s)
  case 0
  then show ?case by simp
next
  case (Suc n)
  then show ?case by (simp add: copied_step apart_step)
qed

lemma movsl_copied:
  assumes "apart tr d s 4"
  shows "copied tr m (movsl tr m d s) d s 4"
proof -
  have ne: "tr (d + of_nat i) \<noteq> tr (d + of_nat j)" if "i < 4" "j < 4" "i \<noteq> j" for i j
    using apart_inj [OF assms] that by blast
  have d: "tr d \<noteq> tr (d + 1)" "tr d \<noteq> tr (d + 2)" "tr d \<noteq> tr (d + 3)"
    "tr (d + 1) \<noteq> tr (d + 2)" "tr (d + 1) \<noteq> tr (d + 3)" "tr (d + 2) \<noteq> tr (d + 3)"
    using ne [of 0 1] ne [of 0 2] ne [of 0 3] ne [of 1 2] ne [of 1 3] ne [of 2 3] by simp_all
  have all4: "(\<forall>i < 4. P i) \<longleftrightarrow> P 0 \<and> P 1 \<and> P 2 \<and> P 3" for P :: "nat \<Rightarrow> bool"
    by (auto simp: numeral_eq_Suc less_Suc_eq)
  show ?thesis
    unfolding copied_def all4 using d by (simp add: movsl_def wr_def rd_def Let_def)
qed

lemma rep_movsl_copied:
  "apart tr d s (4 * q) \<Longrightarrow> copied tr m (rep_movsl tr m d s q) d s (4 * q)"
proof (induction q arbitrary: m d s)
  case 0
  then show ?case by simp
next
  case (Suc q)
  from Suc.prems have ap: "apart tr d s (4 + 4 * q)" by simp
  have first: "copied tr m (movsl tr m d s) d s 4"
    by (rule movsl_copied) (rule apart_take [OF ap], simp)
  have "apart tr (d + of_nat 4) (s + of_nat 4) (4 * q)"
    using apart_sub [OF ap, of 4 "4 * q"] by simp
  then have rest: "copied tr (movsl tr m d s) (rep_movsl tr m d s (Suc q))
      (d + of_nat 4) (s + of_nat 4) (4 * q)"
    using Suc.IH [of "d + 4" "s + 4" "movsl tr m d s"] by simp
  show ?case
    using copied_trans [OF ap first rest] by simp
qed

lemma memcpy_aligned_copied:
  assumes "apart tr d s n"
  shows "copied tr m (memcpy_aligned tr m d s n) d s n"
proof -
  let ?q = "n div 4" and ?r = "n mod 4"
  have n: "4 * ?q + ?r = n" by simp
  have ap: "apart tr d s (4 * ?q + ?r)" using assms n by simp
  have c1: "copied tr m (rep_movsl tr m d s ?q) d s (4 * ?q)"
    by (rule rep_movsl_copied) (rule apart_take [OF ap], simp)
  have c2: "copied tr (rep_movsl tr m d s ?q) (memcpy_aligned tr m d s n)
      (d + of_nat (4 * ?q)) (s + of_nat (4 * ?q)) ?r"
    unfolding memcpy_aligned_def Let_def
    using memcpy_bottom_copied [OF apart_sub [OF ap order_refl]] by simp
  show ?thesis using copied_trans [OF ap c1 c2] n by simp
qed

lemma memcpy_top_copied:
  "apart tr d s n \<Longrightarrow> copied tr m (memcpy_top tr m d s n) d s n"
proof (induction n arbitrary: m d s)
  case 0
  then show ?case by simp
next
  case (Suc n)
  show ?case
  proof (cases "d AND 3 = 0")
    case True
    then show ?thesis using memcpy_aligned_copied [OF Suc.prems] by simp
  next
    case False
    with Suc.IH [OF apart_step [OF Suc.prems]] show ?thesis
      by (simp add: copied_step [OF Suc.prems])
  qed
qed

lemma memcpy_copied: "apart tr d s n \<Longrightarrow> copied tr m (memcpy tr m d s n) d s n"
  by (simp add: memcpy_def memcpy_top_copied)

section \<open>memmove copies, overlapping or not\<close>

text \<open>
  \<open>linear\<close>: the two ranges may overlap, but a destination byte that is also a source
  byte is the same address reached without wrapping around.
\<close>

definition linear :: "translation \<Rightarrow> u32 \<Rightarrow> u32 \<Rightarrow> nat \<Rightarrow> bool" where
  "linear tr d s n \<longleftrightarrow>
     (\<forall>i < n. \<forall>j < n. tr (d + of_nat i) = tr (d + of_nat j) \<longrightarrow> i = j) \<and>
     (\<forall>i < n. \<forall>j < n. tr (d + of_nat i) = tr (s + of_nat j) \<longrightarrow> unat d + i = unat s + j)"

lemma apart_linear: "apart tr d s n \<Longrightarrow> linear tr d s n"
  by (simp add: apart_def linear_def)

lemma unat_add_of_nat:
  fixes a :: u32
  assumes "unat a + n < 2 ^ 32"
  shows "unat (a + of_nat n) = unat a + n"
proof -
  have "unat (of_nat n :: u32) = n"
    using assms by (simp add: unat_of_nat_u32)
  with assms show ?thesis by (simp add: unat_plus_if_size word_size)
qed

lemma linear_id:
  assumes "unat d + n \<le> 2 ^ 32" and "unat s + n \<le> 2 ^ 32"
    and inj: "inj_on tr {a. (unat d \<le> unat a \<and> unat a < unat d + n) \<or>
                            (unat s \<le> unat a \<and> unat a < unat s + n)}"
  shows "linear tr d s n"
proof -
  have d: "unat (d + of_nat i) = unat d + i" if "i < n" for i
    by (rule unat_add_of_nat) (use assms(1) that in simp)
  have s: "unat (s + of_nat i) = unat s + i" if "i < n" for i
    by (rule unat_add_of_nat) (use assms(2) that in simp)
  show ?thesis
    unfolding linear_def
  proof (intro conjI allI impI)
    fix i j assume ij: "i < n" "j < n" and eq: "tr (d + of_nat i) = tr (d + of_nat j)"
    have "d + of_nat i = d + of_nat j"
      by (rule inj_onD [OF inj eq]) (use ij d in auto)
    then have "unat d + i = unat d + j" using d [OF ij(1)] d [OF ij(2)] by metis
    then show "i = j" by simp
  next
    fix i j assume ij: "i < n" "j < n" and eq: "tr (d + of_nat i) = tr (s + of_nat j)"
    have "d + of_nat i = s + of_nat j"
      by (rule inj_onD [OF inj eq]) (use ij d s in auto)
    then show "unat d + i = unat s + j" using d [OF ij(1)] s [OF ij(2)] by metis
  qed
qed

lemma rep_movsb_up_copied:
  assumes "\<forall>i < n. \<forall>j < n. tr (d + of_nat i) = tr (d + of_nat j) \<longrightarrow> i = j"
    and "\<forall>j < n. \<forall>i < j. tr (d + of_nat i) \<noteq> tr (s + of_nat j)"
  shows "copied tr m (rep_movsb_up tr m d s n) d s n"
  using assms
proof (induction n arbitrary: m d s)
  case 0
  then show ?case by simp
next
  case (Suc n)
  let ?m1 = "wr tr m d (rd tr m s)"
  let ?m2 = "rep_movsb_up tr ?m1 (d + 1) (s + 1) n"
  have inj: "tr (d + of_nat i) = tr (d + of_nat j) \<Longrightarrow> i = j" if "i < Suc n" "j < Suc n" for i j
    using Suc.prems(1) that by blast
  have src: "tr (d + of_nat i) \<noteq> tr (s + of_nat j)" if "i < j" "j < Suc n" for i j
    using Suc.prems(2) that by blast
  have "copied tr ?m1 ?m2 (d + 1) (s + 1) n"
  proof (rule Suc.IH; intro allI impI)
    fix i j assume ij: "i < n" "j < n" and "tr (d + 1 + of_nat i) = tr (d + 1 + of_nat j)"
    then show "i = j" using inj [of "Suc i" "Suc j"] by (simp add: add.assoc)
  next
    fix j i assume "j < n" "i < j"
    then show "tr (d + 1 + of_nat i) \<noteq> tr (s + 1 + of_nat j)"
      using src [of "Suc i" "Suc j"] by (simp add: add.assoc)
  qed
  then have c: "\<And>i. i < n \<Longrightarrow> ?m2 (tr (d + of_nat (Suc i))) = ?m1 (tr (s + of_nat (Suc i)))"
    and fr: "\<And>p. (\<forall>i < n. p \<noteq> tr (d + of_nat (Suc i))) \<Longrightarrow> ?m2 p = ?m1 p"
    by (simp_all add: copied_def add.assoc)
  have "copied tr m ?m2 d s (Suc n)"
    unfolding copied_def
  proof (intro conjI allI impI)
    fix i assume i: "i < Suc n"
    show "?m2 (tr (d + of_nat i)) = m (tr (s + of_nat i))"
    proof (cases i)
      case 0
      have "\<forall>k < n. tr d \<noteq> tr (d + of_nat (Suc k))"
        using inj [of 0 "Suc k" for k] by auto
      with fr have "?m2 (tr d) = ?m1 (tr d)" by blast
      with 0 show ?thesis by (simp add: wr_def rd_def)
    next
      case (Suc k)
      with i src [of 0 i] c [of k] show ?thesis by (simp add: wr_def)
    qed
  next
    fix p assume p: "\<forall>i < Suc n. p \<noteq> tr (d + of_nat i)"
    then have "\<forall>i < n. p \<noteq> tr (d + of_nat (Suc i))" by blast
    then have "?m2 p = ?m1 p" by (rule fr)
    also have "\<dots> = m p" using p [rule_format, of 0] by (simp add: wr_def)
    finally show "?m2 p = m p" .
  qed
  then show ?case by simp
qed

text \<open>Downwards, the last byte goes first; the rest is a copy one byte shorter.\<close>

lemma rep_movsb_down_copied:
  assumes "\<forall>i < n. \<forall>j < n. tr (d + of_nat i) = tr (d + of_nat j) \<longrightarrow> i = j"
    and "\<forall>i < n. \<forall>j < i. tr (d + of_nat i) \<noteq> tr (s + of_nat j)"
  shows "copied tr m (rep_movsb_down tr m (d + of_nat n - 1) (s + of_nat n - 1) n) d s n"
  using assms
proof (induction n arbitrary: m)
  case 0
  then show ?case by simp
next
  case (Suc n)
  let ?m1 = "wr tr m (d + of_nat n) (rd tr m (s + of_nat n))"
  let ?m2 = "rep_movsb_down tr ?m1 (d + of_nat n - 1) (s + of_nat n - 1) n"
  have c: "copied tr ?m1 ?m2 d s n"
    by (rule Suc.IH) (use Suc.prems in auto)
  have ne: "tr (d + of_nat n) \<noteq> tr (d + of_nat i)" if "i < n" for i
    using Suc.prems(1) [rule_format, of n i] that by auto
  have src: "tr (d + of_nat n) \<noteq> tr (s + of_nat i)" if "i < n" for i
    using Suc.prems(2) that by blast
  have "copied tr m ?m2 d s (Suc n)"
    unfolding copied_def
  proof (intro conjI allI impI)
    fix i assume "i < Suc n"
    then consider "i < n" | "i = n" by linarith
    then show "?m2 (tr (d + of_nat i)) = m (tr (s + of_nat i))"
    proof cases
      case 1
      with c src [of i] show ?thesis by (simp add: copied_def wr_def)
    next
      case 2
      have "?m2 (tr (d + of_nat n)) = ?m1 (tr (d + of_nat n))"
        using c ne unfolding copied_def by blast
      with 2 show ?thesis by (simp add: wr_def rd_def)
    qed
  next
    fix p assume p: "\<forall>i < Suc n. p \<noteq> tr (d + of_nat i)"
    then have "?m2 p = ?m1 p" using c by (simp add: copied_def)
    also have "\<dots> = m p" using p by (simp add: wr_def)
    finally show "?m2 p = m p" .
  qed
  then show ?case by simp
qed

lemma memmove_linear:
  assumes "linear tr d s n"
  shows "copied tr m (memmove tr m d s n) d s n"
proof -
  have inj: "\<forall>i < n. \<forall>j < n. tr (d + of_nat i) = tr (d + of_nat j) \<longrightarrow> i = j"
    and eq: "\<And>i j. i < n \<Longrightarrow> j < n \<Longrightarrow> tr (d + of_nat i) = tr (s + of_nat j) \<Longrightarrow>
               unat d + i = unat s + j"
    using assms by (auto simp: linear_def)
  show ?thesis
  proof (cases "d \<le> s")
    case True
    then have le: "unat d \<le> unat s" by (simp add: word_le_nat_alt)
    have "\<forall>j < n. \<forall>i < j. tr (d + of_nat i) \<noteq> tr (s + of_nat j)"
    proof (intro allI impI notI)
      fix i j assume "j < n" "i < j" "tr (d + of_nat i) = tr (s + of_nat j)"
      with eq [of i j] le show False by linarith
    qed
    with True inj show ?thesis by (simp add: memmove_def rep_movsb_up_copied)
  next
    case False
    then have lt: "unat s < unat d" by (simp add: word_le_nat_alt)
    have "\<forall>i < n. \<forall>j < i. tr (d + of_nat i) \<noteq> tr (s + of_nat j)"
    proof (intro allI impI notI)
      fix i j assume "i < n" "j < i" "tr (d + of_nat i) = tr (s + of_nat j)"
      with eq [of i j] lt show False by linarith
    qed
    with False inj show ?thesis by (simp add: memmove_def rep_movsb_down_copied)
  qed
qed

section \<open>The interface that clients use\<close>

definition load_bytes :: "translation \<Rightarrow> memory \<Rightarrow> u32 \<Rightarrow> nat \<Rightarrow> u8 list" where
  "load_bytes tr m a n = map (\<lambda>i. rd tr m (a + of_nat i)) [0..<n]"

lemma load_bytes_length [simp]: "length (load_bytes tr m a n) = n"
  by (simp add: load_bytes_def)

lemma load_bytes_nth [simp]: "i < n \<Longrightarrow> load_bytes tr m a n ! i = m (tr (a + of_nat i))"
  by (simp add: load_bytes_def rd_def)

lemma load_bytes_0 [simp]: "load_bytes tr m a 0 = []"
  by (simp add: load_bytes_def)

lemma load_bytes_append:
  "load_bytes tr m a n @ load_bytes tr m (a + of_nat n) k = load_bytes tr m a (n + k)"
proof (rule nth_equalityI)
  fix i assume i: "i < length (load_bytes tr m a n @ load_bytes tr m (a + of_nat n) k)"
  show "(load_bytes tr m a n @ load_bytes tr m (a + of_nat n) k) ! i
      = load_bytes tr m a (n + k) ! i"
  proof (cases "i < n")
    case True
    then show ?thesis by (simp add: nth_append)
  next
    case False
    then obtain j where "i = n + j" by (metis le_iff_add not_less)
    with i show ?thesis by (simp add: nth_append add.assoc)
  qed
qed simp

lemma load_bytes_cong:
  assumes "\<And>i. i < n \<Longrightarrow> m (tr (a + of_nat i)) = m' (tr' (a' + of_nat i))"
  shows "load_bytes tr m a n = load_bytes tr' m' a' n"
  by (rule nth_equalityI) (use assms in simp_all)

text \<open>No byte of one range is a byte of the other.\<close>

definition disjoint_ranges :: "translation \<Rightarrow> u32 \<Rightarrow> nat \<Rightarrow> u32 \<Rightarrow> nat \<Rightarrow> bool" where
  "disjoint_ranges tr a n b k \<longleftrightarrow>
     (\<forall>i < n. \<forall>j < k. tr (a + of_nat i) \<noteq> tr (b + of_nat j))"

lemma apart_disjoint: "apart tr d s n \<Longrightarrow> disjoint_ranges tr d n s n"
  by (simp add: apart_def disjoint_ranges_def)

locale copier =
  fixes cp :: "translation \<Rightarrow> memory \<Rightarrow> u32 \<Rightarrow> u32 \<Rightarrow> nat \<Rightarrow> memory"
  assumes copies: "apart tr d s n \<Longrightarrow> copied tr m (cp tr m d s n) d s n"
begin

lemma cp_load: "apart tr d s n \<Longrightarrow> load_bytes tr (cp tr m d s n) d n = load_bytes tr m s n"
  using copies [of tr d s n m] by (intro load_bytes_cong) (simp add: copied_def)

lemma cp_other:
  "apart tr d s n \<Longrightarrow> (\<And>i. i < n \<Longrightarrow> p \<noteq> tr (d + of_nat i)) \<Longrightarrow> cp tr m d s n p = m p"
  using copies [of tr d s n m] by (simp add: copied_def)

lemma cp_load_other:
  assumes "apart tr d s n" and "disjoint_ranges tr a k d n"
  shows "load_bytes tr (cp tr m d s n) a k = load_bytes tr m a k"
proof (rule load_bytes_cong)
  fix i assume "i < k"
  then show "cp tr m d s n (tr (a + of_nat i)) = m (tr (a + of_nat i))"
    by (intro cp_other [OF assms(1)]) (use assms(2) in \<open>simp add: disjoint_ranges_def\<close>)
qed

text \<open>
  Saving a window into one page and then filling it from another: what a terminal switch
  does with the video memory.
\<close>

lemma cp_swap_in:
  assumes save: "apart tr page win n" and fill: "apart tr win next n"
    and pn: "disjoint_ranges tr next n page n" "disjoint_ranges tr page n win n"
  shows "load_bytes tr (cp tr (cp tr m page win n) win next n) page n = load_bytes tr m win n"
    and "load_bytes tr (cp tr (cp tr m page win n) win next n) win n = load_bytes tr m next n"
  using cp_load [OF save, of m] cp_load [OF fill, of "cp tr m page win n"]
    cp_load_other [OF fill pn(2), of "cp tr m page win n"] cp_load_other [OF save pn(1), of m]
  by simp_all

end

interpretation mc: copier memcpy
  by unfold_locales (rule memcpy_copied)

interpretation mm: copier memmove
  by unfold_locales (rule memmove_linear, rule apart_linear)

section \<open>memset fills\<close>

definition filled :: "translation \<Rightarrow> memory \<Rightarrow> memory \<Rightarrow> u32 \<Rightarrow> u8 \<Rightarrow> nat \<Rightarrow> bool" where
  "filled tr m m' d v n \<longleftrightarrow>
     (\<forall>i < n. m' (tr (d + of_nat i)) = v) \<and>
     (\<forall>p. (\<forall>i < n. p \<noteq> tr (d + of_nat i)) \<longrightarrow> m' p = m p)"

lemma filled_0 [simp]: "filled tr m m d v 0"
  by (simp add: filled_def)

lemma filled_trans:
  assumes c1: "filled tr m m1 d v k" and c2: "filled tr m1 m2 (d + of_nat k) v j"
  shows "filled tr m m2 d v (k + j)"
  unfolding filled_def
proof (intro conjI allI impI)
  fix i assume i: "i < k + j"
  show "m2 (tr (d + of_nat i)) = v"
  proof (cases "\<exists>i' < j. tr (d + of_nat i) = tr (d + of_nat k + of_nat i')")
    case True
    then show ?thesis using c2 by (auto simp: filled_def)
  next
    case False
    moreover have "i < k"
    proof (rule ccontr)
      assume "\<not> i < k"
      then obtain i' where "i = k + i'" by (metis le_iff_add not_less)
      with i False show False by (auto simp: add.assoc)
    qed
    ultimately show ?thesis using c1 c2 by (auto simp: filled_def)
  qed
next
  fix p assume p: "\<forall>i < k + j. p \<noteq> tr (d + of_nat i)"
  have "p \<noteq> tr (d + of_nat k + of_nat i)" if "i < j" for i
    using p [rule_format, of "k + i"] that by (simp add: add.assoc)
  then have "m2 p = m1 p" using c2 by (simp add: filled_def)
  also have "\<dots> = m p" using c1 p by (simp add: filled_def)
  finally show "m2 p = m p" .
qed

lemma filled_byte: "filled tr m (wr tr m d v) d v 1"
  by (simp add: filled_def wr_def)

lemma filled_step:
  "filled tr (wr tr m d v) m' (d + 1) v n \<Longrightarrow> filled tr m m' d v (Suc n)"
  using filled_trans [OF filled_byte [of tr m d v], of m' n] by simp

lemma filled_stosl:
  assumes "\<And>k. k < 4 \<Longrightarrow> byte_of eax k = v"
  shows "filled tr m (stosl tr m d eax) d v 4"
proof -
  have b: "byte_of eax 0 = v" "byte_of eax 1 = v" "byte_of eax 2 = v" "byte_of eax 3 = v"
    by (auto intro: assms)
  have "filled tr m (stosl tr m d eax) d v (Suc (Suc (Suc (Suc 0))))"
    unfolding stosl_def b by (intro filled_step) (simp add: add.assoc)
  then show ?thesis by (simp add: numeral_eq_Suc)
qed

lemma filled_memset_bottom:
  "byte_of eax 0 = v \<Longrightarrow> filled tr m (memset_bottom tr m d eax n) d v n"
  by (induction n arbitrary: m d) (auto intro: filled_step)

lemma filled_rep_stosl:
  assumes "\<And>k. k < 4 \<Longrightarrow> byte_of eax k = v"
  shows "filled tr m (rep_stosl tr m d eax q) d v (4 * q)"
proof (induction q arbitrary: m d)
  case 0
  then show ?case by simp
next
  case (Suc q)
  have "filled tr m (rep_stosl tr (stosl tr m d eax) (d + 4) eax q) d v (4 + 4 * q)"
    by (rule filled_trans [OF filled_stosl [OF assms]]) (use Suc.IH in simp_all)
  then show ?case by simp
qed

lemma filled_memset_aligned:
  assumes "\<And>k. k < 4 \<Longrightarrow> byte_of eax k = v"
  shows "filled tr m (memset_aligned tr m d eax n) d v n"
proof -
  have "filled tr m (memset_aligned tr m d eax n) d v (4 * (n div 4) + n mod 4)"
    unfolding memset_aligned_def Let_def
    by (rule filled_trans [OF filled_rep_stosl [OF assms]])
      (use filled_memset_bottom assms in simp_all)
  then show ?thesis by simp
qed

lemma filled_memset_top:
  assumes "\<And>k. k < 4 \<Longrightarrow> byte_of eax k = v"
  shows "filled tr m (memset_top tr m d eax n) d v n"
proof (induction n arbitrary: m d)
  case 0
  then show ?case by simp
next
  case (Suc n)
  have b: "byte_of eax 0 = v" by (rule assms) simp
  show ?case
  proof (cases "d AND 3 = 0")
    case True
    then show ?thesis using filled_memset_aligned [OF assms] by simp
  next
    case False
    with Suc.IH b show ?thesis by (simp add: filled_step)
  qed
qed

lemma memset_pattern:
  fixes c :: u32
  assumes "k < 4"
  shows "byte_of (push_bit 24 (c AND 0xFF) OR push_bit 16 (c AND 0xFF) OR push_bit 8 (c AND 0xFF)
    OR (c AND 0xFF)) k = ucast c"
proof -
  have ff: "(0xFF :: u32) = mask 8" by (simp add: mask_eq_exp_minus_1)
  consider "k = 0" | "k = 1" | "k = 2" | "k = 3" using assms by linarith
  then show ?thesis
    unfolding ff by cases (rule bit_word_eqI, auto simp: byte_of_def bit_simps)+
qed

text \<open>
  C36: \<open>memset\<close> (byte loop to an aligned address, then dwords, then the tail) writes the
  low byte of its argument to each of the \<open>n\<close> bytes at \<open>s\<close> and to nothing else, for every
  alignment, length and address translation.
\<close>

theorem memset_fills: "filled tr m (memset tr m s c n) s (ucast c) n"
  unfolding memset_def Let_def by (rule filled_memset_top) (rule memset_pattern)

text \<open>
  \<open>memcpy\<close> (byte loop to an aligned address, then dwords, then the tail) copies the
  \<open>n\<close> source bytes to the destination and leaves every other byte alone, whenever the
  destination does not alias itself or the source.
\<close>

lemma memcpy_correct:
  assumes "apart tr d s n"
  shows "copied tr m (memcpy tr m d s n) d s n"
  by (rule memcpy_copied [OF assms])

lemma below6: "(\<forall>i < (6::nat). P i) \<longleftrightarrow> P 0 \<and> P 1 \<and> P 2 \<and> P 3 \<and> P 4 \<and> P 5"
  by (simp add: numeral_eq_Suc All_less_Suc2)

lemma apart_example: "apart (\<lambda>a. a) 0x1001 0x2000 6"
  unfolding apart_def below6 by simp

lemma memcpy_correct_example:
  "copied (\<lambda>a. a) (\<lambda>a. ucast a) (memcpy (\<lambda>a. a) (\<lambda>a. ucast a) 0x1001 0x2000 6) 0x1001 0x2000 6"
  by (rule memcpy_correct [OF apart_example])

text \<open>
  \<open>memmove\<close> copies correctly although the ranges overlap: each destination byte ends
  up with what the corresponding source byte held before the call, and no other byte moves.
  It suffices that neither range wraps around the address space and that the translation is
  injective on the two ranges.
\<close>

lemma memmove_correct:
  assumes "unat d + n \<le> 2 ^ 32" and "unat s + n \<le> 2 ^ 32"
    and "inj_on tr {a. (unat d \<le> unat a \<and> unat a < unat d + n) \<or>
                       (unat s \<le> unat a \<and> unat a < unat s + n)}"
  shows "copied tr m (memmove tr m d s n) d s n"
  by (rule memmove_linear) (rule linear_id [OF assms])

lemma memmove_correct_example:
  "copied (\<lambda>a. a) (\<lambda>a. ucast a) (memmove (\<lambda>a. a) (\<lambda>a. ucast a) 0xB8000 0xB80A0 3840) 0xB8000 0xB80A0 3840"
  by (rule memmove_correct) (simp_all add: inj_on_def)

end
