(* ===== verification/Lib_String.thy ===== *)
theory Lib_String
  imports Prelude
begin

text \<open>
  The string routines of \<open>student-distrib/lib.c\<close>: \<open>strlen\<close>, \<open>strrev\<close>,
  \<open>itoa\<close>, \<open>strncmp\<close>, \<open>strcpy\<close> and \<open>strncpy\<close>.  A \<open>char*\<close> is a
  \<open>bytes\<close> view; a routine that writes through a pointer returns the new view.  The
  loops that stop only at a NUL are partial functions into \<open>option\<close>: \<open>None\<close> is a loop
  that never ends.
\<close>

section \<open>The routines\<close>

partial_function (option) strlen_loop :: "bytes \<Rightarrow> nat \<Rightarrow> nat option" where
  "strlen_loop s len = (if s len \<noteq> 0 then strlen_loop s (len + 1) else Some len)"

definition strlen :: "bytes \<Rightarrow> nat option" where
  "strlen s = strlen_loop s 0"

text \<open>The swap loop of \<open>strrev\<close>; \<open>end\<close> starts at \<open>-1\<close> for the empty string.\<close>

function strrev_loop :: "bytes \<Rightarrow> int \<Rightarrow> int \<Rightarrow> bytes" where
  "strrev_loop s b e =
     (if b < e
      then let tmp = s (nat e); s1 = s(nat e := s (nat b)); s2 = s1(nat b := tmp)
           in strrev_loop s2 (b + 1) (e - 1)
      else s)"
  by pat_completeness auto
termination
  by (relation "measure (\<lambda>(s, b, e). nat (e - b))") auto

declare strrev_loop.simps [simp del]

definition strrev :: "bytes \<Rightarrow> bytes option" where
  "strrev s = (case strlen s of None \<Rightarrow> None | Some n \<Rightarrow> Some (strrev_loop s 0 (int n - 1)))"

definition lookup :: bytes where
  "lookup = array_of (lit ''0123456789ABCDEFGHIJKLMNOPQRSTUVWXYZ'')"

text \<open>The digit loop of \<open>itoa\<close>; a zero radix is a division trap.\<close>

partial_function (option) itoa_loop :: "u32 \<Rightarrow> bytes \<Rightarrow> nat \<Rightarrow> u32 \<Rightarrow> (bytes \<times> nat) option" where
  "itoa_loop newval buf pos radix =
     (if newval > 0
      then (if radix = 0 then None
            else itoa_loop (newval div radix) (buf(pos := lookup (unat (newval mod radix))))
                   (pos + 1) radix)
      else Some (buf, pos))"

definition itoa :: "u32 \<Rightarrow> bytes \<Rightarrow> u32 \<Rightarrow> bytes option" where
  "itoa value buf radix =
     (if value = 0 then Some (buf(0 := of_char CHR ''0'', 1 := 0))
      else case itoa_loop value buf 0 radix of
             None \<Rightarrow> None
           | Some (b, pos) \<Rightarrow> strrev (b(pos := 0)))"

fun strncmp_from :: "bytes \<Rightarrow> bytes \<Rightarrow> nat \<Rightarrow> nat \<Rightarrow> int" where
  "strncmp_from s1 s2 i 0 = 0"
| "strncmp_from s1 s2 i (Suc k) =
     (if s1 i \<noteq> s2 i \<or> s1 i = 0 then sint (s1 i) - sint (s2 i)
      else strncmp_from s1 s2 (i + 1) k)"

definition strncmp :: "bytes \<Rightarrow> bytes \<Rightarrow> nat \<Rightarrow> int" where
  "strncmp s1 s2 n = strncmp_from s1 s2 0 n"

partial_function (option) strcpy_loop :: "bytes \<Rightarrow> bytes \<Rightarrow> nat \<Rightarrow> bytes option" where
  "strcpy_loop dest src i =
     (if src i \<noteq> 0 then strcpy_loop (dest(i := src i)) src (i + 1) else Some (dest(i := 0)))"

definition strcpy :: "bytes \<Rightarrow> bytes \<Rightarrow> bytes option" where
  "strcpy dest src = strcpy_loop dest src 0"

text \<open>The two loops of \<open>strncpy\<close>; the last argument is \<open>n - i\<close>.\<close>

fun strncpy_copy :: "bytes \<Rightarrow> bytes \<Rightarrow> nat \<Rightarrow> nat \<Rightarrow> bytes \<times> nat" where
  "strncpy_copy dest src i 0 = (dest, i)"
| "strncpy_copy dest src i (Suc k) =
     (if src i \<noteq> 0 then strncpy_copy (dest(i := src i)) src (i + 1) k else (dest, i))"

fun strncpy_pad :: "bytes \<Rightarrow> nat \<Rightarrow> nat \<Rightarrow> bytes" where
  "strncpy_pad dest i 0 = dest"
| "strncpy_pad dest i (Suc k) = strncpy_pad (dest(i := 0)) (i + 1) k"

definition strncpy :: "bytes \<Rightarrow> bytes \<Rightarrow> nat \<Rightarrow> bytes" where
  "strncpy dest src n =
     (let (d, i) = strncpy_copy dest src 0 n in strncpy_pad d i (n - i))"

section \<open>strlen and strrev\<close>

lemma strlen_loop_cstr:
  assumes "cstr s xs"
  shows "i \<le> length xs \<Longrightarrow> strlen_loop s i = Some (length xs)"
proof (induction "length xs - i" arbitrary: i)
  case 0
  then have "i = length xs" by simp
  then show ?case by (simp add: strlen_loop.simps [of s "length xs"] cstr_end [OF assms])
next
  case (Suc k)
  then have "i < length xs" and "strlen_loop s (i + 1) = Some (length xs)" by simp_all
  then show ?case
    using cstr_nonzero [OF assms] by (simp add: strlen_loop.simps [of s i])
qed

lemma strlen_cstr: "cstr s xs \<Longrightarrow> strlen s = Some (length xs)"
  by (simp add: strlen_def strlen_loop_cstr)

lemma strrev_loop_apply:
  "0 \<le> b \<Longrightarrow> strrev_loop s b e k
    = (if b \<le> int k \<and> int k \<le> e then s (nat (b + e - int k)) else s k)"
proof (induction s b e rule: strrev_loop.induct)
  case (1 s b e)
  show ?case
  proof (cases "b < e")
    case False
    then show ?thesis
      by (cases "int k = b") (auto simp: strrev_loop.simps)
  next
    case True
    let ?s2 = "(s(nat e := s (nat b)))(nat b := s (nat e))"
    have IH: "strrev_loop ?s2 (b + 1) (e - 1) k
        = (if b + 1 \<le> int k \<and> int k \<le> e - 1 then ?s2 (nat (b + 1 + (e - 1) - int k)) else ?s2 k)"
      by (rule "1.IH" [OF True refl refl refl]) (use "1.prems" in simp)
    have step: "strrev_loop s b e k = strrev_loop ?s2 (b + 1) (e - 1) k"
      using True by (simp add: strrev_loop.simps [of s b e])
    have at: "?s2 (nat i) = (if i = b then s (nat e) else if i = e then s (nat b) else s (nat i))"
      if "0 \<le> i" for i
      using that "1.prems" True by (auto simp: nat_eq_iff)
    have k: "?s2 k = (if int k = b then s (nat e) else if int k = e then s (nat b) else s k)"
      using at [of "int k"] by simp
    consider "int k = b" | "int k = e" | "b < int k" "int k < e" | "int k < b \<or> e < int k"
      by linarith
    then show ?thesis
    proof cases
      case 1
      then show ?thesis unfolding step IH k using True by simp
    next
      case 2
      then show ?thesis unfolding step IH k using True by simp
    next
      case 3
      then show ?thesis
        unfolding step IH using at [of "b + e - int k"] "1.prems" by simp
    next
      case 4
      then show ?thesis unfolding step IH k using True by auto
    qed
  qed
qed

lemma strrev_apply:
  assumes "cstr s xs"
  shows "strrev s = Some (\<lambda>k. if k < length xs then rev xs ! k else s k)"
proof -
  have "strrev_loop s 0 (int (length xs) - 1) k = (if k < length xs then rev xs ! k else s k)" for k
  proof (cases "k < length xs")
    case True
    then have "nat (int (length xs) - 1 - int k) = length xs - Suc k" by simp
    with True show ?thesis
      using cstr_nth [OF assms, of "length xs - Suc k"]
      by (simp add: strrev_loop_apply rev_nth)
  next
    case False
    then show ?thesis by (simp add: strrev_loop_apply)
  qed
  then show ?thesis
    by (simp add: strrev_def strlen_cstr [OF assms] fun_eq_iff)
qed

lemma cstr_prefix:
  assumes "0 \<notin> set xs" and "\<And>i. i < length xs \<Longrightarrow> s i = xs ! i" and "s (length xs) = 0"
  shows "cstr s xs"
  using assms by (simp add: cstr_def)

section \<open>itoa\<close>

text \<open>
  The digits of a number, least significant first, and the value a digit string denotes:
  the reference against which \<open>itoa\<close> is checked.
\<close>

fun lsd_digits :: "nat \<Rightarrow> nat \<Rightarrow> nat list" where
  "lsd_digits r n = (if n = 0 \<or> r < 2 then [] else n mod r # lsd_digits r (n div r))"

declare lsd_digits.simps [simp del]

definition digit_string :: "nat \<Rightarrow> nat \<Rightarrow> u8 list" where
  "digit_string r n = (if n = 0 then [lookup 0] else rev (map lookup (lsd_digits r n)))"

definition digit_value :: "u8 \<Rightarrow> nat" where
  "digit_value c = (if unat c < 58 then unat c - 48 else unat c - 55)"

definition string_value :: "nat \<Rightarrow> u8 list \<Rightarrow> nat" where
  "string_value r xs = foldl (\<lambda>v c. v * r + digit_value c) 0 xs"

lemma lookup_digits:
  "map lookup [0..<36] = lit ''0123456789ABCDEFGHIJKLMNOPQRSTUVWXYZ''"
  by (rule nth_equalityI) (simp_all add: lookup_def)

lemma digits36:
  "list_all (\<lambda>i. lookup i \<noteq> 0 \<and> digit_value (lookup i) = i) [0..<36]"
  by (simp add: upt_conv_Cons lookup_def array_of_def digit_value_def)

lemma lookup_nonzero: "i < 36 \<Longrightarrow> lookup i \<noteq> 0"
  and digit_value_lookup: "i < 36 \<Longrightarrow> digit_value (lookup i) = i"
  using digits36 by (simp_all add: list_all_iff)

lemma lsd_digits_less: "d \<in> set (lsd_digits r n) \<Longrightarrow> d < r"
proof (induction r n rule: lsd_digits.induct)
  case (1 r n)
  then show ?case by (subst (asm) (2) lsd_digits.simps) (auto split: if_splits)
qed

lemma lsd_digits_value:
  "2 \<le> r \<Longrightarrow> foldr (\<lambda>d v. d + r * v) (lsd_digits r n) 0 = n"
proof (induction r n rule: lsd_digits.induct)
  case (1 r n)
  then show ?case by (subst lsd_digits.simps) auto
qed

lemma digit_string_value:
  assumes "2 \<le> r" and "r \<le> 36"
  shows "string_value r (digit_string r n) = n"
proof (cases "n = 0")
  case True
  then show ?thesis by (simp add: digit_string_def string_value_def digit_value_lookup)
next
  case False
  have less: "\<forall>d \<in> set (lsd_digits r n). d < 36"
    using lsd_digits_less assms(2) by fastforce
  have "foldr (\<lambda>c v. v * r + digit_value c) (map lookup ds) 0 = foldr (\<lambda>d v. d + r * v) ds 0"
    if "\<forall>d \<in> set ds. d < 36" for ds
    using that by (induction ds) (simp_all add: digit_value_lookup)
  with False less lsd_digits_value [OF assms(1), of n] show ?thesis
    by (simp add: digit_string_def string_value_def foldl_conv_foldr)
qed

lemma itoa_loop_digits:
  assumes r: "2 \<le> unat radix"
  shows "itoa_loop v buf pos radix =
    Some (\<lambda>i. if pos \<le> i \<and> i < pos + length (lsd_digits (unat radix) (unat v))
              then lookup (lsd_digits (unat radix) (unat v) ! (i - pos)) else buf i,
          pos + length (lsd_digits (unat radix) (unat v)))"
proof (induction "unat v" arbitrary: v buf pos rule: less_induct)
  case less
  let ?r = "unat radix"
  have r0: "radix \<noteq> 0" using r by auto
  show ?case
  proof (cases "v = 0")
    case True
    then show ?thesis by (auto simp: itoa_loop.simps lsd_digits.simps fun_eq_iff)
  next
    case False
    then have v0: "unat v \<noteq> 0" by (simp add: unat_eq_0)
    have dv: "unat (v div radix) = unat v div ?r" and md: "unat (v mod radix) = unat v mod ?r"
      by (simp_all add: unat_div unat_mod)
    have "unat (v div radix) < unat v"
      unfolding dv using v0 r by simp
    note IH = less [OF this]
    have ds: "lsd_digits ?r (unat v) = unat v mod ?r # lsd_digits ?r (unat v div ?r)"
      using v0 r by (simp add: lsd_digits.simps [of ?r "unat v"])
    have "itoa_loop v buf pos radix =
        itoa_loop (v div radix) (buf(pos := lookup (unat (v mod radix)))) (pos + 1) radix"
      using False r0 by (simp add: itoa_loop.simps [of v] word_greater_zero_iff)
    then show ?thesis
      unfolding IH ds dv md by (auto simp: fun_eq_iff nth_Cons' not_less_eq_eq)
  qed
qed

text \<open>
  \<open>itoa\<close> writes the canonical digit string of its argument: it terminates for each radix
  from 2 to 36, and leaves a NUL-terminated string.
\<close>

lemma itoa_digit_string:
  assumes "2 \<le> unat radix" and "unat radix \<le> 36"
  shows "\<exists>b. itoa v buf radix = Some b \<and> cstr b (digit_string (unat radix) (unat v))"
proof (cases "v = 0")
  case True
  then show ?thesis
    by (auto simp: itoa_def digit_string_def cstr_def lookup_def array_of_def)
next
  case False
  let ?ds = "map lookup (lsd_digits (unat radix) (unat v))"
  let ?b = "\<lambda>i. if i = length ?ds then 0 else if i < length ?ds then ?ds ! i else buf i"
  have nz: "0 \<notin> set ?ds"
    by (auto dest!: lsd_digits_less) (use assms(2) lookup_nonzero in fastforce)
  have b: "cstr ?b ?ds" using nz by (simp add: cstr_def)
  have "itoa v buf radix = strrev ?b"
    using False assms(1)
    by (simp add: itoa_def itoa_loop_digits) (rule arg_cong [of _ _ strrev], auto simp: fun_eq_iff)
  also have "\<dots> = Some (\<lambda>k. if k < length ?ds then rev ?ds ! k else ?b k)"
    by (rule strrev_apply [OF b])
  finally show ?thesis
    using False nz by (auto simp: digit_string_def unat_eq_0 cstr_def)
qed

text \<open>
  C37: for each radix from 2 to 36 \<open>itoa\<close> terminates and leaves a NUL-terminated string
  of digits that, read back in that radix, is the number it was given.
\<close>

theorem itoa_roundtrip:
  assumes "2 \<le> unat radix" and "unat radix \<le> 36"
  shows "\<exists>b xs. itoa v buf radix = Some b \<and> cstr b xs \<and> xs \<noteq> []
    \<and> string_value (unat radix) xs = unat v"
proof -
  have "digit_string (unat radix) (unat v) \<noteq> []"
    using assms by (auto simp: digit_string_def lsd_digits.simps [of _ "unat v"])
  then show ?thesis
    using itoa_digit_string [OF assms, of v buf] digit_string_value [OF assms] by blast
qed

theorem itoa_roundtrip_witness:
  "\<exists>b xs. itoa 48879 (\<lambda>_. 7) 16 = Some b \<and> cstr b xs \<and> xs \<noteq> []
    \<and> string_value 16 xs = 48879"
  using itoa_roundtrip [of 16 48879 "\<lambda>_. 7"] by simp

section \<open>strncmp\<close>

lemma strncmp_from_zero:
  "strncmp_from s1 s2 i k = 0 \<longleftrightarrow>
   takeWhile (\<lambda>c. c \<noteq> 0) (map s1 [i..<i + k]) = takeWhile (\<lambda>c. c \<noteq> 0) (map s2 [i..<i + k])"
proof (induction k arbitrary: i)
  case 0
  then show ?case by simp
next
  case (Suc k)
  have upt: "[i..<i + Suc k] = i # [Suc i..<Suc i + k]" by (simp add: upt_conv_Cons)
  show ?case
    unfolding upt using Suc.IH [of "Suc i"]
    by (auto simp: sint_eq_iff sint_eq_0 simp del: upt_Suc)
qed

text \<open>
  \<open>strncmp\<close> returns 0 exactly when the two arrays hold the same string within their
  first \<open>n\<close> bytes, a string that fills all \<open>n\<close> bytes without a NUL included.
\<close>

lemma strncmp_zero: "strncmp s1 s2 n = 0 \<longleftrightarrow> string_in n s1 = string_in n s2"
  by (simp add: strncmp_def strncmp_from_zero string_in_def)

section \<open>strcpy and strncpy\<close>

lemma strcpy_loop_apply:
  assumes "cstr src xs"
  shows "i \<le> length xs \<Longrightarrow> strcpy_loop dest src i =
    Some (\<lambda>k. if i \<le> k \<and> k \<le> length xs then src k else dest k)"
proof (induction "length xs - i" arbitrary: i dest)
  case 0
  then have "i = length xs" by simp
  then show ?case
    by (auto simp: strcpy_loop.simps [of dest src "length xs"] cstr_end [OF assms] fun_eq_iff)
next
  case (Suc n)
  then have i: "i < length xs" and n: "n = length xs - (i + 1)" "i + 1 \<le> length xs" by simp_all
  show ?case
    using Suc.hyps(1) [OF n] cstr_nonzero [OF assms i] i
    by (auto simp: strcpy_loop.simps [of dest src i] fun_eq_iff)
qed

lemma strcpy_apply:
  "cstr src xs \<Longrightarrow>
   strcpy dest src = Some (\<lambda>k. if k \<le> length xs then src k else dest k)"
  by (simp add: strcpy_def strcpy_loop_apply)

lemma strncpy_pad_apply:
  "strncpy_pad dest i k j = (if i \<le> j \<and> j < i + k then 0 else dest j)"
  by (induction k arbitrary: dest i) auto

lemma strncpy_copy_spec:
  "\<exists>m \<le> k. strncpy_copy dest src i k =
      ((\<lambda>j. if i \<le> j \<and> j < i + m then src j else dest j), i + m)
    \<and> (\<forall>j. i \<le> j \<and> j < i + m \<longrightarrow> src j \<noteq> 0) \<and> (m < k \<longrightarrow> src (i + m) = 0)"
proof (induction k arbitrary: dest i)
  case 0
  then show ?case by (auto simp: fun_eq_iff)
next
  case (Suc k)
  show ?case
  proof (cases "src i = 0")
    case True
    then show ?thesis by (intro exI [of _ 0]) (auto simp: fun_eq_iff)
  next
    case False
    obtain m where m: "m \<le> k"
      and eq: "strncpy_copy (dest(i := src i)) src (i + 1) k =
        ((\<lambda>j. if i + 1 \<le> j \<and> j < i + 1 + m then src j else (dest(i := src i)) j), i + 1 + m)"
      and nz: "\<forall>j. i + 1 \<le> j \<and> j < i + 1 + m \<longrightarrow> src j \<noteq> 0"
      and stop: "m < k \<longrightarrow> src (i + 1 + m) = 0"
      using Suc.IH by blast
    have "\<forall>j. i \<le> j \<and> j < i + Suc m \<longrightarrow> src j \<noteq> 0"
      using False nz by (metis add_Suc_right add_Suc Suc_eq_plus1 Suc_leI le_neq_implies_less)
    then show ?thesis
      using False m eq stop by (intro exI [of _ "Suc m"]) (auto simp: fun_eq_iff)
  qed
qed

lemma strncpy_apply:
  assumes "cstr src xs"
  shows "strncpy dest src n j =
    (if j < n then (if j < length xs then xs ! j else 0) else dest j)"
proof -
  obtain m where m: "m \<le> n"
    and eq: "strncpy_copy dest src 0 n = ((\<lambda>j. if j < m then src j else dest j), m)"
    and nz: "\<And>j. j < m \<Longrightarrow> src j \<noteq> 0" and stop: "m < n \<Longrightarrow> src m = 0"
    using strncpy_copy_spec [of n dest src 0] by auto
  have "m = min n (length xs)"
  proof (rule antisym)
    show "m \<le> min n (length xs)"
      using m nz cstr_end [OF assms] by (metis linorder_not_le min.boundedI)
    show "min n (length xs) \<le> m"
      using m stop cstr_nonzero [OF assms] by (metis linorder_not_le min_less_iff_conj)
  qed
  then show ?thesis
    using cstr_nth [OF assms] by (auto simp: strncpy_def eq strncpy_pad_apply)
qed

end
