(* ===== verification/Kernel_State.thy ===== *)
theory Kernel_State
  imports C_Memory Lib_String
begin

text \<open>
  The data of the kernel: the structures of \<open>types.h\<close>, \<open>filesystem.h\<close> and
  \<open>keyboard.c\<close> as records, and one record \<open>kernel\<close> with every global variable of the C
  files.  A C \<open>int\<close> whose arithmetic cannot leave its range is an \<open>int\<close>; fields the code
  stores in 32 bits and compares as such are 32-bit words.  An array is the function that
  reads it: an index outside the array is the memory next to it, not an error.
\<close>

section \<open>Files, processes, terminals (types.h)\<close>

text \<open>The functions the kernel stores in file operation tables.\<close>

datatype fop =
    Fn_null
  | Fn_terminal_open | Fn_terminal_read | Fn_terminal_write | Fn_terminal_close
  | Fn_terminal_bad_read | Fn_terminal_bad_write
  | Fn_rtc_open | Fn_rtc_read | Fn_rtc_write | Fn_rtc_close
  | Fn_dir_open | Fn_dir_read | Fn_dir_write | Fn_dir_close
  | Fn_file_open | Fn_file_read | Fn_file_write | Fn_file_close
  | Fn_fail

record file_operation_table =
  fop_open :: fop
  fop_read :: fop
  fop_write :: fop
  fop_close :: fop

record file_object =
  file_op_tb :: file_operation_table
  inode :: u32
  file_position :: u32
  flag :: u32

text \<open>
  \<open>argument\<close> is a pointer to a local array of \<open>execute\<close>; the model keeps the array
  it points to.
\<close>

record pcb =
  pid :: u32
  parent_id :: u32
  file_descriptor :: "nat \<Rightarrow> file_object"
  saved_esp :: u32
  saved_ebp :: u32
  esp0 :: u32
  active :: u32
  argument :: bytes
  pcb_vidmap :: u32
  tss_esp0 :: u32
  pcb_tid :: nat

text \<open>
  \<open>next_terminal\<close> is a pointer into \<open>terminal_list\<close>: the index, or \<open>None\<close> for \<open>NULL\<close>.
  \<open>keyb_buffer\<close> points into the bytes \<open>line_rows\<close> of the kernel: the offset there.
\<close>

record terminal =
  tid :: nat
  video_page :: u32
  x_cursor :: int
  y_cursor :: int
  pcb_ptr :: u32
  count_pcb :: u32
  keyb_buffer :: int
  keyb_buffer_index :: int
  next_terminal :: "nat option"
  term_vidmap :: u32
  term_prev_screen_x :: "int \<Rightarrow> int"
  term_i_prev_x :: int
  term_display_buf :: "int \<Rightarrow> u8"
  term_display_buf_index :: int
  term_line_is_full :: "int \<Rightarrow> int"

section \<open>Directory entries (filesystem.h)\<close>

record dentry =
  file_name :: bytes
  file_type :: u32
  inode_id :: u32

record filesys =
  boot_block :: u32
  inodes :: u32
  data_block :: u32
  global_dentry :: dentry

section \<open>Console, keyboard, paging, interrupt controller\<close>

record console =
  screen_x :: int
  screen_y :: int
  video_mem :: u32
  keyb_pressed :: bool
  prev_screen_x :: "int \<Rightarrow> int"
  i_prev_x :: int
  display_buf :: "int \<Rightarrow> u8"
  display_buf_index :: int
  line_is_full :: "int \<Rightarrow> int"

record keyboard =
  key_buffer :: "int \<Rightarrow> u8"
  keyb_index :: int
  left_shift :: bool
  left_ctrl :: bool
  left_alt :: bool
  capslk :: bool
  alt :: bool
  copy_signal :: bool

text \<open>
  The tables of \<open>x86_desc.S\<close> and the addresses the linker gives them (aligned to 4096
  there).
\<close>

record paging =
  page_dir :: "nat \<Rightarrow> u32"
  page_table :: "nat \<Rightarrow> u32"
  page_vid_table :: "nat \<Rightarrow> u32"
  page_table_addr :: u32
  page_vid_table_addr :: u32

record pic =
  master_mask :: u8
  slave_mask :: u8

section \<open>The kernel\<close>

text \<open>
  \<open>mem\<close> is physical memory and \<open>tlb\<close> the translation in force since the last
  \<open>flush_tlb\<close>.  \<open>outs\<close> lists the bytes written to I/O ports, oldest first;
  \<open>inport\<close> is the byte each port presents.  \<open>intr_flag\<close> is the interrupt flag.
  Process control blocks live at fixed addresses; \<open>pcb_at\<close> is the store of them.
  \<open>line_rows\<close> are the bytes from the start of the local array \<open>keyb_buffer[3][128]\<close> of
  \<open>terminal_init\<close> on, which lies on the kernel stack the machine booted on.  The terminals keep
  pointers to its three rows when the function has returned, and what uses that stack later may
  change them at any time.
\<close>

record kernel =
  mem :: memory
  tlb :: translation
  pg :: paging
  con :: console
  kb :: keyboard
  irqs :: pic
  outs :: "(u32 \<times> u8) list"
  inport :: "u32 \<Rightarrow> u8"
  intr_flag :: bool
  terminal_list :: "nat \<Rightarrow> terminal"
  curr_terminal_num :: nat
  scheduled_terminal_num :: nat
  scheduled_terminal :: nat
  terminal_read_enable_signal :: bool
  terminal_buf_index :: int
  pcb_at :: "u32 \<Rightarrow> pcb"
  pid_var :: int
  curr_pcb :: u32
  tss_reg_esp0 :: u32
  tss_reg_ss0 :: u32
  fs :: filesys
  rtc_interrupt_occurred :: int
  rtc_interrupt_counter :: int
  line_rows :: "int \<Rightarrow> u8"

section \<open>Accessors\<close>

abbreviation upd_con :: "(console \<Rightarrow> console) \<Rightarrow> kernel \<Rightarrow> kernel" where
  "upd_con f s \<equiv> s\<lparr>con := f (con s)\<rparr>"

abbreviation upd_kb :: "(keyboard \<Rightarrow> keyboard) \<Rightarrow> kernel \<Rightarrow> kernel" where
  "upd_kb f s \<equiv> s\<lparr>kb := f (kb s)\<rparr>"

abbreviation upd_pg :: "(paging \<Rightarrow> paging) \<Rightarrow> kernel \<Rightarrow> kernel" where
  "upd_pg f s \<equiv> s\<lparr>pg := f (pg s)\<rparr>"

definition upd_term :: "nat \<Rightarrow> (terminal \<Rightarrow> terminal) \<Rightarrow> kernel \<Rightarrow> kernel" where
  "upd_term t f s = s\<lparr>terminal_list := (terminal_list s)(t := f (terminal_list s t))\<rparr>"

definition upd_pcb :: "u32 \<Rightarrow> (pcb \<Rightarrow> pcb) \<Rightarrow> kernel \<Rightarrow> kernel" where
  "upd_pcb p f s = s\<lparr>pcb_at := (pcb_at s)(p := f (pcb_at s p))\<rparr>"

definition upd_fd :: "nat \<Rightarrow> (file_object \<Rightarrow> file_object) \<Rightarrow> pcb \<Rightarrow> pcb" where
  "upd_fd i f p = p\<lparr>file_descriptor := (file_descriptor p)(i := f (file_descriptor p i))\<rparr>"

lemma upd_term_list [simp]:
  "terminal_list (upd_term t f s) = (terminal_list s)(t := f (terminal_list s t))"
  by (simp add: upd_term_def)

lemma upd_pcb_at [simp]: "pcb_at (upd_pcb p f s) = (pcb_at s)(p := f (pcb_at s p))"
  by (simp add: upd_pcb_def)

lemma upd_fd_descriptor [simp]:
  "file_descriptor (upd_fd i f p) = (file_descriptor p)(i := f (file_descriptor p i))"
  by (simp add: upd_fd_def)

lemma upd_fd_frame [simp]:
  "pid (upd_fd i f p) = pid p" "parent_id (upd_fd i f p) = parent_id p"
  "active (upd_fd i f p) = active p" "argument (upd_fd i f p) = argument p"
  "saved_esp (upd_fd i f p) = saved_esp p" "saved_ebp (upd_fd i f p) = saved_ebp p"
  "esp0 (upd_fd i f p) = esp0 p" "tss_esp0 (upd_fd i f p) = tss_esp0 p"
  "pcb_tid (upd_fd i f p) = pcb_tid p" "pcb_vidmap (upd_fd i f p) = pcb_vidmap p"
  by (simp_all add: upd_fd_def)

lemma upd_term_frame [simp]:
  "mem (upd_term t f s) = mem s" "tlb (upd_term t f s) = tlb s" "pg (upd_term t f s) = pg s"
  "con (upd_term t f s) = con s" "kb (upd_term t f s) = kb s" "irqs (upd_term t f s) = irqs s"
  "outs (upd_term t f s) = outs s" "inport (upd_term t f s) = inport s"
  "intr_flag (upd_term t f s) = intr_flag s"
  "curr_terminal_num (upd_term t f s) = curr_terminal_num s"
  "scheduled_terminal_num (upd_term t f s) = scheduled_terminal_num s"
  "scheduled_terminal (upd_term t f s) = scheduled_terminal s"
  "terminal_read_enable_signal (upd_term t f s) = terminal_read_enable_signal s"
  "terminal_buf_index (upd_term t f s) = terminal_buf_index s"
  "pcb_at (upd_term t f s) = pcb_at s" "pid_var (upd_term t f s) = pid_var s"
  "curr_pcb (upd_term t f s) = curr_pcb s" "tss_reg_esp0 (upd_term t f s) = tss_reg_esp0 s"
  "tss_reg_ss0 (upd_term t f s) = tss_reg_ss0 s" "fs (upd_term t f s) = fs s"
  "rtc_interrupt_occurred (upd_term t f s) = rtc_interrupt_occurred s"
  "rtc_interrupt_counter (upd_term t f s) = rtc_interrupt_counter s"
  "line_rows (upd_term t f s) = line_rows s"
  by (simp_all add: upd_term_def)

lemma upd_pcb_frame [simp]:
  "mem (upd_pcb p g s) = mem s" "tlb (upd_pcb p g s) = tlb s" "pg (upd_pcb p g s) = pg s"
  "con (upd_pcb p g s) = con s" "kb (upd_pcb p g s) = kb s" "irqs (upd_pcb p g s) = irqs s"
  "outs (upd_pcb p g s) = outs s" "inport (upd_pcb p g s) = inport s"
  "intr_flag (upd_pcb p g s) = intr_flag s" "terminal_list (upd_pcb p g s) = terminal_list s"
  "curr_terminal_num (upd_pcb p g s) = curr_terminal_num s"
  "scheduled_terminal_num (upd_pcb p g s) = scheduled_terminal_num s"
  "scheduled_terminal (upd_pcb p g s) = scheduled_terminal s"
  "terminal_read_enable_signal (upd_pcb p g s) = terminal_read_enable_signal s"
  "terminal_buf_index (upd_pcb p g s) = terminal_buf_index s"
  "pid_var (upd_pcb p g s) = pid_var s"
  "curr_pcb (upd_pcb p g s) = curr_pcb s" "tss_reg_esp0 (upd_pcb p g s) = tss_reg_esp0 s"
  "tss_reg_ss0 (upd_pcb p g s) = tss_reg_ss0 s" "fs (upd_pcb p g s) = fs s"
  "rtc_interrupt_occurred (upd_pcb p g s) = rtc_interrupt_occurred s"
  "rtc_interrupt_counter (upd_pcb p g s) = rtc_interrupt_counter s"
  "line_rows (upd_pcb p g s) = line_rows s"
  by (simp_all add: upd_pcb_def)

text \<open>The process control block of each process: one at the top of each 8 KB below 8 MB.\<close>

definition pcb_addr :: "int \<Rightarrow> u32" where
  "pcb_addr i = 0x800000 - 0x2000 * of_int (i + 1)"

lemma pcb_addr_inj: "i < 6 \<Longrightarrow> j < 6 \<Longrightarrow> pcb_addr (int i) = pcb_addr (int j) \<longleftrightarrow> i = j"
proof -
  assume "i < 6" "j < 6"
  then have "(of_nat (0x2000 * (i + 1)) :: u32) = of_nat (0x2000 * (j + 1)) \<longleftrightarrow> i = j"
    using of_nat_inj_u32 [of "0x2000 * (i + 1)" "0x2000 * (j + 1)"] by simp
  then show ?thesis by (simp add: pcb_addr_def)
qed

text \<open>Loads and stores of C code go through the translation.\<close>

definition ld8 :: "kernel \<Rightarrow> u32 \<Rightarrow> u8" where
  "ld8 s a = rd (tlb s) (mem s) a"

definition st8 :: "u32 \<Rightarrow> u8 \<Rightarrow> kernel \<Rightarrow> kernel" where
  "st8 a v s = s\<lparr>mem := wr (tlb s) (mem s) a v\<rparr>"

text \<open>The array a pointer points to.\<close>

definition view :: "kernel \<Rightarrow> u32 \<Rightarrow> bytes" where
  "view s a = (\<lambda>i. ld8 s (a + of_nat i))"

text \<open>A run of stores from \<open>a\<close> upwards.\<close>

fun store_bytes :: "u32 \<Rightarrow> u8 list \<Rightarrow> kernel \<Rightarrow> kernel" where
  "store_bytes a [] s = s"
| "store_bytes a (b # bs) s = store_bytes (a + 1) bs (st8 a b s)"

lemma st8_frame [simp]:
  "tlb (st8 a v s) = tlb s" "pg (st8 a v s) = pg s"
  "con (st8 a v s) = con s" "kb (st8 a v s) = kb s" "irqs (st8 a v s) = irqs s"
  "outs (st8 a v s) = outs s" "inport (st8 a v s) = inport s"
  "intr_flag (st8 a v s) = intr_flag s" "terminal_list (st8 a v s) = terminal_list s"
  "curr_terminal_num (st8 a v s) = curr_terminal_num s"
  "scheduled_terminal_num (st8 a v s) = scheduled_terminal_num s"
  "scheduled_terminal (st8 a v s) = scheduled_terminal s"
  "terminal_read_enable_signal (st8 a v s) = terminal_read_enable_signal s"
  "terminal_buf_index (st8 a v s) = terminal_buf_index s"
  "pcb_at (st8 a v s) = pcb_at s" "pid_var (st8 a v s) = pid_var s"
  "curr_pcb (st8 a v s) = curr_pcb s" "tss_reg_esp0 (st8 a v s) = tss_reg_esp0 s"
  "tss_reg_ss0 (st8 a v s) = tss_reg_ss0 s" "fs (st8 a v s) = fs s"
  "rtc_interrupt_occurred (st8 a v s) = rtc_interrupt_occurred s"
  "rtc_interrupt_counter (st8 a v s) = rtc_interrupt_counter s"
  "line_rows (st8 a v s) = line_rows s"
  by (simp_all add: st8_def)

lemma st8_mem [simp]: "mem (st8 a v s) = (mem s)(tlb s a := v)"
  by (simp add: st8_def wr_def)

lemma store_bytes_mem_only: "\<exists>m. store_bytes a bs s = s\<lparr>mem := m\<rparr>"
proof (induction bs arbitrary: a s)
  case Nil
  have "store_bytes a [] s = s\<lparr>mem := mem s\<rparr>" by simp
  then show ?case by blast
next
  case (Cons b bs)
  obtain m where "store_bytes (a + 1) bs (st8 a b s) = (st8 a b s)\<lparr>mem := m\<rparr>"
    using Cons.IH by blast
  then have "store_bytes a (b # bs) s = s\<lparr>mem := m\<rparr>" by (simp add: st8_def)
  then show ?case by blast
qed

lemma store_bytes_frame [simp]:
  "tlb (store_bytes a bs s) = tlb s" "pg (store_bytes a bs s) = pg s"
  "con (store_bytes a bs s) = con s" "kb (store_bytes a bs s) = kb s"
  "irqs (store_bytes a bs s) = irqs s" "outs (store_bytes a bs s) = outs s"
  "intr_flag (store_bytes a bs s) = intr_flag s"
  "terminal_list (store_bytes a bs s) = terminal_list s"
  "curr_terminal_num (store_bytes a bs s) = curr_terminal_num s"
  "scheduled_terminal_num (store_bytes a bs s) = scheduled_terminal_num s"
  "scheduled_terminal (store_bytes a bs s) = scheduled_terminal s"
  "terminal_read_enable_signal (store_bytes a bs s) = terminal_read_enable_signal s"
  "pcb_at (store_bytes a bs s) = pcb_at s" "pid_var (store_bytes a bs s) = pid_var s"
  "curr_pcb (store_bytes a bs s) = curr_pcb s" "fs (store_bytes a bs s) = fs s"
  "tss_reg_esp0 (store_bytes a bs s) = tss_reg_esp0 s" "tss_reg_ss0 (store_bytes a bs s) = tss_reg_ss0 s"
  using store_bytes_mem_only [of a bs s] by auto

lemma store_bytes_snoc:
  "store_bytes a (bs @ [b]) s = st8 (a + of_nat (length bs)) b (store_bytes a bs s)"
  by (induction bs arbitrary: a s) (simp_all add: add.assoc)

lemma store_bytes_other:
  "(\<And>i. i < length bs \<Longrightarrow> p \<noteq> tlb s (a + of_nat i)) \<Longrightarrow> mem (store_bytes a bs s) p = mem s p"
proof (induction bs arbitrary: a s)
  case Nil
  then show ?case by simp
next
  case (Cons b bs)
  have "p \<noteq> tlb s a" using Cons.prems [of 0] by simp
  moreover have "p \<noteq> tlb (st8 a b s) (a + 1 + of_nat i)" if "i < length bs" for i
    using Cons.prems [of "Suc i"] that by (simp add: add.assoc)
  ultimately show ?case using Cons.IH [of "st8 a b s" "a + 1"] by simp
qed

lemma store_bytes_load:
  "inj_on (\<lambda>k. tlb s (a + of_nat k)) {..<length bs} \<Longrightarrow>
   load_bytes (tlb s) (mem (store_bytes a bs s)) a (length bs) = bs"
proof (induction bs arbitrary: a s)
  case Nil
  then show ?case by simp
next
  case (Cons b bs)
  let ?s = "st8 a b s"
  have shift: "tlb s (a + 1 + of_nat k) = tlb s (a + of_nat (Suc k))" for k by (simp add: add.assoc)
  have inj: "inj_on (\<lambda>k. tlb ?s (a + 1 + of_nat k)) {..<length bs}"
  proof (rule inj_onI)
    fix i j assume ij: "i \<in> {..<length bs}" "j \<in> {..<length bs}"
      and eq: "tlb ?s (a + 1 + of_nat i) = tlb ?s (a + 1 + of_nat j)"
    have "tlb s (a + of_nat (Suc i)) = tlb s (a + of_nat (Suc j))" using eq by (simp only: st8_frame shift)
    then have "Suc i = Suc j" by (rule inj_onD [OF Cons.prems]) (use ij in simp_all)
    then show "i = j" by simp
  qed
  have "mem (store_bytes (a + 1) bs ?s) (tlb s a) = mem ?s (tlb s a)"
  proof (rule store_bytes_other)
    fix i assume i: "i < length bs"
    show "tlb s a \<noteq> tlb ?s (a + 1 + of_nat i)"
    proof
      assume "tlb s a = tlb ?s (a + 1 + of_nat i)"
      then have "tlb s (a + of_nat 0) = tlb s (a + of_nat (Suc i))" by (simp add: add.assoc)
      then have "0 = Suc i" by (rule inj_onD [OF Cons.prems]) (use i in simp_all)
      then show False by simp
    qed
  qed
  then have head: "load_bytes (tlb s) (mem (store_bytes (a + 1) bs ?s)) a 1 = [b]"
    by (simp add: load_bytes_def rd_def)
  have tail: "load_bytes (tlb s) (mem (store_bytes (a + 1) bs ?s)) (a + of_nat 1) (length bs) = bs"
    using Cons.IH [OF inj] by simp
  have "load_bytes (tlb s) (mem (store_bytes (a + 1) bs ?s)) a (1 + length bs) = b # bs"
    unfolding load_bytes_append [symmetric] head tail by simp
  then show ?case by simp
qed

section \<open>Port I/O and the interrupt flag (lib.h)\<close>

definition outb :: "u8 \<Rightarrow> u32 \<Rightarrow> kernel \<Rightarrow> kernel" where
  "outb data port s = s\<lparr>outs := outs s @ [(port, data)]\<rparr>"

definition inb :: "u32 \<Rightarrow> kernel \<Rightarrow> u32" where
  "inb port s = ucast (inport s port)"

definition cli :: "kernel \<Rightarrow> kernel" where
  "cli s = s\<lparr>intr_flag := False\<rparr>"

definition sti :: "kernel \<Rightarrow> kernel" where
  "sti s = s\<lparr>intr_flag := True\<rparr>"

lemmas io_defs [kernel_simps] = outb_def inb_def cli_def sti_def

section \<open>The state the kernel starts in\<close>

text \<open>
  Static storage before \<open>entry\<close> runs: zero except for the initialisers of the source
  (\<open>pid = -1\<close>, \<open>video_mem = VIDEO\<close>).  The addresses of the two page tables are those of some
  link; the properties ask only that they are aligned and distinct.
\<close>

definition null_table :: file_operation_table where
  "null_table = \<lparr>fop_open = Fn_null, fop_read = Fn_null, fop_write = Fn_null, fop_close = Fn_null\<rparr>"

definition null_file :: file_object where
  "null_file = \<lparr>file_op_tb = null_table, inode = 0, file_position = 0, flag = 0\<rparr>"

definition null_pcb :: pcb where
  "null_pcb = \<lparr>pid = 0, parent_id = 0, file_descriptor = (\<lambda>_. null_file), saved_esp = 0,
     saved_ebp = 0, esp0 = 0, active = 0, argument = (\<lambda>_. 0), pcb_vidmap = 0, tss_esp0 = 0,
     pcb_tid = 0\<rparr>"

definition null_terminal :: terminal where
  "null_terminal = \<lparr>tid = 0, video_page = 0, x_cursor = 0, y_cursor = 0, pcb_ptr = 0,
     count_pcb = 0, keyb_buffer = 0, keyb_buffer_index = 0, next_terminal = None,
     term_vidmap = 0, term_prev_screen_x = (\<lambda>_. 0), term_i_prev_x = 0,
     term_display_buf = (\<lambda>_. 0), term_display_buf_index = 0, term_line_is_full = (\<lambda>_. 0)\<rparr>"

definition static_kernel :: kernel where
  "static_kernel = \<lparr>mem = (\<lambda>_. 0), tlb = (\<lambda>a. a),
     pg = \<lparr>page_dir = (\<lambda>_. 0), page_table = (\<lambda>_. 0), page_vid_table = (\<lambda>_. 0),
           page_table_addr = 0x40A000, page_vid_table_addr = 0x40B000\<rparr>,
     con = \<lparr>screen_x = 0, screen_y = 0, video_mem = 0xB8000, keyb_pressed = False,
            prev_screen_x = (\<lambda>_. 0), i_prev_x = 0, display_buf = (\<lambda>_. 0),
            display_buf_index = 0, line_is_full = (\<lambda>_. 0)\<rparr>,
     kb = \<lparr>key_buffer = (\<lambda>_. 0), keyb_index = 0, left_shift = False, left_ctrl = False,
           left_alt = False, capslk = False, alt = False, copy_signal = False\<rparr>,
     irqs = \<lparr>master_mask = 0, slave_mask = 0\<rparr>, outs = [], inport = (\<lambda>_. 0),
     intr_flag = False, terminal_list = (\<lambda>_. null_terminal), curr_terminal_num = 0,
     scheduled_terminal_num = 0, scheduled_terminal = 0, terminal_read_enable_signal = False,
     terminal_buf_index = 0, pcb_at = (\<lambda>_. null_pcb), pid_var = -1, curr_pcb = 0,
     tss_reg_esp0 = 0, tss_reg_ss0 = 0,
     fs = \<lparr>boot_block = 0, inodes = 0, data_block = 0,
           global_dentry = \<lparr>file_name = (\<lambda>_. 0), file_type = 0, inode_id = 0\<rparr>\<rparr>,
     rtc_interrupt_occurred = 0, rtc_interrupt_counter = 0, line_rows = (\<lambda>_. 0)\<rparr>"

end
