(* ===== verification/Commands.thy ===== *)
theory Commands
  imports Kernel_State
begin

text \<open>
  \<open>parse_cmd\<close> of \<open>student-distrib/execute.c\<close>: the file name and the argument of a command
  line.  The destination arrays are functions: a write past the 32 bytes of the caller's
  file name buffer, which the code does not check for, is kept at its index.
\<close>

section \<open>The loops\<close>

function skip_spaces :: "bytes \<Rightarrow> nat \<Rightarrow> nat \<Rightarrow> nat" where
  "skip_spaces command len i =
     (if i < len \<and> command i = 0x20 then skip_spaces command len (i + 1) else i)"
  by pat_completeness auto
termination
  by (relation "measure (\<lambda>(c, n, i). n - i)") auto

function copy_word :: "bytes \<Rightarrow> nat \<Rightarrow> nat \<Rightarrow> bytes \<Rightarrow> nat \<Rightarrow> nat \<times> bytes \<times> nat" where
  "copy_word command len i filename k =
     (if i < len \<and> command i \<noteq> 0x20
      then copy_word command len (i + 1) (filename(k := command i)) (k + 1)
      else (i, filename, k))"
  by pat_completeness auto
termination
  by (relation "measure (\<lambda>(c, n, i, f, k). n - i)") auto

text \<open>The flag says whether the loop came to its end rather than to the \<open>return -1\<close> inside it.\<close>

function copy_arg :: "bytes \<Rightarrow> nat \<Rightarrow> nat \<Rightarrow> bytes \<Rightarrow> nat \<Rightarrow> bool \<times> bytes \<times> nat" where
  "copy_arg command len i buf k =
     (if i < len \<and> command i \<noteq> 0x20
      then if k \<ge> 128 then (False, buf, k)
           else copy_arg command len (i + 1) (buf(k := command i)) (k + 1)
      else (True, buf, k))"
  by pat_completeness auto
termination
  by (relation "measure (\<lambda>(c, n, i, b, k). n - i)") auto

declare skip_spaces.simps [simp del] copy_word.simps [simp del] copy_arg.simps [simp del]

text \<open>The result is the returned value and the two arrays; \<open>buf = None\<close> is the null pointer.\<close>

definition parse_cmd :: "bytes \<Rightarrow> bytes \<Rightarrow> bytes option \<Rightarrow> (int \<times> bytes \<times> bytes option) option" where
  "parse_cmd command filename buf =
     (case buf of
        None \<Rightarrow> Some (-1, filename, None)
      | Some b \<Rightarrow> Option.bind (strlen command) (\<lambda>command_len.
          let i1 = skip_spaces command command_len 0;
              (i2, f1, filename_index) = copy_word command command_len i1 filename 0;
              f2 = f1(filename_index := 0);
              i3 = skip_spaces command command_len i2;
              (complete, b1, buf_index) = copy_arg command command_len i3 b 0
          in if \<not> complete then Some (-1, f2, Some b1)
             else Some (0, f2, Some (b1(buf_index := 0)))))"

section \<open>The words of a command line\<close>

abbreviation is_space :: "u8 \<Rightarrow> bool" where
  "is_space c \<equiv> c = 0x20"

definition first_word :: "u8 list \<Rightarrow> u8 list" where
  "first_word cs = takeWhile (\<lambda>c. \<not> is_space c) (dropWhile is_space cs)"

definition after_word :: "u8 list \<Rightarrow> u8 list" where
  "after_word cs = dropWhile (\<lambda>c. \<not> is_space c) (dropWhile is_space cs)"

definition second_word :: "u8 list \<Rightarrow> u8 list" where
  "second_word cs = first_word (after_word cs)"

section \<open>What the loops do\<close>

text \<open>The array holds \<open>xs\<close> from index \<open>i\<close> on.\<close>

fun segment :: "bytes \<Rightarrow> nat \<Rightarrow> u8 list \<Rightarrow> bool" where
  "segment c i [] \<longleftrightarrow> True"
| "segment c i (x # xs) \<longleftrightarrow> c i = x \<and> segment c (i + 1) xs"

lemma segment_array: "(\<And>k. k < length xs \<Longrightarrow> c (i + k) = xs ! k) \<Longrightarrow> segment c i xs"
proof (induction xs arbitrary: i)
  case Nil
  then show ?case by simp
next
  case (Cons x xs)
  have "c i = x" using Cons.prems [of 0] by simp
  moreover have "segment c (i + 1) xs"
    by (rule Cons.IH) (use Cons.prems [of "Suc k" for k] in simp)
  ultimately show ?case by simp
qed

lemma segment_drop: "segment c i xs \<Longrightarrow> n \<le> length xs \<Longrightarrow> segment c (i + n) (drop n xs)"
proof (induction xs arbitrary: i n)
  case Nil
  then show ?case by simp
next
  case (Cons x xs)
  then show ?case using Cons.IH [of "i + 1"] by (cases n) auto
qed

lemma segment_dropWhile:
  "segment c i xs \<Longrightarrow> segment c (i + length (takeWhile P xs)) (dropWhile P xs)"
  using segment_drop [of c i xs "length (takeWhile P xs)"] length_takeWhile_le [of P xs]
  by (simp add: dropWhile_eq_drop)

lemma length_dropWhile_add: "length (takeWhile P xs) + length (dropWhile P xs) = length xs"
  by (metis length_append takeWhile_dropWhile_id)

lemma skip_spaces_run:
  "segment c i xs \<Longrightarrow> i + length xs = len \<Longrightarrow>
   skip_spaces c len i = i + length (takeWhile is_space xs)"
proof (induction xs arbitrary: i)
  case Nil
  then show ?case by (simp add: skip_spaces.simps [of c len len])
next
  case (Cons x xs)
  then show ?case using Cons.IH [of "i + 1"] by (simp add: skip_spaces.simps [of c len i])
qed

definition overwrite :: "bytes \<Rightarrow> nat \<Rightarrow> u8 list \<Rightarrow> bytes" where
  "overwrite f k w = (\<lambda>j. if k \<le> j \<and> j < k + length w then w ! (j - k) else f j)"

lemma overwrite_Nil [simp]: "overwrite f k [] = f"
  by (auto simp: overwrite_def fun_eq_iff)

lemma overwrite_Cons: "overwrite (f(k := x)) (Suc k) w = overwrite f k (x # w)"
proof (rule ext)
  fix j
  consider "j < k" | "j = k" | m where "j = Suc (k + m)"
    by (metis less_iff_Suc_add linorder_neqE_nat)
  then show "overwrite (f(k := x)) (Suc k) w j = overwrite f k (x # w) j"
    by cases (simp_all add: overwrite_def)
qed

lemma overwrite_cstr: "0 \<notin> set w \<Longrightarrow> cstr ((overwrite f 0 w)(length w := 0)) w"
  by (simp add: cstr_def overwrite_def)

lemma copy_word_run:
  "segment c i xs \<Longrightarrow> i + length xs = len \<Longrightarrow>
   copy_word c len i f k =
     (let w = takeWhile (\<lambda>c. \<not> is_space c) xs in (i + length w, overwrite f k w, k + length w))"
proof (induction xs arbitrary: i f k)
  case Nil
  then show ?case by (simp add: copy_word.simps [of c len len])
next
  case (Cons x xs)
  then show ?case
    using Cons.IH [of "i + 1"] by (simp add: copy_word.simps [of c len i] Let_def overwrite_Cons)
qed

lemma copy_arg_run:
  "segment c i xs \<Longrightarrow> i + length xs = len \<Longrightarrow>
   k + length (takeWhile (\<lambda>c. \<not> is_space c) xs) \<le> 128 \<Longrightarrow>
   copy_arg c len i f k =
     (let w = takeWhile (\<lambda>c. \<not> is_space c) xs in (True, overwrite f k w, k + length w))"
proof (induction xs arbitrary: i f k)
  case Nil
  then show ?case by (simp add: copy_arg.simps [of c len len])
next
  case (Cons x xs)
  then show ?case
    using Cons.IH [of "i + 1"] by (simp add: copy_arg.simps [of c len i] Let_def overwrite_Cons split: if_splits)
qed

lemma copy_arg_long:
  "segment c i xs \<Longrightarrow> i + length xs = len \<Longrightarrow> k \<le> 128 \<Longrightarrow>
   128 < k + length (takeWhile (\<lambda>c. \<not> is_space c) xs) \<Longrightarrow> \<exists>b n. copy_arg c len i f k = (False, b, n)"
proof (induction xs arbitrary: i f k)
  case Nil
  then show ?case by simp
next
  case (Cons x xs)
  then have "\<not> is_space x" by (auto split: if_splits)
  then show ?case
    using Cons.prems Cons.IH [of "i + 1" "k + 1"] by (cases "k = 128") (simp_all add: copy_arg.simps [of c len i])
qed

lemma cstr_segment: "cstr c xs \<Longrightarrow> segment c 0 xs"
  by (rule segment_array) (simp add: cstr_def)

lemma no_nul_words:
  assumes "0 \<notin> set cs"
  shows "0 \<notin> set (first_word cs)" "0 \<notin> set (after_word cs)"
  using assms by (auto simp: first_word_def after_word_def dest!: set_takeWhileD set_dropWhileD)

lemma parse_cmd_words:
  assumes "cstr command cs"
  shows "\<exists>f b. parse_cmd command filename (Some buf) =
      Some (if length (second_word cs) \<le> 128 then 0 else -1, f, Some b) \<and>
    cstr f (first_word cs) \<and> (length (second_word cs) \<le> 128 \<longrightarrow> cstr b (second_word cs))"
proof -
  let ?n = "length cs" and ?d = "dropWhile is_space cs"
  let ?i1 = "length (takeWhile is_space cs)"
  let ?i2 = "?i1 + length (first_word cs)"
  let ?e = "dropWhile is_space (after_word cs)"
  let ?i3 = "?i2 + length (takeWhile is_space (after_word cs))"
  have s1: "segment command ?i1 ?d" and l1: "?i1 + length ?d = ?n"
    using segment_dropWhile [OF cstr_segment [OF assms], of is_space]
    by (simp_all add: length_dropWhile_add)
  have s2: "segment command ?i2 (after_word cs)" and l2: "?i2 + length (after_word cs) = ?n"
    using segment_dropWhile [OF s1, of "\<lambda>c. \<not> is_space c"] l1
      length_dropWhile_add [of "\<lambda>c. \<not> is_space c" ?d]
    by (simp_all add: first_word_def after_word_def)
  have s3: "segment command ?i3 ?e" and l3: "?i3 + length ?e = ?n"
    using segment_dropWhile [OF s2, of is_space] l2 length_dropWhile_add [of is_space "after_word cs"]
    by simp_all
  have skip: "skip_spaces command ?n 0 = ?i1" "skip_spaces command ?n ?i2 = ?i3"
    using skip_spaces_run [OF cstr_segment [OF assms], of ?n] skip_spaces_run [OF s2 l2] by simp_all
  have word: "copy_word command ?n ?i1 filename 0 =
      (?i2, overwrite filename 0 (first_word cs), length (first_word cs))"
    using copy_word_run [OF s1 l1, of filename 0] by (simp add: first_word_def Let_def)
  have w2: "takeWhile (\<lambda>c. \<not> is_space c) ?e = second_word cs"
    by (simp add: second_word_def first_word_def)
  have nul: "0 \<notin> set (first_word cs)" "0 \<notin> set (second_word cs)"
    using no_nul_words [OF cstr_no_nul [OF assms]] no_nul_words(1) [of "after_word cs"]
    by (simp_all add: second_word_def)
  show ?thesis
  proof (cases "length (second_word cs) \<le> 128")
    case True
    then show ?thesis
      using copy_arg_run [OF s3 l3, of 0 buf] nul
      by (simp add: parse_cmd_def strlen_cstr [OF assms] skip word w2 Let_def overwrite_cstr)
  next
    case False
    then obtain b n where "copy_arg command ?n ?i3 buf 0 = (False, b, n)"
      using copy_arg_long [OF s3 l3, of 0 buf] w2 by auto
    then show ?thesis
      using False nul
      by (simp add: parse_cmd_def strlen_cstr [OF assms] skip word Let_def overwrite_cstr)
  qed
qed

text \<open>
  C29: \<open>parse_cmd\<close> splits every command line: the file name is its first word and the argument
  its second, spaces before, between and after them do not matter, and the call fails exactly
  when the argument has more than 128 characters.
\<close>

theorem parse_cmd_splits:
  assumes "cstr command cs"
  shows "\<exists>f b. parse_cmd command filename (Some buf) =
      Some (if length (second_word cs) \<le> 128 then 0 else -1, f, Some b) \<and>
    cstr f (first_word cs) \<and> (length (second_word cs) \<le> 128 \<longrightarrow> cstr b (second_word cs))"
  by (rule parse_cmd_words [OF assms])

lemma first_word_example:
  "first_word (lit ''  cat frame0 x'') = lit ''cat''" "second_word (lit ''  cat frame0 x'') = lit ''frame0''"
  by (simp_all add: second_word_def first_word_def after_word_def)

theorem parse_cmd_splits_witness:
  "\<exists>f b. parse_cmd (array_of (lit ''  cat frame0 x'')) (\<lambda>_. 0) (Some (\<lambda>_. 0)) = Some (0, f, Some b) \<and>
    cstr f (lit ''cat'') \<and> cstr b (lit ''frame0'')"
  using parse_cmd_splits [OF cstr_array_of [of "lit ''  cat frame0 x''"], of "\<lambda>_. 0" "\<lambda>_. 0"]
  unfolding first_word_example by simp

end
