(* ===== verification/Filesystem.thy ===== *)
theory Filesystem
  imports Kernel_State
begin

text \<open>
  \<open>student-distrib/filesystem.c\<close>, the read-only file system: the boot block with its
  directory, the inodes, the data blocks.  The image is in memory; \<open>g\<close> is the function that
  reads a byte of it through a C pointer.  A routine that fills a buffer returns the bytes it
  puts there, in order, from the start of the buffer; the image is not one of those buffers.
\<close>

section \<open>The structures in memory (filesystem.h)\<close>

type_synonym image = "u32 \<Rightarrow> u8"

abbreviation fetch :: "image \<Rightarrow> u32 \<Rightarrow> nat \<Rightarrow> u8 list" where
  "fetch g a n \<equiv> load_bytes (\<lambda>x. x) g a n"

text \<open>A little-endian 32-bit field.\<close>

definition word_at :: "image \<Rightarrow> u32 \<Rightarrow> u32" where
  "word_at g a = ucast (g a) OR push_bit 8 (ucast (g (a + 1)))
     OR push_bit 16 (ucast (g (a + 2))) OR push_bit 24 (ucast (g (a + 3)))"

definition num_dir_entries :: "image \<Rightarrow> filesys \<Rightarrow> u32" where
  "num_dir_entries g f = word_at g (boot_block f)"

definition num_inodes :: "image \<Rightarrow> filesys \<Rightarrow> u32" where
  "num_inodes g f = word_at g (boot_block f + 4)"

text \<open>\<open>boot_block->dir_entries + i\<close>: 64-byte entries after the 64-byte header.\<close>

definition dir_entry_addr :: "filesys \<Rightarrow> u32 \<Rightarrow> u32" where
  "dir_entry_addr f i = boot_block f + 64 + 64 * i"

definition dentry_at :: "image \<Rightarrow> u32 \<Rightarrow> dentry" where
  "dentry_at g a = \<lparr>file_name = array_of (fetch g a 32), file_type = word_at g (a + 32),
     inode_id = word_at g (a + 36)\<rparr>"

definition inode_length :: "image \<Rightarrow> filesys \<Rightarrow> u32 \<Rightarrow> u32" where
  "inode_length g f ino = word_at g (inodes f + 4096 * ino)"

definition inode_block :: "image \<Rightarrow> filesys \<Rightarrow> u32 \<Rightarrow> nat \<Rightarrow> u32" where
  "inode_block g f ino b = word_at g (inodes f + 4096 * ino + 4 + 4 * of_nat b)"

definition block_addr :: "filesys \<Rightarrow> u32 \<Rightarrow> u32" where
  "block_addr f b = data_block f + b * 4096"

section \<open>The functions of filesystem.c\<close>

definition file_system_init :: "image \<Rightarrow> u32 \<Rightarrow> filesys \<Rightarrow> filesys" where
  "file_system_init g fs_start f =
     (let f1 = f\<lparr>boot_block := fs_start, inodes := fs_start + 4096\<rparr>
      in f1\<lparr>data_block := fs_start + 4096 * (num_inodes g f1 + 1)\<rparr>)"

text \<open>The search loop; the last argument is the number of entries still to look at.\<close>

fun find_dentry :: "image \<Rightarrow> filesys \<Rightarrow> bytes \<Rightarrow> nat \<Rightarrow> nat \<Rightarrow> dentry option" where
  "find_dentry g f fname i 0 = None"
| "find_dentry g f fname i (Suc k) =
     (let a = dir_entry_addr f (of_nat i) in
      if strncmp (\<lambda>j. g (a + of_nat j)) fname 32 = 0 then Some (dentry_at g a)
      else find_dentry g f fname (i + 1) k)"

text \<open>\<open>Some d\<close>: the call returns 0 and has filled the entry with \<open>d\<close>; \<open>None\<close>: it returns -1.\<close>

definition read_dentry_by_name :: "image \<Rightarrow> filesys \<Rightarrow> bytes \<Rightarrow> dentry option" where
  "read_dentry_by_name g f fname = find_dentry g f fname 0 (nat (sint (num_dir_entries g f)))"

definition read_dentry_by_index :: "image \<Rightarrow> filesys \<Rightarrow> u32 \<Rightarrow> dentry option" where
  "read_dentry_by_index g f index =
     (if index > num_dir_entries g f - 1 then None
      else Some (dentry_at g (dir_entry_addr f index)))"

text \<open>The loop over whole blocks and the copy after it.\<close>

function read_blocks :: "image \<Rightarrow> filesys \<Rightarrow> u32 \<Rightarrow> int \<Rightarrow> nat \<Rightarrow> u8 list" where
  "read_blocks g f ino read_length block_offset =
     (let current_block = inode_block g f ino block_offset in
      if read_length > 4096
      then fetch g (block_addr f current_block) 4096
             @ read_blocks g f ino (read_length - 4096) (block_offset + 1)
      else fetch g (block_addr f current_block) (nat read_length))"
  by pat_completeness auto
termination
  by (relation "measure (\<lambda>(g, f, ino, n, b). nat n)") auto

declare read_blocks.simps [simp del]

definition read_data :: "image \<Rightarrow> filesys \<Rightarrow> u32 \<Rightarrow> u32 \<Rightarrow> u32 \<Rightarrow> u32 \<Rightarrow> int \<times> u8 list" where
  "read_data g f ino offset buf len =
     (if ino > num_inodes g f - 1 \<or> buf = 0 then (-1, [])
      else let file_length = inode_length g f ino in
        if offset \<ge> file_length then (0, [])
        else let len1 = (if offset + len > file_length then file_length - offset else len);
                 block_offset = unat (offset div 4096);
                 byte_offset = offset mod 4096;
                 current_block = inode_block g f ino block_offset;
                 read_length = sint len1;
                 start = block_addr f current_block + byte_offset
             in if read_length \<le> 4096 - uint byte_offset
                then (sint len1, fetch g start (unat len1))
                else let first = 4096 - uint byte_offset
                     in (sint len1, fetch g start (nat first)
                           @ read_blocks g f ino (read_length - first) (block_offset + 1)))"

section \<open>The abstract file\<close>

text \<open>
  What a file is to its readers: the bytes of its blocks one after the other, as many as the
  inode says.
\<close>

definition file_byte :: "image \<Rightarrow> filesys \<Rightarrow> u32 \<Rightarrow> nat \<Rightarrow> u8" where
  "file_byte g f ino k =
     g (block_addr f (inode_block g f ino (k div 4096)) + of_nat (k mod 4096))"

definition file_content :: "image \<Rightarrow> filesys \<Rightarrow> u32 \<Rightarrow> u8 list" where
  "file_content g f ino = map (file_byte g f ino) [0..<unat (inode_length g f ino)]"

lemma file_content_length [simp]: "length (file_content g f ino) = unat (inode_length g f ino)"
  by (simp add: file_content_def)

text \<open>A run of bytes inside one block.\<close>

lemma fetch_block:
  assumes "b + n \<le> 4096"
  shows "fetch g (block_addr f (inode_block g f ino blk) + of_nat b) n =
    map (file_byte g f ino) [blk * 4096 + b ..< blk * 4096 + b + n]"
proof (rule nth_equalityI)
  fix i assume i: "i < length (fetch g (block_addr f (inode_block g f ino blk) + of_nat b) n)"
  then have "(blk * 4096 + (b + i)) div 4096 = blk" and "(blk * 4096 + (b + i)) mod 4096 = b + i"
    using assms by simp_all
  then show "fetch g (block_addr f (inode_block g f ino blk) + of_nat b) n ! i =
      map (file_byte g f ino) [blk * 4096 + b ..< blk * 4096 + b + n] ! i"
    using i by (simp add: file_byte_def add.assoc)
qed simp

lemma read_blocks_bytes:
  "0 \<le> n \<Longrightarrow> read_blocks g f ino n blk
    = map (file_byte g f ino) [blk * 4096 ..< blk * 4096 + nat n]"
proof (induction g f ino n blk rule: read_blocks.induct)
  case (1 g f ino n blk)
  show ?case
  proof (cases "n > 4096")
    case True
    have "read_blocks g f ino n blk =
        fetch g (block_addr f (inode_block g f ino blk) + of_nat 0) 4096
          @ read_blocks g f ino (n - 4096) (blk + 1)"
      using True by (simp add: read_blocks.simps [of g f ino n])
    also have "\<dots> = map (file_byte g f ino) [blk * 4096 ..< blk * 4096 + 4096]
        @ map (file_byte g f ino) [blk * 4096 + 4096 ..< blk * 4096 + 4096 + nat (n - 4096)]"
      using "1.IH" [OF refl True] True fetch_block [of 0 4096 g f ino blk] by (simp add: algebra_simps)
    also have "\<dots> = map (file_byte g f ino) [blk * 4096 ..< blk * 4096 + 4096 + nat (n - 4096)]"
      by (rule map_upt_append) simp_all
    finally show ?thesis using True by (simp add: nat_diff_distrib)
  next
    case False
    then show ?thesis
      using "1.prems" fetch_block [of 0 "nat n" g f ino blk] by (simp add: read_blocks.simps [of g f ino n])
  qed
qed

section \<open>read_data reads the file\<close>

lemma take_drop_content:
  assumes "off < L" and "n = min k (L - off)"
  shows "take k (drop off (map h [0..<L])) = map h [off..<off + n]"
proof (rule nth_equalityI)
  show "length (take k (drop off (map h [0..<L]))) = length (map h [off..<off + n])"
    using assms(2) by simp
next
  fix i assume "i < length (take k (drop off (map h [0..<L])))"
  then have "i < k" "i < L - off" by simp_all
  moreover from this have "off + i < L" "i < n" using assms(2) by linarith+
  ultimately show "take k (drop off (map h [0..<L])) ! i = map h [off..<off + n] ! i" by simp
qed

lemma file_content_drop:
  "off < unat (inode_length g f ino) \<Longrightarrow>
   take k (drop off (file_content g f ino)) =
     map (file_byte g f ino) [off..<off + min k (unat (inode_length g f ino) - off)]"
  unfolding file_content_def by (rule take_drop_content) simp_all

text \<open>The length after clipping to the end of the file.\<close>

lemma clipped_length:
  fixes offset len flen :: u32
  assumes "unat flen < 2 ^ 31" and "unat len < 2 ^ 31" and "offset < flen"
  defines "n \<equiv> min (unat len) (unat flen - unat offset)"
  shows "unat (if offset + len > flen then flen - offset else len) = n" and "n < 2 ^ 31"
proof -
  have o: "unat offset < unat flen" using assms(3) by (simp add: word_less_nat_alt)
  have "unat offset + unat len < 2 ^ LENGTH(32)" using o assms(1,2) by simp
  then have sum: "unat (offset + len) = unat offset + unat len"
    by (rule unat_add_lem [THEN iffD1])
  have diff: "unat (flen - offset) = unat flen - unat offset"
    by (rule unat_sub) (use assms(3) in simp)
  show "unat (if offset + len > flen then flen - offset else len) = n"
  proof (cases "offset + len > flen")
    case True
    then have "unat flen < unat offset + unat len" using sum by (simp add: word_less_nat_alt)
    then show ?thesis using True diff unfolding n_def by simp
  next
    case False
    then have "unat offset + unat len \<le> unat flen"
      using sum by (simp add: word_less_nat_alt not_less)
    then show ?thesis using False unfolding n_def by simp
  qed
  show "n < 2 ^ 31" unfolding n_def by (rule min.strict_coboundedI1 [OF assms(2)])
qed

lemma read_data_segments:
  assumes "n < 2 ^ 31"
  shows "(if int n \<le> 4096 - uint (offset mod 4096)
      then fetch g (block_addr f (inode_block g f ino (unat (offset div 4096))) + offset mod 4096) n
      else fetch g (block_addr f (inode_block g f ino (unat (offset div 4096))) + offset mod 4096)
             (nat (4096 - uint (offset mod 4096)))
           @ read_blocks g f ino (int n - (4096 - uint (offset mod 4096))) (unat (offset div 4096) + 1))
     = map (file_byte g f ino) [unat offset ..< unat offset + n]"
proof -
  let ?b = "unat (offset mod 4096)" and ?blk = "unat (offset div 4096)"
  have b: "?b < 4096" by (simp add: unat_mod)
  have ub: "uint (offset mod 4096) = int ?b" by simp
  have off: "?blk * 4096 + ?b = unat offset" by (simp add: unat_mod unat_div)
  have fb: "fetch g (block_addr f (inode_block g f ino ?blk) + offset mod 4096) k
      = map (file_byte g f ino) [unat offset ..< unat offset + k]" if "?b + k \<le> 4096" for k
    using fetch_block [OF that, of g f ino ?blk] off by simp
  show ?thesis
  proof (cases "int n \<le> 4096 - uint (offset mod 4096)")
    case True
    then have "?b + n \<le> 4096" unfolding ub by linarith
    with True fb show ?thesis by simp
  next
    case False
    let ?k = "4096 - ?b"
    have k: "nat (4096 - uint (offset mod 4096)) = ?k" using b unfolding ub by linarith
    have n: "?k < n" using False b unfolding ub by linarith
    have rb: "read_blocks g f ino (int n - (4096 - uint (offset mod 4096))) (?blk + 1)
        = map (file_byte g f ino) [unat offset + ?k ..< unat offset + n]"
    proof -
      have "(?blk + 1) * 4096 = unat offset + ?k" using off b by simp
      moreover have "nat (int n - (4096 - uint (offset mod 4096))) = n - ?k"
        using n b unfolding ub by linarith
      moreover have "unat offset + ?k + (n - ?k) = unat offset + n" using n by simp
      ultimately show ?thesis
        using False by (subst read_blocks_bytes) simp_all
    qed
    show ?thesis
      using False n b unfolding k rb by (simp add: fb map_upt_append)
  qed
qed

lemma read_data_spec:
  assumes "ino \<le> num_inodes g f - 1" and "buf \<noteq> 0"
    and "unat (inode_length g f ino) < 2 ^ 31" and "unat len < 2 ^ 31"
  shows "read_data g f ino offset buf len =
    (let bs = take (unat len) (drop (unat offset) (file_content g f ino)) in (int (length bs), bs))"
proof (cases "offset < inode_length g f ino")
  case False
  then have "unat (inode_length g f ino) \<le> unat offset"
    by (simp add: not_less word_le_nat_alt)
  then have "drop (unat offset) (file_content g f ino) = []" by simp
  with False assms(1,2) show ?thesis by (simp add: read_data_def not_less Let_def)
next
  case True
  let ?len1 = "if offset + len > inode_length g f ino then inode_length g f ino - offset else len"
  let ?n = "min (unat len) (unat (inode_length g f ino) - unat offset)"
  have valid: "(ino > num_inodes g f - 1 \<or> buf = 0) = False" using assms(1,2) by (simp add: not_less)
  have inside: "(offset \<ge> inode_length g f ino) = False" using True by (simp add: not_le)
  have len1: "unat ?len1 = ?n" and n: "?n < 2 ^ 31"
    using clipped_length [OF assms(3,4) True] by simp_all
  have s: "sint ?len1 = int ?n" using sint_small [of ?len1] len1 n by simp
  have lt: "unat offset < unat (inode_length g f ino)" using True by (simp add: word_less_nat_alt)
  have bs: "take (unat len) (drop (unat offset) (file_content g f ino))
      = map (file_byte g f ino) [unat offset ..< unat offset + ?n]"
    by (rule file_content_drop [OF lt])
  have "read_data g f ino offset buf len =
      (sint ?len1,
       if sint ?len1 \<le> 4096 - uint (offset mod 4096)
       then fetch g (block_addr f (inode_block g f ino (unat (offset div 4096))) + offset mod 4096)
              (unat ?len1)
       else fetch g (block_addr f (inode_block g f ino (unat (offset div 4096))) + offset mod 4096)
              (nat (4096 - uint (offset mod 4096)))
            @ read_blocks g f ino (sint ?len1 - (4096 - uint (offset mod 4096)))
                (unat (offset div 4096) + 1))"
    unfolding read_data_def Let_def
    by (simp only: valid inside if_False if_same_fst)
  then have "read_data g f ino offset buf len =
      (int ?n, map (file_byte g f ino) [unat offset ..< unat offset + ?n])"
    unfolding s len1 read_data_segments [OF n] .
  then show ?thesis unfolding bs by (simp add: Let_def)
qed

text \<open>
  C23: \<open>read_data\<close> is a correct read of the block file: for a valid inode, a file shorter
  than 2 GB and a request that is not negative as a C \<open>int\<close>, it puts into the buffer exactly the
  requested bytes of the file from the offset on, cut at the end of the file, and returns how
  many they are; at or past the end it reads nothing.
\<close>

theorem read_data_correct:
  assumes "ino \<le> num_inodes g f - 1" and "buf \<noteq> 0"
    and "unat (inode_length g f ino) < 2 ^ 31" and "unat len < 2 ^ 31"
  shows "read_data g f ino offset buf len =
    (let bs = take (unat len) (drop (unat offset) (file_content g f ino)) in (int (length bs), bs))"
  by (rule read_data_spec [OF assms])

text \<open>
  The smallest image for the witnesses: one inode at 4096 with a file of three bytes in the
  first data block, one directory entry.
\<close>

definition sample_image :: image where
  "sample_image = (\<lambda>a. if a = 0 then 1 else if a = 4 then 1 else if a = 4096 then 3
     else if a = 64 then 0x61 else if a = 96 then 2
     else if a = 8192 then 0x61 else if a = 8193 then 0x62 else if a = 8194 then 0x63 else 0)"

definition sample_fs :: filesys where
  "sample_fs = \<lparr>boot_block = 0, inodes = 4096, data_block = 8192,
     global_dentry = \<lparr>file_name = (\<lambda>_. 0), file_type = 0, inode_id = 0\<rparr>\<rparr>"

lemma sample_simps:
  "num_dir_entries sample_image sample_fs = 1" "num_inodes sample_image sample_fs = 1"
  "inode_length sample_image sample_fs 0 = 3"
  by (simp_all add: num_dir_entries_def num_inodes_def inode_length_def word_at_def
      sample_image_def sample_fs_def)

theorem read_data_correct_witness:
  "read_data sample_image sample_fs 0 1 0x8000000 10 =
    (let bs = take (unat (10 :: u32)) (drop (unat (1 :: u32)) (file_content sample_image sample_fs 0))
     in (int (length bs), bs))"
  by (rule read_data_correct) (simp_all add: sample_simps)

section \<open>The directory\<close>

text \<open>
  The directory as its clients see it: names with their entries, in the order of the boot
  block.  A name is what the 32-byte field holds before the first NUL.
\<close>

definition dir_name :: "image \<Rightarrow> filesys \<Rightarrow> nat \<Rightarrow> u8 list" where
  "dir_name g f i = string_in 32 (\<lambda>j. g (dir_entry_addr f (of_nat i) + of_nat j))"

definition directory :: "image \<Rightarrow> filesys \<Rightarrow> (u8 list \<times> dentry) list" where
  "directory g f = map (\<lambda>i. (dir_name g f i, dentry_at g (dir_entry_addr f (of_nat i))))
     [0..<nat (sint (num_dir_entries g f))]"

lemma find_dentry_map_of:
  "find_dentry g f fname i k =
   map_of (map (\<lambda>i. (dir_name g f i, dentry_at g (dir_entry_addr f (of_nat i)))) [i..<i + k])
     (string_in 32 fname)"
proof (induction k arbitrary: i)
  case 0
  then show ?case by simp
next
  case (Suc k)
  have upt: "[i..<i + Suc k] = i # [Suc i..<Suc i + k]" by (simp add: upt_conv_Cons)
  have eq: "strncmp (\<lambda>j. g (dir_entry_addr f (of_nat i) + of_nat j)) fname 32 = 0
      \<longleftrightarrow> dir_name g f i = string_in 32 fname"
    by (simp add: strncmp_def strncmp_from_zero dir_name_def string_in_def)
  show ?case
    unfolding upt find_dentry.simps Let_def eq using Suc.IH [of "Suc i"] by (auto simp del: upt_Suc)
qed

text \<open>
  \<open>read_dentry_by_name\<close> is lookup in the directory: it finds the first entry whose
  name is the string that the first 32 bytes of the argument hold, and fails exactly when
  there is none.
\<close>

lemma read_dentry_by_name_lookup:
  "read_dentry_by_name g f fname = map_of (directory g f) (string_in 32 fname)"
  by (simp add: read_dentry_by_name_def find_dentry_map_of directory_def)

end
