(* ===== verification/Files.thy ===== *)
theory Files
  imports Filesystem
begin

text \<open>
  The file and directory drivers of \<open>student-distrib/filesystem.c\<close>: the functions that the
  file operation tables point to.  What a driver does to one open file is a function of the
  file object (\<open>file_step\<close>, \<open>dir_step\<close>); the driver applies it to the descriptor
  of the current process and stores the bytes in the caller's buffer.

  The locale \<open>sequential\<close> is the contract between these drivers and the programs that
  read a file or a directory piece by piece until they are told that it is over.
\<close>

section \<open>The drivers\<close>

text \<open>\<open>get_current_pcb()->file_descriptor[fd]\<close>\<close>

definition current_file :: "kernel \<Rightarrow> nat \<Rightarrow> file_object" where
  "current_file s fd = file_descriptor (pcb_at s (curr_pcb s)) fd"

definition file_open :: "bytes \<Rightarrow> kernel \<Rightarrow> int \<times> kernel" where
  "file_open filename s =
     (case read_dentry_by_name (ld8 s) (fs s) filename of
        None \<Rightarrow> (-1, s)
      | Some d \<Rightarrow> (0, s\<lparr>fs := (fs s)\<lparr>global_dentry := d\<rparr>\<rparr>))"

definition file_close :: "nat \<Rightarrow> kernel \<Rightarrow> int \<times> kernel" where
  "file_close fd s = (0, s)"

definition file_write :: "nat \<Rightarrow> u32 \<Rightarrow> u32 \<Rightarrow> kernel \<Rightarrow> int \<times> kernel" where
  "file_write fd buf nbytes s = (-1, s)"

definition file_step ::
    "image \<Rightarrow> filesys \<Rightarrow> u32 \<Rightarrow> u32 \<Rightarrow> file_object \<Rightarrow> int \<times> u8 list \<times> file_object" where
  "file_step g f buf nbytes fo =
     (let (read_nbytes, bs) = read_data g f (inode fo) (file_position fo) buf nbytes in
      if read_nbytes < 0 then (-1, bs, fo)
      else (read_nbytes, bs, fo\<lparr>file_position := file_position fo + of_int read_nbytes\<rparr>))"

definition file_read :: "nat \<Rightarrow> u32 \<Rightarrow> u32 \<Rightarrow> kernel \<Rightarrow> int \<times> kernel" where
  "file_read fd buf nbytes s =
     (let (r, bs, fo) = file_step (ld8 s) (fs s) buf nbytes (current_file s fd)
      in (r, upd_pcb (curr_pcb s) (upd_fd fd (\<lambda>_. fo)) (store_bytes buf bs s)))"

definition dir_open :: "bytes \<Rightarrow> kernel \<Rightarrow> int \<times> kernel" where
  "dir_open filename s =
     (case read_dentry_by_name (ld8 s) (fs s) filename of
        None \<Rightarrow> (-1, s)
      | Some d \<Rightarrow> (if file_type d \<noteq> 1 then -1 else 0, s\<lparr>fs := (fs s)\<lparr>global_dentry := d\<rparr>\<rparr>))"

definition dir_close :: "nat \<Rightarrow> kernel \<Rightarrow> int \<times> kernel" where
  "dir_close fd s = (0, s)"

definition dir_step ::
    "image \<Rightarrow> filesys \<Rightarrow> u32 \<Rightarrow> file_object \<Rightarrow> int \<times> u8 list \<times> file_object" where
  "dir_step g f nbytes fo =
     (case read_dentry_by_index g f (file_position fo) of
        None \<Rightarrow> (0, [], fo)
      | Some d \<Rightarrow>
          let fo1 = fo\<lparr>file_position := file_position fo + 1\<rparr> in
          (if sint (file_position fo1) < 63 then sint nbytes else 0,
           map (file_name d) [0..<32], fo1))"

definition dir_read :: "nat \<Rightarrow> u32 \<Rightarrow> u32 \<Rightarrow> kernel \<Rightarrow> int \<times> kernel" where
  "dir_read fd buf nbytes s =
     (let (r, bs, fo) = dir_step (ld8 s) (fs s) nbytes (current_file s fd)
      in (r, upd_pcb (curr_pcb s) (upd_fd fd (\<lambda>_. fo)) (store_bytes buf bs s)))"

definition dir_write :: "nat \<Rightarrow> u32 \<Rightarrow> u32 \<Rightarrow> kernel \<Rightarrow> int \<times> kernel" where
  "dir_write fd buf nbytes s = (-1, s)"

section \<open>The contract of a sequential source\<close>

text \<open>
  The reading loop of a client: one piece after the other until an empty one.  The fuel is
  the number of pieces it is ready to ask for.
\<close>

fun read_all :: "('s \<Rightarrow> 'a list \<times> 's) \<Rightarrow> nat \<Rightarrow> 's \<Rightarrow> 'a list \<times> 's" where
  "read_all rd1 0 s = ([], s)"
| "read_all rd1 (Suc k) s =
     (let (xs, s1) = rd1 s in
      if xs = [] then ([], s1) else let (ys, s2) = read_all rd1 k s1 in (xs @ ys, s2))"

locale sequential =
  fixes piece :: "nat \<Rightarrow> 's \<Rightarrow> 'a list \<times> 's"
    and rest :: "'s \<Rightarrow> 'a list"
    and valid :: "'s \<Rightarrow> bool"
    and grain :: "nat \<Rightarrow> bool"
  assumes piece_data: "valid s \<Longrightarrow> grain n \<Longrightarrow> fst (piece n s) = take n (rest s)"
    and piece_rest: "valid s \<Longrightarrow> grain n \<Longrightarrow> rest (snd (piece n s)) = drop n (rest s)"
    and piece_valid: "valid s \<Longrightarrow> grain n \<Longrightarrow> valid (snd (piece n s))"
    and grain_pos: "grain n \<Longrightarrow> 0 < n"
begin

text \<open>Enough pieces give all of what is left, and leave nothing.\<close>

lemma all_read:
  "valid s \<Longrightarrow> grain n \<Longrightarrow> length (rest s) \<le> k * n \<Longrightarrow>
   fst (read_all (piece n) k s) = rest s \<and> rest (snd (read_all (piece n) k s)) = []"
proof (induction k arbitrary: s)
  case 0
  then show ?case by simp
next
  case (Suc k)
  obtain xs s1 where p: "piece n s = (xs, s1)" by (cases "piece n s")
  have xs: "xs = take n (rest s)" and r1: "rest s1 = drop n (rest s)" and v1: "valid s1"
    using piece_data [OF Suc.prems(1,2)] piece_rest [OF Suc.prems(1,2)]
      piece_valid [OF Suc.prems(1,2)] by (simp_all add: p)
  show ?case
  proof (cases "rest s = []")
    case True
    with xs r1 show ?thesis by (simp add: p)
  next
    case False
    then have "xs \<noteq> []" using xs grain_pos [OF Suc.prems(2)] by simp
    moreover have "length (rest s1) \<le> k * n" using r1 Suc.prems(3) by simp
    ultimately show ?thesis
      using Suc.IH [OF v1 Suc.prems(2)] xs r1 by (simp add: p split_beta)
  qed
qed

end

section \<open>Regular files\<close>

definition file_piece ::
    "image \<Rightarrow> filesys \<Rightarrow> u32 \<Rightarrow> nat \<Rightarrow> file_object \<Rightarrow> u8 list \<times> file_object" where
  "file_piece g f buf n fo = snd (file_step g f buf (of_nat n) fo)"

definition file_rest :: "image \<Rightarrow> filesys \<Rightarrow> file_object \<Rightarrow> u8 list" where
  "file_rest g f fo = drop (unat (file_position fo)) (file_content g f (inode fo))"

definition readable_file :: "image \<Rightarrow> filesys \<Rightarrow> u32 \<Rightarrow> file_object \<Rightarrow> bool" where
  "readable_file g f buf fo \<longleftrightarrow> inode fo \<le> num_inodes g f - 1 \<and> buf \<noteq> 0 \<and>
     unat (inode_length g f (inode fo)) < 2 ^ 31"

definition chunk_size :: "nat \<Rightarrow> bool" where
  "chunk_size n \<longleftrightarrow> 0 < n \<and> n < 2 ^ 31"

lemma chunk_size_unat: "chunk_size n \<Longrightarrow> unat (of_nat n :: u32) = n"
  by (rule unat_of_nat_u32) (simp add: chunk_size_def)

lemma file_step_valid:
  assumes "readable_file g f buf fo" and "unat n < 2 ^ 31"
  defines "bs \<equiv> take (unat n) (file_rest g f fo)"
  shows "file_step g f buf n fo =
    (int (length bs), bs, fo\<lparr>file_position := file_position fo + of_nat (length bs)\<rparr>)"
proof -
  have "read_data g f (inode fo) (file_position fo) buf n = (int (length bs), bs)"
    using read_data_spec [of "inode fo" g f buf n "file_position fo"] assms(1,2)
    unfolding bs_def file_rest_def readable_file_def by (simp add: Let_def)
  then show ?thesis by (simp add: file_step_def)
qed

lemma file_position_advance:
  assumes "readable_file g f buf fo" and "xs = take k (file_rest g f fo)"
  shows "file_rest g f (fo\<lparr>file_position := file_position fo + of_nat (length xs)\<rparr>)
    = drop (length xs) (file_rest g f fo)"
proof (cases "xs = []")
  case True
  then show ?thesis by (simp add: file_rest_def)
next
  case False
  let ?L = "unat (inode_length g f (inode fo))"
  have L: "?L < 2 ^ 31" using assms(1) by (simp add: readable_file_def)
  have "length xs \<le> ?L - unat (file_position fo)"
    unfolding assms(2) file_rest_def by simp
  with False have le: "unat (file_position fo) + length xs \<le> ?L"
    by (cases "unat (file_position fo) \<le> ?L") auto
  have "length xs < 2 ^ 32" using le L by simp
  then have u: "unat (of_nat (length xs) :: u32) = length xs" by (rule unat_of_nat_u32)
  have "unat (file_position fo) + unat (of_nat (length xs) :: u32) < 2 ^ LENGTH(32)"
    unfolding u using le L by simp
  then have "unat (file_position fo + of_nat (length xs)) = unat (file_position fo) + length xs"
    using unat_add_lem [THEN iffD1] u by metis
  then show ?thesis by (simp add: file_rest_def add.commute)
qed

lemma readable_file_position [simp]:
  "readable_file g f buf (fo\<lparr>file_position := p\<rparr>) = readable_file g f buf fo"
  by (simp add: readable_file_def)

interpretation fl: sequential "file_piece g f buf" "file_rest g f" "readable_file g f buf" chunk_size
  for g f buf
proof
  fix fo n assume v: "readable_file g f buf fo" and c: "chunk_size n"
  let ?bs = "take n (file_rest g f fo)"
  have "unat (of_nat n :: u32) < 2 ^ 31" using c by (simp only: chunk_size_unat) (simp add: chunk_size_def)
  note step = file_step_valid [OF v this, unfolded chunk_size_unat [OF c]]
  show "fst (file_piece g f buf n fo) = ?bs" by (simp only: file_piece_def step) simp
  show "file_rest g f (snd (file_piece g f buf n fo)) = drop n (file_rest g f fo)"
    using file_position_advance [OF v, of ?bs n]
    by (simp only: file_piece_def step) (simp add: min_def)
  show "readable_file g f buf (snd (file_piece g f buf n fo))"
    using v by (simp only: file_piece_def step) simp
next
  fix n assume "chunk_size n"
  then show "0 < n" by (simp add: chunk_size_def)
qed

text \<open>
  C33: a program that reads an open file in pieces of any size until it gets an empty piece
  obtains exactly the rest of the file from the current position, and the position ends up at
  the end of the file.
\<close>

theorem file_read_to_end:
  assumes "readable_file g f buf fo" and "chunk_size n"
    and "length (file_rest g f fo) \<le> k * n"
  shows "fst (read_all (file_piece g f buf n) k fo) = file_rest g f fo \<and>
    file_rest g f (snd (read_all (file_piece g f buf n) k fo)) = []"
  by (rule fl.all_read [OF assms])

theorem file_read_to_end_witness:
  "fst (read_all (file_piece sample_image sample_fs 0x8000000 2) 2 null_file)
     = file_rest sample_image sample_fs null_file \<and>
   file_rest sample_image sample_fs
     (snd (read_all (file_piece sample_image sample_fs 0x8000000 2) 2 null_file)) = []"
  by (rule file_read_to_end)
    (simp_all add: readable_file_def chunk_size_def file_rest_def null_file_def sample_simps)

section \<open>Directories\<close>

text \<open>
  A directory is a sequence of 32-byte names.  A reader asks for one at a time and takes a
  return value of 0 for the end.
\<close>

definition dir_piece ::
    "image \<Rightarrow> filesys \<Rightarrow> u32 \<Rightarrow> nat \<Rightarrow> file_object \<Rightarrow> u8 list list \<times> file_object" where
  "dir_piece g f nbytes n fo =
     (let (r, bs, fo1) = dir_step g f nbytes fo in (if r = 0 then [] else [bs], fo1))"

definition dir_names :: "image \<Rightarrow> filesys \<Rightarrow> u8 list list" where
  "dir_names g f = map (\<lambda>i. fetch g (dir_entry_addr f (of_nat i)) 32)
     [0..<unat (num_dir_entries g f)]"

definition dir_rest :: "image \<Rightarrow> filesys \<Rightarrow> file_object \<Rightarrow> u8 list list" where
  "dir_rest g f fo = drop (unat (file_position fo)) (dir_names g f)"

definition readable_dir :: "image \<Rightarrow> filesys \<Rightarrow> u32 \<Rightarrow> file_object \<Rightarrow> bool" where
  "readable_dir g f nbytes fo \<longleftrightarrow> nbytes \<noteq> 0 \<and> num_dir_entries g f \<noteq> 0 \<and>
     num_dir_entries g f \<le> 62 \<and> file_position fo \<le> num_dir_entries g f"

lemma dentry_at_name: "map (file_name (dentry_at g a)) [0..<32] = fetch g a 32"
  by (rule nth_equalityI) (simp_all add: dentry_at_def)

lemma dir_step_end:
  assumes "readable_dir g f nbytes fo" and "file_position fo = num_dir_entries g f"
  shows "dir_step g f nbytes fo = (0, [], fo)"
proof -
  have "num_dir_entries g f - 1 < num_dir_entries g f"
    using assms(1) by (simp add: readable_dir_def word_less_nat_alt unat_minus_one unat_gt_0)
  then show ?thesis by (simp add: dir_step_def read_dentry_by_index_def assms(2))
qed

lemma dir_position_bounds:
  assumes "readable_dir g f nbytes fo" and "file_position fo \<noteq> num_dir_entries g f"
  shows "file_position fo < num_dir_entries g f"
    and "unat (file_position fo + 1) = unat (file_position fo) + 1"
    and "sint (file_position fo + 1) < 63"
    and "file_position fo + 1 \<le> num_dir_entries g f"
proof -
  show lt: "file_position fo < num_dir_entries g f"
    using assms by (simp add: readable_dir_def order_less_le)
  have "num_dir_entries g f \<le> 62" using assms(1) by (simp add: readable_dir_def)
  then have n: "unat (num_dir_entries g f) \<le> 62" by (simp add: word_le_nat_alt)
  have p: "unat (file_position fo) < unat (num_dir_entries g f)"
    using lt by (simp add: word_less_nat_alt)
  then have "unat (file_position fo) + unat (1 :: u32) < 2 ^ LENGTH(32)" using n by simp
  then have "unat (file_position fo + 1) = unat (file_position fo) + unat (1 :: u32)"
    by (rule unat_add_lem [THEN iffD1])
  then show u: "unat (file_position fo + 1) = unat (file_position fo) + 1" by simp
  then have "unat (file_position fo + 1) < 63" using p n by linarith
  moreover from this have "unat (file_position fo + 1) < 2 ^ 31" by simp
  ultimately show "sint (file_position fo + 1) < 63" by (simp only: sint_small)
  show "file_position fo + 1 \<le> num_dir_entries g f"
    unfolding word_le_nat_alt u using p by linarith
qed

lemma dir_step_next:
  assumes "readable_dir g f nbytes fo" and "file_position fo \<noteq> num_dir_entries g f"
  shows "dir_step g f nbytes fo =
    (sint nbytes, fetch g (dir_entry_addr f (file_position fo)) 32,
     fo\<lparr>file_position := file_position fo + 1\<rparr>)"
proof -
  have "num_dir_entries g f \<noteq> 0" using assms(1) by (simp add: readable_dir_def)
  then have "file_position fo \<le> num_dir_entries g f - 1"
    using dir_position_bounds(1) [OF assms]
    by (simp add: word_le_nat_alt word_less_nat_alt unat_minus_one)
  then have "\<not> file_position fo > num_dir_entries g f - 1" by (simp only: not_less)
  then show ?thesis
    using dir_position_bounds(3) [OF assms]
    by (simp add: dir_step_def read_dentry_by_index_def dentry_at_name Let_def)
qed

interpretation dr: sequential "dir_piece g f nbytes" "dir_rest g f" "readable_dir g f nbytes"
  "\<lambda>n. n = 1" for g f nbytes
proof
  fix fo n assume v: "readable_dir g f nbytes fo" and n: "n = (1 :: nat)"
  let ?p = "unat (file_position fo)"
  have all: "fst (dir_piece g f nbytes n fo) = take n (dir_rest g f fo) \<and>
      dir_rest g f (snd (dir_piece g f nbytes n fo)) = drop n (dir_rest g f fo) \<and>
      readable_dir g f nbytes (snd (dir_piece g f nbytes n fo))"
  proof (cases "file_position fo = num_dir_entries g f")
    case True
    then have "dir_rest g f fo = []" by (simp add: dir_rest_def dir_names_def)
    with v show ?thesis by (simp add: dir_piece_def dir_step_end [OF v True])
  next
    case False
    have "?p < unat (num_dir_entries g f)"
      using dir_position_bounds(1) [OF v False] by (simp add: word_less_nat_alt)
    then have "dir_rest g f fo = fetch g (dir_entry_addr f (file_position fo)) 32
        # drop (?p + 1) (dir_names g f)"
      unfolding dir_rest_def by (subst Cons_nth_drop_Suc [symmetric]) (simp_all add: dir_names_def)
    moreover have "sint nbytes \<noteq> 0" using v by (simp add: readable_dir_def sint_eq_0)
    ultimately show ?thesis
      using v dir_position_bounds(2,4) [OF v False] n
      by (simp add: dir_piece_def dir_step_next [OF v False] dir_rest_def readable_dir_def)
  qed
  then show "fst (dir_piece g f nbytes n fo) = take n (dir_rest g f fo)"
    and "dir_rest g f (snd (dir_piece g f nbytes n fo)) = drop n (dir_rest g f fo)"
    and "readable_dir g f nbytes (snd (dir_piece g f nbytes n fo))" by simp_all
qed simp

text \<open>
  A program that reads a freshly opened directory entry by entry until it is told 0
  obtains the 32-byte names of all entries, in order, when the directory has at most 62.
\<close>

lemma dir_read_to_end:
  assumes "readable_dir g f nbytes fo" and "file_position fo = 0"
    and "unat (num_dir_entries g f) \<le> k"
  shows "fst (read_all (dir_piece g f nbytes 1) k fo) = dir_names g f"
  using dr.all_read [OF assms(1) refl, of k] assms(2,3) by (simp add: dir_rest_def dir_names_def)

lemma dir_read_to_end_example:
  "fst (read_all (dir_piece sample_image sample_fs 32 1) 1 null_file)
     = dir_names sample_image sample_fs"
  by (rule dir_read_to_end) (simp_all add: readable_dir_def null_file_def sample_simps)

text \<open>
  With the 63 entries that a boot block has room for, the last name is reported as the end of
  the directory: the call that copies it returns 0.
\<close>

lemma dir_step_last_of_63:
  assumes "num_dir_entries g f = 63" and "file_position fo = 62"
  shows "fst (dir_step g f nbytes fo) = 0"
    and "fst (snd (dir_step g f nbytes fo)) = fetch g (dir_entry_addr f 62) 32"
  by (simp_all add: dir_step_def read_dentry_by_index_def assms dentry_at_name Let_def)

section \<open>What a read of the image depends on\<close>

text \<open>
  The bytes of the image that a read of inode \<open>ino\<close> looks at, and those of the directory, are at
  addresses in \<open>P\<close>.  A store elsewhere leaves the file and the directory as they are.
\<close>

definition file_within :: "(u32 \<Rightarrow> bool) \<Rightarrow> image \<Rightarrow> filesys \<Rightarrow> u32 \<Rightarrow> bool" where
  "file_within P g f ino \<longleftrightarrow>
     (\<forall>k < 8. P (boot_block f + of_nat k)) \<and>
     (\<forall>k < 4096. P (inodes f + 4096 * ino + of_nat k)) \<and>
     (\<forall>k < unat (inode_length g f ino).
        P (block_addr f (inode_block g f ino (k div 4096)) + of_nat (k mod 4096)) \<and>
        4 + 4 * (k div 4096) < 4093)"

definition directory_within :: "(u32 \<Rightarrow> bool) \<Rightarrow> image \<Rightarrow> filesys \<Rightarrow> bool" where
  "directory_within P g f \<longleftrightarrow>
     sint (num_dir_entries g f) \<le> 63 \<and> (\<forall>k < 4096. P (boot_block f + of_nat k))"

definition same_file :: "image \<Rightarrow> image \<Rightarrow> filesys \<Rightarrow> u32 \<Rightarrow> bool" where
  "same_file g h f ino \<longleftrightarrow> num_inodes g f = num_inodes h f \<and>
     inode_length g f ino = inode_length h f ino \<and> file_content g f ino = file_content h f ino"

lemma word_at_same: "(\<And>k. k < 4 \<Longrightarrow> g (a + of_nat k) = h (a + of_nat k)) \<Longrightarrow> word_at g a = word_at h a"
proof -
  assume eq: "\<And>k. k < 4 \<Longrightarrow> g (a + of_nat k) = h (a + of_nat k)"
  show "word_at g a = word_at h a"
    using eq [of 0] eq [of 1] eq [of 2] eq [of 3] by (simp add: word_at_def)
qed

lemma inode_block_within:
  assumes w: "file_within P g f ino" and out: "\<And>a. P a \<Longrightarrow> h a = g a" and b: "4 + 4 * b < 4093"
  shows "inode_block h f ino b = inode_block g f ino b"
  unfolding inode_block_def
proof (rule word_at_same)
  fix j :: nat assume "j < 4"
  then have "4 + 4 * b + j < 4096" using b by linarith
  then have "P (inodes f + 4096 * ino + of_nat (4 + 4 * b + j))" using w unfolding file_within_def by blast
  from out [OF this] show "h (inodes f + 4096 * ino + 4 + 4 * of_nat b + of_nat j) =
      g (inodes f + 4096 * ino + 4 + 4 * of_nat b + of_nat j)" by (simp add: add.assoc)
qed

lemma same_file_within:
  assumes "file_within P g f ino" and out: "\<And>a. P a \<Longrightarrow> h a = g a"
  shows "same_file g h f ino"
proof -
  have boot: "P (boot_block f + of_nat k)" if "k < 8" for k
    using assms(1) that by (simp add: file_within_def)
  have node: "P (inodes f + 4096 * ino + of_nat k)" if "k < 4096" for k
    using assms(1) that by (simp add: file_within_def)
  have n: "num_inodes g f = num_inodes h f"
    unfolding num_inodes_def
    by (rule word_at_same) (use boot [of "4 + k" for k] out in \<open>simp add: add.assoc\<close>)
  have l: "inode_length g f ino = inode_length h f ino"
    unfolding inode_length_def by (rule word_at_same) (use node out in simp)
  have "file_content g f ino = file_content h f ino"
    unfolding file_content_def l [symmetric]
  proof (rule map_cong [OF refl])
    fix k assume "k \<in> set [0..<unat (inode_length g f ino)]"
    then have k: "P (block_addr f (inode_block g f ino (k div 4096)) + of_nat (k mod 4096))"
      "4 + 4 * (k div 4096) < 4093"
      using assms(1) by (simp_all add: file_within_def)
    then show "file_byte g f ino k = file_byte h f ino k"
      using out [OF k(1)] inode_block_within [OF assms k(2)] by (simp add: file_byte_def)
  qed
  with n l show ?thesis by (simp add: same_file_def)
qed

lemma file_within_same:
  assumes w: "file_within P g f ino" and out: "\<And>a. P a \<Longrightarrow> h a = g a"
  shows "file_within P h f ino"
proof -
  have "inode_length g f ino = inode_length h f ino"
    using same_file_within [OF w out] by (simp add: same_file_def)
  then show ?thesis
    using w inode_block_within [OF w out] by (fastforce simp: file_within_def)
qed

lemma file_within_mono:
  assumes "file_within P g f ino" and "\<And>a. P a \<Longrightarrow> Q a"
  shows "file_within Q g f ino"
  using assms by (simp add: file_within_def)

lemma directory_within_same:
  assumes "directory_within P g f" and out: "\<And>a. P a \<Longrightarrow> h a = g a"
  shows "directory_within P h f"
proof -
  have "num_dir_entries h f = num_dir_entries g f"
    unfolding num_dir_entries_def by (rule word_at_same) (use assms in \<open>simp add: directory_within_def\<close>)
  then show ?thesis using assms(1) by (simp add: directory_within_def)
qed

lemma same_directory_within:
  assumes "directory_within P g f" and out: "\<And>a. P a \<Longrightarrow> h a = g a"
  shows "directory h f = directory g f"
proof -
  have boot: "h (boot_block f + of_nat k) = g (boot_block f + of_nat k)" if "k < 4096" for k
    using assms that by (simp add: directory_within_def)
  have n: "num_dir_entries h f = num_dir_entries g f"
    unfolding num_dir_entries_def by (rule word_at_same) (use boot in simp)
  have same: "h (dir_entry_addr f (of_nat i) + of_nat k) = g (dir_entry_addr f (of_nat i) + of_nat k)"
    if "i < 63" "k < 64" for i k
    using boot [of "64 + 64 * i + k"] that by (simp add: dir_entry_addr_def add.assoc)
  have entry: "dir_name h f i = dir_name g f i \<and>
      dentry_at h (dir_entry_addr f (of_nat i)) = dentry_at g (dir_entry_addr f (of_nat i))" if "i < 63" for i
  proof -
    have "fetch h (dir_entry_addr f (of_nat i)) 32 = fetch g (dir_entry_addr f (of_nat i)) 32"
      by (rule nth_equalityI) (use same [OF that] in simp_all)
    moreover have "word_at h (dir_entry_addr f (of_nat i) + of_nat b) = word_at g (dir_entry_addr f (of_nat i) + of_nat b)"
      if "b < 60" for b
      by (rule word_at_same) (use same [OF \<open>i < 63\<close>, of "b + k" for k] that in \<open>simp add: add.assoc\<close>)
    from this [of 32] this [of 36] have "word_at h (dir_entry_addr f (of_nat i) + 32) = word_at g (dir_entry_addr f (of_nat i) + 32)"
      "word_at h (dir_entry_addr f (of_nat i) + 36) = word_at g (dir_entry_addr f (of_nat i) + 36)" by simp_all
    moreover have "dir_name h f i = dir_name g f i"
      unfolding dir_name_def string_in_def
      by (rule arg_cong [where f = "takeWhile _"], rule map_cong [OF refl]) (use same [OF that] in simp)
    ultimately show ?thesis by (simp add: dentry_at_def)
  qed
  show ?thesis
    unfolding directory_def n
    by (rule map_cong [OF refl]) (use entry assms(1) in \<open>auto simp: directory_within_def\<close>)
qed

end
