(* ===== verification/Console.thy ===== *)
theory Console
  imports Kernel_State
begin

text \<open>
  The text console of \<open>student-distrib/lib.c\<close>: \<open>clear\<close>, \<open>putc\<close>, \<open>puts\<close>, the
  functions that save and load the console of a terminal, and the cursor accessors.
  \<open>putc\<close> is one function with jumps to a common end in C; here each of its cases is a
  function and \<open>putc\<close> composes them in the order of the tests.

  The console keeps a log of the characters shown (\<open>display_buf\<close>) to undo a tab or a line
  break on backspace.  \<open>screen_ok\<close> says that the cursor is on the screen and the log index
  inside the log; every character but a backspace preserves it.
\<close>

section \<open>Cells of the screen\<close>

text \<open>\<open>video_mem + ((NUM_COLS * y + x) << 1)\<close>\<close>

definition cell_addr :: "console \<Rightarrow> int \<Rightarrow> int \<Rightarrow> u32" where
  "cell_addr c x y = video_mem c + of_int (2 * (80 * y + x))"

definition put_cell :: "int \<Rightarrow> int \<Rightarrow> u8 \<Rightarrow> kernel \<Rightarrow> kernel" where
  "put_cell x y ch s =
     (let a = cell_addr (con s) x y in st8 (a + 1) 0x7 (st8 a ch s))"

definition draw_here :: "u8 \<Rightarrow> kernel \<Rightarrow> kernel" where
  "draw_here ch s = put_cell (screen_x (con s)) (screen_y (con s)) ch s"

section \<open>Clearing and the cursor\<close>

definition clear :: "kernel \<Rightarrow> kernel" where
  "clear s =
     (let s1 = for_loop 2000 (\<lambda>i t. put_cell (int i) 0 0x20 t) s;
          s2 = upd_con (\<lambda>c. c\<lparr>screen_x := 0, screen_y := 0\<rparr>) s1
      in upd_term (curr_terminal_num s2) (\<lambda>t. t\<lparr>x_cursor := 0, y_cursor := 0\<rparr>) s2)"

definition set_keyb_pressed :: "kernel \<Rightarrow> kernel" where
  "set_keyb_pressed s = upd_con (\<lambda>c. c\<lparr>keyb_pressed := True\<rparr>) s"

definition read_screen_x :: "kernel \<Rightarrow> int" where "read_screen_x s = screen_x (con s)"
definition read_screen_y :: "kernel \<Rightarrow> int" where "read_screen_y s = screen_y (con s)"

definition update_screen_x_y :: "int \<Rightarrow> int \<Rightarrow> kernel \<Rightarrow> kernel" where
  "update_screen_x_y x y s = upd_con (\<lambda>c. c\<lparr>screen_x := x, screen_y := y\<rparr>) s"

definition update_video_mem :: "u32 \<Rightarrow> kernel \<Rightarrow> kernel" where
  "update_video_mem a s = upd_con (\<lambda>c. c\<lparr>video_mem := a\<rparr>) s"

definition test_interrupts :: "kernel \<Rightarrow> kernel" where
  "test_interrupts s = for_loop 2000 (\<lambda>i t. let a = video_mem (con t) + of_nat (2 * i) in
     st8 a (ld8 t a + 1) t) s"

section \<open>Saving and loading the console of a terminal\<close>

definition load_terminal_screen_settings :: "nat \<Rightarrow> kernel \<Rightarrow> kernel" where
  "load_terminal_screen_settings i s =
     (let t = terminal_list s i in
      upd_con (\<lambda>c. c\<lparr>
        prev_screen_x := copy_loop 25 (term_prev_screen_x t) (prev_screen_x c),
        line_is_full := copy_loop 25 (term_line_is_full t) (line_is_full c),
        display_buf := copy_loop 2000 (term_display_buf t) (display_buf c),
        i_prev_x := term_i_prev_x t,
        display_buf_index := term_display_buf_index t\<rparr>) s)"

definition restore_terminal_screen_settings :: "nat \<Rightarrow> kernel \<Rightarrow> kernel" where
  "restore_terminal_screen_settings i s =
     (let c = con s in
      upd_term i (\<lambda>t. t\<lparr>
        term_prev_screen_x := copy_loop 25 (prev_screen_x c) (term_prev_screen_x t),
        term_line_is_full := copy_loop 25 (line_is_full c) (term_line_is_full t),
        term_display_buf := copy_loop 2000 (display_buf c) (term_display_buf t),
        term_i_prev_x := i_prev_x c,
        term_display_buf_index := display_buf_index c\<rparr>) s)"

section \<open>putc\<close>

definition get_display_tid :: "kernel \<Rightarrow> nat" where
  "get_display_tid s = curr_terminal_num s"

definition get_scheduled_tid :: "kernel \<Rightarrow> nat" where
  "get_scheduled_tid s = tid (terminal_list s (scheduled_terminal s))"

text \<open>The log is full: start it again.\<close>

definition reset_log :: "console \<Rightarrow> console" where
  "reset_log c =
     (if display_buf_index c = 2000
      then c\<lparr>display_buf_index := 0, display_buf := int_fill_loop 2000 0 (display_buf c)\<rparr>
      else c)"

text \<open>\<open>display_buf[--display_buf_index] = 0\<close> and \<open>display_buf[display_buf_index++] = c\<close>\<close>

definition pop_log :: "console \<Rightarrow> console" where
  "pop_log c = c\<lparr>display_buf_index := display_buf_index c - 1,
     display_buf := (display_buf c)(display_buf_index c - 1 := 0)\<rparr>"

definition push_log :: "u8 \<Rightarrow> console \<Rightarrow> console" where
  "push_log ch c = c\<lparr>display_buf := (display_buf c)(display_buf_index c := ch),
     display_buf_index := display_buf_index c + 1\<rparr>"

definition backspace_move :: "console \<Rightarrow> console" where
  "backspace_move c =
     (if display_buf c (display_buf_index c - 1) = 9
      then (let c1 = pop_log c in c1\<lparr>screen_x := screen_x c1 - 4\<rparr>)
      else if screen_x c = 0 \<and> screen_y c \<noteq> 0
      then if line_is_full c (screen_y c - 1) = 1
           then let c1 = c\<lparr>screen_x := 79, screen_y := screen_y c - 1\<rparr>
                in pop_log (c1\<lparr>line_is_full := (line_is_full c1)(screen_y c1 := 0)\<rparr>)
           else let c1 = pop_log c
                in c1\<lparr>screen_y := screen_y c1 - 1,
                      screen_x := prev_screen_x c1 (screen_y c1 - 1)\<rparr>
      else if screen_x c = 0 \<and> screen_y c = 0 then pop_log c
      else pop_log (c\<lparr>screen_x := screen_x c - 1\<rparr>))"

definition putc_backspace :: "kernel \<Rightarrow> kernel" where
  "putc_backspace s = upd_con backspace_move (draw_here 0x20 s)"

text \<open>Scrolling: the text moves up one row, the row tables move along, the last row is blank.\<close>

definition scroll_tables :: "console \<Rightarrow> console" where
  "scroll_tables c = c\<lparr>line_is_full := shift_loop 24 (line_is_full c),
     prev_screen_x := shift_loop 24 (prev_screen_x c)\<rparr>"

definition scroll_text :: "kernel \<Rightarrow> kernel" where
  "scroll_text s = s\<lparr>mem := memmove (tlb s) (mem s) (video_mem (con s))
     (video_mem (con s) + 160) 3840\<rparr>"

definition clear_last_row :: "kernel \<Rightarrow> kernel" where
  "clear_last_row s = for_loop 80 (\<lambda>i t. put_cell (int i) 24 0x20 t) s"

definition putc_enter :: "u8 \<Rightarrow> kernel \<Rightarrow> kernel" where
  "putc_enter ch s =
     (let s1 = upd_con (push_log ch) (draw_here 0x20 s);
          y = screen_y (con s1)
      in if y = 24
         then let s2 = upd_con (\<lambda>c. c\<lparr>prev_screen_x := (prev_screen_x c)(y := screen_x c),
                                     screen_x := 0\<rparr>) s1;
                  s3 = upd_con scroll_tables (scroll_text s2)
              in clear_last_row s3
         else upd_con (\<lambda>c. c\<lparr>prev_screen_x := (prev_screen_x c)(y := screen_x c),
                            screen_y := y + 1, screen_x := 0\<rparr>) s1)"

definition putc_tab :: "u8 \<Rightarrow> kernel \<Rightarrow> kernel" where
  "putc_tab ch s =
     for_loop 4 (\<lambda>i t. upd_con (\<lambda>c. c\<lparr>screen_x := screen_x c + 1\<rparr>) (draw_here 0x20 t))
       (upd_con (push_log ch) s)"

definition putc_normal :: "u8 \<Rightarrow> kernel \<Rightarrow> kernel" where
  "putc_normal ch s =
     (let s1 = upd_con (\<lambda>c. push_log ch (c\<lparr>screen_x := screen_x c + 1\<rparr>)) (draw_here ch s)
      in if screen_x (con s1) = 80
         then if screen_y (con s1) < 24
              then upd_con (\<lambda>c. c\<lparr>line_is_full := (line_is_full c)(screen_y c := 1),
                                 screen_y := screen_y c + 1, screen_x := 0\<rparr>) s1
              else let s2 = upd_con (\<lambda>c. c\<lparr>screen_x := 0, screen_y := 24\<rparr>) s1;
                       s3 = upd_con scroll_tables (scroll_text s2);
                       s4 = upd_con (\<lambda>c. c\<lparr>line_is_full := (line_is_full c)(23 := 1)\<rparr>) s3
                   in clear_last_row s4
         else s1)"

text \<open>The common end, label \<open>draw_\<close>.\<close>

definition putc_draw :: "nat \<Rightarrow> kernel \<Rightarrow> kernel" where
  "putc_draw i s =
     (let s1 = draw_here 0x5F s in
      upd_term i (\<lambda>t. t\<lparr>x_cursor := screen_x (con s1), y_cursor := screen_y (con s1)\<rparr>) s1)"

definition putc :: "u8 \<Rightarrow> kernel \<Rightarrow> kernel" where
  "putc ch s =
     (let i = (if keyb_pressed (con s) then get_display_tid s else get_scheduled_tid s);
          s1 = upd_con (\<lambda>c. reset_log (c\<lparr>keyb_pressed := False\<rparr>)) s
      in if ch = 8 then putc_draw i (putc_backspace s1)
         else if ch = 10 \<or> ch = 13 then putc_draw i (putc_enter ch s1)
         else if ch = 9 then
           (if screen_x (con s1) \<ge> 75 then s1 else putc_draw i (putc_tab ch s1))
         else putc_draw i (putc_normal ch s1))"

section \<open>What the console leaves alone\<close>

text \<open>The state with the screen, the console and the terminal cursors blanked out.\<close>

definition beside_screen :: "kernel \<Rightarrow> kernel" where
  "beside_screen s = s\<lparr>mem := (\<lambda>_. 0), con := con static_kernel,
     terminal_list := (\<lambda>i. (terminal_list s i)\<lparr>x_cursor := 0, y_cursor := 0\<rparr>)\<rparr>"

lemma beside_st8 [simp]: "beside_screen (st8 a v s) = beside_screen s"
  by (simp add: beside_screen_def st8_def)

lemma beside_con [simp]: "beside_screen (s\<lparr>con := c\<rparr>) = beside_screen s"
  by (simp add: beside_screen_def)

lemma beside_mem [simp]: "beside_screen (s\<lparr>mem := m\<rparr>) = beside_screen s"
  by (simp add: beside_screen_def)

lemma beside_cursor [simp]:
  "beside_screen (upd_term i (\<lambda>t. t\<lparr>x_cursor := x, y_cursor := y\<rparr>) s) = beside_screen s"
  by (simp add: beside_screen_def upd_term_def fun_eq_iff)

lemma beside_put_cell [simp]: "beside_screen (put_cell x y ch s) = beside_screen s"
  by (simp add: put_cell_def Let_def)

lemma beside_draw [simp]: "beside_screen (draw_here ch s) = beside_screen s"
  by (simp add: draw_here_def)

lemma beside_last_row [simp]: "beside_screen (clear_last_row s) = beside_screen s"
  unfolding clear_last_row_def by (rule for_loop_frame) simp

lemma beside_scroll [simp]: "beside_screen (scroll_text s) = beside_screen s"
  by (simp add: scroll_text_def)

lemma beside_tab [simp]: "beside_screen (putc_tab ch s) = beside_screen s"
proof -
  have "beside_screen (putc_tab ch s) = beside_screen (upd_con (push_log ch) s)"
    unfolding putc_tab_def by (rule for_loop_frame) (simp only: beside_con beside_draw)
  then show ?thesis by simp
qed

lemma beside_putc [simp]: "beside_screen (putc ch s) = beside_screen s"
  by (simp add: putc_def putc_backspace_def putc_enter_def putc_normal_def putc_draw_def Let_def)

lemma beside_clear [simp]: "beside_screen (clear s) = beside_screen s"
proof -
  have "beside_screen (for_loop 2000 (\<lambda>i t. put_cell (int i) 0 0x20 t) s) = beside_screen s"
    by (rule for_loop_frame) simp
  then show ?thesis by (simp add: clear_def Let_def)
qed

lemma beside_eqD:
  assumes "beside_screen s = beside_screen t"
  shows "tlb s = tlb t" "pg s = pg t" "kb s = kb t" "irqs s = irqs t" "outs s = outs t"
    "inport s = inport t" "intr_flag s = intr_flag t"
    "curr_terminal_num s = curr_terminal_num t"
    "scheduled_terminal_num s = scheduled_terminal_num t"
    "scheduled_terminal s = scheduled_terminal t"
    "terminal_read_enable_signal s = terminal_read_enable_signal t"
    "terminal_buf_index s = terminal_buf_index t" "pcb_at s = pcb_at t" "pid_var s = pid_var t"
    "curr_pcb s = curr_pcb t" "tss_reg_esp0 s = tss_reg_esp0 t" "tss_reg_ss0 s = tss_reg_ss0 t"
    "fs s = fs t" "rtc_interrupt_occurred s = rtc_interrupt_occurred t"
    "rtc_interrupt_counter s = rtc_interrupt_counter t" "line_rows s = line_rows t"
  using arg_cong [OF assms, of tlb] arg_cong [OF assms, of pg] arg_cong [OF assms, of kb]
    arg_cong [OF assms, of irqs] arg_cong [OF assms, of outs] arg_cong [OF assms, of inport]
    arg_cong [OF assms, of intr_flag] arg_cong [OF assms, of curr_terminal_num]
    arg_cong [OF assms, of scheduled_terminal_num] arg_cong [OF assms, of scheduled_terminal]
    arg_cong [OF assms, of terminal_read_enable_signal]
    arg_cong [OF assms, of terminal_buf_index] arg_cong [OF assms, of pcb_at]
    arg_cong [OF assms, of pid_var] arg_cong [OF assms, of curr_pcb]
    arg_cong [OF assms, of tss_reg_esp0] arg_cong [OF assms, of tss_reg_ss0]
    arg_cong [OF assms, of fs] arg_cong [OF assms, of rtc_interrupt_occurred]
    arg_cong [OF assms, of rtc_interrupt_counter] arg_cong [OF assms, of line_rows]
  by (simp_all add: beside_screen_def)

lemma beside_terminalD:
  assumes "beside_screen s = beside_screen t"
  shows "tid (terminal_list s i) = tid (terminal_list t i)"
    "video_page (terminal_list s i) = video_page (terminal_list t i)"
    "pcb_ptr (terminal_list s i) = pcb_ptr (terminal_list t i)"
    "count_pcb (terminal_list s i) = count_pcb (terminal_list t i)"
    "next_terminal (terminal_list s i) = next_terminal (terminal_list t i)"
    "keyb_buffer (terminal_list s i) = keyb_buffer (terminal_list t i)"
    "keyb_buffer_index (terminal_list s i) = keyb_buffer_index (terminal_list t i)"
    "term_vidmap (terminal_list s i) = term_vidmap (terminal_list t i)"
proof -
  have "(terminal_list s i)\<lparr>x_cursor := 0, y_cursor := 0\<rparr>
      = (terminal_list t i)\<lparr>x_cursor := 0, y_cursor := 0\<rparr>"
    using fun_cong [OF arg_cong [OF assms, of terminal_list], of i] by (simp add: beside_screen_def)
  note eq = this
  show "tid (terminal_list s i) = tid (terminal_list t i)"
    "video_page (terminal_list s i) = video_page (terminal_list t i)"
    "pcb_ptr (terminal_list s i) = pcb_ptr (terminal_list t i)"
    "count_pcb (terminal_list s i) = count_pcb (terminal_list t i)"
    "next_terminal (terminal_list s i) = next_terminal (terminal_list t i)"
    "keyb_buffer (terminal_list s i) = keyb_buffer (terminal_list t i)"
    "keyb_buffer_index (terminal_list s i) = keyb_buffer_index (terminal_list t i)"
    "term_vidmap (terminal_list s i) = term_vidmap (terminal_list t i)"
    using arg_cong [OF eq, of tid] arg_cong [OF eq, of video_page] arg_cong [OF eq, of pcb_ptr]
      arg_cong [OF eq, of count_pcb] arg_cong [OF eq, of next_terminal]
      arg_cong [OF eq, of keyb_buffer] arg_cong [OF eq, of keyb_buffer_index]
      arg_cong [OF eq, of term_vidmap]
    by simp_all
qed

lemmas putc_frame [simp] = beside_eqD [OF beside_putc] beside_terminalD [OF beside_putc]
lemmas clear_frame [simp] = beside_eqD [OF beside_clear] beside_terminalD [OF beside_clear]

text \<open>A character shown for the keyboard leaves the cursor of the terminal on display at the console's.\<close>

definition cursor_kept :: "kernel \<Rightarrow> bool" where
  "cursor_kept s \<longleftrightarrow> x_cursor (terminal_list s (curr_terminal_num s)) = screen_x (con s) \<and>
     y_cursor (terminal_list s (curr_terminal_num s)) = screen_y (con s)"

lemma cursor_kept_draw: "curr_terminal_num s = i \<Longrightarrow> cursor_kept (putc_draw i s)"
  by (auto simp: cursor_kept_def putc_draw_def Let_def draw_here_def put_cell_def)

lemma cursor_kept_putc:
  assumes "keyb_pressed (con s)" and "cursor_kept s"
  shows "cursor_kept (putc ch s)"
proof -
  have "curr_terminal_num (putc_backspace t) = curr_terminal_num t" "curr_terminal_num (putc_enter c t) = curr_terminal_num t"
    "curr_terminal_num (putc_tab c t) = curr_terminal_num t" "curr_terminal_num (putc_normal c t) = curr_terminal_num t" for c t
    by (rule beside_eqD(8), simp add: putc_backspace_def putc_enter_def putc_normal_def Let_def)+
  then show ?thesis
    using assms by (simp add: putc_def Let_def cursor_kept_draw get_display_tid_def)
      (simp add: cursor_kept_def reset_log_def)
qed

lemma cursor_kept_clear: "cursor_kept (clear s)"
proof -
  have "cursor_kept (let t = upd_con (\<lambda>c. c\<lparr>screen_x := 0, screen_y := 0\<rparr>) u in
      upd_term (curr_terminal_num t) (\<lambda>x. x\<lparr>x_cursor := 0, y_cursor := 0\<rparr>) t)" for u
    by (simp add: cursor_kept_def Let_def)
  then show ?thesis by (simp only: clear_def Let_def)
qed

section \<open>The console part of putc\<close>

lemma put_cell_con [simp]: "con (put_cell x y ch s) = con s" "tlb (put_cell x y ch s) = tlb s"
  by (simp_all add: put_cell_def Let_def)

lemma draw_con [simp]: "con (draw_here ch s) = con s" "tlb (draw_here ch s) = tlb s"
  by (simp_all add: draw_here_def)

lemma scroll_con [simp]: "con (scroll_text s) = con s" "tlb (scroll_text s) = tlb s"
  by (simp_all add: scroll_text_def)

lemma last_row_con [simp]: "con (clear_last_row s) = con s" "tlb (clear_last_row s) = tlb s"
  unfolding clear_last_row_def by (rule for_loop_frame, simp)+

lemma putc_draw_con [simp]: "con (putc_draw i s) = con s" "tlb (putc_draw i s) = tlb s"
  by (simp_all add: putc_draw_def Let_def)

text \<open>What each case does to the console alone.\<close>

definition enter_move :: "u8 \<Rightarrow> console \<Rightarrow> console" where
  "enter_move ch c0 =
     (let c = push_log ch c0; y = screen_y c;
          c1 = c\<lparr>prev_screen_x := (prev_screen_x c)(y := screen_x c), screen_x := 0\<rparr>
      in if y = 24 then scroll_tables c1 else c1\<lparr>screen_y := y + 1\<rparr>)"

definition tab_move :: "u8 \<Rightarrow> console \<Rightarrow> console" where
  "tab_move ch c0 = (let c = push_log ch c0 in c\<lparr>screen_x := screen_x c + 4\<rparr>)"

definition normal_move :: "u8 \<Rightarrow> console \<Rightarrow> console" where
  "normal_move ch c0 =
     (let c = push_log ch (c0\<lparr>screen_x := screen_x c0 + 1\<rparr>) in
      if screen_x c = 80 then
        if screen_y c < 24 then c\<lparr>line_is_full := (line_is_full c)(screen_y c := 1),
                                 screen_y := screen_y c + 1, screen_x := 0\<rparr>
        else let c1 = scroll_tables (c\<lparr>screen_x := 0, screen_y := 24\<rparr>)
             in c1\<lparr>line_is_full := (line_is_full c1)(23 := 1)\<rparr>
      else c)"

definition console_step :: "u8 \<Rightarrow> console \<Rightarrow> console" where
  "console_step ch c0 =
     (let c = reset_log (c0\<lparr>keyb_pressed := False\<rparr>) in
      if ch = 8 then backspace_move c
      else if ch = 10 \<or> ch = 13 then enter_move ch c
      else if ch = 9 then (if screen_x c \<ge> 75 then c else tab_move ch c)
      else normal_move ch c)"

lemma four: "(4 :: nat) = Suc (Suc (Suc (Suc 0)))" by simp

lemma putc_tab_con: "con (putc_tab ch s) = tab_move ch (con s)"
  by (simp add: putc_tab_def tab_move_def four Let_def)

lemma putc_enter_con: "con (putc_enter ch s) = enter_move ch (con s)"
  by (simp add: putc_enter_def enter_move_def Let_def)

lemma putc_normal_con: "con (putc_normal ch s) = normal_move ch (con s)"
  by (simp add: putc_normal_def normal_move_def Let_def)

lemma putc_con: "con (putc ch s) = console_step ch (con s)"
  by (simp add: putc_def console_step_def putc_backspace_def putc_enter_con putc_tab_con
      putc_normal_con Let_def)

section \<open>The cursor stays on the screen\<close>

definition position_ok :: "console \<Rightarrow> bool" where
  "position_ok c \<longleftrightarrow> 0 \<le> screen_x c \<and> screen_x c < 80 \<and> 0 \<le> screen_y c \<and> screen_y c < 25 \<and>
     0 \<le> display_buf_index c \<and> display_buf_index c \<le> 2000 \<and>
     (\<forall>r \<in> {0..24}. 0 \<le> prev_screen_x c r \<and> prev_screen_x c r < 80)"

lemma position_okI:
  assumes "0 \<le> screen_x c" "screen_x c < 80" "0 \<le> screen_y c" "screen_y c < 25"
    "0 \<le> display_buf_index c" "display_buf_index c \<le> 2000"
    "\<And>r. 0 \<le> r \<Longrightarrow> r \<le> 24 \<Longrightarrow> 0 \<le> prev_screen_x c r \<and> prev_screen_x c r < 80"
  shows "position_ok c"
  using assms by (simp add: position_ok_def)

lemma position_okD:
  assumes "position_ok c"
  shows "0 \<le> screen_x c" "screen_x c < 80" "0 \<le> screen_y c" "screen_y c < 25"
    "0 \<le> display_buf_index c" "display_buf_index c \<le> 2000"
    "\<And>r. 0 \<le> r \<Longrightarrow> r \<le> 24 \<Longrightarrow> 0 \<le> prev_screen_x c r \<and> prev_screen_x c r < 80"
  using assms by (simp_all add: position_ok_def)

lemma reset_log_ok:
  assumes "position_ok c"
  shows "position_ok (reset_log c)" and "display_buf_index (reset_log c) < 2000"
  using assms by (auto simp: reset_log_def position_ok_def)

lemma reset_log_fields [simp]:
  "screen_x (reset_log c) = screen_x c" "screen_y (reset_log c) = screen_y c"
  "video_mem (reset_log c) = video_mem c" "prev_screen_x (reset_log c) = prev_screen_x c"
  "line_is_full (reset_log c) = line_is_full c"
  by (simp_all add: reset_log_def)

lemma enter_move_ok:
  assumes "position_ok c" and "display_buf_index c < 2000"
  shows "position_ok (enter_move ch c)"
  using position_okD [OF assms(1)] assms(2)
  by (intro position_okI)
    (auto simp: enter_move_def Let_def push_log_def scroll_tables_def shift_loop_apply)

lemma tab_move_ok:
  assumes "position_ok c" and "display_buf_index c < 2000" and "screen_x c < 75"
  shows "position_ok (tab_move ch c)"
  using position_okD [OF assms(1)] assms(2,3)
  by (intro position_okI) (auto simp: tab_move_def Let_def push_log_def)

lemma normal_move_ok:
  assumes "position_ok c" and "display_buf_index c < 2000"
  shows "position_ok (normal_move ch c)"
  using position_okD [OF assms(1)] assms(2)
  by (intro position_okI)
    (auto simp: normal_move_def Let_def push_log_def scroll_tables_def shift_loop_apply)

lemma keyb_pressed_ok [simp]: "position_ok (c\<lparr>keyb_pressed := b\<rparr>) = position_ok c"
  by (simp add: position_ok_def)

lemma console_step_ok:
  assumes "position_ok c" and "ch \<noteq> 8"
  shows "position_ok (console_step ch c)"
proof -
  let ?c = "reset_log (c\<lparr>keyb_pressed := False\<rparr>)"
  have ok: "position_ok ?c" and room: "display_buf_index ?c < 2000"
    using reset_log_ok [of "c\<lparr>keyb_pressed := False\<rparr>"] assms(1) by simp_all
  show ?thesis
    using enter_move_ok [OF ok room] tab_move_ok [OF ok room] normal_move_ok [OF ok room] ok assms(2)
    by (simp add: console_step_def Let_def)
qed

section \<open>Where a backspace takes the cursor\<close>

text \<open>
  Four columns back over a tab; from the start of a line to the end of the one above, which is
  column 79 if that was filled up and the column where it was ended otherwise; else one column
  back, except from the upper left corner.
\<close>

definition erase_to :: "console \<Rightarrow> int \<times> int" where
  "erase_to c0 =
     (let c = reset_log c0; x = screen_x c; y = screen_y c in
      if display_buf c (display_buf_index c - 1) = 9 then (x - 4, y)
      else if x = 0 \<and> y \<noteq> 0 then (if line_is_full c (y - 1) = 1 then 79 else prev_screen_x c (y - 1), y - 1)
      else if x = 0 then (0, 0) else (x - 1, y))"

lemma backspace_step:
  "(screen_x (console_step 8 c), screen_y (console_step 8 c)) = erase_to c"
  by (simp add: console_step_def backspace_move_def erase_to_def pop_log_def reset_log_def Let_def)

lemma erase_to_range:
  assumes "position_ok c" and "0 \<le> fst (erase_to c)"
  shows "fst (erase_to c) < 80" "0 \<le> snd (erase_to c)" "snd (erase_to c) < 25"
proof -
  have "prev_screen_x c (screen_y c - 1) < 80" if "screen_y c \<noteq> 0"
    using position_okD(7) [OF assms(1), of "screen_y c - 1"] position_okD(3,4) [OF assms(1)] that by simp
  then show "fst (erase_to c) < 80" "0 \<le> snd (erase_to c)" "snd (erase_to c) < 25"
    using position_okD(1-4) [OF assms(1)] by (auto simp: erase_to_def Let_def split: if_splits)
qed

section \<open>Backspace undoes a character\<close>

text \<open>
  The characters that a backspace can undo from position \<open>c\<close>: there is room in the log, and
  nothing scrolls; a line break must leave a line that was not filled up before.
\<close>

definition undoable :: "u8 \<Rightarrow> console \<Rightarrow> bool" where
  "undoable ch c \<longleftrightarrow> ch \<noteq> 8 \<and> display_buf_index c < 1999 \<and>
     (if ch = 10 \<or> ch = 13 then screen_y c < 24 \<and> line_is_full c (screen_y c) \<noteq> 1
      else if ch = 9 then screen_x c < 75
      else screen_x c < 79 \<or> screen_y c < 24)"

lemma no_reset: "display_buf_index c < 2000 \<Longrightarrow> reset_log c = c"
  by (simp add: reset_log_def)

lemma step_undo:
  assumes "position_ok c" and "undoable ch c"
  shows "screen_x (console_step 8 (console_step ch c)) = screen_x c \<and>
    screen_y (console_step 8 (console_step ch c)) = screen_y c \<and>
    display_buf_index (console_step 8 (console_step ch c)) = display_buf_index c"
proof -
  have i: "display_buf_index c < 1999" and ch: "ch \<noteq> 8" using assms(2) by (simp_all add: undoable_def)
  note ok = position_okD [OF assms(1)]
  consider (enter) "ch = 10 \<or> ch = 13" | (tab) "ch = 9" | (normal) "ch \<noteq> 8" "ch \<noteq> 9" "ch \<noteq> 10" "ch \<noteq> 13"
    using ch by blast
  then show ?thesis
  proof cases
    case enter
    then have "screen_y c < 24" "line_is_full c (screen_y c) \<noteq> 1" "ch \<noteq> 9" "ch \<noteq> 8"
      using assms(2) by (auto simp: undoable_def)
    with enter i ok show ?thesis
      by (simp add: console_step_def no_reset enter_move_def push_log_def pop_log_def
          backspace_move_def Let_def)
  next
    case tab
    then have "screen_x c < 75" using assms(2) by (simp add: undoable_def)
    with tab i ok show ?thesis
      by (simp add: console_step_def no_reset tab_move_def push_log_def pop_log_def
          backspace_move_def Let_def)
  next
    case normal
    then have "screen_x c < 79 \<or> screen_y c < 24" using assms(2) by (simp add: undoable_def)
    with normal i ok show ?thesis
      by (auto simp: console_step_def no_reset normal_move_def push_log_def pop_log_def
          backspace_move_def Let_def)
  qed
qed

text \<open>
  A backspace after a character puts the cursor and the log back where they were, whether
  the character was shown, filled its line and wrapped, was a tab or ended the line.
\<close>

lemma putc_backspace_undo:
  assumes "position_ok (con s)" and "undoable ch (con s)"
  shows "screen_x (con (putc 8 (putc ch s))) = screen_x (con s) \<and>
    screen_y (con (putc 8 (putc ch s))) = screen_y (con s) \<and>
    display_buf_index (con (putc 8 (putc ch s))) = display_buf_index (con s)"
  unfolding putc_con by (rule step_undo [OF assms])

lemma putc_backspace_undo_at_start:
  "screen_x (con (putc 8 (putc 9 static_kernel))) = screen_x (con static_kernel) \<and>
   screen_y (con (putc 8 (putc 9 static_kernel))) = screen_y (con static_kernel) \<and>
   display_buf_index (con (putc 8 (putc 9 static_kernel))) = display_buf_index (con static_kernel)"
  by (rule putc_backspace_undo) (simp_all add: static_kernel_def position_ok_def undoable_def)

end
