(* ===== verification/Screen.thy ===== *)
theory Screen
  imports Console
begin

text \<open>
  What the console shows: the video page as a grid of 25 rows of 80 cells, an abstract screen
  with the operations of a terminal (plot, new line, advance), and the proof that \<open>putc\<close>
  implements them on memory through the address translation.
\<close>

section \<open>The screen as a grid\<close>

text \<open>The 4000 bytes of the console's video page are reached through distinct physical bytes.\<close>

definition screen_mapped :: "kernel \<Rightarrow> bool" where
  "screen_mapped s \<longleftrightarrow> unat (video_mem (con s)) + 4000 \<le> 2 ^ 32 \<and>
     inj_on (\<lambda>k. tlb s (video_mem (con s) + of_nat k)) {..<4000}"

lemma screen_mapped_cong:
  "tlb t = tlb s \<Longrightarrow> video_mem (con t) = video_mem (con s) \<Longrightarrow> screen_mapped t = screen_mapped s"
  by (simp add: screen_mapped_def)

definition vbyte :: "kernel \<Rightarrow> nat \<Rightarrow> u8" where
  "vbyte s k = ld8 s (video_mem (con s) + of_nat k)"

lemma vbyte_st8:
  assumes "screen_mapped s" and "j < 4000" and "k < 4000"
  shows "vbyte (st8 (video_mem (con s) + of_nat j) v s) k = (if k = j then v else vbyte s k)"
proof -
  have inj: "inj_on (\<lambda>k. tlb s (video_mem (con s) + of_nat k)) {..<4000}"
    using assms(1) by (simp only: screen_mapped_def)
  have "tlb s (video_mem (con s) + of_nat k) = tlb s (video_mem (con s) + of_nat j) \<longleftrightarrow> k = j"
    using inj_on_eq_iff [OF inj, of k j] assms(2,3) by simp
  then show ?thesis by (simp add: vbyte_def ld8_def rd_def)
qed

lemma vbyte_con [simp]: "video_mem c = video_mem (con s) \<Longrightarrow> vbyte (s\<lparr>con := c\<rparr>) k = vbyte s k"
  by (simp add: vbyte_def ld8_def)

lemma vbyte_term [simp]: "vbyte (upd_term i f s) k = vbyte s k"
  by (simp add: vbyte_def ld8_def)

text \<open>The cell in row \<open>r\<close> and column \<open>c\<close>: character and attribute.\<close>

definition grid :: "kernel \<Rightarrow> nat \<Rightarrow> nat \<Rightarrow> u8 \<times> u8" where
  "grid s r c = (vbyte s (160 * r + 2 * c), vbyte s (160 * r + 2 * c + 1))"

lemma cell_index_eq:
  fixes r c y x :: nat
  assumes "c < 80" and "x < 80"
  shows "160 * r + 2 * c = 160 * y + 2 * x \<longleftrightarrow> r = y \<and> c = x"
proof
  assume eq: "160 * r + 2 * c = 160 * y + 2 * x"
  have "r = (160 * r + 2 * c) div 160" using assms(1) by simp
  also have "\<dots> = y" unfolding eq using assms(2) by simp
  finally show "r = y \<and> c = x" using eq by simp
qed simp

lemma cell_addr_nat: "cell_addr c (int x) (int y) = video_mem c + of_nat (160 * y + 2 * x)"
  by (simp add: cell_addr_def algebra_simps)

lemma grid_put_cell:
  assumes m: "screen_mapped s" and xy: "x < 80" "y < 25" and rc: "r < 25" "c < 80"
  shows "grid (put_cell (int x) (int y) ch s) r c = (if r = y \<and> c = x then (ch, 7) else grid s r c)"
proof -
  let ?j = "160 * y + 2 * x" and ?k = "160 * r + 2 * c"
  let ?s1 = "st8 (video_mem (con s) + of_nat ?j) ch s"
  have b: "?j < 4000" "?j + 1 < 4000" "?k < 4000" "?k + 1 < 4000" using xy rc by linarith+
  have m1: "screen_mapped ?s1" using m by (simp add: screen_mapped_def)
  have put: "put_cell (int x) (int y) ch s = st8 (video_mem (con ?s1) + of_nat (?j + 1)) 7 ?s1"
    by (simp add: put_cell_def Let_def cell_addr_nat ac_simps)
  have v: "vbyte (put_cell (int x) (int y) ch s) k =
      (if k = ?j + 1 then 7 else if k = ?j then ch else vbyte s k)" if "k < 4000" for k
    unfolding put using vbyte_st8 [OF m1 b(2) that, of 7] vbyte_st8 [OF m b(1) that, of ch] by simp
  have par: "?k \<noteq> ?j + 1" "?j \<noteq> ?k + 1"
    by (rule notI, drule arg_cong [of _ _ even], simp)+
  show ?thesis
    unfolding grid_def using v [OF b(3)] v [OF b(4)] par cell_index_eq [OF rc(2) xy(1), of r y]
    by auto
qed

lemma grid_con [simp]: "video_mem c = video_mem (con s) \<Longrightarrow> grid (s\<lparr>con := c\<rparr>) = grid s"
  by (simp add: grid_def fun_eq_iff)

lemma grid_term [simp]: "grid (upd_term i f s) = grid s"
  by (simp add: grid_def fun_eq_iff)

lemma screen_linear:
  assumes "screen_mapped s"
  shows "linear (tlb s) (video_mem (con s)) (video_mem (con s) + 160) 3840"
proof -
  let ?d = "video_mem (con s)"
  have inj: "inj_on (\<lambda>k. tlb s (?d + of_nat k)) {..<4000}"
    and top: "unat ?d + 4000 \<le> 2 ^ 32" using assms by (simp_all only: screen_mapped_def)
  have "unat (?d + of_nat 160) = unat ?d + 160"
    by (rule unat_add_of_nat) (use top in linarith)
  then have src: "unat (?d + 160) = unat ?d + 160" by simp
  have idx: "?d + 160 + of_nat j = ?d + of_nat (160 + j)" for j by simp
  show ?thesis
    unfolding linear_def idx src
  proof (intro conjI allI impI)
    fix i j assume "i < 3840" "j < (3840 :: nat)" and eq: "tlb s (?d + of_nat i) = tlb s (?d + of_nat j)"
    then show "i = j" using inj_on_eq_iff [OF inj, of i j] by simp
  next
    fix i j assume "i < 3840" "j < (3840 :: nat)"
      and eq: "tlb s (?d + of_nat i) = tlb s (?d + of_nat (160 + j))"
    then have "i = 160 + j" using inj_on_eq_iff [OF inj, of i "160 + j"] by simp
    then show "unat ?d + i = unat ?d + 160 + j" by simp
  qed
qed

lemma vbyte_scroll:
  assumes m: "screen_mapped s" and k: "k < 4000"
  shows "vbyte (scroll_text s) k = (if k < 3840 then vbyte s (k + 160) else vbyte s k)"
proof -
  let ?d = "video_mem (con s)"
  have inj: "inj_on (\<lambda>k. tlb s (?d + of_nat k)) {..<4000}" using m by (simp only: screen_mapped_def)
  have c: "copied (tlb s) (mem s) (mem (scroll_text s)) ?d (?d + 160) 3840"
    using memmove_linear [OF screen_linear [OF m], of "mem s"] by (simp add: scroll_text_def)
  have vs: "vbyte (scroll_text s) k = mem (scroll_text s) (tlb s (?d + of_nat k))"
    by (simp add: vbyte_def ld8_def rd_def)
  show ?thesis
  proof (cases "k < 3840")
    case True
    then have "mem (scroll_text s) (tlb s (?d + of_nat k)) = mem s (tlb s (?d + 160 + of_nat k))"
      using c by (simp add: copied_def)
    moreover have "?d + 160 + of_nat k = ?d + of_nat (k + 160)" by simp
    ultimately show ?thesis using True vs by (simp add: vbyte_def ld8_def rd_def)
  next
    case False
    have "tlb s (?d + of_nat k) \<noteq> tlb s (?d + of_nat i)" if "i < 3840" for i
      using inj_on_eq_iff [OF inj, of k i] that False k by simp
    then have "mem (scroll_text s) (tlb s (?d + of_nat k)) = mem s (tlb s (?d + of_nat k))"
      using c by (simp add: copied_def)
    then show ?thesis using False vs by (simp add: vbyte_def ld8_def rd_def)
  qed
qed

lemma grid_scroll:
  assumes "screen_mapped s" and "r < 25" and "c < 80"
  shows "grid (scroll_text s) r c = (if r < 24 then grid s (r + 1) c else grid s r c)"
proof -
  have b: "160 * r + 2 * c < 4000" "160 * r + 2 * c + 1 < 4000" using assms(2,3) by linarith+
  have "160 * r + 2 * c < 3840 \<longleftrightarrow> r < 24" "160 * r + 2 * c + 1 < 3840 \<longleftrightarrow> r < 24"
    using assms(3) by linarith+
  then show ?thesis
    unfolding grid_def vbyte_scroll [OF assms(1) b(1)] vbyte_scroll [OF assms(1) b(2)]
    by (simp add: algebra_simps)
qed

lemma grid_last_row:
  assumes "screen_mapped s" and rc: "r < 25" "c < 80"
  shows "grid (clear_last_row s) r c = (if r = 24 then (0x20, 7) else grid s r c)"
proof -
  let ?f = "\<lambda>i t. put_cell (int i) 24 0x20 t"
  have "grid (for_loop n ?f s) r c = (if r = 24 \<and> c < n then (0x20, 7) else grid s r c)"
    if "n \<le> 80" for n using that
  proof (induction n)
    case 0
    then show ?case by simp
  next
    case (Suc n)
    have "con (for_loop n ?f s) = con s" "tlb (for_loop n ?f s) = tlb s"
      by (rule for_loop_frame, simp)+
    then have m: "screen_mapped (for_loop n ?f s)"
      using assms(1) screen_mapped_cong by metis
    show ?case
      using grid_put_cell [OF m, of n 24 r c "0x20"] Suc rc by auto
  qed
  from this [of 80] show ?thesis using rc by (simp add: clear_last_row_def)
qed

section \<open>The abstract screen\<close>

record screen =
  scr_col :: nat
  scr_row :: nat
  scr_cells :: "nat \<Rightarrow> nat \<Rightarrow> u8 \<times> u8"

definition plot :: "u8 \<Rightarrow> screen \<Rightarrow> screen" where
  "plot ch S = S\<lparr>scr_cells := (\<lambda>r c. if r = scr_row S \<and> c = scr_col S then (ch, 7) else scr_cells S r c)\<rparr>"

definition new_line :: "screen \<Rightarrow> screen" where
  "new_line S =
     (if scr_row S = 24
      then S\<lparr>scr_col := 0, scr_cells := (\<lambda>r c. if r < 24 then scr_cells S (r + 1) c
              else if r = 24 \<and> c < 80 then (0x20, 7) else scr_cells S r c)\<rparr>
      else S\<lparr>scr_col := 0, scr_row := scr_row S + 1\<rparr>)"

definition step_right :: "screen \<Rightarrow> screen" where
  "step_right S = S\<lparr>scr_col := scr_col S + 1\<rparr>"

definition advance :: "screen \<Rightarrow> screen" where
  "advance S = (if scr_col S = 79 then new_line S else step_right S)"

definition emit :: "u8 \<Rightarrow> screen \<Rightarrow> screen" where
  "emit ch S =
     (if ch = 10 \<or> ch = 13 then plot 0x5F (new_line (plot 0x20 S))
      else if ch = 9 then
        if scr_col S \<ge> 75 then S
        else plot 0x5F (((\<lambda>T. step_right (plot 0x20 T)) ^^ 4) S)
      else plot 0x5F (advance (plot ch S)))"

text \<open>The screen that the kernel shows.\<close>

definition screen_of :: "kernel \<Rightarrow> screen" where
  "screen_of s = \<lparr>scr_col = nat (screen_x (con s)), scr_row = nat (screen_y (con s)),
     scr_cells = (\<lambda>r c. if r < 25 \<and> c < 80 then grid s r c else (0, 0))\<rparr>"

definition on_screen :: "kernel \<Rightarrow> bool" where
  "on_screen s \<longleftrightarrow> screen_mapped s \<and> 0 \<le> screen_x (con s) \<and> screen_x (con s) < 80 \<and>
     0 \<le> screen_y (con s) \<and> screen_y (con s) < 25"

lemma screen_of_term [simp]: "screen_of (upd_term i f s) = screen_of s"
  by (simp add: screen_of_def cong: if_cong)

lemma screen_of_con:
  "video_mem c = video_mem (con s) \<Longrightarrow> screen_of (s\<lparr>con := c\<rparr>) =
   (screen_of s)\<lparr>scr_col := nat (screen_x c), scr_row := nat (screen_y c)\<rparr>"
  by (simp add: screen_of_def cong: if_cong)

lemma on_screen_con:
  "on_screen s \<Longrightarrow> video_mem c = video_mem (con s) \<Longrightarrow> 0 \<le> screen_x c \<Longrightarrow> screen_x c < 80 \<Longrightarrow>
   0 \<le> screen_y c \<Longrightarrow> screen_y c < 25 \<Longrightarrow> on_screen (s\<lparr>con := c\<rparr>)"
  by (simp add: on_screen_def screen_mapped_def)

lemma on_screen_draw [simp]: "on_screen (draw_here ch s) = on_screen s"
  by (simp add: on_screen_def screen_mapped_def)

lemma screen_of_draw:
  assumes "on_screen s"
  shows "screen_of (draw_here ch s) = plot ch (screen_of s)"
proof -
  obtain x y where xy: "screen_x (con s) = int x" "screen_y (con s) = int y"
    using assms by (metis on_screen_def nonneg_int_cases)
  have b: "x < 80" "y < 25" and m: "screen_mapped s"
    using assms xy by (simp_all add: on_screen_def)
  have g: "grid (draw_here ch s) r c = (if r = y \<and> c = x then (ch, 7) else grid s r c)"
    if "r < 25" "c < 80" for r c
    unfolding draw_here_def xy by (rule grid_put_cell [OF m b that])
  show ?thesis
    using g b by (simp add: screen_of_def plot_def xy fun_eq_iff)
qed

text \<open>Scrolling, as both the line break and the wrap at the last row do it.\<close>

lemma scroll_frame [simp]:
  "screen_mapped (scroll_text s) = screen_mapped s" "grid (s\<lparr>con := scroll_tables (con s)\<rparr>) = grid s"
  by (simp_all add: screen_mapped_def scroll_tables_def)

lemma screen_of_scroll:
  assumes m: "screen_mapped s" and c: "video_mem c = video_mem (con s)"
    and xy: "screen_x c = 0" "screen_y c = 24" and row: "scr_row (screen_of s) = 24"
  shows "screen_of (clear_last_row ((scroll_text s)\<lparr>con := c\<rparr>)) = new_line (screen_of s)"
proof -
  let ?t = "(scroll_text s)\<lparr>con := c\<rparr>"
  have mt: "screen_mapped ?t" using m c by (simp add: screen_mapped_def)
  have g: "grid (clear_last_row ?t) r k = (if r = 24 then (0x20, 7) else grid s (r + 1) k)"
    if "r < 25" "k < 80" for r k
    using grid_last_row [OF mt that] grid_scroll [OF m that] c that by simp
  show ?thesis
    using g row xy by (simp add: screen_of_def new_line_def fun_eq_iff)
qed

section \<open>putc implements emit\<close>

lemma push_log_fields [simp]:
  "screen_x (push_log ch c) = screen_x c" "screen_y (push_log ch c) = screen_y c"
  "video_mem (push_log ch c) = video_mem c" "prev_screen_x (push_log ch c) = prev_screen_x c"
  "line_is_full (push_log ch c) = line_is_full c"
  by (simp_all add: push_log_def)

lemma scroll_tables_fields [simp]:
  "screen_x (scroll_tables c) = screen_x c" "screen_y (scroll_tables c) = screen_y c"
  "video_mem (scroll_tables c) = video_mem c"
  by (simp_all add: scroll_tables_def)

lemma screen_of_fields [simp]:
  "scr_col (screen_of s) = nat (screen_x (con s))" "scr_row (screen_of s) = nat (screen_y (con s))"
  by (simp_all add: screen_of_def)

lemma plot_fields [simp]: "scr_col (plot ch S) = scr_col S" "scr_row (plot ch S) = scr_row S"
  by (simp_all add: plot_def)

lemma screen_of_console_eq:
  "video_mem c = video_mem (con s) \<Longrightarrow> nat (screen_x c) = nat (screen_x (con s)) \<Longrightarrow>
   nat (screen_y c) = nat (screen_y (con s)) \<Longrightarrow> screen_of (s\<lparr>con := c\<rparr>) = screen_of s"
  by (simp add: screen_of_def cong: if_cong)

lemma new_line_24:
  "scr_row S = 24 \<Longrightarrow> new_line (S\<lparr>scr_col := x, scr_row := 24\<rparr>) = new_line S"
  by (cases S) (simp add: new_line_def cong: if_cong)

lemma on_screen_enter:
  "on_screen s \<Longrightarrow> on_screen (putc_enter ch s)"
  by (auto simp: on_screen_def screen_mapped_def putc_enter_def Let_def)

lemma screen_of_enter:
  assumes on: "on_screen s"
  shows "screen_of (putc_enter ch s) = new_line (plot 0x20 (screen_of s))"
proof -
  let ?s = "draw_here 0x20 s"
  have on1: "on_screen ?s" using on by simp
  have d: "screen_of ?s = plot 0x20 (screen_of s)" by (rule screen_of_draw [OF on])
  show ?thesis
  proof (cases "screen_y (con s) = 24")
    case True
    let ?c1 = "push_log ch (con s)"
    let ?s1 = "?s\<lparr>con := ?c1\<lparr>prev_screen_x := (prev_screen_x ?c1)(24 := screen_x ?c1), screen_x := 0\<rparr>\<rparr>"
    have m: "screen_mapped ?s1" using on1 by (simp add: on_screen_def screen_mapped_def)
    have "putc_enter ch s = clear_last_row ((scroll_text ?s1)\<lparr>con := scroll_tables (con ?s1)\<rparr>)"
      using True by (simp add: putc_enter_def Let_def)
    then have "screen_of (putc_enter ch s) = new_line (screen_of ?s1)"
      using screen_of_scroll [OF m, of "scroll_tables (con ?s1)"] True by simp
    also have "screen_of ?s1 = (screen_of ?s)\<lparr>scr_col := 0, scr_row := 24\<rparr>"
      using True by (simp add: screen_of_con)
    also have "new_line \<dots> = new_line (screen_of ?s)"
      by (rule new_line_24) (simp add: True)
    finally show ?thesis unfolding d .
  next
    case False
    then have "nat (screen_y (con s)) \<noteq> 24" and "0 \<le> screen_y (con s)"
      using on by (auto simp: on_screen_def)
    then show ?thesis
      using False d
      by (simp add: putc_enter_def Let_def screen_of_con new_line_def nat_add_distrib)
  qed
qed

lemma on_screen_normal: "on_screen s \<Longrightarrow> on_screen (putc_normal ch s)"
  by (auto simp: on_screen_def screen_mapped_def putc_normal_def Let_def)

lemma screen_of_normal:
  assumes on: "on_screen s"
  shows "screen_of (putc_normal ch s) = advance (plot ch (screen_of s))"
proof -
  let ?s = "draw_here ch s"
  have d: "screen_of ?s = plot ch (screen_of s)" by (rule screen_of_draw [OF on])
  have x: "0 \<le> screen_x (con s)" "screen_x (con s) < 80" and y: "0 \<le> screen_y (con s)" "screen_y (con s) < 25"
    using on by (simp_all add: on_screen_def)
  consider (in_line) "screen_x (con s) \<noteq> 79" | (wrap) "screen_x (con s) = 79" "screen_y (con s) < 24"
    | (scroll) "screen_x (con s) = 79" "screen_y (con s) = 24" using y by linarith
  then show ?thesis
  proof cases
    case in_line
    then show ?thesis
      using d x by (simp add: putc_normal_def Let_def screen_of_con advance_def step_right_def nat_add_distrib)
  next
    case wrap
    then show ?thesis
      using d y by (simp add: putc_normal_def Let_def screen_of_con advance_def new_line_def nat_add_distrib)
  next
    case scroll
    let ?c1 = "(push_log ch ((con s)\<lparr>screen_x := screen_x (con s) + 1\<rparr>))\<lparr>screen_x := 0, screen_y := 24\<rparr>"
    let ?s1 = "?s\<lparr>con := ?c1\<rparr>"
    let ?c2 = "(scroll_tables ?c1)\<lparr>line_is_full := (line_is_full (scroll_tables ?c1))(23 := 1)\<rparr>"
    have m: "screen_mapped ?s1" using on by (simp add: on_screen_def screen_mapped_def)
    have "putc_normal ch s = clear_last_row ((scroll_text ?s1)\<lparr>con := ?c2\<rparr>)"
      using scroll by (simp add: putc_normal_def Let_def)
    then have "screen_of (putc_normal ch s) = new_line (screen_of ?s1)"
      using screen_of_scroll [OF m, of ?c2] by simp
    also have "screen_of ?s1 = (screen_of ?s)\<lparr>scr_col := 0, scr_row := 24\<rparr>"
      by (simp add: screen_of_con)
    also have "new_line \<dots> = new_line (screen_of ?s)"
      by (rule new_line_24) (simp add: scroll)
    finally show ?thesis unfolding d using scroll by (simp add: advance_def)
  qed
qed

lemma tab_step:
  assumes "on_screen s" and "screen_x (con s) < 79"
  defines "t \<equiv> upd_con (\<lambda>c. c\<lparr>screen_x := screen_x c + 1\<rparr>) (draw_here 0x20 s)"
  shows "screen_of t = step_right (plot 0x20 (screen_of s))" and "on_screen t"
    and "screen_x (con t) = screen_x (con s) + 1"
proof -
  have x: "0 \<le> screen_x (con s)" using assms(1) by (simp add: on_screen_def)
  show "screen_of t = step_right (plot 0x20 (screen_of s))"
    using screen_of_draw [OF assms(1), of "0x20"] x
    by (simp add: t_def screen_of_con step_right_def nat_add_distrib)
  show "on_screen t"
    using assms(1,2) by (simp add: t_def on_screen_def screen_mapped_def)
  show "screen_x (con t) = screen_x (con s) + 1" by (simp add: t_def)
qed

lemma tab_loop:
  assumes "on_screen s" and "screen_x (con s) + int n < 80"
  defines "t \<equiv> for_loop n (\<lambda>i t. upd_con (\<lambda>c. c\<lparr>screen_x := screen_x c + 1\<rparr>) (draw_here 0x20 t)) s"
  shows "screen_of t = ((\<lambda>T. step_right (plot 0x20 T)) ^^ n) (screen_of s) \<and> on_screen t \<and>
    screen_x (con t) = screen_x (con s) + int n"
  using assms(2) unfolding t_def
proof (induction n)
  case 0
  then show ?case using assms(1) by simp
next
  case (Suc n)
  let ?t = "for_loop n (\<lambda>i t. upd_con (\<lambda>c. c\<lparr>screen_x := screen_x c + 1\<rparr>) (draw_here 0x20 t)) s"
  have on: "on_screen ?t" and x: "screen_x (con ?t) < 79" using Suc by auto
  show ?case
    using tab_step [OF on x] Suc by simp
qed

lemma on_screen_con_eq:
  "video_mem c = video_mem (con s) \<Longrightarrow> screen_x c = screen_x (con s) \<Longrightarrow>
   screen_y c = screen_y (con s) \<Longrightarrow> on_screen (s\<lparr>con := c\<rparr>) = on_screen s"
  by (simp add: on_screen_def screen_mapped_def)

lemma putc_tab_screen:
  assumes "on_screen s" and "screen_x (con s) < 75"
  shows "screen_of (putc_tab ch s) = ((\<lambda>T. step_right (plot 0x20 T)) ^^ 4) (screen_of s) \<and>
    on_screen (putc_tab ch s)"
proof -
  let ?s = "upd_con (push_log ch) s"
  have "on_screen ?s" and "screen_of ?s = screen_of s" and "screen_x (con ?s) + int 4 < 80"
    using assms by (simp_all add: on_screen_con_eq screen_of_console_eq)
  with tab_loop [of ?s 4] show ?thesis unfolding putc_tab_def by simp
qed

lemma screen_of_putc_draw:
  "on_screen s \<Longrightarrow> screen_of (putc_draw i s) = plot 0x5F (screen_of s)"
  by (simp add: putc_draw_def Let_def screen_of_draw)

text \<open>The state of a console in working order.\<close>

definition console_ok :: "kernel \<Rightarrow> bool" where
  "console_ok s \<longleftrightarrow> screen_mapped s \<and> position_ok (con s)"

lemma console_ok_on_screen: "console_ok s \<Longrightarrow> on_screen s"
  by (simp add: console_ok_def on_screen_def position_ok_def)

lemma console_step_video [simp]: "video_mem (console_step ch c) = video_mem c"
  by (simp add: console_step_def backspace_move_def enter_move_def tab_move_def normal_move_def
      pop_log_def Let_def)

lemma putc_console_ok: "console_ok s \<Longrightarrow> ch \<noteq> 8 \<Longrightarrow> console_ok (putc ch s)"
  by (simp add: console_ok_def screen_mapped_def putc_con console_step_ok)

lemma putc_emit:
  assumes ok: "console_ok s" and ch: "ch \<noteq> 8"
  shows "screen_of (putc ch s) = emit ch (screen_of s)"
proof -
  let ?s = "upd_con (\<lambda>c. reset_log (c\<lparr>keyb_pressed := False\<rparr>)) s"
  have on: "on_screen ?s" and same: "screen_of ?s = screen_of s"
    using console_ok_on_screen [OF ok] by (simp_all add: on_screen_con_eq screen_of_console_eq)
  have col: "75 \<le> screen_x (con s) \<longleftrightarrow> 75 \<le> scr_col (screen_of s)" by simp linarith
  consider (enter) "ch = 10 \<or> ch = 13" | (tab) "ch = 9" | (normal) "ch \<noteq> 9" "ch \<noteq> 10" "ch \<noteq> 13"
    by blast
  then show ?thesis
  proof cases
    case enter
    then show ?thesis
      using screen_of_enter [OF on, of ch] screen_of_putc_draw [OF on_screen_enter [OF on, of ch]]
      unfolding same by (auto simp: putc_def Let_def emit_def)
  next
    case tab
    then show ?thesis
      using putc_tab_screen [OF on, of ch] same col
      by (auto simp: putc_def Let_def emit_def screen_of_putc_draw)
  next
    case normal
    then show ?thesis
      using screen_of_normal [OF on, of ch] screen_of_putc_draw [OF on_screen_normal [OF on, of ch]]
        ch unfolding same by (auto simp: putc_def Let_def emit_def)
  qed
qed

text \<open>
  A backspace blanks the cell under the cursor, where the cursor mark is, moves the cursor to
  \<open>p\<close> and puts the mark on the cell there.
\<close>

definition rub_out :: "int \<times> int \<Rightarrow> screen \<Rightarrow> screen" where
  "rub_out p S = plot 0x5F ((plot 0x20 S)\<lparr>scr_col := nat (fst p), scr_row := nat (snd p)\<rparr>)"

lemma putc_rub_out:
  assumes ok: "console_ok s" and to: "0 \<le> fst (erase_to (con s))"
  shows "screen_of (putc 8 s) = rub_out (erase_to (con s)) (screen_of s)"
proof -
  let ?s = "upd_con (\<lambda>c. reset_log (c\<lparr>keyb_pressed := False\<rparr>)) s"
  let ?c = "backspace_move (con ?s)"
  have on: "on_screen ?s" and same: "screen_of ?s = screen_of s"
    using console_ok_on_screen [OF ok] by (simp_all add: on_screen_con_eq screen_of_console_eq)
  have pos: "(screen_x ?c, screen_y ?c) = erase_to (con s)"
    using backspace_step [of "con s"] by (simp add: console_step_def Let_def)
  then have xy: "screen_x ?c = fst (erase_to (con s))" "screen_y ?c = snd (erase_to (con s))"
    by (simp_all add: prod_eq_iff)
  have v: "video_mem ?c = video_mem (con (draw_here 0x20 ?s))"
    by (simp add: backspace_move_def pop_log_def Let_def)
  have range: "0 \<le> screen_x ?c" "screen_x ?c < 80" "0 \<le> screen_y ?c" "screen_y ?c < 25"
    using erase_to_range [of "con s"] to ok unfolding xy by (simp_all add: console_ok_def)
  have b: "putc_backspace ?s = (draw_here 0x20 ?s)\<lparr>con := ?c\<rparr>" by (simp add: putc_backspace_def)
  have on2: "on_screen (putc_backspace ?s)"
    unfolding b by (rule on_screen_con [OF _ v range]) (simp add: on)
  have "screen_of (putc_backspace ?s) = (plot 0x20 (screen_of s))\<lparr>scr_col := nat (screen_x ?c), scr_row := nat (screen_y ?c)\<rparr>"
    unfolding b screen_of_con [OF v] screen_of_draw [OF on] same ..
  then show ?thesis
    using screen_of_putc_draw [OF on2] by (simp add: putc_def Let_def rub_out_def xy [symmetric])
qed

text \<open>A backspace right after a character it can undo goes back to where the cursor was.\<close>

lemma putc_undone:
  assumes ok: "console_ok s" and u: "undoable ch (con s)"
  shows "screen_of (putc 8 (putc ch s)) = rub_out (screen_x (con s), screen_y (con s)) (emit ch (screen_of s))"
proof -
  have p: "position_ok (con s)" "0 \<le> screen_x (con s)" using ok by (simp_all add: console_ok_def position_ok_def)
  have ch: "ch \<noteq> 8" using u by (simp add: undoable_def)
  have "erase_to (con (putc ch s)) = (screen_x (con s), screen_y (con s))"
    using step_undo [OF p(1) u] backspace_step [of "con (putc ch s)"] by (simp add: putc_con)
  then show ?thesis
    using putc_rub_out [OF putc_console_ok [OF ok ch]] p(2) putc_emit [OF ok ch] by simp
qed

text \<open>
  C26: \<open>putc\<close> is a correct terminal on a mapped screen with the cursor on it.  A character other
  than a backspace changes the visible grid and the cursor as the abstract \<open>emit\<close> does (line
  break, tab, wrap and scroll included), and leaves the console in working order.  A backspace
  rubs out the cell under the cursor and goes to the place \<open>erase_to\<close> of the console's records, and
  right after a character that can be undone this is the place where that character was put.
\<close>

theorem putc_refines:
  assumes "console_ok s" and "ch \<noteq> 8"
  shows "screen_of (putc ch s) = emit ch (screen_of s) \<and> console_ok (putc ch s) \<and>
    (0 \<le> fst (erase_to (con s)) \<longrightarrow> screen_of (putc 8 s) = rub_out (erase_to (con s)) (screen_of s)) \<and>
    (undoable ch (con s) \<longrightarrow>
      screen_of (putc 8 (putc ch s)) = rub_out (screen_x (con s), screen_y (con s)) (emit ch (screen_of s)))"
  using putc_emit [OF assms] putc_console_ok [OF assms] putc_rub_out [OF assms(1)] putc_undone [OF assms(1)] by simp

lemma static_console_ok: "console_ok static_kernel"
proof -
  have "inj_on (\<lambda>k. 0xB8000 + of_nat k :: u32) {..<4000}"
    by (rule inj_onI) (simp add: of_nat_inj_u32)
  then show ?thesis
    by (simp add: console_ok_def screen_mapped_def position_ok_def static_kernel_def)
qed

theorem putc_refines_witness:
  "screen_of (putc 0x61 static_kernel) = emit 0x61 (screen_of static_kernel) \<and>
   console_ok (putc 0x61 static_kernel) \<and>
   screen_of (putc 8 static_kernel) = rub_out (0, 0) (screen_of static_kernel) \<and>
   screen_of (putc 8 (putc 0x61 static_kernel)) = rub_out (0, 0) (emit 0x61 (screen_of static_kernel))"
proof -
  have "erase_to (con static_kernel) = (0, 0)" "undoable 0x61 (con static_kernel)"
    "screen_x (con static_kernel) = 0" "screen_y (con static_kernel) = 0"
    by (simp_all add: erase_to_def reset_log_def undoable_def static_kernel_def Let_def)
  then show ?thesis using putc_refines [OF static_console_ok, of "0x61"] by simp
qed

section \<open>putc stays on the screen\<close>

definition screen_bytes :: "kernel \<Rightarrow> u32 set" where
  "screen_bytes s = (\<lambda>k. tlb s (video_mem (con s) + of_nat k)) ` {..<4000}"

text \<open>Memory with the screen blanked out.\<close>

definition off_screen :: "kernel \<Rightarrow> memory" where
  "off_screen s = (\<lambda>p. if p \<in> screen_bytes s then 0 else mem s p)"

lemma screen_bytes_con [simp]:
  "video_mem c = video_mem (con s) \<Longrightarrow> screen_bytes (s\<lparr>con := c\<rparr>) = screen_bytes s"
  by (simp add: screen_bytes_def)

lemma off_screen_con [simp]:
  "video_mem c = video_mem (con s) \<Longrightarrow> off_screen (s\<lparr>con := c\<rparr>) = off_screen s"
  by (simp add: off_screen_def cong: if_cong)

lemma off_screen_term [simp]: "off_screen (upd_term i f s) = off_screen s"
  by (simp add: off_screen_def screen_bytes_def cong: if_cong)

lemma off_screen_st8: "k < 4000 \<Longrightarrow> off_screen (st8 (video_mem (con s) + of_nat k) v s) = off_screen s"
  by (auto simp: off_screen_def screen_bytes_def fun_eq_iff)

lemma off_screen_put_cell:
  assumes "x < 80" and "y < 25"
  shows "off_screen (put_cell (int x) (int y) ch s) = off_screen s"
proof -
  let ?j = "160 * y + 2 * x"
  let ?s1 = "st8 (video_mem (con s) + of_nat ?j) ch s"
  have b: "?j < 4000" "?j + 1 < 4000" using assms by linarith+
  have put: "put_cell (int x) (int y) ch s = st8 (video_mem (con ?s1) + of_nat (?j + 1)) 7 ?s1"
    by (simp add: put_cell_def Let_def cell_addr_nat ac_simps)
  show ?thesis
    unfolding put using off_screen_st8 [OF b(2), of ?s1] off_screen_st8 [OF b(1), of s] by simp
qed

lemma con_clear: "con (clear s) = (con s)\<lparr>screen_x := 0, screen_y := 0\<rparr>"
proof -
  have "con (for_loop 2000 (\<lambda>i t. put_cell (int i) 0 0x20 t) s) = con s"
    by (rule for_loop_frame) (simp add: put_cell_def Let_def)
  then show ?thesis by (simp add: clear_def Let_def)
qed

text \<open>The screen after \<open>clear\<close>.\<close>

definition blank_screen :: screen where
  "blank_screen = \<lparr>scr_col = 0, scr_row = 0, scr_cells = (\<lambda>r c. if r < 25 \<and> c < 80 then (0x20, 7) else (0, 0))\<rparr>"

lemma put_cell_linear:
  "put_cell (int i) 0 ch s = st8 (video_mem (con s) + of_nat (2 * i + 1)) 7 (st8 (video_mem (con s) + of_nat (2 * i)) ch s)"
  using cell_addr_nat [of "con s" i 0] by (simp add: put_cell_def Let_def ac_simps)

lemma vbyte_clear_loop:
  assumes m: "screen_mapped s" and k: "k < 4000"
  defines "f \<equiv> \<lambda>i t. put_cell (int i) 0 0x20 t"
  shows "n \<le> 2000 \<Longrightarrow> vbyte (for_loop n f s) k = (if k < 2 * n then if even k then 0x20 else 7 else vbyte s k)"
proof (induction n)
  case 0
  then show ?case by simp
next
  case (Suc n)
  let ?t = "for_loop n f s" and ?s1 = "st8 (video_mem (con (for_loop n f s)) + of_nat (2 * n)) 0x20 (for_loop n f s)"
  have "con ?t = con s" "tlb ?t = tlb s" unfolding f_def by (rule for_loop_frame, simp)+
  then have t: "screen_mapped ?t" using screen_mapped_cong [of ?t s] m by simp
  then have t1: "screen_mapped ?s1" by (simp add: screen_mapped_def)
  have put: "for_loop (Suc n) f s = st8 (video_mem (con ?s1) + of_nat (2 * n + 1)) 7 ?s1"
    by (simp add: f_def put_cell_linear)
  have b: "2 * n < 4000" "2 * n + 1 < 4000" using Suc.prems by simp_all
  have "vbyte (for_loop (Suc n) f s) k = (if k = 2 * n + 1 then 7 else if k = 2 * n then 0x20 else vbyte ?t k)"
    unfolding put vbyte_st8 [OF t1 b(2) k] vbyte_st8 [OF t b(1) k] ..
  then show ?case using Suc by (auto simp: less_Suc_eq)
qed

lemma screen_of_clear:
  assumes "screen_mapped s"
  shows "screen_of (clear s) = blank_screen"
proof -
  let ?t = "for_loop 2000 (\<lambda>i t. put_cell (int i) 0 0x20 t) s"
  have "vbyte ?t k = (if even k then 0x20 else 7)" if "k < 4000" for k
    using vbyte_clear_loop [OF assms that, of 2000] that by simp
  then have "grid ?t r c = (0x20, 7)" if "r < 25" "c < 80" for r c
    using that by (simp add: grid_def)
  then have "scr_cells (screen_of ?t) = scr_cells blank_screen"
    by (auto simp: screen_of_def blank_screen_def fun_eq_iff)
  then show ?thesis
    by (simp add: clear_def Let_def screen_of_con) (simp add: screen_of_def blank_screen_def)
qed

lemma off_screen_clear: "off_screen (clear s) = off_screen s"
proof -
  have "off_screen (put_cell (int i) 0 0x20 t) = off_screen t" if "i < 2000" for i t
  proof -
    let ?s1 = "st8 (video_mem (con t) + of_nat (2 * i)) 0x20 t"
    have put: "put_cell (int i) 0 0x20 t = st8 (video_mem (con ?s1) + of_nat (2 * i + 1)) 7 ?s1"
      using cell_addr_nat [of "con t" i 0] cell_addr_nat [of "con ?s1" i 0]
      by (simp add: put_cell_def Let_def ac_simps)
    show ?thesis
      unfolding put using off_screen_st8 [of "2 * i + 1" ?s1] off_screen_st8 [of "2 * i" t] that by simp
  qed
  then have "off_screen (for_loop 2000 (\<lambda>i t. put_cell (int i) 0 0x20 t) s) = off_screen s"
    by (intro for_loop_frame)
  then show ?thesis by (simp add: clear_def Let_def)
qed

lemma off_screen_draw:
  assumes "on_screen s"
  shows "off_screen (draw_here ch s) = off_screen s"
proof -
  obtain x y where xy: "screen_x (con s) = int x" "screen_y (con s) = int y"
    using assms by (metis on_screen_def nonneg_int_cases)
  then have "x < 80" "y < 25" using assms by (simp_all add: on_screen_def)
  then show ?thesis unfolding draw_here_def xy by (rule off_screen_put_cell)
qed

lemma off_screen_last_row [simp]: "off_screen (clear_last_row s) = off_screen s"
  unfolding clear_last_row_def
proof (rule for_loop_frame)
  fix j t assume "j < (80 :: nat)"
  then show "off_screen (put_cell (int j) 24 0x20 t) = off_screen t"
    using off_screen_put_cell [of j 24] by simp
qed

lemma off_screen_scroll:
  assumes "screen_mapped s"
  shows "off_screen (scroll_text s) = off_screen s"
proof
  fix p
  have c: "copied (tlb s) (mem s) (mem (scroll_text s)) (video_mem (con s)) (video_mem (con s) + 160) 3840"
    using memmove_linear [OF screen_linear [OF assms], of "mem s"] by (simp add: scroll_text_def)
  have sb: "screen_bytes (scroll_text s) = screen_bytes s" by (simp add: screen_bytes_def)
  show "off_screen (scroll_text s) p = off_screen s p"
  proof (cases "p \<in> screen_bytes s")
    case True
    then show ?thesis by (simp add: off_screen_def sb)
  next
    case False
    then have "\<forall>i < 3840. p \<noteq> tlb s (video_mem (con s) + of_nat i)"
      by (auto simp: screen_bytes_def)
    then show ?thesis using c by (simp add: off_screen_def sb copied_def)
  qed
qed

lemma off_screen_tab:
  assumes "on_screen s" and "screen_x (con s) < 75"
  shows "off_screen (putc_tab ch s) = off_screen s"
proof -
  let ?f = "\<lambda>(i :: nat) t. upd_con (\<lambda>c. c\<lparr>screen_x := screen_x c + 1\<rparr>) (draw_here 0x20 t)"
  let ?s = "upd_con (push_log ch) s"
  have on: "on_screen ?s" using assms by (simp add: on_screen_con_eq)
  have "off_screen (for_loop n ?f ?s) = off_screen ?s" if "n \<le> 4" for n
    using that
  proof (induction n)
    case (Suc n)
    then have "on_screen (for_loop n ?f ?s)" using tab_loop [OF on, of n] assms(2) by simp
    then show ?case using Suc off_screen_draw by simp
  qed simp
  from this [of 4] show ?thesis by (simp add: putc_tab_def)
qed

text \<open>The scroll takes place after the cell under the cursor was drawn and the console updated.\<close>

lemma off_screen_scroll_after:
  assumes "on_screen s" and "video_mem c = video_mem (con s)"
  shows "off_screen (scroll_text ((draw_here ch s)\<lparr>con := c\<rparr>)) = off_screen s"
proof -
  have "screen_mapped ((draw_here ch s)\<lparr>con := c\<rparr>)"
    using assms by (simp add: on_screen_def screen_mapped_def)
  then show ?thesis
    using off_screen_scroll off_screen_draw [OF assms(1)] assms(2) by simp
qed

lemma off_screen_putc_enter:
  "on_screen s \<Longrightarrow> off_screen (putc_enter ch s) = off_screen s"
  by (simp add: putc_enter_def Let_def off_screen_scroll_after off_screen_draw)

lemma off_screen_putc_normal:
  "on_screen s \<Longrightarrow> off_screen (putc_normal ch s) = off_screen s"
  by (simp add: putc_normal_def Let_def off_screen_scroll_after off_screen_draw)

lemma off_screen_putc:
  assumes ok: "console_ok s" and ch: "ch \<noteq> 8"
  shows "off_screen (putc ch s) = off_screen s"
proof -
  let ?s = "upd_con (\<lambda>c. reset_log (c\<lparr>keyb_pressed := False\<rparr>)) s"
  have on: "on_screen ?s" and same: "off_screen ?s = off_screen s"
    using console_ok_on_screen [OF ok] by (simp_all add: on_screen_con_eq)
  have draw: "off_screen (putc_draw i t) = off_screen t" if "on_screen t" for i t
    using that by (simp add: putc_draw_def Let_def off_screen_draw)
  have enter: "off_screen (putc_enter ch ?s) = off_screen ?s"
    by (rule off_screen_putc_enter [OF on])
  have normal: "off_screen (putc_normal ch ?s) = off_screen ?s"
    by (rule off_screen_putc_normal [OF on])
  have tabbed: "off_screen (putc_draw i (putc_tab ch ?s)) = off_screen ?s" if "screen_x (con s) < 75" for i
    using putc_tab_screen [OF on, of ch] off_screen_tab [OF on, of ch] draw that by simp
  consider (enter) "ch = 10 \<or> ch = 13" | (tab) "ch = 9" | (normal) "ch \<noteq> 9" "ch \<noteq> 10" "ch \<noteq> 13"
    by blast
  then show ?thesis
  proof cases
    case enter
    then show ?thesis
      using draw [OF on_screen_enter [OF on, of ch]] \<open>off_screen (putc_enter ch ?s) = _\<close> same
      by (auto simp: putc_def Let_def)
  next
    case tab
    then show ?thesis using tabbed same
      by (simp add: putc_def Let_def)
  next
    case normal
    then show ?thesis
      using draw [OF on_screen_normal [OF on, of ch]] \<open>off_screen (putc_normal ch ?s) = _\<close> same ch
      by (simp add: putc_def Let_def)
  qed
qed

text \<open>
  \<open>putc\<close> writes nothing outside the 4000 bytes of the screen, and apart from the console
  itself and the cursor kept in the terminal it changes no other part of the kernel.
\<close>

lemma putc_confined:
  assumes "console_ok s" and "ch \<noteq> 8"
  shows "off_screen (putc ch s) = off_screen s \<and> beside_screen (putc ch s) = beside_screen s"
  using off_screen_putc [OF assms] by simp

lemma putc_confined_example:
  "off_screen (putc 10 static_kernel) = off_screen static_kernel \<and>
   beside_screen (putc 10 static_kernel) = beside_screen static_kernel"
  by (rule putc_confined [OF static_console_ok]) simp

end
