(* ===== verification/Printf.thy ===== *)
theory Printf
  imports Screen
begin

text \<open>
  \<open>puts\<close> and \<open>printf\<close> of \<open>student-distrib/lib.c\<close>, character by character over \<open>putc\<close>.
  The locale \<open>char_sink\<close> is the contract that every routine which prints relies on: a sink
  that shows a character at a time, stays in working order and keeps the rest of the state.
  \<open>putc\<close> is its provider.
\<close>

section \<open>The contract of a character sink\<close>

locale char_sink =
  fixes put :: "u8 \<Rightarrow> 's \<Rightarrow> 's"
    and ok :: "'s \<Rightarrow> bool"
    and shown :: "'s \<Rightarrow> 'v"
    and show_char :: "u8 \<Rightarrow> 'v \<Rightarrow> 'v"
    and kept :: "'s \<Rightarrow> 'k"
    and printable :: "u8 \<Rightarrow> bool"
  assumes put_ok: "ok s \<Longrightarrow> printable ch \<Longrightarrow> ok (put ch s)"
    and put_shown: "ok s \<Longrightarrow> printable ch \<Longrightarrow> shown (put ch s) = show_char ch (shown s)"
    and put_kept: "ok s \<Longrightarrow> printable ch \<Longrightarrow> kept (put ch s) = kept s"
begin

lemma fold_sink:
  "ok s \<Longrightarrow> list_all printable cs \<Longrightarrow>
   ok (fold put cs s) \<and> shown (fold put cs s) = fold show_char cs (shown s) \<and>
   kept (fold put cs s) = kept s"
  by (induction cs arbitrary: s) (simp_all add: put_ok put_shown put_kept)

end

definition not_backspace :: "u8 \<Rightarrow> bool" where
  "not_backspace ch \<longleftrightarrow> ch \<noteq> 8"

interpretation tty: char_sink putc console_ok screen_of emit
  "\<lambda>s. (off_screen s, beside_screen s)" not_backspace
  by unfold_locales (simp_all add: not_backspace_def putc_console_ok putc_emit off_screen_putc)

section \<open>puts\<close>

text \<open>The string does not lie on the screen; \<open>None\<close> is a string without an end.\<close>

partial_function (option) puts_loop :: "bytes \<Rightarrow> nat \<Rightarrow> kernel \<Rightarrow> (nat \<times> kernel) option" where
  "puts_loop str index s =
     (if str index \<noteq> 0 then puts_loop str (index + 1) (putc (str index) s) else Some (index, s))"

definition puts :: "bytes \<Rightarrow> kernel \<Rightarrow> (nat \<times> kernel) option" where
  "puts str s = puts_loop str 0 s"

lemma puts_loop_cstr:
  assumes "cstr str cs"
  shows "i \<le> length cs \<Longrightarrow> puts_loop str i s = Some (length cs, fold putc (drop i cs) s)"
proof (induction "length cs - i" arbitrary: i s)
  case 0
  then show ?case
    using cstr_end [OF assms] by (simp add: puts_loop.simps [of str i])
next
  case (Suc k)
  then have i: "i < length cs" by simp
  have "drop i cs = str i # drop (i + 1) cs"
    using i cstr_nth [OF assms i] by (simp add: Cons_nth_drop_Suc)
  then show ?case
    using Suc(1) [of "i + 1" "putc (str i) s"] Suc(2) i cstr_nonzero [OF assms i]
    by (simp add: puts_loop.simps [of str i])
qed

lemma puts_cstr: "cstr str cs \<Longrightarrow> puts str s = Some (length cs, fold putc cs s)"
  using puts_loop_cstr [of str cs 0] by (simp add: puts_def)

section \<open>printf\<close>

text \<open>
  The arguments on the stack: a 32-bit word, or a pointer to a string.  An argument of the
  wrong kind, or none where one is needed, is undefined in C: the model has no result.  The
  conversion buffers are uninitialised locals; the model takes them zero.
\<close>

datatype arg = Num u32 | Str bytes

partial_function (option) format_char :: "bytes \<Rightarrow> nat \<Rightarrow> bool \<Rightarrow> (nat \<times> bool) option" where
  "format_char fmt buf alternate =
     (if fmt buf = 0x23 then format_char fmt (buf + 1) True else Some (buf, alternate))"

definition put_string :: "bytes option \<Rightarrow> kernel \<Rightarrow> kernel option" where
  "put_string b s = Option.bind b (\<lambda>str. Option.bind (puts str s) (\<lambda>(n, t). Some t))"

definition conv_hex :: "bool \<Rightarrow> u32 \<Rightarrow> bytes option" where
  "conv_hex alternate v =
     (if \<not> alternate then itoa v (\<lambda>_. 0) 16
      else Option.bind (itoa v (\<lambda>_. 0) 16) (\<lambda>b8.
           Option.bind (strlen b8) (\<lambda>starting_index.
             let conv_buf = (\<lambda>k. if k < 8 then 0 else b8 (k - 8));
                 filled_buf = (\<lambda>k. if starting_index \<le> k \<and> k < 8 then 0x30 else conv_buf k)
             in Some (\<lambda>k. filled_buf (starting_index + k)))))"

definition conv_signed :: "u32 \<Rightarrow> bytes option" where
  "conv_signed v =
     (if sint v < 0
      then Option.bind (itoa (- v) (\<lambda>_. 0) 10) (\<lambda>b. Some (\<lambda>k. if k = 0 then 0x2D else b (k - 1)))
      else itoa v (\<lambda>_. 0) 10)"

fun conversion :: "u8 \<Rightarrow> bool \<Rightarrow> arg list \<Rightarrow> kernel \<Rightarrow> (arg list \<times> kernel) option" where
  "conversion ch alternate args s =
     (if ch = 0x25 then Some (args, putc 0x25 s)
      else if ch \<notin> {0x78, 0x75, 0x64, 0x63, 0x73} then Some (args, s)
      else case args of
        Num v # rest \<Rightarrow>
          (if ch = 0x73 then None
           else if ch = 0x63 then Some (rest, putc (ucast v) s)
           else Option.bind
             (put_string (if ch = 0x78 then conv_hex alternate v
                          else if ch = 0x75 then itoa v (\<lambda>_. 0) 10
                          else conv_signed v) s)
             (\<lambda>t. Some (rest, t)))
      | Str b # rest \<Rightarrow>
          (if ch = 0x73 then Option.bind (put_string (Some b) s) (\<lambda>t. Some (rest, t)) else None)
      | [] \<Rightarrow> None)"

declare conversion.simps [simp del]

partial_function (option) printf_loop ::
    "bytes \<Rightarrow> nat \<Rightarrow> arg list \<Rightarrow> kernel \<Rightarrow> (nat \<times> kernel) option" where
  "printf_loop fmt buf args s =
     (if fmt buf = 0 then Some (buf, s)
      else if fmt buf = 0x25 then
        Option.bind (format_char fmt (buf + 1) False) (\<lambda>(b, alternate).
        Option.bind (conversion (fmt b) alternate args s) (\<lambda>(args1, s1).
          printf_loop fmt (b + 1) args1 s1))
      else printf_loop fmt (buf + 1) args (putc (fmt buf) s))"

definition printf :: "bytes \<Rightarrow> arg list \<Rightarrow> kernel \<Rightarrow> (nat \<times> kernel) option" where
  "printf fmt args s = printf_loop fmt 0 args s"

section \<open>What a format string means\<close>

text \<open>
  The documented conversions.  \<open>template\<close> is how each is written in a format string,
  \<open>arguments\<close> what it takes from the stack, \<open>rendered\<close> the characters it stands for.
\<close>

datatype directive =
    Text u8 | Percent | Hex u32 | Hex8 u32 | Unsigned u32 | Signed u32 | Character u32
  | String_at bytes "u8 list"

fun template :: "directive \<Rightarrow> u8 list" where
  "template (Text c) = [c]"
| "template Percent = [0x25, 0x25]"
| "template (Hex v) = [0x25, 0x78]"
| "template (Hex8 v) = [0x25, 0x23, 0x78]"
| "template (Unsigned v) = [0x25, 0x75]"
| "template (Signed v) = [0x25, 0x64]"
| "template (Character v) = [0x25, 0x63]"
| "template (String_at b cs) = [0x25, 0x73]"

fun arguments :: "directive \<Rightarrow> arg list" where
  "arguments (Text c) = []"
| "arguments Percent = []"
| "arguments (Hex v) = [Num v]"
| "arguments (Hex8 v) = [Num v]"
| "arguments (Unsigned v) = [Num v]"
| "arguments (Signed v) = [Num v]"
| "arguments (Character v) = [Num v]"
| "arguments (String_at b cs) = [Str b]"

definition hex8 :: "u32 \<Rightarrow> u8 list" where
  "hex8 v = (let d = digit_string 16 (unat v) in replicate (8 - length d) 0x30 @ d)"

definition signed_decimal :: "u32 \<Rightarrow> u8 list" where
  "signed_decimal v =
     (if sint v < 0 then 0x2D # digit_string 10 (unat (- v)) else digit_string 10 (unat v))"

fun rendered :: "directive \<Rightarrow> u8 list" where
  "rendered (Text c) = [c]"
| "rendered Percent = [0x25]"
| "rendered (Hex v) = digit_string 16 (unat v)"
| "rendered (Hex8 v) = hex8 v"
| "rendered (Unsigned v) = digit_string 10 (unat v)"
| "rendered (Signed v) = signed_decimal v"
| "rendered (Character v) = [ucast v]"
| "rendered (String_at b cs) = cs"

fun well_formed :: "directive \<Rightarrow> bool" where
  "well_formed (Text c) \<longleftrightarrow> c \<noteq> 0 \<and> c \<noteq> 0x25"
| "well_formed (String_at b cs) \<longleftrightarrow> cstr b cs"
| "well_formed d \<longleftrightarrow> True"

section \<open>printf prints what the format means\<close>

lemma put_string_cstr: "cstr b cs \<Longrightarrow> put_string (Some b) s = Some (fold putc cs s)"
  by (simp add: put_string_def puts_cstr)

lemma lsd_digits_length: "n < r ^ k \<Longrightarrow> length (lsd_digits r n) \<le> k"
proof (induction r n arbitrary: k rule: lsd_digits.induct)
  case (1 r n)
  show ?case
  proof (cases "n = 0 \<or> r < 2")
    case True
    then show ?thesis by (simp add: lsd_digits.simps [of r n])
  next
    case False
    with "1.prems" obtain j where k: "k = Suc j" by (cases k) auto
    then have "n div r < r ^ j" using "1.prems" False by (simp add: less_mult_imp_div_less mult.commute)
    with "1.IH" False k show ?thesis by (simp add: lsd_digits.simps [of r n])
  qed
qed

lemma digit_string_16_length: "length (digit_string 16 (unat (v :: u32))) \<le> 8"
proof -
  have "unat v < 16 ^ 8" using unat_bound_u32 [of v] by simp
  then show ?thesis using lsd_digits_length [of "unat v" 16 8] by (simp add: digit_string_def)
qed

lemma itoa_10: "\<exists>b. itoa v buf 10 = Some b \<and> cstr b (digit_string 10 (unat v))"
  using itoa_digit_string [of 10 v buf] by simp

lemma itoa_16: "\<exists>b. itoa v buf 16 = Some b \<and> cstr b (digit_string 16 (unat v))"
  using itoa_digit_string [of 16 v buf] by simp

lemma conv_hex_plain: "\<exists>b. conv_hex False v = Some b \<and> cstr b (digit_string 16 (unat v))"
  using itoa_16 by (simp add: conv_hex_def)

lemma conv_hex_padded: "\<exists>b. conv_hex True v = Some b \<and> cstr b (hex8 v)"
proof -
  obtain b8 where b: "itoa v (\<lambda>_. 0) 16 = Some b8" and c: "cstr b8 (digit_string 16 (unat v))"
    using itoa_16 by blast
  let ?d = "digit_string 16 (unat v)"
  let ?n = "length ?d"
  let ?b = "\<lambda>k. if ?n \<le> ?n + k \<and> ?n + k < 8 then 0x30
    else if ?n + k < 8 then 0 else b8 (?n + k - 8)"
  have n: "?n \<le> 8" by (rule digit_string_16_length)
  have "cstr ?b (hex8 v)"
    unfolding hex8_def Let_def
  proof (rule cstr_prefix)
    show "0 \<notin> set (replicate (8 - ?n) 0x30 @ ?d)" using cstr_no_nul [OF c] by simp
    show "?b (length (replicate (8 - ?n) 0x30 @ ?d)) = 0" using n cstr_end [OF c] by simp
  next
    fix i assume i: "i < length (replicate (8 - ?n) 0x30 @ ?d)"
    show "?b i = (replicate (8 - ?n) 0x30 @ ?d) ! i"
    proof (cases "i < 8 - ?n")
      case True
      then have "?n + i < 8" by linarith
      with True show ?thesis by (simp add: nth_append)
    next
      case False
      then have "?n + i - 8 = i - (8 - ?n)" and "i - (8 - ?n) < ?n" and "\<not> ?n + i < 8"
        using n i by simp_all
      then show ?thesis using False cstr_nth [OF c] by (simp add: nth_append)
    qed
  qed
  then show ?thesis
    using b strlen_cstr [OF c] by (simp add: conv_hex_def Let_def)
qed

lemma conv_signed_cstr: "\<exists>b. conv_signed v = Some b \<and> cstr b (signed_decimal v)"
proof (cases "sint v < 0")
  case True
  obtain b where b: "itoa (- v) (\<lambda>_. 0) 10 = Some b" and c: "cstr b (digit_string 10 (unat (- v)))"
    using itoa_10 by blast
  have "cstr (\<lambda>k. if k = 0 then 0x2D else b (k - 1)) (0x2D # digit_string 10 (unat (- v)))"
    using c by (auto simp: cstr_def nth_Cons')
  then show ?thesis using True b by (simp add: conv_signed_def signed_decimal_def)
next
  case False
  then show ?thesis using itoa_10 by (simp add: conv_signed_def signed_decimal_def)
qed

lemma conversion_simps [simp]:
  "conversion 0x25 al args s = Some (args, putc 0x25 s)"
  "conversion 0x63 al (Num v # rest) s = Some (rest, putc (ucast v) s)"
  "conversion 0x73 al (Str b # rest) s = Option.bind (put_string (Some b) s) (\<lambda>t. Some (rest, t))"
  "conversion 0x78 al (Num v # rest) s =
     Option.bind (put_string (conv_hex al v) s) (\<lambda>t. Some (rest, t))"
  "conversion 0x75 al (Num v # rest) s =
     Option.bind (put_string (itoa v (\<lambda>_. 0) 10) s) (\<lambda>t. Some (rest, t))"
  "conversion 0x64 al (Num v # rest) s =
     Option.bind (put_string (conv_signed v) s) (\<lambda>t. Some (rest, t))"
  by (simp_all add: conversion.simps)

lemma put_string_ex: "\<exists>b. x = Some b \<and> cstr b cs \<Longrightarrow> put_string x s = Some (fold putc cs s)"
  by (auto simp: put_string_cstr)

lemma format_char_plain: "fmt i \<noteq> 0x23 \<Longrightarrow> format_char fmt i al = Some (i, al)"
  by (simp add: format_char.simps [of fmt i])

lemma format_char_hash:
  "fmt i = 0x23 \<Longrightarrow> fmt (i + 1) \<noteq> 0x23 \<Longrightarrow> format_char fmt i al = Some (i + 1, True)"
  by (simp add: format_char.simps [of fmt i] format_char_plain)

lemma printf_directive:
  assumes "well_formed d" and at: "\<And>j. j < length (template d) \<Longrightarrow> fmt (i + j) = template d ! j"
  shows "printf_loop fmt i (arguments d @ rest) s =
    printf_loop fmt (i + length (template d)) rest (fold putc (rendered d) s)"
proof -
  have at0: "fmt i = template d ! 0" if "0 < length (template d)" using at [of 0] that by simp
  have at1: "fmt (Suc i) = template d ! 1" if "1 < length (template d)" using at [of 1] that by simp
  have at2: "fmt (Suc (Suc i)) = template d ! 2" if "2 < length (template d)"
    using at [of 2] that by simp
  show ?thesis
    using assms(1) at0 at1 at2
    by (cases d) (simp_all add: printf_loop.simps [of fmt i] format_char_plain format_char_hash
        put_string_cstr put_string_ex [OF conv_hex_plain] put_string_ex [OF conv_hex_padded]
        put_string_ex [OF conv_signed_cstr] put_string_ex [OF itoa_10])
qed

lemma template_nonempty: "template d \<noteq> []"
  by (cases d) simp_all

lemma printf_loop_directives:
  "list_all well_formed ds \<Longrightarrow> cstr (\<lambda>k. fmt (i + k)) (concat (map template ds)) \<Longrightarrow>
   printf_loop fmt i (concat (map arguments ds)) s =
     Some (i + length (concat (map template ds)), fold putc (concat (map rendered ds)) s)"
proof (induction ds arbitrary: i s)
  case Nil
  then show ?case by (simp add: printf_loop.simps [of fmt i] cstr_def)
next
  case (Cons d ds)
  let ?t = "template d" and ?ts = "concat (map template ds)"
  have whole: "cstr (\<lambda>k. fmt (i + k)) (?t @ ?ts)" using Cons.prems(2) by simp
  have at: "fmt (i + j) = ?t ! j" if "j < length ?t" for j
    using cstr_nth [OF whole, of j] that by (simp add: nth_append)
  have "cstr (\<lambda>k. fmt (i + length ?t + k)) ?ts"
  proof (rule cstr_prefix)
    show "0 \<notin> set ?ts" using cstr_no_nul [OF whole] by simp
    show "fmt (i + length ?t + length ?ts) = 0" using cstr_end [OF whole] by (simp add: add.assoc)
    fix k assume "k < length ?ts"
    then show "fmt (i + length ?t + k) = ?ts ! k"
      using cstr_nth [OF whole, of "length ?t + k"] by (simp add: nth_append add.assoc)
  qed
  moreover have "well_formed d" and "list_all well_formed ds" using Cons.prems(1) by simp_all
  ultimately show ?case
    using printf_directive [of d fmt i "concat (map arguments ds)" s, OF _ at] Cons.IH
    by (simp add: add.assoc)
qed

text \<open>
  C34: \<open>printf\<close> returns for every format string made of the documented conversions with
  matching arguments, prints exactly what the conversions stand for, character by character
  (signed and unsigned decimals, hexadecimal, zero-padded hexadecimal, characters, strings,
  literal percent), and returns the length of the format.
\<close>

theorem printf_formats:
  assumes "list_all well_formed ds" and "cstr fmt (concat (map template ds))"
  shows "printf fmt (concat (map arguments ds)) s =
    Some (length (concat (map template ds)), fold putc (concat (map rendered ds)) s)"
  using printf_loop_directives [of ds fmt 0] assms by (simp add: printf_def)

theorem printf_formats_witness:
  "printf (array_of (lit ''a%d%#x'')) [Num 5, Num 255] static_kernel =
    Some (6, fold putc (concat (map rendered [Text 0x61, Signed 5, Hex8 255])) static_kernel)"
proof -
  let ?ds = "[Text 0x61, Signed 5, Hex8 255]"
  have "cstr (array_of (lit ''a%d%#x'')) (concat (map template ?ds))"
    using cstr_array_of [of "lit ''a%d%#x''"] by simp
  then show ?thesis using printf_formats [of ?ds "array_of (lit ''a%d%#x'')" static_kernel] by simp
qed

text \<open>The digits of a number are printed as they are.\<close>

lemma lookup_not_backspace: "i < 36 \<Longrightarrow> not_backspace (lookup i)"
proof -
  have "list_all (\<lambda>i. not_backspace (lookup i)) [0..<36]"
    by (simp add: upt_conv_Cons lookup_def array_of_def not_backspace_def)
  then show "i < 36 \<Longrightarrow> not_backspace (lookup i)" by (simp add: list_all_iff)
qed

lemma digits_not_backspace: "0 < r \<Longrightarrow> r \<le> 36 \<Longrightarrow> list_all not_backspace (digit_string r n)"
  using lookup_not_backspace lsd_digits_less [of _ r n]
  by (fastforce simp: digit_string_def list_all_iff)

text \<open>What a printed format leaves alone, through the contract of the sink.\<close>

lemma fold_putc_sink:
  assumes "console_ok s" and "list_all not_backspace cs"
  shows "console_ok (fold putc cs s)" "screen_of (fold putc cs s) = fold emit cs (screen_of s)"
    "off_screen (fold putc cs s) = off_screen s" "beside_screen (fold putc cs s) = beside_screen s"
  using tty.fold_sink [OF assms] by simp_all

lemma beside_fold_putc [simp]: "beside_screen (fold putc cs s) = beside_screen s"
  by (induction cs arbitrary: s) simp_all

lemma fold_putc_video [simp]: "video_mem (con (fold putc cs s)) = video_mem (con s)"
  by (induction cs arbitrary: s) (simp_all add: putc_con)

lemmas fold_putc_frame [simp] = beside_eqD [OF beside_fold_putc] beside_terminalD [OF beside_fold_putc]

section \<open>Printing leaves the rest of the kernel alone\<close>

lemma puts_loop_beside:
  assumes "puts_loop str i s = Some nt"
  shows "beside_screen (snd nt) = beside_screen s"
  using _ assms
proof (rule puts_loop.raw_induct [where P = "\<lambda>str i s nt. beside_screen (snd nt) = beside_screen s"])
  fix f str i s nt
  assume IH: "\<And>str i s nt. f str i s = Some nt \<Longrightarrow> beside_screen (snd nt) = beside_screen s"
    and body: "(if str i \<noteq> 0 then f str (i + 1) (putc (str i) s) else Some (i, s)) = Some nt"
  show "beside_screen (snd nt) = beside_screen s"
    using body by (auto dest!: IH split: if_splits)
qed

lemma puts_beside: "puts str s = Some (n, t) \<Longrightarrow> beside_screen t = beside_screen s"
  unfolding puts_def using puts_loop_beside by fastforce

lemma put_string_beside: "put_string b s = Some t \<Longrightarrow> beside_screen t = beside_screen s"
  by (auto simp: put_string_def puts_beside bind_eq_Some_conv)

lemma conversion_beside:
  "conversion ch al args s = Some (rest, t) \<Longrightarrow> beside_screen t = beside_screen s"
  by (auto simp: conversion.simps bind_eq_Some_conv dest: put_string_beside
      split: if_splits list.splits arg.splits)

lemma printf_loop_beside:
  assumes "printf_loop fmt i args s = Some nt"
  shows "beside_screen (snd nt) = beside_screen s"
  using _ assms
proof (rule printf_loop.raw_induct [where P = "\<lambda>fmt i args s nt. beside_screen (snd nt) = beside_screen s"])
  fix f fmt i args s nt
  assume IH: "\<And>fmt i args s nt. f fmt i args s = Some nt \<Longrightarrow> beside_screen (snd nt) = beside_screen s"
    and body: "(if fmt i = 0 then Some (i, s)
      else if fmt i = 0x25 then
        Option.bind (format_char fmt (i + 1) False) (\<lambda>(b, alternate).
        Option.bind (conversion (fmt b) alternate args s) (\<lambda>(args1, s1). f fmt (b + 1) args1 s1))
      else f fmt (i + 1) args (putc (fmt i) s)) = Some nt"
  show "beside_screen (snd nt) = beside_screen s"
    using body by (auto simp: bind_eq_Some_conv dest!: IH conversion_beside split: if_splits)
qed

lemma printf_beside: "printf fmt args s = Some (n, t) \<Longrightarrow> beside_screen t = beside_screen s"
  unfolding printf_def using printf_loop_beside by fastforce

text \<open>
  \<open>printf\<close> of a message without conversions.  It always returns (\<open>say_text\<close>), so the
  other case of the definition is never taken for the kernel's messages.
\<close>

definition say :: "string \<Rightarrow> kernel \<Rightarrow> kernel" where
  "say m s = (case printf (array_of (lit m)) [] s of Some (n, t) \<Rightarrow> t | None \<Rightarrow> s)"

definition plain :: "u8 list \<Rightarrow> bool" where
  "plain cs \<longleftrightarrow> list_all (\<lambda>c. c \<noteq> 0 \<and> c \<noteq> 0x25) cs"

lemma say_text:
  assumes "plain (lit m)"
  shows "say m s = fold putc (lit m) s"
proof -
  have wf: "list_all well_formed (map Text (lit m))"
    using assms by (simp add: plain_def list_all_iff)
  have t: "concat (map template (map Text cs)) = cs" "concat (map rendered (map Text cs)) = cs"
    "concat (map arguments (map Text cs)) = []" for cs
    by (induction cs) simp_all
  have "0 \<notin> set (lit m)" using assms by (auto simp: plain_def list_all_iff)
  then have "printf_loop (array_of (lit m)) 0 [] s = Some (length (lit m), fold putc (lit m) s)"
    using printf_loop_directives [OF wf, of "array_of (lit m)" 0 s] cstr_array_of [of "lit m"]
    by (simp only: t) simp
  then show ?thesis by (simp add: say_def printf_def)
qed

lemma beside_say [simp]: "beside_screen (say m s) = beside_screen s"
  by (simp add: say_def printf_beside split: option.split prod.split)

lemmas say_frame [simp] = beside_eqD [OF beside_say] beside_terminalD [OF beside_say]

end
