(* ===== verification/I8259.thy ===== *)
theory I8259
  imports Printf
begin

text \<open>
  \<open>student-distrib/i8259.c\<close>: the two cascaded interrupt controllers.  The masks are kept in
  two global bytes and written to the controllers' data ports; the locale \<open>irq_controller\<close>
  is what the drivers rely on when they enable their line, and the model's functions provide
  it.
\<close>

section \<open>The functions of i8259.c\<close>

definition set_master_mask :: "u8 \<Rightarrow> kernel \<Rightarrow> kernel" where
  "set_master_mask m s = s\<lparr>irqs := (irqs s)\<lparr>master_mask := m\<rparr>\<rparr>"

definition set_slave_mask :: "u8 \<Rightarrow> kernel \<Rightarrow> kernel" where
  "set_slave_mask m s = s\<lparr>irqs := (irqs s)\<lparr>slave_mask := m\<rparr>\<rparr>"

definition enable_irq :: "nat \<Rightarrow> kernel \<Rightarrow> kernel" where
  "enable_irq irq_num s =
     (if irq_num \<ge> 8
      then let s1 = set_slave_mask (slave_mask (irqs s) AND NOT (push_bit (irq_num - 8) 1)) s
           in outb (slave_mask (irqs s1)) 0xA1 s1
      else let s1 = set_master_mask (master_mask (irqs s) AND NOT (push_bit irq_num 1)) s
           in outb (master_mask (irqs s1)) 0x21 s1)"

definition disable_irq :: "nat \<Rightarrow> kernel \<Rightarrow> kernel" where
  "disable_irq irq_num s =
     (if irq_num \<ge> 8
      then let s1 = set_slave_mask (slave_mask (irqs s) OR push_bit (irq_num - 8) 1) s
           in outb (slave_mask (irqs s1)) 0xA1 s1
      else let s1 = set_master_mask (master_mask (irqs s) OR push_bit irq_num 1) s
           in outb (master_mask (irqs s1)) 0x21 s1)"

definition send_eoi :: "nat \<Rightarrow> kernel \<Rightarrow> kernel" where
  "send_eoi irq_num s =
     (if irq_num \<ge> 8
      then outb (0x60 OR 2) 0x20 (outb (0x60 OR of_nat (irq_num - 8)) 0xA0 s)
      else outb (0x60 OR of_nat irq_num) 0x20 s)"

definition init_words :: "kernel \<Rightarrow> kernel" where
  "init_words s =
     (let s1 = outb 0xFF 0xA1 (outb 0xFF 0x21 s);
          s2 = outb 0x04 0x21 (outb 0x20 0x21 (outb 0x11 0x20 s1))
      in outb 0x01 0xA1 (outb 0x02 0xA1 (outb 0x28 0xA1 (outb 0x11 0xA0 s2))))"

definition mask_all_but_cascade :: "kernel \<Rightarrow> kernel" where
  "mask_all_but_cascade s = for_loop 16 (\<lambda>i t. if i = 2 then enable_irq 2 t else disable_irq i t) s"

definition i8259_init :: "kernel \<Rightarrow> kernel" where
  "i8259_init s =
     (let flags = intr_flag s;
          s1 = mask_all_but_cascade (init_words (cli s));
          s2 = (sti s1)\<lparr>intr_flag := flags\<rparr>
      in say (''initialize i8259 finished'' @ [CHR 0x0A]) s2)"

section \<open>Lines and ports\<close>

definition irq_masked :: "kernel \<Rightarrow> nat \<Rightarrow> bool" where
  "irq_masked s n = (if n \<ge> 8 then bit (slave_mask (irqs s)) (n - 8) else bit (master_mask (irqs s)) n)"

definition enabled_irqs :: "kernel \<Rightarrow> nat set" where
  "enabled_irqs s = {n. n < 16 \<and> \<not> irq_masked s n}"

text \<open>The byte a port received last.\<close>

definition port_last :: "kernel \<Rightarrow> u32 \<Rightarrow> u8 option" where
  "port_last s p = map_of (rev (outs s)) p"

definition master_agrees :: "kernel \<Rightarrow> bool" where
  "master_agrees s \<longleftrightarrow> port_last s 0x21 = Some (master_mask (irqs s))"

definition slave_agrees :: "kernel \<Rightarrow> bool" where
  "slave_agrees s \<longleftrightarrow> port_last s 0xA1 = Some (slave_mask (irqs s))"

definition masks_agree :: "kernel \<Rightarrow> bool" where
  "masks_agree s \<longleftrightarrow> master_agrees s \<and> slave_agrees s"

lemma port_last_outb: "port_last (outb v q s) p = (if p = q then Some v else port_last s p)"
  by (simp add: port_last_def outb_def)

lemma outb_frame [simp]: "irqs (outb v q s) = irqs s"
  by (simp add: outb_def)

lemma set_mask_fields [simp]:
  "irqs (set_master_mask m s) = (irqs s)\<lparr>master_mask := m\<rparr>"
  "irqs (set_slave_mask m s) = (irqs s)\<lparr>slave_mask := m\<rparr>"
  "port_last (set_master_mask m s) p = port_last s p"
  "port_last (set_slave_mask m s) p = port_last s p"
  by (simp_all add: set_master_mask_def set_slave_mask_def port_last_def)

lemma irq_state_cong:
  "irqs t = irqs s \<Longrightarrow> enabled_irqs t = enabled_irqs s"
  "irqs t = irqs s \<Longrightarrow> outs t = outs s \<Longrightarrow> masks_agree t = masks_agree s"
  by (simp_all add: enabled_irqs_def irq_masked_def masks_agree_def master_agrees_def
      slave_agrees_def port_last_def)

lemma irq_masked_enable:
  "n < 16 \<Longrightarrow> m < 16 \<Longrightarrow> irq_masked (enable_irq n s) m \<longleftrightarrow> m \<noteq> n \<and> irq_masked s m"
  by (auto simp: irq_masked_def enable_irq_def Let_def bit_simps)

lemma irq_masked_disable:
  "n < 16 \<Longrightarrow> m < 16 \<Longrightarrow> irq_masked (disable_irq n s) m \<longleftrightarrow> m = n \<or> irq_masked s m"
  by (auto simp: irq_masked_def disable_irq_def Let_def bit_simps)

lemma agrees_enable:
  "n < 8 \<Longrightarrow> master_agrees (enable_irq n s)" "n \<ge> 8 \<Longrightarrow> slave_agrees (enable_irq n s)"
  "n < 8 \<Longrightarrow> slave_agrees (enable_irq n s) = slave_agrees s"
  "n \<ge> 8 \<Longrightarrow> master_agrees (enable_irq n s) = master_agrees s"
  by (simp_all add: master_agrees_def slave_agrees_def enable_irq_def Let_def port_last_outb)

lemma agrees_disable:
  "n < 8 \<Longrightarrow> master_agrees (disable_irq n s)" "n \<ge> 8 \<Longrightarrow> slave_agrees (disable_irq n s)"
  "n < 8 \<Longrightarrow> slave_agrees (disable_irq n s) = slave_agrees s"
  "n \<ge> 8 \<Longrightarrow> master_agrees (disable_irq n s) = master_agrees s"
  by (simp_all add: master_agrees_def slave_agrees_def disable_irq_def Let_def port_last_outb)

section \<open>The contract of an interrupt controller\<close>

locale irq_controller =
  fixes enable :: "nat \<Rightarrow> 's \<Rightarrow> 's"
    and disable :: "nat \<Rightarrow> 's \<Rightarrow> 's"
    and enabled :: "'s \<Rightarrow> nat set"
    and programmed :: "'s \<Rightarrow> bool"
  assumes enabled_enable: "n < 16 \<Longrightarrow> enabled (enable n s) = insert n (enabled s)"
    and enabled_disable: "n < 16 \<Longrightarrow> enabled (disable n s) = enabled s - {n}"
    and programmed_enable: "programmed s \<Longrightarrow> programmed (enable n s)"
    and programmed_disable: "programmed s \<Longrightarrow> programmed (disable n s)"
begin

lemma enabled_loop:
  "n \<le> 16 \<Longrightarrow> enabled (for_loop n (\<lambda>i t. if i = k then enable k t else disable i t) s)
    = (if k < n then {k} else {}) \<union> (enabled s - {..<n})"
proof (induction n)
  case 0
  then show ?case by simp
next
  case (Suc n)
  then show ?case
    by (auto simp: enabled_enable enabled_disable lessThan_Suc split: if_splits)
qed

lemma enabled_fold:
  "\<forall>n \<in> set ns. n < 16 \<Longrightarrow> enabled (fold enable ns s) = set ns \<union> enabled s"
  by (induction ns arbitrary: s) (auto simp: enabled_enable)

end

interpretation pic: irq_controller enable_irq disable_irq enabled_irqs masks_agree
proof
  fix n s assume "n < (16 :: nat)"
  then show "enabled_irqs (enable_irq n s) = insert n (enabled_irqs s)"
    and "enabled_irqs (disable_irq n s) = enabled_irqs s - {n}"
    by (auto simp: enabled_irqs_def irq_masked_enable irq_masked_disable)
next
  fix s n assume "masks_agree s"
  then show "masks_agree (enable_irq n s)" and "masks_agree (disable_irq n s)"
    by (cases "n < 8"; simp add: masks_agree_def agrees_enable agrees_disable)+
qed

lemma mask_loop_agrees:
  "(0 < n \<longrightarrow> master_agrees (for_loop n (\<lambda>i t. if i = 2 then enable_irq 2 t else disable_irq i t) s)) \<and>
   (8 < n \<longrightarrow> slave_agrees (for_loop n (\<lambda>i t. if i = 2 then enable_irq 2 t else disable_irq i t) s))"
proof (induction n)
  case 0
  then show ?case by simp
next
  case (Suc n)
  then show ?case by (cases "n < 8") (auto simp: agrees_enable agrees_disable)
qed

lemma i8259_init_fields:
  "irqs (i8259_init s) = irqs (mask_all_but_cascade (init_words (cli s)))"
  "outs (i8259_init s) = outs (mask_all_but_cascade (init_words (cli s)))"
  "intr_flag (i8259_init s) = intr_flag s"
  by (simp_all add: i8259_init_def Let_def sti_def)

text \<open>
  After \<open>i8259_init\<close> the cascade line is the only one enabled, the two controllers hold
  the masks the kernel keeps, and the interrupt flag is what it was.
\<close>

lemma i8259_init_enables:
  "enabled_irqs (i8259_init s) = {2} \<and> masks_agree (i8259_init s) \<and>
   intr_flag (i8259_init s) = intr_flag s"
proof -
  let ?t = "mask_all_but_cascade (init_words (cli s))"
  have "enabled_irqs (init_words (cli s)) \<subseteq> {..<16}" by (auto simp: enabled_irqs_def)
  then have e: "enabled_irqs ?t = {2}"
    unfolding mask_all_but_cascade_def using pic.enabled_loop [of 16 2 "init_words (cli s)"] by auto
  have a: "masks_agree ?t"
    using mask_loop_agrees [of 16] by (simp add: masks_agree_def mask_all_but_cascade_def)
  show ?thesis
    using e a irq_state_cong [of "i8259_init s" ?t] by (simp add: i8259_init_fields)
qed

text \<open>
  The lines the controllers let through, by the last byte each of their data ports was sent.  The
  masks in the kernel's variables are a copy, which the kernel can lose (\<open>terminal_init\<close>).
\<close>

definition lines_open :: "kernel \<Rightarrow> nat set" where
  "lines_open s = {n. n < 16 \<and> (case port_last s (if 8 \<le> n then 0xA1 else 0x21) of
     None \<Rightarrow> False | Some m \<Rightarrow> \<not> bit m (n mod 8))}"

lemma lines_open_masks: "masks_agree s \<Longrightarrow> lines_open s = enabled_irqs s"
proof -
  assume "masks_agree s"
  moreover have "n mod 8 = n - 8" if "8 \<le> n" "n < 16" for n :: nat
    using that by (simp add: le_mod_geq)
  ultimately show ?thesis
    by (auto simp: lines_open_def enabled_irqs_def irq_masked_def masks_agree_def master_agrees_def slave_agrees_def not_le)
qed

lemma lines_open_cong: "outs t = outs s \<Longrightarrow> lines_open t = lines_open s"
  by (simp add: lines_open_def port_last_def)

lemma lines_open_outb: "p \<noteq> 0x21 \<Longrightarrow> p \<noteq> 0xA1 \<Longrightarrow> lines_open (outb d p s) = lines_open s"
  by (simp add: lines_open_def port_last_outb cong: if_cong)

text \<open>Every acknowledged interrupt ends with the master controller, the slave's with both.\<close>

lemma send_eoi_ports:
  "n < 8 \<Longrightarrow> outs (send_eoi n s) = outs s @ [(0x20, 0x60 OR of_nat n)]"
  "8 \<le> n \<Longrightarrow> outs (send_eoi n s) = outs s @ [(0xA0, 0x60 OR of_nat (n - 8)), (0x20, 0x62)]"
  by (simp_all add: send_eoi_def outb_def)

end
