(* ===== verification/Rtc.thy ===== *)
theory Rtc
  imports I8259 Filesystem
begin

text \<open>
  \<open>student-distrib/rtc.c\<close>: the real-time clock driver.  The interrupt handler counts a tick
  in the file position of the first open RTC descriptor of each active process; \<open>rtc_read\<close>
  spins until it sees one.  What happens while it spins is a parameter: \<open>env k\<close> is the change
  of state between the test number \<open>k\<close> of the loop and the next one.
\<close>

section \<open>The interrupt handler\<close>

text \<open>The loop over the descriptors of one process; the second argument counts what is left.\<close>

fun tick_from :: "nat \<Rightarrow> nat \<Rightarrow> pcb \<Rightarrow> pcb" where
  "tick_from fd 0 p = p"
| "tick_from fd (Suc k) p =
     (if inode (file_descriptor p fd) = -1 \<and> flag (file_descriptor p fd) = 1
      then upd_fd fd (\<lambda>f. f\<lparr>file_position := file_position f + 1\<rparr>) p
      else tick_from (fd + 1) k p)"

definition rtc_tick :: "nat \<Rightarrow> kernel \<Rightarrow> kernel" where
  "rtc_tick i s =
     (let a = pcb_addr (int i) in
      if active (pcb_at s a) = 0 then s else upd_pcb a (tick_from 0 8) s)"

definition rtc_intr_handler :: "kernel \<Rightarrow> kernel" where
  "rtc_intr_handler s =
     (let s1 = (cli s)\<lparr>rtc_interrupt_occurred := 1,
                      rtc_interrupt_counter := rtc_interrupt_counter s + 1\<rparr>;
          s2 = for_loop 6 rtc_tick s1;
          s3 = outb 0x0C 0x70 s2
      in sti (send_eoi 8 s3))"

section \<open>The driver\<close>

definition init_rtc :: "kernel \<Rightarrow> kernel" where
  "init_rtc s =
     (let s1 = outb 0x8B 0x70 (cli s);
          prev = ucast (inb 0x71 s1) :: u8;
          s2 = outb (prev OR 0x40) 0x71 (outb 0x8B 0x70 s1);
          s3 = enable_irq 8 (outb 0x8A 0x70 s2);
          s4 = (outb 0xF 0x71 s3)\<lparr>rtc_interrupt_counter := 0, rtc_interrupt_occurred := 0\<rparr>
      in sti (say (''RTC interrupt enabled '' @ [CHR 0x0A]) s4))"

definition rtc_open :: "bytes \<Rightarrow> kernel \<Rightarrow> int \<times> kernel" where
  "rtc_open filename s = (0, outb 0xF 0x71 (outb 0x8A 0x70 s))"

definition rtc_close :: "nat \<Rightarrow> kernel \<Rightarrow> int \<times> kernel" where
  "rtc_close fd s =
     (0, upd_pcb (curr_pcb s) (upd_fd fd (\<lambda>f. f\<lparr>file_position := 0\<rparr>)) s)"

partial_function (option) rtc_wait ::
    "(nat \<Rightarrow> kernel \<Rightarrow> kernel) \<Rightarrow> nat \<Rightarrow> u32 \<Rightarrow> nat \<Rightarrow> kernel \<Rightarrow> kernel option" where
  "rtc_wait env k p fd s =
     (if file_position (file_descriptor (pcb_at s p) fd) = 0
      then rtc_wait env (k + 1) p fd (env k s) else Some s)"

definition rtc_read ::
    "(nat \<Rightarrow> kernel \<Rightarrow> kernel) \<Rightarrow> nat \<Rightarrow> u32 \<Rightarrow> u32 \<Rightarrow> kernel \<Rightarrow> (int \<times> kernel) option" where
  "rtc_read env fd buf nbytes s =
     (let p = curr_pcb s in
      case rtc_wait env 0 p fd s of
        None \<Rightarrow> None
      | Some t \<Rightarrow> Some (0, upd_pcb p (upd_fd fd (\<lambda>f. f\<lparr>file_position := 0\<rparr>)) t))"

text \<open>
  \<open>rate\<close> is not initialised in the source; the loop always finds one for a frequency that
  passed the tests.
\<close>

definition rtc_rate :: "u32 \<Rightarrow> u8" where
  "rtc_rate freq =
     for_loop 15 (\<lambda>i rate. if push_bit i freq = 32768 then of_nat (i + 1) else rate) 0 AND 0x0F"

definition rtc_write :: "nat \<Rightarrow> u32 \<Rightarrow> u32 \<Rightarrow> kernel \<Rightarrow> int \<times> kernel" where
  "rtc_write fd buf nbytes s =
     (if nbytes \<noteq> 4 \<or> buf = 0 then (-1, s)
      else let rtc_frequency = word_at (ld8 s) buf in
        if sint rtc_frequency < 2 \<or> sint rtc_frequency > 1024 then (-1, s)
        else if rtc_frequency AND (rtc_frequency - 1) \<noteq> 0 then (-1, s)
        else (4, outb (rtc_rate rtc_frequency) 0x71 (outb 0x8A 0x70 s)))"

section \<open>Powers of two\<close>

lemma and_pred_power:
  "0 < n \<Longrightarrow> n AND (n - 1) = 0 \<Longrightarrow> \<exists>k. n = 2 ^ k" for n :: nat
proof (induction n rule: less_induct)
  case (less n)
  show ?case
  proof (cases "even n")
    case True
    then obtain m where m: "n = 2 * m" by (rule evenE)
    with less.prems(1) have m0: "0 < m" by simp
    have "n - 1 = 2 * (m - 1) + 1" using m m0 by linarith
    then have "2 * (m AND (m - 1)) = 0"
      using less.prems(2) m by (simp add: and_nat_rec [of "2 * m"])
    then have "m AND (m - 1) = 0" by simp
    with less.IH [of m] m m0 obtain k where "m = 2 ^ k" by auto
    with m have "n = 2 ^ Suc k" by simp
    then show ?thesis by blast
  next
    case False
    then obtain m where m: "n = 2 * m + 1" by (rule oddE)
    have "n AND (n - 1) = of_bool (odd n \<and> odd (n - 1)) + 2 * ((n div 2) AND ((n - 1) div 2))"
      by (rule and_rec)
    then have "m = 0" using less.prems(2) m by simp
    with m have "n = 2 ^ 0" by simp
    then show ?thesis by blast
  qed
qed

lemma word_power_of_two:
  fixes w :: u32
  assumes "w \<noteq> 0" and "w AND (w - 1) = 0"
  shows "\<exists>k. unat w = 2 ^ k"
proof (rule and_pred_power)
  show "0 < unat w" using assms(1) by (simp add: unat_gt_0)
  have "unat w AND (unat w - 1) = unat (w AND (w - 1))"
    using assms(1) by (simp add: unsigned_and_eq unat_minus_one)
  then show "unat w AND (unat w - 1) = 0" unfolding assms(2) by simp
qed

section \<open>rtc_write accepts the ten frequencies\<close>

text \<open>The frequencies of the chip that the driver allows: \<open>2^k\<close> Hz for \<open>k\<close> from 1 to 10.\<close>

definition rtc_exponent :: "u32 \<Rightarrow> nat option" where
  "rtc_exponent freq = List.find (\<lambda>k. freq = 2 ^ k) [1..<11]"

lemma upt_1_11: "[1..<11] = [1, 2, 3, 4, 5, 6, 7, 8, 9, 10 :: nat]"
  by (simp add: upt_conv_Cons)

lemma accepted_power:
  fixes f :: u32
  assumes "2 \<le> sint f" and "sint f \<le> 1024" and "f AND (f - 1) = 0"
  shows "\<exists>k. 1 \<le> k \<and> k \<le> 10 \<and> f = 2 ^ k"
proof -
  have "f \<noteq> 0" using assms(1) by auto
  then obtain k where k: "unat f = 2 ^ k" using word_power_of_two assms(3) by blast
  have "int (unat f) = sint f" by (rule unat_sint) (use assms(1) in linarith)
  then have r: "2 \<le> unat f" "unat f \<le> 1024" using assms(1,2) by linarith+
  then have "(2 :: nat) ^ k \<le> 2 ^ 10" "k \<noteq> 0" using k by (auto intro: ccontr)
  then have "k \<le> 10" by (intro power_le_imp_le_exp [of 2 k 10]) simp_all
  moreover have "f = of_nat (unat f)" by simp
  then have "f = 2 ^ k" unfolding k by simp
  ultimately show ?thesis using \<open>k \<noteq> 0\<close> by (intro exI [of _ k]) simp
qed

lemma shifted_to_2_15:
  assumes "i < 15" and "k \<le> 10"
  shows "push_bit i (2 ^ k :: u32) = 32768 \<longleftrightarrow> i = 15 - k"
proof -
  have "push_bit i (2 ^ k :: u32) = of_nat (2 ^ (k + i))"
    by (simp add: push_bit_eq_mult power_add)
  moreover have "(32768 :: u32) = of_nat (2 ^ 15)" by simp
  moreover have "(2 :: nat) ^ (k + i) < 2 ^ 32"
    by (rule power_strict_increasing) (use assms in simp_all)
  ultimately have "push_bit i (2 ^ k :: u32) = 32768 \<longleftrightarrow> (2 :: nat) ^ (k + i) = 2 ^ 15"
    using of_nat_inj_u32 [of "2 ^ (k + i)" "2 ^ 15"] by simp
  also have "\<dots> \<longleftrightarrow> k + i = 15" by (rule power_inject_exp) simp
  finally show ?thesis using assms by linarith
qed

lemma rtc_rate_exponent:
  assumes "1 \<le> k" and "k \<le> 10"
  shows "rtc_rate (2 ^ k) = of_nat (16 - k)"
proof -
  have "rtc_rate (2 ^ k) = (if 15 - k < 15 then of_nat (15 - k + 1) else 0) AND 0x0F"
    unfolding rtc_rate_def
    by (subst for_loop_one [where j = "15 - k" and f = "\<lambda>_. of_nat (15 - k + 1)"])
      (use assms in \<open>auto simp: shifted_to_2_15\<close>)
  moreover have "k \<in> set [1..<11]" using assms by simp
  ultimately show ?thesis unfolding upt_1_11 by auto
qed

lemma rtc_exponent_valid:
  assumes "rtc_exponent f = Some k"
  shows "1 \<le> k" "k \<le> 10" "f = 2 ^ k"
  using assms by (auto simp: rtc_exponent_def find_Some_iff)

lemma power_and_pred: "1 \<le> k \<Longrightarrow> k \<le> 10 \<Longrightarrow> (2 ^ k :: u32) AND (2 ^ k - 1) = 0 \<and> 2 \<le> sint (2 ^ k :: u32) \<and>
    sint (2 ^ k :: u32) \<le> 1024"
proof -
  assume "1 \<le> k" "k \<le> 10"
  then have "k \<in> set [1..<11]" by simp
  then show ?thesis unfolding upt_1_11 by auto
qed

text \<open>
  \<open>rtc_write\<close> succeeds exactly on a 4-byte request, not at \<open>NULL\<close>, for one of the
  frequencies \<open>2^k\<close> Hz with \<open>k\<close> from 1 to 10; it then programs the divider \<open>16 - k\<close>, for which
  the chip's \<open>32768 >> (rate - 1)\<close> is the frequency asked for.  In every other case it returns
  -1 and changes nothing.
\<close>

lemma rtc_write_spec:
  "rtc_write fd buf nbytes s =
    (case rtc_exponent (word_at (ld8 s) buf) of
       Some k \<Rightarrow> (if nbytes = 4 \<and> buf \<noteq> 0
                  then (4, outb (of_nat (16 - k)) 0x71 (outb 0x8A 0x70 s)) else (-1, s))
     | None \<Rightarrow> (-1, s))"
proof -
  let ?f = "word_at (ld8 s) buf"
  show ?thesis
  proof (cases "rtc_exponent ?f")
    case None
    then have "\<forall>k \<in> set [1..<11]. ?f \<noteq> 2 ^ k" by (simp add: rtc_exponent_def find_None_iff)
    then have "\<not> (2 \<le> sint ?f \<and> sint ?f \<le> 1024 \<and> ?f AND (?f - 1) = 0)"
      using accepted_power [of ?f] by force
    then show ?thesis using None by (auto simp: rtc_write_def Let_def)
  next
    case (Some k)
    note k = rtc_exponent_valid [OF Some]
    then show ?thesis
      using Some power_and_pred [OF k(1,2)] rtc_rate_exponent [OF k(1,2)]
      by (simp add: rtc_write_def Let_def)
  qed
qed

text \<open>The divider is the right one for the chip.\<close>

lemma rtc_divider: "1 \<le> k \<Longrightarrow> k \<le> 10 \<Longrightarrow> 32768 div 2 ^ (16 - k - 1) = (2 :: nat) ^ k"
proof -
  assume "1 \<le> k" "k \<le> 10"
  then have "k \<in> set [1..<11]" by simp
  then show ?thesis unfolding upt_1_11 by auto
qed

section \<open>Waiting for a tick\<close>

definition rtc_file :: "file_object \<Rightarrow> bool" where
  "rtc_file f \<longleftrightarrow> inode f = -1 \<and> flag f = 1"

text \<open>The handler counts in the first RTC descriptor and touches no other.\<close>

lemma tick_from_first:
  assumes "rtc_file (file_descriptor p k)" and "fd \<le> k"
    and "\<And>j. fd \<le> j \<Longrightarrow> j < k \<Longrightarrow> \<not> rtc_file (file_descriptor p j)"
  shows "k < fd + n \<Longrightarrow> tick_from fd n p = upd_fd k (\<lambda>f. f\<lparr>file_position := file_position f + 1\<rparr>) p"
  using assms
proof (induction n arbitrary: fd)
  case 0
  then show ?case by simp
next
  case (Suc n)
  show ?case
  proof (cases "fd = k")
    case True
    then show ?thesis using Suc.prems(2) by (simp add: rtc_file_def)
  next
    case False
    then have skip: "\<not> (inode (file_descriptor p fd) = -1 \<and> flag (file_descriptor p fd) = 1)"
      using Suc.prems by (simp add: rtc_file_def)
    have "tick_from (fd + 1) n p = upd_fd k (\<lambda>f. f\<lparr>file_position := file_position f + 1\<rparr>) p"
      by (rule Suc.IH) (use Suc.prems False in simp_all)
    with skip show ?thesis by auto
  qed
qed

lemma rtc_tick_pcb:
  "i < 6 \<Longrightarrow> j < 6 \<Longrightarrow> pcb_at (rtc_tick j s) (pcb_addr (int i)) =
    (if j = i \<and> active (pcb_at s (pcb_addr (int i))) \<noteq> 0
     then tick_from 0 8 (pcb_at s (pcb_addr (int i))) else pcb_at s (pcb_addr (int i)))"
  using pcb_addr_inj [of i j] by (auto simp: rtc_tick_def Let_def)

lemma rtc_tick_loop_pcb:
  "i < 6 \<Longrightarrow> n \<le> 6 \<Longrightarrow> pcb_at (for_loop n rtc_tick s) (pcb_addr (int i)) =
    (if i < n \<and> active (pcb_at s (pcb_addr (int i))) \<noteq> 0
     then tick_from 0 8 (pcb_at s (pcb_addr (int i))) else pcb_at s (pcb_addr (int i)))"
proof (induction n)
  case 0
  then show ?case by simp
next
  case (Suc n)
  then show ?case by (auto simp: rtc_tick_pcb less_Suc_eq)
qed

lemma rtc_tick_counter [simp]: "rtc_interrupt_counter (rtc_tick j s) = rtc_interrupt_counter s"
  by (simp add: rtc_tick_def Let_def)

lemma io_pcb [simp]:
  "pcb_at (outb v p s) = pcb_at s" "pcb_at (cli s) = pcb_at s" "pcb_at (sti s) = pcb_at s"
  "pcb_at (send_eoi n s) = pcb_at s"
  "rtc_interrupt_counter (outb v p s) = rtc_interrupt_counter s"
  "rtc_interrupt_counter (sti s) = rtc_interrupt_counter s"
  "rtc_interrupt_counter (send_eoi n s) = rtc_interrupt_counter s"
  by (simp_all add: kernel_simps send_eoi_def)

lemma rtc_intr_handler_pcb:
  assumes "i < 6"
  shows "pcb_at (rtc_intr_handler s) (pcb_addr (int i)) =
    (if active (pcb_at s (pcb_addr (int i))) \<noteq> 0
     then tick_from 0 8 (pcb_at s (pcb_addr (int i))) else pcb_at s (pcb_addr (int i)))"
  using rtc_tick_loop_pcb [OF assms, of 6] assms by (simp add: rtc_intr_handler_def Let_def)

lemma rtc_intr_handler_counter:
  "rtc_interrupt_counter (rtc_intr_handler s) = rtc_interrupt_counter s + 1"
proof -
  have "rtc_interrupt_counter (for_loop 6 rtc_tick t) = rtc_interrupt_counter t" for t
    by (rule for_loop_frame) simp
  then show ?thesis by (simp add: rtc_intr_handler_def Let_def)
qed

text \<open>The environment in which nothing happens for \<open>n\<close> tests and then the clock ticks.\<close>

definition tick_after :: "nat \<Rightarrow> nat \<Rightarrow> kernel \<Rightarrow> kernel" where
  "tick_after n k s = (if k < n then s else rtc_intr_handler s)"

lemma rtc_wait_tick:
  assumes z: "file_position (file_descriptor (pcb_at s p) fd) = 0"
    and t: "file_position (file_descriptor (pcb_at (rtc_intr_handler s) p) fd) \<noteq> 0"
  shows "k \<le> n \<Longrightarrow> rtc_wait (tick_after n) k p fd s = Some (rtc_intr_handler s)"
proof (induction "n - k" arbitrary: k)
  case 0
  then have "tick_after n k s = rtc_intr_handler s" by (simp add: tick_after_def)
  then show ?case
    using z t rtc_wait.simps [of "tick_after n" k p fd s]
      rtc_wait.simps [of "tick_after n" "k + 1" p fd "rtc_intr_handler s"] by simp
next
  case (Suc m)
  then have "tick_after n k s = s" by (simp add: tick_after_def)
  then show ?case
    using z Suc(1) [of "k + 1"] Suc(2) rtc_wait.simps [of "tick_after n" k p fd s] by simp
qed

text \<open>
  C35: a process that reads its first RTC descriptor with no tick pending returns 0 after the
  next clock interrupt, whenever that comes, having consumed exactly that one tick.
\<close>

theorem rtc_read_returns:
  assumes "i < 6" and "curr_pcb s = pcb_addr (int i)" and "active (pcb_at s (curr_pcb s)) \<noteq> 0"
    and "fd < 8" and "rtc_file (file_descriptor (pcb_at s (curr_pcb s)) fd)"
    and "\<forall>j < fd. \<not> rtc_file (file_descriptor (pcb_at s (curr_pcb s)) j)"
    and "file_position (file_descriptor (pcb_at s (curr_pcb s)) fd) = 0"
  shows "\<exists>t. rtc_read (tick_after n) fd buf nbytes s = Some (0, t) \<and>
    rtc_interrupt_counter t = rtc_interrupt_counter s + 1 \<and>
    file_position (file_descriptor (pcb_at t (curr_pcb s)) fd) = 0"
proof -
  let ?p = "pcb_at s (curr_pcb s)"
  have "tick_from 0 8 ?p = upd_fd fd (\<lambda>f. f\<lparr>file_position := file_position f + 1\<rparr>) ?p"
    by (rule tick_from_first) (use assms in simp_all)
  then have "file_position (file_descriptor (pcb_at (rtc_intr_handler s) (curr_pcb s)) fd) = 1"
    using rtc_intr_handler_pcb [OF assms(1), of s] assms(2,3,7) by simp
  then have "rtc_wait (tick_after n) 0 (curr_pcb s) fd s = Some (rtc_intr_handler s)"
    by (intro rtc_wait_tick [OF assms(7)]) simp_all
  then show ?thesis by (simp add: rtc_read_def rtc_intr_handler_counter)
qed

definition rtc_process :: kernel where
  "rtc_process = static_kernel\<lparr>curr_pcb := pcb_addr 0,
     pcb_at := (\<lambda>_. null_pcb\<lparr>active := 1,
       file_descriptor := (\<lambda>_. null_file)(2 := null_file\<lparr>inode := -1, flag := 1\<rparr>)\<rparr>)\<rparr>"

theorem rtc_read_returns_witness:
  "\<exists>t. rtc_read (tick_after 3) 2 0 0 rtc_process = Some (0, t) \<and>
    rtc_interrupt_counter t = rtc_interrupt_counter rtc_process + 1 \<and>
    file_position (file_descriptor (pcb_at t (curr_pcb rtc_process)) 2) = 0"
  by (rule rtc_read_returns [of 0])
    (simp_all add: rtc_process_def rtc_file_def null_pcb_def null_file_def less_Suc_eq numeral_2_eq_2)

text \<open>
  The loop over the descriptors stops at the first RTC file: a second one of the same process
  never sees a tick, and a read of it never returns by clock interrupts alone.
\<close>

lemma second_rtc_file_starves:
  assumes "i < 6" and "rtc_file (file_descriptor (pcb_at s (pcb_addr (int i))) k)" and "k < 8"
    and "\<forall>j < k. \<not> rtc_file (file_descriptor (pcb_at s (pcb_addr (int i))) j)" and "fd \<noteq> k"
  shows "file_position (file_descriptor (pcb_at (rtc_intr_handler s) (pcb_addr (int i))) fd)
    = file_position (file_descriptor (pcb_at s (pcb_addr (int i))) fd)"
proof -
  have "tick_from 0 8 (pcb_at s (pcb_addr (int i))) =
      upd_fd k (\<lambda>f. f\<lparr>file_position := file_position f + 1\<rparr>) (pcb_at s (pcb_addr (int i)))"
    by (rule tick_from_first) (use assms in simp_all)
  then show ?thesis using rtc_intr_handler_pcb [OF assms(1), of s] assms(5) by simp
qed

end
