(* ===== verification/Page.thy ===== *)
theory Page
  imports Kernel_State
begin

text \<open>
  \<open>student-distrib/page.c\<close>: the page directory, the 4 KB table of the first 4 MB and the
  4 KB table of the user video window.  Every function of the file is here.  The x86 page
  walk (hardware, documented) is \<open>walk\<close>; \<open>flush_tlb\<close> puts the walk of the current
  tables in force.
\<close>

section \<open>Entries\<close>

text \<open>Assigning a one-bit field keeps the low bit of the value.\<close>

definition put_bit :: "nat \<Rightarrow> u32 \<Rightarrow> u32 \<Rightarrow> u32" where
  "put_bit k v w = (if bit v 0 then w OR push_bit k 1 else w AND NOT (push_bit k 1))"

text \<open>Assigning the 20-bit base address field.\<close>

definition put_base :: "u32 \<Rightarrow> u32 \<Rightarrow> u32" where
  "put_base b w = (w AND 0xFFF) OR push_bit 12 b"

definition set_Present :: "u32 \<Rightarrow> u32 \<Rightarrow> u32" where "set_Present = put_bit 0"
definition set_Read_Write :: "u32 \<Rightarrow> u32 \<Rightarrow> u32" where "set_Read_Write = put_bit 1"
definition set_Use_Supervisor :: "u32 \<Rightarrow> u32 \<Rightarrow> u32" where "set_Use_Supervisor = put_bit 2"

definition set_present :: "u32 \<Rightarrow> u32" where "set_present x = x OR 0x1"
definition set_page_size_1 :: "u32 \<Rightarrow> u32" where "set_page_size_1 x = x OR 0x80"
definition set_page_base_address_1 :: "u32 \<Rightarrow> u32" where
  "set_page_base_address_1 x = x OR push_bit 22 1"
definition set_read_write_1 :: "u32 \<Rightarrow> u32" where "set_read_write_1 x = x OR 0x2"
definition set_use_supervisor :: "u32 \<Rightarrow> u32" where "set_use_supervisor x = x OR 0x4"

definition VIDEO_MEMORY_ADDR :: u32 where "VIDEO_MEMORY_ADDR = 0xB8000"

section \<open>The hardware walk\<close>

definition walk :: "paging \<Rightarrow> u32 \<Rightarrow> u32 option" where
  "walk p a =
     (let pde = page_dir p (unat (drop_bit 22 a)) in
      if \<not> bit pde 0 then None
      else if bit pde 7 then Some ((pde AND 0xFFC00000) OR (a AND 0x3FFFFF))
      else let base = pde AND 0xFFFFF000;
               i = unat (drop_bit 12 a AND 0x3FF)
           in if base = page_table_addr p then
                (if bit (page_table p i) 0
                 then Some ((page_table p i AND 0xFFFFF000) OR (a AND 0xFFF)) else None)
              else if base = page_vid_table_addr p then
                (if bit (page_vid_table p i) 0
                 then Some ((page_vid_table p i AND 0xFFFFF000) OR (a AND 0xFFF)) else None)
              else None)"

text \<open>An access to an unmapped page faults; the model keeps the address as it is.\<close>

definition flush_tlb :: "kernel \<Rightarrow> kernel" where
  "flush_tlb s = s\<lparr>tlb := (\<lambda>a. case walk (pg s) a of Some q \<Rightarrow> q | None \<Rightarrow> a)\<rparr>"

section \<open>The functions of page.c\<close>

definition init_tables :: "paging \<Rightarrow> paging" where
  "init_tables p =
     (let pde_4k = put_base (drop_bit 12 (page_table_addr p)) (set_Present 1 0);
          p1 = p\<lparr>page_table := fill_loop 1024 0 (page_table p),
                 page_dir := fill_loop 1024 0 (page_dir p)\<rparr>;
          p2 = p1\<lparr>page_dir := (page_dir p1)(0 := pde_4k)\<rparr>;
          i = unat (VIDEO_MEMORY_ADDR div 4096);
          e = set_Use_Supervisor 1 (set_Read_Write 1 (set_Present 1
                (put_base (drop_bit 12 VIDEO_MEMORY_ADDR) (page_table p2 i))));
          p3 = p2\<lparr>page_table := (page_table p2)(i := e)\<rparr>;
          pde_4m = set_read_write_1 (set_page_base_address_1 (set_page_size_1 (set_present 0)))
      in p3\<lparr>page_dir := (page_dir p3)(1 := pde_4m)\<rparr>)"

definition init_paging :: "kernel \<Rightarrow> kernel" where
  "init_paging s = flush_tlb (upd_pg init_tables s)"

text \<open>The base the code chooses for each process; no case for any other \<open>pid\<close>.\<close>

definition user_frame :: "int \<Rightarrow> u32" where
  "user_frame i =
     (if i = 0 then 0x800000 else if i = 1 then 0xC00000 else if i = 2 then 0x1000000
      else if i = 3 then 0x5000000 else if i = 4 then 0x9000000 else if i = 5 then 0xD000000
      else 0)"

definition user_pde :: "int \<Rightarrow> u32" where
  "user_pde i =
     (let w0 = set_page_size_1 (set_present 0);
          w1 = w0 OR user_frame i
      in set_use_supervisor (set_read_write_1 w1))"

definition set_up_paging :: "int \<Rightarrow> kernel \<Rightarrow> kernel" where
  "set_up_paging i s =
     (let s1 = cli s;
          s2 = upd_pg (\<lambda>p. p\<lparr>page_dir := (page_dir p)(32 := user_pde i)\<rparr>) s1;
          s3 = flush_tlb s2
      in sti s3)"

definition unmap_paging :: "kernel \<Rightarrow> kernel" where
  "unmap_paging s =
     (let s1 = cli s;
          s2 = upd_pg (\<lambda>p. p\<lparr>page_dir := (page_dir p)(33 := 0)\<rparr>) s1
      in sti (flush_tlb s2))"

definition user_video_tables :: "paging \<Rightarrow> paging" where
  "user_video_tables p =
     (let p1 = p\<lparr>page_dir := (page_dir p)(33 := 0)\<rparr>;
          p2 = p1\<lparr>page_dir := (page_dir p1)(33 := 0x7 OR page_vid_table_addr p)\<rparr>;
          p3 = p2\<lparr>page_vid_table := fill_loop 1024 0 (page_vid_table p2)\<rparr>;
          e = set_Read_Write 1 (set_Present 1 (set_Use_Supervisor 1
                (put_base (drop_bit 12 VIDEO_MEMORY_ADDR) (page_vid_table p3 0))))
      in p3\<lparr>page_vid_table := (page_vid_table p3)(0 := e)\<rparr>)"

definition set_user_video_map :: "kernel \<Rightarrow> kernel" where
  "set_user_video_map s = flush_tlb (upd_pg user_video_tables s)"

definition map_video_page :: "u32 \<Rightarrow> u32 \<Rightarrow> u32 \<Rightarrow> kernel \<Rightarrow> kernel" where
  "map_video_page page_addr target_addr present s =
     (let i = unat (page_addr div 4096);
          e = set_Use_Supervisor 1 (set_Read_Write 1 (set_Present present
                (put_base (drop_bit 12 target_addr) (page_table (pg s) i))))
      in flush_tlb (upd_pg (\<lambda>p. p\<lparr>page_table := (page_table p)(i := e)\<rparr>) s))"

text \<open>
  \<open>set_vid_map\<close> sets the base and present fields of \<open>page_vid_table[0]\<close>, and
  the two permission fields of \<open>page_table[0]\<close>, as the source does.
\<close>

definition vid_map_tables :: "u32 \<Rightarrow> u32 \<Rightarrow> paging \<Rightarrow> paging" where
  "vid_map_tables target_addr present p =
     (let v = set_Present present (put_base (drop_bit 12 target_addr) (page_vid_table p 0));
          e = set_Use_Supervisor 1 (set_Read_Write 1 (page_table p 0))
      in p\<lparr>page_vid_table := (page_vid_table p)(0 := v), page_table := (page_table p)(0 := e)\<rparr>)"

definition set_vid_map :: "u32 \<Rightarrow> u32 \<Rightarrow> kernel \<Rightarrow> kernel" where
  "set_vid_map target_addr present s = flush_tlb (upd_pg (vid_map_tables target_addr present) s)"

section \<open>Large and small pages\<close>

lemma low22: "(0x3FFFFF :: u32) = mask 22" and high22: "(0xFFC00000 :: u32) = NOT (mask 22)"
  and low12: "(0xFFF :: u32) = mask 12" and high12: "(0xFFFFF000 :: u32) = NOT (mask 12)"
  by (simp_all add: mask_eq_exp_minus_1)

lemmas page_masks = low22 high22 low12 high12

lemma large_page_parts:
  fixes e a :: u32
  shows "drop_bit 22 ((e AND 0xFFC00000) OR (a AND 0x3FFFFF)) = drop_bit 22 e"
    and "take_bit 22 ((e AND 0xFFC00000) OR (a AND 0x3FFFFF)) = take_bit 22 a"
  unfolding page_masks by (rule bit_word_eqI; auto simp: bit_simps dest: bit_imp_le_length)+

lemma small_page_parts:
  fixes e a :: u32
  shows "drop_bit 12 ((e AND 0xFFFFF000) OR (a AND 0xFFF)) = drop_bit 12 e"
    and "take_bit 12 ((e AND 0xFFFFF000) OR (a AND 0xFFF)) = take_bit 12 a"
  unfolding page_masks by (rule bit_word_eqI; auto simp: bit_simps dest: bit_imp_le_length)+

lemma large_page_frame:
  fixes e a :: u32
  assumes "drop_bit 22 e = drop_bit 22 a"
  shows "(e AND 0xFFC00000) OR (a AND 0x3FFFFF) = a"
proof (rule bit_word_eqI)
  fix n assume n: "n < LENGTH(32)"
  have "bit (drop_bit 22 e) (n - 22) = bit (drop_bit 22 a) (n - 22)" using assms by simp
  with n show "bit ((e AND 0xFFC00000) OR (a AND 0x3FFFFF)) n = bit a n"
    unfolding page_masks by (auto simp: bit_simps)
qed

lemma small_page_frame:
  fixes e a :: u32
  assumes "drop_bit 12 e = drop_bit 12 a"
  shows "(e AND 0xFFFFF000) OR (a AND 0xFFF) = a"
proof (rule bit_word_eqI)
  fix n assume n: "n < LENGTH(32)"
  have "bit (drop_bit 12 e) (n - 12) = bit (drop_bit 12 a) (n - 12)" using assms by simp
  with n show "bit ((e AND 0xFFFFF000) OR (a AND 0xFFF)) n = bit a n"
    unfolding page_masks by (auto simp: bit_simps)
qed

lemma bit_put_bit:
  "bit (put_bit k v w) n \<longleftrightarrow> n < 32 \<and> (if n = k then bit v 0 else bit w n)"
  by (auto simp: put_bit_def bit_simps dest: bit_imp_le_length)

lemma drop_put_bit: "k < 12 \<Longrightarrow> drop_bit 12 (put_bit k v w) = drop_bit 12 w"
  by (rule bit_word_eqI) (auto simp: bit_simps bit_put_bit dest: bit_imp_le_length)

lemma drop_put_base: "drop_bit 12 (put_base b w) = take_bit 20 b"
  unfolding put_base_def page_masks by (rule bit_word_eqI) (auto simp: bit_simps)

lemma bit_put_base: "n < 12 \<Longrightarrow> bit (put_base b w) n \<longleftrightarrow> bit w n"
  unfolding put_base_def page_masks by (auto simp: bit_simps)

lemmas set_bits_defs = set_Present_def set_Read_Write_def set_Use_Supervisor_def

lemma drop_bit_take_20: "take_bit 20 (drop_bit 12 a) = drop_bit 12 (a :: u32)"
  by (rule bit_word_eqI) (auto simp: bit_simps dest: bit_imp_le_length)

section \<open>User windows\<close>

text \<open>Addresses in [128 MB, 132 MB) are those whose directory index is 32.\<close>

lemma dir_index:
  "unat (drop_bit 22 (a :: u32)) = unat a div 2 ^ 22"
  by (simp add: drop_bit_eq_div unat_div)

lemma user_window_index:
  assumes "0x8000000 \<le> a" and "a < (0x8400000 :: u32)"
  shows "unat (drop_bit 22 a) = 32"
proof -
  have "134217728 \<le> unat a" "unat a < 138412032"
    using assms by (simp_all add: word_le_nat_alt word_less_nat_alt)
  then show ?thesis unfolding dir_index by simp
qed

lemma user_pde_bits: "bit (user_pde i) 0" "bit (user_pde i) 1" "bit (user_pde i) 2" "bit (user_pde i) 7"
  by (simp_all add: user_pde_def set_present_def set_page_size_1_def set_read_write_1_def
      set_use_supervisor_def Let_def bit_simps bit_numeral_rec)

lemma walk_large:
  assumes "bit (page_dir p (unat (drop_bit 22 a))) 0" and "bit (page_dir p (unat (drop_bit 22 a))) 7"
  shows "walk p a = Some ((page_dir p (unat (drop_bit 22 a)) AND 0xFFC00000) OR (a AND 0x3FFFFF))"
  using assms by (simp add: walk_def Let_def)

lemma walk_absent: "\<not> bit (page_dir p (unat (drop_bit 22 a))) 0 \<Longrightarrow> walk p a = None"
  by (simp add: walk_def Let_def)

lemma set_up_paging_state:
  "set_up_paging i s =
     s\<lparr>pg := (pg s)\<lparr>page_dir := (page_dir (pg s))(32 := user_pde i)\<rparr>,
       tlb := tlb (set_up_paging i s), intr_flag := True\<rparr>"
  by (simp add: set_up_paging_def flush_tlb_def Let_def io_defs)

lemma set_up_paging_frame [simp]:
  "mem (set_up_paging i s) = mem s" "con (set_up_paging i s) = con s"
  "kb (set_up_paging i s) = kb s" "irqs (set_up_paging i s) = irqs s"
  "outs (set_up_paging i s) = outs s" "inport (set_up_paging i s) = inport s"
  "terminal_list (set_up_paging i s) = terminal_list s"
  "curr_terminal_num (set_up_paging i s) = curr_terminal_num s"
  "scheduled_terminal_num (set_up_paging i s) = scheduled_terminal_num s"
  "scheduled_terminal (set_up_paging i s) = scheduled_terminal s"
  "terminal_read_enable_signal (set_up_paging i s) = terminal_read_enable_signal s"
  "terminal_buf_index (set_up_paging i s) = terminal_buf_index s"
  "pcb_at (set_up_paging i s) = pcb_at s" "pid_var (set_up_paging i s) = pid_var s"
  "curr_pcb (set_up_paging i s) = curr_pcb s" "fs (set_up_paging i s) = fs s"
  "tss_reg_esp0 (set_up_paging i s) = tss_reg_esp0 s"
  "tss_reg_ss0 (set_up_paging i s) = tss_reg_ss0 s"
  "rtc_interrupt_occurred (set_up_paging i s) = rtc_interrupt_occurred s"
  "rtc_interrupt_counter (set_up_paging i s) = rtc_interrupt_counter s"
  by (subst set_up_paging_state; simp)+

lemma tlb_user_window:
  assumes "unat (drop_bit 22 a) = 32"
  shows "tlb (set_up_paging i s) a = (user_pde i AND 0xFFC00000) OR (a AND 0x3FFFFF)"
  using assms user_pde_bits [of i]
  by (simp add: set_up_paging_def flush_tlb_def Let_def io_defs walk_large)

lemma user_pde_frame:
  assumes "0 \<le> i" and "i \<le> 5"
  shows "drop_bit 22 (user_pde i) = drop_bit 22 (user_frame i)"
proof -
  consider "i = 0" | "i = 1" | "i = 2" | "i = 3" | "i = 4" | "i = 5" using assms by linarith
  then show ?thesis
    by cases (simp_all add: user_pde_def user_frame_def set_present_def set_page_size_1_def
        set_read_write_1_def set_use_supervisor_def Let_def)
qed

lemma user_frame_inj:
  assumes "0 \<le> i" "i \<le> 5" "0 \<le> j" "j \<le> 5" "drop_bit 22 (user_frame i) = drop_bit 22 (user_frame j)"
  shows "i = j"
proof -
  have "i \<in> {0, 1, 2, 3, 4, 5}" "j \<in> {0, 1, 2, 3, 4, 5}" using assms by auto
  with assms(5) show ?thesis by (auto simp: user_frame_def)
qed

text \<open>
  \<open>set_up_paging\<close> maps the user window [128 MB, 132 MB) of process \<open>i\<close> byte for byte
  onto the 4 MB frame the code assigns to that process: every window address reaches the frame
  of \<open>i\<close> at the same offset.
\<close>

lemma user_window_mapped:
  assumes "0 \<le> i" and "i \<le> 5" and "0x8000000 \<le> a" and "a < (0x8400000 :: u32)"
  shows "drop_bit 22 (tlb (set_up_paging i s) a) = drop_bit 22 (user_frame i)
    \<and> take_bit 22 (tlb (set_up_paging i s) a) = take_bit 22 a"
  unfolding tlb_user_window [OF user_window_index [OF assms(3,4)]] large_page_parts
  using user_pde_frame [OF assms(1,2)] by simp

lemma user_window_high:
  assumes "0 \<le> i" "i \<le> 5" and a: "0x8000000 \<le> a" "a < (0x8400000 :: u32)"
  shows "0x800000 \<le> tlb (set_up_paging i s) a"
proof -
  have "i \<in> {0, 1, 2, 3, 4, 5}" using assms(1,2) by auto
  then have "2 \<le> unat (drop_bit 22 (user_frame i))" by (auto simp: user_frame_def)
  then have "2 \<le> unat (tlb (set_up_paging i s) a) div 2 ^ 22"
    using user_window_mapped [OF assms(1,2) a, of s] unfolding dir_index [symmetric] by simp
  then have "2 \<le> unat (tlb (set_up_paging i s) a) div 4194304" by simp
  then have "8388608 \<le> unat (tlb (set_up_paging i s) a)" by linarith
  then show ?thesis by (simp add: word_le_nat_alt)
qed

text \<open>
  C22: memory isolation.  The user windows of two different processes never reach the same
  byte of physical memory, and none of them reaches the first 8 MB, where the kernel, its
  stacks and the process control blocks are.
\<close>

theorem user_windows_isolated:
  assumes "0 \<le> i" "i \<le> 5" "0 \<le> j" "j \<le> 5" and ij: "i \<noteq> j"
    and a: "0x8000000 \<le> a" "a < (0x8400000 :: u32)" and b: "0x8000000 \<le> b" "b < (0x8400000 :: u32)"
  shows "tlb (set_up_paging i s) a \<noteq> tlb (set_up_paging j t) b
    \<and> 0x800000 \<le> tlb (set_up_paging i s) a"
proof
  show "tlb (set_up_paging i s) a \<noteq> tlb (set_up_paging j t) b"
    using user_window_mapped [OF assms(1,2) a, of s] user_window_mapped [OF assms(3,4) b, of t]
      user_frame_inj [OF assms(1-4)] ij by metis
  show "0x800000 \<le> tlb (set_up_paging i s) a" by (rule user_window_high [OF assms(1,2) a])
qed

theorem user_windows_isolated_witness:
  "tlb (set_up_paging 0 static_kernel) 0x8048000 \<noteq> tlb (set_up_paging 1 static_kernel) 0x8048000
    \<and> 0x800000 \<le> tlb (set_up_paging 0 static_kernel) 0x8048000"
  by (rule user_windows_isolated) simp_all

text \<open>
  The other directory entries stay: an address outside the user window is translated by the
  tables as they are.
\<close>

lemma tlb_outside_user_window:
  "unat (drop_bit 22 a) \<noteq> 32 \<Longrightarrow>
   tlb (set_up_paging i s) a = (case walk (pg s) a of Some q \<Rightarrow> q | None \<Rightarrow> a)"
  by (simp add: set_up_paging_def flush_tlb_def Let_def io_defs walk_def)

section \<open>The kernel map\<close>

lemma small_index: "unat (drop_bit 12 a AND 0x3FF) = (unat (a :: u32) div 2 ^ 12) mod 2 ^ 10"
proof -
  have m: "(0x3FF :: u32) = mask 10" by (simp add: mask_eq_exp_minus_1)
  have "unat (take_bit 10 (drop_bit 12 a)) = take_bit 10 (unat (drop_bit 12 a))"
    by (simp add: unsigned_take_bit_eq)
  then show ?thesis
    by (simp add: m drop_bit_eq_div unat_div take_bit_eq_mod flip: take_bit_eq_mask)
qed

lemma aligned_base:
  fixes x w :: u32
  assumes "x AND 0xFFF = 0"
  shows "put_base (drop_bit 12 x) w AND 0xFFFFF000 = x"
proof (rule bit_word_eqI)
  fix n assume n: "n < LENGTH(32)"
  have "bit (x AND 0xFFF) n = bit (0 :: u32) n" using assms by simp
  with n show "bit (put_base (drop_bit 12 x) w AND 0xFFFFF000) n = bit x n"
    unfolding put_base_def page_masks by (auto simp: bit_simps)
qed

lemma init_dir:
  "page_dir (init_tables p) n =
     (if n = 0 then put_base (drop_bit 12 (page_table_addr p)) (set_Present 1 0)
      else if n = 1 then 0x400083 else if n < 1024 then 0 else page_dir p n)"
  by (simp add: init_tables_def Let_def fill_loop_apply set_read_write_1_def
      set_page_base_address_1_def set_page_size_1_def set_present_def)

lemma init_table:
  assumes "n < 1024"
  shows "page_table (init_tables p) n = (if n = 184 then 0xB8007 else 0)"
  using assms
  by (simp add: init_tables_def Let_def fill_loop_apply VIDEO_MEMORY_ADDR_def unat_div set_bits_defs
      put_bit_def put_base_def)

lemma init_addrs [simp]:
  "page_table_addr (init_tables p) = page_table_addr p"
  "page_vid_table_addr (init_tables p) = page_vid_table_addr p"
  by (simp_all add: init_tables_def Let_def)

lemma in_page:
  "(0xB8000 \<le> a \<and> a < (0xB9000 :: u32)) \<longleftrightarrow> unat a div 2 ^ 22 = 0 \<and> (unat a div 2 ^ 12) mod 2 ^ 10 = 184"
proof -
  have "(0xB8000 \<le> a \<and> a < (0xB9000 :: u32)) \<longleftrightarrow> 753664 \<le> unat a \<and> unat a < 757760"
    by (simp add: word_le_nat_alt word_less_nat_alt)
  also have "\<dots> \<longleftrightarrow> unat a div 4096 = 184" by (simp add: div_eq_range)
  also have "\<dots> \<longleftrightarrow> unat a div 4096 div 1024 = 0 \<and> unat a div 4096 mod 1024 = 184" by auto
  finally show ?thesis by (simp flip: div_mult2_eq)
qed

lemma in_large:
  "(0x400000 \<le> a \<and> a < (0x800000 :: u32)) \<longleftrightarrow> unat a div 2 ^ 22 = 1"
proof -
  have "(0x400000 \<le> a \<and> a < (0x800000 :: u32)) \<longleftrightarrow> 4194304 \<le> unat a \<and> unat a < 8388608"
    by (simp add: word_le_nat_alt word_less_nat_alt)
  also have "\<dots> \<longleftrightarrow> unat a div 4194304 = 1" by (simp add: div_eq_range)
  finally show ?thesis by simp
qed

lemma large_identity:
  assumes "unat (a :: u32) div 2 ^ 22 = 1"
  shows "(0x400083 AND 0xFFC00000) OR (a AND 0x3FFFFF) = a"
proof (rule large_page_frame)
  have "unat (drop_bit 22 a) = unat (1 :: u32)" using assms by (simp add: dir_index)
  then have "drop_bit 22 a = 1" by (simp add: word_unat_eq_iff)
  then show "drop_bit 22 0x400083 = drop_bit 22 a" by simp
qed

lemma video_identity:
  assumes "0xB8000 \<le> a \<and> a < (0xB9000 :: u32)"
  shows "(0xB8007 AND 0xFFFFF000) OR (a AND 0xFFF) = a"
proof (rule small_page_frame)
  have "753664 \<le> unat a \<and> unat a < 757760"
    using assms by (simp add: word_le_nat_alt word_less_nat_alt)
  then have "unat a div 4096 = 184" by (simp add: div_eq_range)
  then have "unat (drop_bit 12 a) = unat (184 :: u32)" by (simp add: drop_bit_eq_div unat_div)
  then have "drop_bit 12 a = 184" by (simp add: word_unat_eq_iff)
  then show "drop_bit 12 0xB8007 = drop_bit 12 a" by simp
qed

lemma init_paging_walk:
  assumes "page_table_addr (pg s) AND 0xFFF = 0"
  shows "walk (pg (init_paging s)) a =
    (if (0xB8000 \<le> a \<and> a < 0xB9000) \<or> (0x400000 \<le> a \<and> a < 0x800000) then Some a else None)"
proof -
  let ?p = "init_tables (pg s)"
  have pg: "pg (init_paging s) = ?p" by (simp add: init_paging_def flush_tlb_def)
  have d1024: "unat a div 2 ^ 22 < 1024" using unat_bound_u32 [of a] by (simp add: less_mult_imp_div_less)
  consider "unat a div 2 ^ 22 = 0" | "unat a div 2 ^ 22 = 1" | "1 < unat a div 2 ^ 22" by linarith
  then show ?thesis
  proof cases
    case 1
    have pde: "bit (page_dir ?p 0) 0" "\<not> bit (page_dir ?p 0) 7"
      by (simp_all add: init_dir bit_put_base set_bits_defs bit_put_bit)
    have base: "page_dir ?p 0 AND 0xFFFFF000 = page_table_addr (pg s)"
      using aligned_base [OF assms] by (simp add: init_dir)
    let ?i = "(unat a div 2 ^ 12) mod 2 ^ 10"
    have pte: "page_table ?p ?i = (if ?i = 184 then 0xB8007 else 0)"
      by (rule init_table) simp
    have "walk ?p a = (if bit (page_table ?p ?i) 0
        then Some ((page_table ?p ?i AND 0xFFFFF000) OR (a AND 0xFFF)) else None)"
      using 1 pde base by (simp add: walk_def Let_def dir_index small_index)
    also have "\<dots> = (if ?i = 184 then Some ((0xB8007 AND 0xFFFFF000) OR (a AND 0xFFF)) else None)"
      unfolding pte by (simp add: bit_numeral_rec)
    also have "\<dots> = (if 0xB8000 \<le> a \<and> a < 0xB9000 then Some a else None)"
      using 1 in_page [of a] video_identity [of a] by auto
    finally show ?thesis unfolding pg using 1 in_large [of a] by auto
  next
    case 2
    then have "walk ?p a = Some ((0x400083 AND 0xFFC00000) OR (a AND 0x3FFFFF))"
      by (subst walk_large) (simp_all add: dir_index init_dir bit_numeral_rec)
    then show ?thesis unfolding pg using 2 in_large [of a] large_identity [OF 2] by simp
  next
    case 3
    then have "walk ?p a = None"
      using d1024 by (intro walk_absent) (simp add: dir_index init_dir)
    then show ?thesis unfolding pg using 3 in_large [of a] in_page [of a] by auto
  qed
qed

text \<open>
  The map \<open>init_paging\<close> builds is the identity on the video page and on the kernel's
  4 MB page [4 MB, 8 MB), and maps no other address of the 4 GB space, address 0 included.
\<close>

lemma init_paging_map:
  assumes "page_table_addr (pg s) AND 0xFFF = 0"
  shows "walk (pg (init_paging s)) a =
    (if (0xB8000 \<le> a \<and> a < 0xB9000) \<or> (0x400000 \<le> a \<and> a < 0x800000) then Some a else None)"
  by (rule init_paging_walk [OF assms])

lemma init_paging_map_example: "walk (pg (init_paging static_kernel)) 0xB8000 = Some 0xB8000"
  using init_paging_map [of static_kernel "0xB8000"] by (simp add: static_kernel_def)

section \<open>The user video window\<close>

lemma video_window_index:
  assumes "0x8400000 \<le> a" and "a < (0x8800000 :: u32)"
  shows "unat a div 2 ^ 22 = 33"
    and "(unat a div 2 ^ 12) mod 2 ^ 10 = 0 \<longleftrightarrow> a < 0x8401000"
proof -
  have n: "138412032 \<le> unat a" "unat a < 142606336"
    using assms by (simp_all add: word_le_nat_alt word_less_nat_alt)
  then have d: "unat a div 4194304 = 33" by (simp add: div_eq_range)
  then show "unat a div 2 ^ 22 = 33" by simp
  have "unat a div 4096 div 1024 = 33" using d by (simp flip: div_mult2_eq)
  then have "(unat a div 4096) mod 1024 = 0 \<longleftrightarrow> unat a div 4096 = 33792"
    using div_mult_mod_eq [of "unat a div 4096" 1024] by auto
  also have "\<dots> \<longleftrightarrow> a < 0x8401000" using n by (simp add: div_eq_range word_less_nat_alt)
  finally show "(unat a div 2 ^ 12) mod 2 ^ 10 = 0 \<longleftrightarrow> a < 0x8401000" by simp
qed

lemma bit_window_pde:
  assumes "x AND 0xFFF = 0"
  shows "bit (0x7 OR x) 0" and "\<not> bit (0x7 OR x) 7" and "(0x7 OR x) AND 0xFFFFF000 = (x :: u32)"
proof -
  have x: "\<not> bit x n" if "n < 12" for n
  proof -
    have "bit (x AND 0xFFF) n = bit (0 :: u32) n" using assms by simp
    with that show ?thesis unfolding page_masks by (simp add: bit_simps)
  qed
  have "\<not> bit x 7" by (rule x) simp
  then show "bit (0x7 OR x) 0" and "\<not> bit (0x7 OR x) 7"
    by (simp_all add: bit_or_iff bit_numeral_rec)
  have seven: "(0x7 :: u32) = mask 3" by (simp add: mask_eq_exp_minus_1)
  show "(0x7 OR x) AND 0xFFFFF000 = x"
    unfolding page_masks seven by (rule bit_word_eqI) (use x in \<open>auto simp: bit_simps\<close>)
qed

lemma put_base_high: "put_base b w AND 0xFFFFF000 = push_bit 12 b"
  unfolding put_base_def page_masks by (rule bit_word_eqI) (auto simp: bit_simps)

lemma put_bit_high: "k < 12 \<Longrightarrow> put_bit k v w AND 0xFFFFF000 = w AND 0xFFFFF000"
  unfolding page_masks by (rule bit_word_eqI) (auto simp: bit_simps bit_put_bit)

lemma push_drop_12: "push_bit 12 (drop_bit 12 (x :: u32)) = x AND 0xFFFFF000"
  unfolding page_masks by (rule bit_word_eqI) (auto simp: bit_simps)

lemma vid_map_simps [simp]:
  "page_dir (vid_map_tables t v p) = page_dir p"
  "page_table_addr (vid_map_tables t v p) = page_table_addr p"
  "page_vid_table_addr (vid_map_tables t v p) = page_vid_table_addr p"
  by (simp_all add: vid_map_tables_def Let_def)

lemma user_video_simps [simp]:
  "page_table (user_video_tables p) = page_table p"
  "page_table_addr (user_video_tables p) = page_table_addr p"
  "page_vid_table_addr (user_video_tables p) = page_vid_table_addr p"
  "page_dir (user_video_tables p) 33 = 0x7 OR page_vid_table_addr p"
  by (simp_all add: user_video_tables_def Let_def)

lemma vid_entry:
  "page_vid_table (vid_map_tables t 1 (user_video_tables p)) n =
    (if n = 0 then set_Present 1 (put_base (drop_bit 12 t) (page_vid_table (user_video_tables p) 0))
     else if n < 1024 then 0 else page_vid_table p n)"
  by (simp add: vid_map_tables_def user_video_tables_def Let_def fill_loop_apply)

lemma video_window_walk:
  assumes al: "page_vid_table_addr (pg s) AND 0xFFF = 0"
    and ne: "page_vid_table_addr (pg s) \<noteq> page_table_addr (pg s)"
    and a: "0x8400000 \<le> a" "a < 0x8800000"
  shows "walk (pg (set_vid_map target 1 (set_user_video_map s))) a =
    (if a < 0x8401000 then Some ((target AND 0xFFFFF000) OR (a AND 0xFFF)) else None)"
proof -
  let ?p = "vid_map_tables target 1 (user_video_tables (pg s))"
  let ?i = "(unat a div 2 ^ 12) mod 2 ^ 10"
  have pg: "pg (set_vid_map target 1 (set_user_video_map s)) = ?p"
    by (simp add: set_vid_map_def set_user_video_map_def flush_tlb_def)
  have pte: "page_vid_table ?p ?i =
      (if ?i = 0 then set_Present 1 (put_base (drop_bit 12 target) (page_vid_table (user_video_tables (pg s)) 0)) else 0)"
    unfolding vid_entry by simp
  have "walk ?p a = (if bit (page_vid_table ?p ?i) 0
      then Some ((page_vid_table ?p ?i AND 0xFFFFF000) OR (a AND 0xFFF)) else None)"
    using bit_window_pde [OF al] ne video_window_index(1) [OF a]
    by (simp add: walk_def Let_def dir_index small_index)
  also have "\<dots> = (if ?i = 0 then Some ((target AND 0xFFFFF000) OR (a AND 0xFFF)) else None)"
    unfolding pte
    by (simp add: set_bits_defs bit_put_bit put_bit_high put_base_high push_drop_12)
  finally show ?thesis unfolding pg video_window_index(2) [OF a] .
qed

text \<open>
  The permission bits \<open>set_vid_map\<close> sets are those of \<open>page_table[0]\<close>: the entry
  of the video window keeps the permissions it had.
\<close>

lemma set_vid_map_permissions:
  "bit (page_table (pg (set_vid_map t v s)) 0) 1 \<and> bit (page_table (pg (set_vid_map t v s)) 0) 2
   \<and> (\<forall>k \<in> {1, 2}. bit (page_vid_table (pg (set_vid_map t v s)) 0) k
        = bit (page_vid_table (pg s) 0) k)"
  by (auto simp: set_vid_map_def flush_tlb_def vid_map_tables_def Let_def set_bits_defs bit_put_bit
      bit_put_base dest: bit_imp_le_length)

end
