(* ===== verification/Keyb_Buffer.thy ===== *)
theory Keyb_Buffer
  imports Kernel_State
begin

text \<open>
  The keyboard buffer of \<open>student-distrib/keyboard.c\<close>: the line being typed, which the
  keyboard handler fills, \<open>terminal_read\<close> consumes and \<open>terminal_switch\<close> saves and loads.
\<close>

section \<open>The functions\<close>

definition read_keyb_signal :: "kernel \<Rightarrow> bool" where
  "read_keyb_signal s = copy_signal (kb s)"

definition set_read_signal_unable :: "kernel \<Rightarrow> kernel" where
  "set_read_signal_unable s = upd_kb (\<lambda>k. k\<lparr>copy_signal := False\<rparr>) s"

definition set_read_signal_enable :: "kernel \<Rightarrow> kernel" where
  "set_read_signal_enable s = upd_kb (\<lambda>k. k\<lparr>copy_signal := True\<rparr>) s"

definition get_keyb_buffer :: "kernel \<Rightarrow> int \<Rightarrow> u8" where
  "get_keyb_buffer s = key_buffer (kb s)"

definition get_keyb_buffer_index :: "kernel \<Rightarrow> int" where
  "get_keyb_buffer_index s = keyb_index (kb s)"

definition clean_keyb_buffer :: "kernel \<Rightarrow> kernel" where
  "clean_keyb_buffer s =
     upd_kb (\<lambda>k. k\<lparr>key_buffer := int_fill_loop (nat (keyb_index k)) 0 (key_buffer k),
                   keyb_index := 0\<rparr>) s"

definition update_keyb_buf :: "(int \<Rightarrow> u8) \<Rightarrow> int \<Rightarrow> kernel \<Rightarrow> kernel" where
  "update_keyb_buf new_keyb_buf new_index s =
     (let s1 = upd_kb (\<lambda>k. k\<lparr>keyb_index := new_index\<rparr>) (cli s) in
      if new_index = 0 then sti (clean_keyb_buffer s1)
      else sti (upd_kb (\<lambda>k. k\<lparr>key_buffer := copy_loop (nat new_index) new_keyb_buf (key_buffer k)\<rparr>) s1))"

section \<open>The line being typed\<close>

definition line_of :: "(int \<Rightarrow> u8) \<Rightarrow> int \<Rightarrow> u8 list" where
  "line_of a n = map (\<lambda>i. a (int i)) [0..<nat n]"

definition typed_line :: "kernel \<Rightarrow> u8 list" where
  "typed_line s = line_of (key_buffer (kb s)) (keyb_index (kb s))"

lemma line_of_0 [simp]: "line_of a 0 = []"
  by (simp add: line_of_def)

lemma line_of_length [simp]: "length (line_of a n) = nat n"
  by (simp add: line_of_def)

lemma line_of_copy [simp]: "line_of (copy_loop (nat n) b a) n = line_of b n"
  by (auto simp: line_of_def copy_loop_apply)

lemma line_of_push: "0 \<le> n \<Longrightarrow> line_of (a(n := c)) (n + 1) = line_of a n @ [c]"
  by (auto simp: line_of_def nat_add_distrib)

lemma line_of_pop: "0 < n \<Longrightarrow> line_of a (n - 1) = butlast (line_of a n)"
proof -
  assume "0 < n"
  then have "nat n = Suc (nat (n - 1))" by simp
  then show ?thesis by (simp add: line_of_def)
qed

lemma typed_line_clean [simp]: "typed_line (clean_keyb_buffer s) = []"
  by (simp add: typed_line_def clean_keyb_buffer_def)

lemma typed_line_update [simp]: "typed_line (update_keyb_buf b n s) = line_of b n"
  by (simp add: typed_line_def update_keyb_buf_def clean_keyb_buffer_def Let_def kernel_simps)

lemma typed_line_kb: "kb s = kb t \<Longrightarrow> typed_line s = typed_line t"
  by (simp add: typed_line_def)

end
