(* ===== verification/Terminal.thy ===== *)
theory Terminal
  imports Printf Page Keyb_Buffer
begin

text \<open>
  \<open>student-distrib/terminal.c\<close> and \<open>memory_switch\<close> of \<open>execute.c\<close>: three virtual
  terminals, one on display.  The displayed terminal owns the video page at \<open>0xB8000\<close>; the
  others keep their screen in a page of their own.  What happens while \<open>terminal_read\<close> spins
  is a parameter: \<open>env k\<close> is the change of state between the test number \<open>k\<close> of its loop and
  the next one.
\<close>

section \<open>The functions\<close>

definition terminal_bad_read :: "nat \<Rightarrow> u32 \<Rightarrow> u32 \<Rightarrow> kernel \<Rightarrow> int \<times> kernel" where
  "terminal_bad_read fd buf nbytes s = (-1, say (''terminal bad read!!'' @ [CHR 0x0A]) s)"

definition terminal_bad_write :: "nat \<Rightarrow> u32 \<Rightarrow> u32 \<Rightarrow> kernel \<Rightarrow> int \<times> kernel" where
  "terminal_bad_write fd buf nbytes s = (-1, say (''terminal bad write!!'' @ [CHR 0x0A]) s)"

definition get_terminal_buf :: nat where "get_terminal_buf = 0"

definition terminal_open :: "bytes \<Rightarrow> kernel \<Rightarrow> int \<times> kernel" where
  "terminal_open name s = (0, s)"

definition terminal_close :: "nat \<Rightarrow> kernel \<Rightarrow> int \<times> kernel" where
  "terminal_close fd s = (0, s\<lparr>terminal_buf_index := 0\<rparr>)"

definition set_signal_enable :: "kernel \<Rightarrow> kernel" where
  "set_signal_enable s = s\<lparr>terminal_read_enable_signal := True\<rparr>"

definition read_allowed :: "kernel \<Rightarrow> bool" where
  "read_allowed s \<longleftrightarrow> terminal_read_enable_signal s \<and> scheduled_terminal_num s = get_display_tid s"

partial_function (option) read_wait :: "(nat \<Rightarrow> kernel \<Rightarrow> kernel) \<Rightarrow> nat \<Rightarrow> kernel \<Rightarrow> kernel option" where
  "read_wait env k s = (if \<not> read_allowed s then read_wait env (k + 1) (env k s) else Some s)"

text \<open>The part of \<open>terminal_read\<close> after its loop.  \<open>nbytes\<close> plays no role in the source.\<close>

definition take_line :: "u32 \<Rightarrow> kernel \<Rightarrow> int \<times> kernel" where
  "take_line buf s =
     (let s1 = s\<lparr>terminal_read_enable_signal := False\<rparr> in
      if get_keyb_buffer_index s1 \<ge> 128
      then (0, clean_keyb_buffer (say (''too much to read!!'' @ [CHR 0x0A]) s1))
      else let keyb_buf = get_keyb_buffer s1; index = get_keyb_buffer_index s1;
               s2 = store_bytes buf (line_of keyb_buf index) s1;
               s3 = st8 (buf + of_int (get_keyb_buffer_index s2)) 0 s2
           in (int (nat index), clean_keyb_buffer s3))"

definition terminal_read ::
    "(nat \<Rightarrow> kernel \<Rightarrow> kernel) \<Rightarrow> nat \<Rightarrow> u32 \<Rightarrow> u32 \<Rightarrow> kernel \<Rightarrow> (int \<times> kernel) option" where
  "terminal_read env fd buf nbytes s =
     (case read_wait env 0 s of None \<Rightarrow> None | Some t \<Rightarrow> Some (take_line buf t))"

definition terminal_write :: "nat \<Rightarrow> u32 \<Rightarrow> u32 \<Rightarrow> kernel \<Rightarrow> int \<times> kernel" where
  "terminal_write fd buf nbytes s =
     (let s1 = cli s;
          s2 = for_loop (nat (sint nbytes)) (\<lambda>i t. putc (ld8 t (buf + of_nat i)) t) s1
      in (int (nat (sint nbytes)), sti s2))"

definition set_scheduled_tid :: "nat \<Rightarrow> kernel \<Rightarrow> kernel" where
  "set_scheduled_tid i s = s\<lparr>scheduled_terminal_num := i\<rparr>"

text \<open>
  The third \<open>memset\<close> of \<open>terminal_init\<close> clears \<open>BYTE * NUM_ROW * NUM_COL\<close> = 8000 bytes from
  \<open>display_buf\<close>, an array of 2000.  It goes over the two fields after it, over the terminals that
  follow in the list, and on for \<open>1400 + 2248 * i\<close> bytes behind the list.  What lies there is taken
  from the kernel that the repository has built (\<open>bootimg\<close>, \<open>terminal_list\<close> at 0x40A300): in
  this order \<open>inodes\<close>, \<open>global_dentry\<close>, \<open>data_block\<close>, \<open>boot_block\<close>, \<open>slave_mask\<close>, \<open>master_mask\<close>,
  \<open>key_buffer\<close>, \<open>keyb_index\<close>, \<open>status\<close>, \<open>screen_x\<close>, \<open>prev_screen_x\<close>, then from byte 872 on
  \<open>display_buf\<close> (2000 bytes), \<open>screen_y\<close>, \<open>line_is_full\<close>, \<open>rtc_interrupt_occurred\<close>,
  \<open>rtc_interrupt_counter\<close>, \<open>terminal_buf_index\<close>, and from byte 3004 on, address 0x40C914, the memory
  behind the kernel.  (The other variables there, \<open>terminal_curr_pcb\<close>, \<open>FILE_ARRAY\<close>, \<open>pcb_list\<close>, \<open>buf\<close> and
  \<open>der\<close>, are used by nothing.)
\<close>

definition wiped_fs :: "filesys \<Rightarrow> filesys" where
  "wiped_fs f = \<lparr>boot_block = 0, inodes = 0, data_block = 0, global_dentry =
     \<lparr>file_name = fill_loop 32 0 (file_name (global_dentry f)), file_type = 0, inode_id = 0\<rparr>\<rparr>"

definition wipe_variables :: "kernel \<Rightarrow> kernel" where
  "wipe_variables s = s\<lparr>
     fs := wiped_fs (fs s),
     irqs := \<lparr>master_mask = 0, slave_mask = 0\<rparr>,
     kb := (kb s)\<lparr>key_buffer := int_fill_loop 128 0 (key_buffer (kb s)), keyb_index := 0, left_shift := False,
       left_ctrl := False, left_alt := False, capslk := False, alt := False\<rparr>,
     con := (con s)\<lparr>screen_x := 0, prev_screen_x := int_fill_loop 25 0 (prev_screen_x (con s))\<rparr>\<rparr>"

definition wipe_behind :: "nat \<Rightarrow> kernel \<Rightarrow> kernel" where
  "wipe_behind n s =
     (let s1 = upd_con (\<lambda>c. c\<lparr>display_buf := int_fill_loop (min 2000 (n - 872)) 0 (display_buf c)\<rparr>)
            (wipe_variables s)
      in if n < 3004 then s1
         else (upd_con (\<lambda>c. c\<lparr>screen_y := 0, line_is_full := int_fill_loop 25 0 (line_is_full c)\<rparr>) s1)
           \<lparr>rtc_interrupt_occurred := 0, rtc_interrupt_counter := 0, terminal_buf_index := 0,
            mem := memset (tlb s) (mem s) 0x40C914 0 (n - 3004)\<rparr>)"

definition wipe_display_buf :: "nat \<Rightarrow> kernel \<Rightarrow> kernel" where
  "wipe_display_buf i s =
     (let s1 = upd_term i (\<lambda>t. t\<lparr>term_display_buf := int_fill_loop 2000 0 (term_display_buf t),
                                term_display_buf_index := 0,
                                term_line_is_full := int_fill_loop 25 0 (term_line_is_full t)\<rparr>) s
      in wipe_behind (1400 + 2248 * i)
           (s1\<lparr>terminal_list := (\<lambda>j. if i < j \<and> j < 3 then null_terminal else terminal_list s1 j)\<rparr>))"

text \<open>The \<open>memset\<close> of a row, the loop that copies a line to one, and a row as its pointer reads it.\<close>

definition clear_row :: "int \<Rightarrow> (int \<Rightarrow> u8) \<Rightarrow> int \<Rightarrow> u8" where
  "clear_row p rows = for_loop 128 (\<lambda>k r. r(p + int k := 0)) rows"

definition save_row :: "int \<Rightarrow> nat \<Rightarrow> (int \<Rightarrow> u8) \<Rightarrow> (int \<Rightarrow> u8) \<Rightarrow> int \<Rightarrow> u8" where
  "save_row p n line rows = for_loop n (\<lambda>k r. r(p + int k := line (int k))) rows"

definition row_at :: "kernel \<Rightarrow> int \<Rightarrow> int \<Rightarrow> u8" where
  "row_at s p = (\<lambda>k. line_rows s (p + k))"

text \<open>Row \<open>i\<close> of the local array begins at byte \<open>128 * i\<close>.\<close>

definition init_terminal :: "nat \<Rightarrow> kernel \<Rightarrow> kernel" where
  "init_terminal i s =
     (let s0 = upd_term i (\<lambda>t. t\<lparr>tid := i, x_cursor := 0, y_cursor := 0\<rparr>) s;
          s1 = s0\<lparr>line_rows := clear_row (128 * int i) (line_rows s0)\<rparr>;
          s2 = upd_term i (\<lambda>t. t\<lparr>term_prev_screen_x := int_fill_loop 25 0 (term_prev_screen_x t),
                                term_line_is_full := int_fill_loop 25 0 (term_line_is_full t)\<rparr>) s1;
          s3 = wipe_display_buf i s2;
          page = VIDEO_MEMORY_ADDR + (of_nat i + 1) * 0x1000;
          s4 = upd_term i (\<lambda>t. t\<lparr>term_i_prev_x := 0, term_display_buf_index := 0,
                 keyb_buffer := 128 * int i, keyb_buffer_index := 0,
                 next_terminal := Some ((i + 1) mod 3), pcb_ptr := 0, count_pcb := 0,
                 video_page := page, term_vidmap := 0\<rparr>) s3
      in map_video_page page page 1 s4)"

definition terminal_init :: "kernel \<Rightarrow> kernel" where
  "terminal_init s = (for_loop 3 init_terminal s)\<lparr>curr_terminal_num := 0\<rparr>"

text \<open>\<open>memory_switch\<close> points the console at the terminal that is scheduled next.\<close>

definition memory_switch :: "kernel \<Rightarrow> kernel" where
  "memory_switch s =
     (let next = next_terminal (terminal_list s (scheduled_terminal s));
          display_tid = get_display_tid s
      in case next of
        None \<Rightarrow> s
      | Some n \<Rightarrow>
          let nt = terminal_list s n; next_tid = tid nt;
              s1 = update_screen_x_y (x_cursor (terminal_list s next_tid))
                     (y_cursor (terminal_list s next_tid)) s
          in if next_tid \<noteq> display_tid
             then set_vid_map (video_page nt) (term_vidmap nt) (update_video_mem (video_page nt) s1)
             else set_vid_map VIDEO_MEMORY_ADDR (term_vidmap nt) (update_video_mem VIDEO_MEMORY_ADDR s1))"

definition swap_video :: "nat \<Rightarrow> kernel \<Rightarrow> kernel" where
  "swap_video n s =
     (let cur = video_page (terminal_list s (curr_terminal_num s));
          next = video_page (terminal_list s n)
      in s\<lparr>mem := memcpy (tlb s) (memcpy (tlb s) (mem s) cur VIDEO_MEMORY_ADDR 4096)
             VIDEO_MEMORY_ADDR next 4096\<rparr>)"

definition swap_keyboard :: "nat \<Rightarrow> kernel \<Rightarrow> kernel" where
  "swap_keyboard n s =
     (let c = curr_terminal_num s;
          s1 = upd_term c (\<lambda>t. t\<lparr>keyb_buffer_index := get_keyb_buffer_index s\<rparr>) (cli s);
          t = terminal_list s1 c;
          s2 = s1\<lparr>line_rows := save_row (keyb_buffer t) (nat (keyb_buffer_index t)) (get_keyb_buffer s) (line_rows s1)\<rparr>;
          s3 = sti s2
      in update_keyb_buf (row_at s3 (keyb_buffer (terminal_list s3 n))) (keyb_buffer_index (terminal_list s3 n)) s3)"

definition terminal_switch :: "nat \<Rightarrow> kernel \<Rightarrow> kernel" where
  "terminal_switch n s =
     (if curr_terminal_num s = n then s
      else let s1 = swap_video n s;
               s2 = upd_term (curr_terminal_num s1)
                      (\<lambda>t. t\<lparr>x_cursor := read_screen_x s1, y_cursor := read_screen_y s1\<rparr>) s1;
               s3 = update_video_mem VIDEO_MEMORY_ADDR s2;
               s4 = update_screen_x_y (x_cursor (terminal_list s3 n)) (y_cursor (terminal_list s3 n)) s3;
               s5 = swap_keyboard n s4
           in memory_switch (s5\<lparr>curr_terminal_num := n\<rparr>))"

section \<open>The rows of the saved lines\<close>

lemma save_row_apply:
  "save_row p n line rows j = (if p \<le> j \<and> j < p + int n then line (j - p) else rows j)"
  unfolding save_row_def by (induction n) auto

lemma clear_row_apply: "clear_row p rows j = (if p \<le> j \<and> j < p + 128 then 0 else rows j)"
proof -
  have "for_loop n (\<lambda>k r. r(p + int k := 0)) rows j = (if p \<le> j \<and> j < p + int n then 0 else rows j)" for n
    by (induction n) auto
  from this [of 128] show ?thesis by (simp add: clear_row_def)
qed

lemma line_of_saved [simp]: "line_of (\<lambda>k. save_row p (nat n) line rows (p + k)) n = line_of line n"
  by (auto simp: line_of_def save_row_apply)

text \<open>Another row, of the same array of rows of 128 bytes, is not touched by a line that fits its row.\<close>

lemma line_of_other_row:
  fixes i j :: nat
  assumes "i \<noteq> j" "n \<le> 128" "m \<le> 128"
  shows "line_of (\<lambda>k. save_row (128 * int i) (nat n) line rows (128 * int j + k)) m =
    line_of (\<lambda>k. rows (128 * int j + k)) m"
proof -
  have "save_row (128 * int i) (nat n) line rows (128 * int j + int k) = rows (128 * int j + int k)" if "k < nat m" for k
    unfolding save_row_apply using assms that by (cases "i < j") auto
  then show ?thesis by (auto simp: line_of_def)
qed

section \<open>terminal_write shows the buffer\<close>

text \<open>The buffer does not lie on the screen.\<close>

definition off_screen_buffer :: "kernel \<Rightarrow> u32 \<Rightarrow> nat \<Rightarrow> bool" where
  "off_screen_buffer s buf n \<longleftrightarrow> (\<forall>i < n. tlb s (buf + of_nat i) \<notin> screen_bytes s)"

definition buffer_bytes :: "kernel \<Rightarrow> u32 \<Rightarrow> nat \<Rightarrow> u8 list" where
  "buffer_bytes s buf n = load_bytes (tlb s) (mem s) buf n"

lemma screen_bytes_putc [simp]: "screen_bytes (putc ch s) = screen_bytes s"
  by (simp add: screen_bytes_def putc_con)

lemma screen_bytes_fold [simp]: "screen_bytes (fold putc cs s) = screen_bytes s"
  by (induction cs arbitrary: s) simp_all

lemma off_screen_byte:
  "off_screen t = off_screen s \<Longrightarrow> screen_bytes t = screen_bytes s \<Longrightarrow> p \<notin> screen_bytes s \<Longrightarrow>
   mem t p = mem s p"
  by (drule fun_cong [of _ _ p]) (simp add: off_screen_def)

lemma write_loop:
  assumes ok: "console_ok s" and off: "off_screen_buffer s buf m"
    and no_bs: "list_all not_backspace (buffer_bytes s buf m)"
  shows "n \<le> m \<Longrightarrow> for_loop n (\<lambda>i t. putc (ld8 t (buf + of_nat i)) t) s
    = fold putc (buffer_bytes s buf n) s"
proof (induction n)
  case 0
  then show ?case by (simp add: buffer_bytes_def)
next
  case (Suc n)
  let ?t = "fold putc (buffer_bytes s buf n) s"
  have all: "list_all not_backspace (buffer_bytes s buf n)"
    using no_bs Suc.prems by (simp add: buffer_bytes_def load_bytes_def list_all_iff)
  have "tlb ?t = tlb s" by simp
  moreover have "screen_bytes ?t = screen_bytes s"
    by simp
  moreover have "off_screen ?t = off_screen s" by (rule fold_putc_sink(3) [OF ok all])
  moreover have "tlb s (buf + of_nat n) \<notin> screen_bytes s"
    using off Suc.prems by (simp add: off_screen_buffer_def)
  ultimately have "ld8 ?t (buf + of_nat n) = ld8 s (buf + of_nat n)"
    using off_screen_byte [of ?t s "tlb s (buf + of_nat n)"] by (simp add: ld8_def rd_def)
  moreover have "buffer_bytes s buf (Suc n) = buffer_bytes s buf n @ [ld8 s (buf + of_nat n)]"
    by (simp add: buffer_bytes_def load_bytes_def ld8_def)
  ultimately show ?case using Suc by simp
qed

lemma flag_console [simp]:
  "console_ok (s\<lparr>intr_flag := b\<rparr>) = console_ok s" "screen_of (s\<lparr>intr_flag := b\<rparr>) = screen_of s"
  "off_screen (s\<lparr>intr_flag := b\<rparr>) = off_screen s" "screen_bytes (s\<lparr>intr_flag := b\<rparr>) = screen_bytes s"
  "screen_mapped (s\<lparr>intr_flag := b\<rparr>) = screen_mapped s" "grid (s\<lparr>intr_flag := b\<rparr>) = grid s"
proof -
  have g: "grid (s\<lparr>intr_flag := b\<rparr>) = grid s"
    by (simp add: grid_def vbyte_def ld8_def fun_eq_iff)
  then show "grid (s\<lparr>intr_flag := b\<rparr>) = grid s" .
  show "console_ok (s\<lparr>intr_flag := b\<rparr>) = console_ok s" "screen_bytes (s\<lparr>intr_flag := b\<rparr>) = screen_bytes s"
    "screen_mapped (s\<lparr>intr_flag := b\<rparr>) = screen_mapped s"
    by (simp_all add: console_ok_def screen_mapped_def screen_bytes_def)
  show "screen_of (s\<lparr>intr_flag := b\<rparr>) = screen_of s" by (simp add: screen_of_def g cong: if_cong)
  show "off_screen (s\<lparr>intr_flag := b\<rparr>) = off_screen s"
    by (simp add: off_screen_def screen_bytes_def cong: if_cong)
qed

lemma terminal_write_prints:
  assumes "console_ok s" and "off_screen_buffer s buf n" and "unat nbytes = n" and "n < 2 ^ 31"
    and "list_all not_backspace (buffer_bytes s buf n)"
  shows "fst (terminal_write fd buf nbytes s) = int n \<and>
    screen_of (snd (terminal_write fd buf nbytes s)) = fold emit (buffer_bytes s buf n) (screen_of s) \<and>
    off_screen (snd (terminal_write fd buf nbytes s)) = off_screen s \<and>
    console_ok (snd (terminal_write fd buf nbytes s))"
proof -
  let ?c = "cli s"
  have n: "nat (sint nbytes) = n" using sint_small [of nbytes] assms(3,4) by simp
  have c: "console_ok ?c" "off_screen_buffer ?c buf n" "buffer_bytes ?c buf n = buffer_bytes s buf n"
    using assms(1,2) by (simp_all add: cli_def off_screen_buffer_def buffer_bytes_def)
  have "terminal_write fd buf nbytes s = (int n, sti (fold putc (buffer_bytes s buf n) ?c))"
    using write_loop [OF c(1,2), of n] c(3) assms(5) by (simp add: terminal_write_def n Let_def)
  then show ?thesis
    using fold_putc_sink [OF c(1) assms(5)] by (simp add: sti_def cli_def)
qed

text \<open>A kernel whose memory holds \<open>hi\<close> and a line feed at 4 MB.\<close>

definition hello_kernel :: kernel where
  "hello_kernel = static_kernel\<lparr>mem := (\<lambda>a. if a = 0x400000 then 0x68 else if a = 0x400001 then 0x69
     else if a = 0x400002 then 0xA else 0)\<rparr>"

lemma hello_kernel_ok: "console_ok hello_kernel" "off_screen_buffer hello_kernel 0x400000 3"
  "list_all not_backspace (buffer_bytes hello_kernel 0x400000 3)"
proof -
  show "console_ok hello_kernel"
    using static_console_ok by (simp add: hello_kernel_def console_ok_def screen_mapped_def)
  have far: "0x400000 + of_nat i \<noteq> (0xB8000 + of_nat k :: u32)" if "i < 3" "k < 4000" for i k
  proof
    assume "0x400000 + of_nat i = (0xB8000 + of_nat k :: u32)"
    then have "(of_nat (0x400000 + i) :: u32) = of_nat (0xB8000 + k)" by simp
    then show False using that of_nat_inj_u32 [of "0x400000 + i" "0xB8000 + k"] by simp
  qed
  then show "off_screen_buffer hello_kernel 0x400000 3"
    by (auto simp: off_screen_buffer_def screen_bytes_def hello_kernel_def static_kernel_def)
  show "list_all not_backspace (buffer_bytes hello_kernel 0x400000 3)"
    by (simp add: buffer_bytes_def load_bytes_def numeral_3_eq_3 rd_def not_backspace_def
        hello_kernel_def static_kernel_def)
qed

lemma terminal_write_prints_example:
  "fst (terminal_write 1 0x400000 3 hello_kernel) = int 3 \<and>
    screen_of (snd (terminal_write 1 0x400000 3 hello_kernel))
      = fold emit (buffer_bytes hello_kernel 0x400000 3) (screen_of hello_kernel) \<and>
    off_screen (snd (terminal_write 1 0x400000 3 hello_kernel)) = off_screen hello_kernel \<and>
    console_ok (snd (terminal_write 1 0x400000 3 hello_kernel))"
  by (rule terminal_write_prints) (simp_all add: hello_kernel_ok)

end
