(* ===== verification/Video_Pages.thy ===== *)
theory Video_Pages
  imports Terminal
begin

text \<open>
  The video pages of the three terminals: how paging maps them after the boot, and what a
  terminal switch does to them.  A terminal's screen is in the display page while it is on
  display and in its own page otherwise; seen this way a switch changes no screen at all.
\<close>

section \<open>The four pages are mapped to themselves\<close>

text \<open>Page 0 is the display, page \<open>j + 1\<close> belongs to terminal \<open>j\<close>.\<close>

definition page_of :: "nat \<Rightarrow> u32" where
  "page_of j = VIDEO_MEMORY_ADDR + of_nat j * 0x1000"

text \<open>The directory and table entries that the boot code sets up for them.\<close>

definition video_tables_ok :: "paging \<Rightarrow> bool" where
  "video_tables_ok p \<longleftrightarrow>
     page_dir p 0 AND 0xFFFFF000 = page_table_addr p \<and> bit (page_dir p 0) 0 \<and> \<not> bit (page_dir p 0) 7 \<and>
     (\<forall>j < 4. bit (page_table p (184 + j)) 0 \<and> page_table p (184 + j) AND 0xFFFFF000 = page_of j)"

lemma unat_page_byte: "k < 0x4000 \<Longrightarrow> unat (0xB8000 + of_nat k :: u32) = 0xB8000 + k"
proof -
  assume "k < 0x4000"
  then have "unat (0xB8000 :: u32) + k < 2 ^ 32" by simp
  from unat_add_of_nat [OF this] show ?thesis by simp
qed

lemma unat_page_of: "j < 4 \<Longrightarrow> unat (page_of j) = 0xB8000 + 0x1000 * j"
proof -
  assume j: "j < 4"
  have "page_of j = 0xB8000 + of_nat (0x1000 * j)" by (simp add: page_of_def VIDEO_MEMORY_ADDR_def)
  then show ?thesis using unat_page_byte [of "0x1000 * j"] j by simp
qed

lemma page_byte: "page_of j + of_nat i = 0xB8000 + of_nat (0x1000 * j + i)"
  by (simp add: page_of_def VIDEO_MEMORY_ADDR_def)

lemma same_page:
  fixes e a :: u32
  assumes "e AND 0xFFFFF000 = b" and "unat b div 4096 = unat a div 4096"
  shows "(e AND 0xFFFFF000) OR (a AND 0xFFF) = a"
proof (rule small_page_frame)
  have "drop_bit 12 e = drop_bit 12 (e AND 0xFFFFF000)"
    unfolding page_masks by (rule bit_word_eqI) (auto simp: bit_simps dest: bit_imp_le_length)
  also have "\<dots> = drop_bit 12 a"
    unfolding assms(1) using assms(2) by (simp add: word_unat_eq_iff drop_bit_eq_div unat_div)
  finally show "drop_bit 12 e = drop_bit 12 a" .
qed

lemma walk_video:
  assumes ok: "video_tables_ok p" and k: "k < 0x4000"
  shows "walk p (0xB8000 + of_nat k) = Some (0xB8000 + of_nat k)"
proof -
  let ?a = "0xB8000 + of_nat k :: u32"
  let ?j = "k div 4096"
  have u: "unat ?a = 0xB8000 + k" by (rule unat_page_byte [OF k])
  have j: "?j < 4" using k by (simp add: less_mult_imp_div_less)
  have d: "unat (drop_bit 22 ?a) = 0" unfolding dir_index u using k by simp
  have i: "unat (drop_bit 12 ?a AND 0x3FF) = 184 + ?j" unfolding small_index u using j by simp
  have e: "bit (page_table p (184 + ?j)) 0" "page_table p (184 + ?j) AND 0xFFFFF000 = page_of ?j"
    using ok j by (simp_all add: video_tables_ok_def)
  have "unat (page_of ?j) div 4096 = unat ?a div 4096"
    unfolding unat_page_of [OF j] u by simp
  from same_page [OF e(2) this] have f:
    "(page_table p (184 + ?j) AND 0xFFFFF000) OR (?a AND 0xFFF) = ?a" .
  show ?thesis
    using ok e(1) f unfolding walk_def Let_def d i video_tables_ok_def by simp
qed

text \<open>The tables are set up and in force.\<close>

definition tlb_current :: "kernel \<Rightarrow> bool" where
  "tlb_current s \<longleftrightarrow> tlb s = (\<lambda>a. case walk (pg s) a of Some q \<Rightarrow> q | None \<Rightarrow> a)"

definition video_mapped :: "kernel \<Rightarrow> bool" where
  "video_mapped s \<longleftrightarrow> video_tables_ok (pg s) \<and> tlb_current s"

lemma tlb_video: "video_mapped s \<Longrightarrow> k < 0x4000 \<Longrightarrow> tlb s (0xB8000 + of_nat k) = 0xB8000 + of_nat k"
  by (simp add: video_mapped_def tlb_current_def walk_video)

lemma tlb_current_flush [simp]: "tlb_current (flush_tlb s)"
  by (simp add: tlb_current_def flush_tlb_def)

lemma tlb_page: "video_mapped s \<Longrightarrow> j < 4 \<Longrightarrow> i < 4096 \<Longrightarrow> tlb s (page_of j + of_nat i) = page_of j + of_nat i"
  unfolding page_byte by (rule tlb_video) simp_all

lemma page_bytes_distinct:
  assumes "i < 4096" "k < 4096" "j < 4" "l < 4"
  shows "page_of j + of_nat i = page_of l + of_nat k \<longleftrightarrow> j = l \<and> i = k"
proof
  assume "page_of j + of_nat i = page_of l + of_nat k"
  then have "(of_nat (0xB8000 + (0x1000 * j + i)) :: u32) = of_nat (0xB8000 + (0x1000 * l + k))"
    unfolding page_byte by simp
  then have eq: "0x1000 * j + i = 0x1000 * l + k"
    using assms of_nat_inj_u32 [of "0xB8000 + (0x1000 * j + i)" "0xB8000 + (0x1000 * l + k)"] by simp
  have "j = (0x1000 * j + i) div 0x1000" using assms(1) by simp
  also have "\<dots> = l" unfolding eq using assms(2) by simp
  finally show "j = l \<and> i = k" using eq by simp
qed simp

lemma pages_apart:
  assumes "video_mapped s" and "j < 4" and "l < 4" and "j \<noteq> l"
  shows "apart (tlb s) (page_of j) (page_of l) 4096" "disjoint_ranges (tlb s) (page_of j) 4096 (page_of l) 4096"
proof -
  have t: "tlb s (page_of a + of_nat i) = tlb s (page_of b + of_nat k) \<longleftrightarrow> a = b \<and> i = k"
    if "a < 4" "b < 4" "i < 4096" "k < 4096" for a b i k
    unfolding tlb_page [OF assms(1) that(1,3)] tlb_page [OF assms(1) that(2,4)]
    by (rule page_bytes_distinct) (use that in simp_all)
  show "apart (tlb s) (page_of j) (page_of l) 4096"
    unfolding apart_def using t [OF assms(2,2)] t [OF assms(2,3)] assms(4) by blast
  show "disjoint_ranges (tlb s) (page_of j) 4096 (page_of l) 4096"
    unfolding disjoint_ranges_def using t [OF assms(2,3)] assms(4) by blast
qed

section \<open>Who keeps them mapped\<close>

lemma video_tables_dir: "0 < n \<Longrightarrow> video_tables_ok (p\<lparr>page_dir := (page_dir p)(n := e)\<rparr>) = video_tables_ok p"
  by (simp add: video_tables_ok_def)

lemma video_mapped_set_up_paging [simp]: "video_mapped s \<Longrightarrow> video_mapped (set_up_paging i s)"
  by (simp add: video_mapped_def set_up_paging_def Let_def io_defs flush_tlb_def tlb_current_def video_tables_dir)

lemma video_tables_vid_map: "video_tables_ok (vid_map_tables t pr p) = video_tables_ok p"
  by (simp add: video_tables_ok_def vid_map_tables_def Let_def)

lemma video_mapped_set_vid_map [simp]: "video_mapped s \<Longrightarrow> video_mapped (set_vid_map t pr s)"
  by (simp add: video_mapped_def set_vid_map_def flush_tlb_def tlb_current_def video_tables_vid_map)

lemma video_mapped_user_video [simp]: "video_mapped s \<Longrightarrow> video_mapped (set_user_video_map s)"
proof -
  assume "video_mapped s"
  have d: "page_dir (user_video_tables p) 0 = page_dir p 0" for p
    by (simp add: user_video_tables_def Let_def)
  have "video_tables_ok (user_video_tables p) = video_tables_ok p" for p
    by (simp only: video_tables_ok_def d user_video_simps)
  with \<open>video_mapped s\<close> show ?thesis
    by (simp add: video_mapped_def set_user_video_map_def flush_tlb_def tlb_current_def)
qed

lemma video_mapped_cong:
  "pg t = pg s \<Longrightarrow> tlb t = tlb s \<Longrightarrow> video_mapped t = video_mapped s"
  by (simp add: video_mapped_def tlb_current_def)

lemma video_mapped_beside: "beside_screen t = beside_screen s \<Longrightarrow> video_mapped t = video_mapped s"
  by (intro video_mapped_cong; erule beside_eqD)

section \<open>terminal_init\<close>

definition terminal_ready :: "nat \<Rightarrow> terminal \<Rightarrow> bool" where
  "terminal_ready i t \<longleftrightarrow> tid t = i \<and> video_page t = page_of (i + 1) \<and> next_terminal t = Some ((i + 1) mod 3) \<and>
     keyb_buffer t = 128 * int i"

definition terminals_ok :: "kernel \<Rightarrow> bool" where
  "terminals_ok s \<longleftrightarrow> (\<forall>i < 3. terminal_ready i (terminal_list s i)) \<and> curr_terminal_num s < 3"

definition terminal_empty :: "terminal \<Rightarrow> bool" where
  "terminal_empty t \<longleftrightarrow> x_cursor t = 0 \<and> y_cursor t = 0 \<and> pcb_ptr t = 0 \<and> count_pcb t = 0 \<and>
     keyb_buffer_index t = 0 \<and> term_vidmap t = 0 \<and> term_display_buf_index t = 0"

lemma map_video_page_frame [simp]:
  "terminal_list (map_video_page a t pr s) = terminal_list s"
  "curr_terminal_num (map_video_page a t pr s) = curr_terminal_num s"
  "con (map_video_page a t pr s) = con s" "mem (map_video_page a t pr s) = mem s"
  "kb (map_video_page a t pr s) = kb s" "pcb_at (map_video_page a t pr s) = pcb_at s"
  by (simp_all add: map_video_page_def flush_tlb_def Let_def)

lemma wipe_frame [simp]:
  "pg (wipe_display_buf i s) = pg s" "tlb (wipe_display_buf i s) = tlb s"
  "terminal_list (wipe_display_buf i s) j = (if i < j \<and> j < 3 then null_terminal
     else if j = i then (terminal_list s i)\<lparr>
       term_display_buf := int_fill_loop 2000 0 (term_display_buf (terminal_list s i)),
       term_display_buf_index := 0,
       term_line_is_full := int_fill_loop 25 0 (term_line_is_full (terminal_list s i))\<rparr>
     else terminal_list s j)"
  by (simp_all add: wipe_display_buf_def wipe_behind_def wipe_variables_def Let_def)

lemma init_terminal_kb:
  "kb (init_terminal i s) = (kb s)\<lparr>key_buffer := int_fill_loop 128 0 (key_buffer (kb s)), keyb_index := 0,
     left_shift := False, left_ctrl := False, left_alt := False, capslk := False, alt := False\<rparr>"
proof -
  have "kb (wipe_behind n t) = (kb t)\<lparr>key_buffer := int_fill_loop 128 0 (key_buffer (kb t)), keyb_index := 0,
     left_shift := False, left_ctrl := False, left_alt := False, capslk := False, alt := False\<rparr>" for n t
    by (simp add: wipe_behind_def wipe_variables_def Let_def)
  then show ?thesis by (simp add: init_terminal_def wipe_display_buf_def Let_def)
qed

lemma page_of_succ: "VIDEO_MEMORY_ADDR + (of_nat i + 1) * 0x1000 = page_of (i + 1)"
  by (simp add: page_of_def)

lemma init_terminal_list:
  "j < i \<Longrightarrow> terminal_list (init_terminal i s) j = terminal_list s j"
  "terminal_ready i (terminal_list (init_terminal i s) i)"
  "terminal_empty (terminal_list (init_terminal i s) i)"
  by (simp_all add: init_terminal_def Let_def terminal_ready_def terminal_empty_def page_of_def algebra_simps)

lemma map_own_page:
  assumes "j < 4"
  shows "pg (map_video_page (page_of j) (page_of j) 1 s) =
    (pg s)\<lparr>page_table := (page_table (pg s))(184 + j :=
       set_Use_Supervisor 1 (set_Read_Write 1 (set_Present 1
         (put_base (drop_bit 12 (page_of j)) (page_table (pg s) (184 + j))))))\<rparr>"
proof -
  have "unat (page_of j div 4096) = 184 + j"
    using unat_page_of [OF assms] by (simp add: unat_div)
  then show ?thesis by (simp add: map_video_page_def flush_tlb_def Let_def)
qed

lemma own_page_entry:
  assumes "j < 4"
  shows "bit (set_Use_Supervisor 1 (set_Read_Write 1 (set_Present 1 (put_base (drop_bit 12 (page_of j)) w)))) 0"
    and "set_Use_Supervisor 1 (set_Read_Write 1 (set_Present 1 (put_base (drop_bit 12 (page_of j)) w)))
      AND 0xFFFFF000 = page_of j"
proof -
  show "bit (set_Use_Supervisor 1 (set_Read_Write 1 (set_Present 1 (put_base (drop_bit 12 (page_of j)) w)))) 0"
    by (simp add: set_bits_defs bit_put_bit)
  have "page_of j AND 0xFFF = 0"
  proof -
    have "j = 0 \<or> j = 1 \<or> j = 2 \<or> j = 3" using assms by linarith
    then show ?thesis by (auto simp: page_of_def VIDEO_MEMORY_ADDR_def)
  qed
  then have "put_base (drop_bit 12 (page_of j)) w AND 0xFFFFF000 = page_of j" by (rule aligned_base)
  then show "set_Use_Supervisor 1 (set_Read_Write 1 (set_Present 1 (put_base (drop_bit 12 (page_of j)) w)))
      AND 0xFFFFF000 = page_of j"
    by (simp add: set_bits_defs put_bit_high)
qed

lemma init_terminal_pg:
  assumes "i < 3"
  shows "page_dir (pg (init_terminal i s)) = page_dir (pg s)"
    and "page_table_addr (pg (init_terminal i s)) = page_table_addr (pg s)"
    and "page_table (pg (init_terminal i s)) = (page_table (pg s))(185 + i :=
       set_Use_Supervisor 1 (set_Read_Write 1 (set_Present 1
         (put_base (drop_bit 12 (page_of (i + 1))) (page_table (pg s) (185 + i))))))"
  using assms unfolding init_terminal_def Let_def page_of_succ
  by (simp_all add: map_own_page)

lemma tlb_current_init_terminal [simp]: "tlb_current (init_terminal i s)"
  by (simp add: init_terminal_def map_video_page_def Let_def)

lemma below4: "(\<forall>j < (4 :: nat). P j) \<longleftrightarrow> P 0 \<and> P 1 \<and> P 2 \<and> P 3"
  by (simp add: numeral_eq_Suc All_less_Suc2)

lemma below3: "(\<forall>j < (3 :: nat). P j) \<longleftrightarrow> P 0 \<and> P 1 \<and> P 2"
  by (simp add: numeral_eq_Suc All_less_Suc2)

definition boot_terminals :: "kernel \<Rightarrow> kernel" where
  "boot_terminals s = terminal_init (init_paging s)"

lemma boot_terminals_steps:
  "boot_terminals s = (init_terminal 2 (init_terminal 1 (init_terminal 0 (init_paging s))))\<lparr>curr_terminal_num := 0\<rparr>"
  by (simp add: boot_terminals_def terminal_init_def for_loop_numeral)

lemma boot_video_tables:
  assumes "page_table_addr (pg s) AND 0xFFF = 0"
  shows "video_tables_ok (pg (boot_terminals s))"
proof -
  let ?e = "\<lambda>j w. set_Use_Supervisor 1 (set_Read_Write 1 (set_Present 1 (put_base (drop_bit 12 (page_of j)) w)))"
  let ?p = "init_tables (pg s)"
  have pg0: "pg (init_paging s) = ?p" by (simp add: init_paging_def flush_tlb_def)
  have dir: "page_dir (pg (boot_terminals s)) 0 = put_base (drop_bit 12 (page_table_addr (pg s))) (set_Present 1 0)"
    unfolding boot_terminals_steps by (simp add: init_terminal_pg pg0 init_dir)
  have addr: "page_table_addr (pg (boot_terminals s)) = page_table_addr (pg s)"
    unfolding boot_terminals_steps by (simp add: init_terminal_pg pg0)
  have tab: "page_table (pg (boot_terminals s)) = (page_table ?p)(185 := ?e 1 (page_table ?p 185),
      186 := ?e 2 (page_table ?p 186), 187 := ?e 3 (page_table ?p 187))"
    unfolding boot_terminals_steps by (simp add: init_terminal_pg pg0 numeral_2_eq_2 numeral_3_eq_3)
  have "put_base (drop_bit 12 (page_table_addr (pg s))) (set_Present 1 0) AND 0xFFFFF000 = page_table_addr (pg s)"
    by (rule aligned_base [OF assms])
  moreover have "bit (put_base (drop_bit 12 (page_table_addr (pg s))) (set_Present 1 0)) 0"
    "\<not> bit (put_base (drop_bit 12 (page_table_addr (pg s))) (set_Present 1 0)) 7"
    by (simp_all add: bit_put_base set_bits_defs bit_put_bit)
  moreover have "page_table ?p 184 = 0xB8007" by (simp add: init_table)
  ultimately show ?thesis
    unfolding video_tables_ok_def dir addr tab below4
    using own_page_entry [of 1] own_page_entry [of 2] own_page_entry [of 3]
    by (simp add: page_of_def VIDEO_MEMORY_ADDR_def)
qed

lemma boot_terminals_ready:
  "terminals_ok (boot_terminals s) \<and> (\<forall>i < 3. terminal_empty (terminal_list (boot_terminals s) i))"
  unfolding terminals_ok_def below3 boot_terminals_steps
  by (simp add: init_terminal_list)

text \<open>
  After \<open>init_paging\<close> and \<open>terminal_init\<close> the display page and the pages of the three
  terminals are mapped to themselves by the tables in force, the three terminals are empty and
  linked in a ring, and terminal 0 is on display.  (The overlong \<open>memset\<close> does no harm, for
  it only reaches terminals that are initialised after it.)
\<close>

lemma terminal_init_ready:
  assumes "page_table_addr (pg s) AND 0xFFF = 0"
  shows "video_mapped (boot_terminals s) \<and> terminals_ok (boot_terminals s) \<and>
    map (\<lambda>i. terminal_empty (terminal_list (boot_terminals s) i)) [0, 1, 2] = [True, True, True]"
proof -
  have "tlb_current (boot_terminals s)"
    using tlb_current_init_terminal [of 2] by (simp add: boot_terminals_steps tlb_current_def)
  then show ?thesis
    using boot_video_tables [OF assms] boot_terminals_ready [of s]
    by (simp add: video_mapped_def below3)
qed

lemma terminal_init_ready_example:
  "video_mapped (boot_terminals static_kernel) \<and> terminals_ok (boot_terminals static_kernel) \<and>
    map (\<lambda>i. terminal_empty (terminal_list (boot_terminals static_kernel) i)) [0, 1, 2] = [True, True, True]"
  by (rule terminal_init_ready) (simp add: static_kernel_def)

section \<open>terminal_switch\<close>

text \<open>
  What terminal \<open>i\<close> has on its screen and on its input line, wherever it is kept: on display
  the page is page 0 and the line is in the keyboard buffer; otherwise the line is what its row
  holds at the moment.
\<close>

definition screen_page :: "kernel \<Rightarrow> nat \<Rightarrow> nat" where
  "screen_page s i = (if i = curr_terminal_num s then 0 else i + 1)"

definition screen_image :: "kernel \<Rightarrow> nat \<Rightarrow> u8 list" where
  "screen_image s i = load_bytes (tlb s) (mem s) (page_of (screen_page s i)) 4096"

definition pending_line :: "kernel \<Rightarrow> nat \<Rightarrow> u8 list" where
  "pending_line s i =
     (if i = curr_terminal_num s then typed_line s
      else line_of (row_at s (keyb_buffer (terminal_list s i))) (keyb_buffer_index (terminal_list s i)))"

definition page_bytes :: "memory \<Rightarrow> nat \<Rightarrow> u8 list" where
  "page_bytes m j = load_bytes (\<lambda>a. a) m (page_of j) 4096"

lemma load_page: "video_mapped s \<Longrightarrow> j < 4 \<Longrightarrow> load_bytes (tlb s) m (page_of j) 4096 = page_bytes m j"
  unfolding page_bytes_def by (rule load_bytes_cong) (simp add: tlb_page)

lemma screen_image_page:
  "video_mapped s \<Longrightarrow> i < 3 \<Longrightarrow> screen_image s i = page_bytes (mem s) (screen_page s i)"
  unfolding screen_image_def by (rule load_page) (simp_all add: screen_page_def)

lemma terminals_okD:
  "terminals_ok s \<Longrightarrow> i < 3 \<Longrightarrow> video_page (terminal_list s i) = page_of (i + 1)"
  "terminals_ok s \<Longrightarrow> i < 3 \<Longrightarrow> tid (terminal_list s i) = i"
  "terminals_ok s \<Longrightarrow> i < 3 \<Longrightarrow> next_terminal (terminal_list s i) = Some ((i + 1) mod 3)"
  "terminals_ok s \<Longrightarrow> curr_terminal_num s < 3"
  "terminals_ok s \<Longrightarrow> i < 3 \<Longrightarrow> keyb_buffer (terminal_list s i) = 128 * int i"
  by (simp_all add: terminals_ok_def terminal_ready_def)

lemma swap_video_pages:
  assumes v: "video_mapped s" and t: "terminals_ok s" and n: "n < 3" "n \<noteq> curr_terminal_num s"
  shows "page_bytes (mem (swap_video n s)) 0 = page_bytes (mem s) (n + 1)"
    and "page_bytes (mem (swap_video n s)) (curr_terminal_num s + 1) = page_bytes (mem s) 0"
    and "j < 3 \<Longrightarrow> j \<noteq> curr_terminal_num s \<Longrightarrow>
      page_bytes (mem (swap_video n s)) (j + 1) = page_bytes (mem s) (j + 1)"
proof -
  let ?c = "curr_terminal_num s" and ?tr = "tlb s" and ?m = "mem s"
  let ?m1 = "memcpy ?tr ?m (page_of (?c + 1)) (page_of 0) 4096"
  have c: "?c < 3" by (rule terminals_okD(4) [OF t])
  have zero: "VIDEO_MEMORY_ADDR = page_of 0" by (simp add: page_of_def)
  have m: "mem (swap_video n s) = memcpy ?tr ?m1 (page_of 0) (page_of (n + 1)) 4096"
    unfolding swap_video_def Let_def using terminals_okD(1) [OF t] n(1) c by (simp add: zero)
  note pages = load_page [OF v]
  have ap: "apart ?tr (page_of (?c + 1)) (page_of 0) 4096" "apart ?tr (page_of 0) (page_of (n + 1)) 4096"
    by (rule pages_apart [OF v]; use c n in simp)+
  have dj: "disjoint_ranges ?tr (page_of (n + 1)) 4096 (page_of (?c + 1)) 4096"
    "disjoint_ranges ?tr (page_of (?c + 1)) 4096 (page_of 0) 4096"
    by (rule pages_apart [OF v]; use c n in simp)+
  show "page_bytes (mem (swap_video n s)) 0 = page_bytes ?m (n + 1)"
    "page_bytes (mem (swap_video n s)) (?c + 1) = page_bytes ?m 0"
    using mc.cp_swap_in [OF ap dj, of ?m] pages c n unfolding m by simp_all
  show "page_bytes (mem (swap_video n s)) (j + 1) = page_bytes ?m (j + 1)" if j: "j < 3" "j \<noteq> ?c"
  proof -
    have "disjoint_ranges ?tr (page_of (j + 1)) 4096 (page_of 0) 4096"
      "disjoint_ranges ?tr (page_of (j + 1)) 4096 (page_of (?c + 1)) 4096"
      by (rule pages_apart [OF v]; use c j in simp)+
    then have "load_bytes ?tr (mem (swap_video n s)) (page_of (j + 1)) 4096 = load_bytes ?tr ?m (page_of (j + 1)) 4096"
      unfolding m using mc.cp_load_other [OF ap(2)] mc.cp_load_other [OF ap(1)] by simp
    then show ?thesis using pages j by simp
  qed
qed

lemma swap_video_frame [simp]:
  "tlb (swap_video n s) = tlb s" "pg (swap_video n s) = pg s" "con (swap_video n s) = con s"
  "kb (swap_video n s) = kb s" "terminal_list (swap_video n s) = terminal_list s"
  "line_rows (swap_video n s) = line_rows s"
  "curr_terminal_num (swap_video n s) = curr_terminal_num s"
  by (simp_all add: swap_video_def Let_def)

lemma swap_keyboard_frame [simp]:
  "tlb (swap_keyboard n s) = tlb s" "pg (swap_keyboard n s) = pg s" "con (swap_keyboard n s) = con s"
  "mem (swap_keyboard n s) = mem s" "curr_terminal_num (swap_keyboard n s) = curr_terminal_num s"
  by (simp_all add: swap_keyboard_def update_keyb_buf_def clean_keyb_buffer_def Let_def kernel_simps)

lemma swap_keyboard_list:
  "terminal_list (swap_keyboard n s) = (terminal_list s)(curr_terminal_num s :=
     (terminal_list s (curr_terminal_num s))\<lparr>keyb_buffer_index := keyb_index (kb s)\<rparr>)"
  by (simp add: swap_keyboard_def update_keyb_buf_def clean_keyb_buffer_def Let_def kernel_simps
      get_keyb_buffer_def get_keyb_buffer_index_def)

lemma swap_keyboard_rows:
  "line_rows (swap_keyboard n s) = save_row (keyb_buffer (terminal_list s (curr_terminal_num s)))
     (nat (keyb_index (kb s))) (key_buffer (kb s)) (line_rows s)"
  by (simp add: swap_keyboard_def update_keyb_buf_def clean_keyb_buffer_def Let_def kernel_simps
      get_keyb_buffer_def get_keyb_buffer_index_def)

lemma swap_keyboard_kb:
  "n \<noteq> curr_terminal_num s \<Longrightarrow> keyb_index (kb (swap_keyboard n s)) = keyb_buffer_index (terminal_list s n)"
  "n \<noteq> curr_terminal_num s \<Longrightarrow> typed_line (swap_keyboard n s) =
     line_of (\<lambda>k. line_rows (swap_keyboard n s) (keyb_buffer (terminal_list s n) + k))
       (keyb_buffer_index (terminal_list s n))"
  by (simp_all add: swap_keyboard_def Let_def kernel_simps row_at_def)
    (simp_all add: update_keyb_buf_def clean_keyb_buffer_def Let_def kernel_simps)

lemma memory_switch_frame [simp]:
  "mem (memory_switch s) = mem s" "kb (memory_switch s) = kb s" "line_rows (memory_switch s) = line_rows s"
  "terminal_list (memory_switch s) = terminal_list s"
  "curr_terminal_num (memory_switch s) = curr_terminal_num s"
  "pcb_at (memory_switch s) = pcb_at s" "curr_pcb (memory_switch s) = curr_pcb s"
  "scheduled_terminal (memory_switch s) = scheduled_terminal s"
  "scheduled_terminal_num (memory_switch s) = scheduled_terminal_num s"
  "pid_var (memory_switch s) = pid_var s" "fs (memory_switch s) = fs s"
  "outs (memory_switch s) = outs s" "irqs (memory_switch s) = irqs s"
  "intr_flag (memory_switch s) = intr_flag s"
  "tss_reg_esp0 (memory_switch s) = tss_reg_esp0 s"
  "terminal_read_enable_signal (memory_switch s) = terminal_read_enable_signal s"
  by (simp_all add: memory_switch_def Let_def set_vid_map_def flush_tlb_def update_screen_x_y_def
      update_video_mem_def split: option.split)

lemma video_mapped_memory_switch [simp]:
  assumes "video_mapped s"
  shows "video_mapped (memory_switch s)"
proof -
  have c: "video_mapped (s\<lparr>con := c\<rparr>)" for c
    using assms by (simp add: video_mapped_def tlb_current_def)
  show ?thesis
    using assms c by (simp add: memory_switch_def Let_def update_screen_x_y_def update_video_mem_def
        split: option.split)
qed

text \<open>What a switch to another terminal leaves in the state.\<close>

definition saved_cursor :: "nat \<Rightarrow> kernel \<Rightarrow> kernel" where
  "saved_cursor n s =
     (let s1 = swap_video n s;
          s2 = upd_term (curr_terminal_num s1)
                 (\<lambda>t. t\<lparr>x_cursor := read_screen_x s1, y_cursor := read_screen_y s1\<rparr>) s1;
          s3 = update_video_mem VIDEO_MEMORY_ADDR s2
      in update_screen_x_y (x_cursor (terminal_list s3 n)) (y_cursor (terminal_list s3 n)) s3)"

lemma terminal_switch_other:
  "n \<noteq> curr_terminal_num s \<Longrightarrow>
   terminal_switch n s = memory_switch ((swap_keyboard n (saved_cursor n s))\<lparr>curr_terminal_num := n\<rparr>)"
  by (simp add: terminal_switch_def saved_cursor_def Let_def)

lemma saved_cursor_frame [simp]:
  "tlb (saved_cursor n s) = tlb s" "pg (saved_cursor n s) = pg s" "kb (saved_cursor n s) = kb s"
  "mem (saved_cursor n s) = mem (swap_video n s)" "line_rows (saved_cursor n s) = line_rows s"
  "curr_terminal_num (saved_cursor n s) = curr_terminal_num s"
  "terminal_list (saved_cursor n s) = (terminal_list s)(curr_terminal_num s :=
     (terminal_list s (curr_terminal_num s))\<lparr>x_cursor := screen_x (con s), y_cursor := screen_y (con s)\<rparr>)"
  by (simp_all add: saved_cursor_def Let_def update_screen_x_y_def update_video_mem_def
      read_screen_x_def read_screen_y_def)

lemma terminal_switch_fields:
  assumes "n \<noteq> curr_terminal_num s"
  shows "curr_terminal_num (terminal_switch n s) = n"
    and "mem (terminal_switch n s) = mem (swap_video n s)"
    and "typed_line (terminal_switch n s) = line_of (\<lambda>k. line_rows (terminal_switch n s) (keyb_buffer (terminal_list s n) + k))
      (keyb_buffer_index (terminal_list s n))"
    and "terminal_list (terminal_switch n s) = (terminal_list s)(curr_terminal_num s :=
      (terminal_list s (curr_terminal_num s))\<lparr>x_cursor := screen_x (con s), y_cursor := screen_y (con s),
        keyb_buffer_index := keyb_index (kb s)\<rparr>)"
    and "video_mapped s \<Longrightarrow> video_mapped (terminal_switch n s)"
    and "line_rows (terminal_switch n s) = save_row (keyb_buffer (terminal_list s (curr_terminal_num s)))
      (nat (keyb_index (kb s))) (key_buffer (kb s)) (line_rows s)"
    and "keyb_index (kb (terminal_switch n s)) = keyb_buffer_index (terminal_list s n)"
proof -
  note sw = terminal_switch_other [OF assms]
  let ?t = "swap_keyboard n (saved_cursor n s)"
  have k: "typed_line ((swap_keyboard n (saved_cursor n s))\<lparr>curr_terminal_num := n\<rparr>) = typed_line ?t"
    by (rule typed_line_kb) simp
  show "curr_terminal_num (terminal_switch n s) = n" "mem (terminal_switch n s) = mem (swap_video n s)"
    by (simp_all add: sw)
  have line: "typed_line (terminal_switch n s) = typed_line ?t" by (rule typed_line_kb) (simp add: sw)
  have rows: "line_rows (terminal_switch n s) = line_rows ?t" by (simp add: sw)
  show "typed_line (terminal_switch n s) = line_of (\<lambda>k. line_rows (terminal_switch n s) (keyb_buffer (terminal_list s n) + k))
      (keyb_buffer_index (terminal_list s n))"
    unfolding line rows using swap_keyboard_kb(2) [of n "saved_cursor n s"] assms by simp
  show "terminal_list (terminal_switch n s) = (terminal_list s)(curr_terminal_num s :=
      (terminal_list s (curr_terminal_num s))\<lparr>x_cursor := screen_x (con s), y_cursor := screen_y (con s),
        keyb_buffer_index := keyb_index (kb s)\<rparr>)"
    by (simp add: sw swap_keyboard_list)
  show "line_rows (terminal_switch n s) = save_row (keyb_buffer (terminal_list s (curr_terminal_num s)))
      (nat (keyb_index (kb s))) (key_buffer (kb s)) (line_rows s)"
    by (simp add: rows swap_keyboard_rows)
  show "keyb_index (kb (terminal_switch n s)) = keyb_buffer_index (terminal_list s n)"
    using swap_keyboard_kb(1) [of n "saved_cursor n s"] assms by (simp add: sw)
  show "video_mapped (terminal_switch n s)" if "video_mapped s"
  proof -
    have "video_mapped (?t\<lparr>curr_terminal_num := n\<rparr>)"
      using that by (simp add: video_mapped_def tlb_current_def)
    then show ?thesis by (simp add: sw)
  qed
qed

lemma terminal_switch_image:
  assumes v: "video_mapped s" and t: "terminals_ok s" and n: "n < 3" "n \<noteq> curr_terminal_num s"
    and i: "i < 3"
  shows "screen_image (terminal_switch n s) i = screen_image s i"
proof -
  note f = terminal_switch_fields [OF n(2)]
  have c: "curr_terminal_num s < 3" by (rule terminals_okD(4) [OF t])
  have "screen_image (terminal_switch n s) i = page_bytes (mem (swap_video n s)) (screen_page (terminal_switch n s) i)"
    using screen_image_page [OF f(5) [OF v] i] f(2) by simp
  also have "\<dots> = page_bytes (mem s) (screen_page s i)"
  proof -
    consider "i = n" | "i = curr_terminal_num s" "i \<noteq> n" | "i \<noteq> n" "i \<noteq> curr_terminal_num s" by blast
    then show ?thesis
      using swap_video_pages(1,2) [OF v t n] swap_video_pages(3) [OF v t n, of i] i n f(1) by cases (simp_all add: screen_page_def)
  qed
  also have "\<dots> = screen_image s i" using screen_image_page [OF v i] by simp
  finally show ?thesis .
qed

text \<open>The lines fit the 128 bytes of their rows and of the keyboard buffer.\<close>

definition lines_ok :: "kernel \<Rightarrow> bool" where
  "lines_ok s \<longleftrightarrow> 0 \<le> keyb_index (kb s) \<and> keyb_index (kb s) \<le> 128 \<and>
     (\<forall>i < 3. 0 \<le> keyb_buffer_index (terminal_list s i) \<and> keyb_buffer_index (terminal_list s i) \<le> 128)"

lemma terminal_switch_line:
  assumes "terminals_ok s" and "lines_ok s" and "i < 3" and n: "n < 3" "n \<noteq> curr_terminal_num s"
  shows "pending_line (terminal_switch n s) i = pending_line s i"
proof -
  let ?c = "curr_terminal_num s" and ?k = "keyb_index (kb s)" and ?u = "terminal_switch n s"
  have c: "?c < 3" by (rule terminals_okD(4) [OF assms(1)])
  have row: "keyb_buffer (terminal_list s j) = 128 * int j" if "j < 3" for j by (rule terminals_okD(5) [OF assms(1) that])
  have m: "?k \<le> 128" "\<And>j. j < 3 \<Longrightarrow> keyb_buffer_index (terminal_list s j) \<le> 128"
    using assms(2) by (simp_all add: lines_ok_def)
  have rows: "line_rows ?u = save_row (128 * int ?c) (nat ?k) (key_buffer (kb s)) (line_rows s)"
    by (simp add: terminal_switch_fields(6) [OF n(2)] row [OF c])
  have other: "line_of (\<lambda>k. line_rows ?u (128 * int j + k)) (keyb_buffer_index (terminal_list s j)) =
      line_of (\<lambda>k. line_rows s (128 * int j + k)) (keyb_buffer_index (terminal_list s j))"
    if "j < 3" "j \<noteq> ?c" for j
    unfolding rows by (rule line_of_other_row) (use that m in auto)
  note f = terminal_switch_fields(1,3,4) [OF n(2)]
  consider "i = n" | "i \<noteq> n" "i = ?c" | "i \<noteq> n" "i \<noteq> ?c" by blast
  then show ?thesis
  proof cases
    case 1
    then show ?thesis using f(1,2) other [OF n] n row [OF n(1)] by (simp add: pending_line_def row_at_def)
  next
    case 2
    then show ?thesis
      using f(1,3) row [OF c] by (simp add: pending_line_def row_at_def rows typed_line_def)
  next
    case 3
    then show ?thesis
      using f(1,3) other [OF assms(3)] row [OF assms(3)] by (simp add: pending_line_def row_at_def)
  qed
qed

lemma terminal_switch_ok:
  assumes "terminals_ok s" and "lines_ok s" and "n < 3" and "n \<noteq> curr_terminal_num s"
  shows "terminals_ok (terminal_switch n s)" and "lines_ok (terminal_switch n s)"
  using assms(1-3) terminal_switch_fields(1,4,7) [OF assms(4)]
  by (auto simp: terminals_ok_def terminal_ready_def lines_ok_def)


text \<open>Two characters typed in terminal 0 after the boot, and a switch to terminal 2.\<close>

definition typing_kernel :: kernel where
  "typing_kernel = upd_kb (\<lambda>k. k\<lparr>key_buffer := (\<lambda>_. 0)(0 := 0x68, 1 := 0x69), keyb_index := 2\<rparr>)
     (boot_terminals static_kernel)"


end
