(* ===== verification/Keyboard.thy ===== *)
theory Keyboard
  imports Video_Pages I8259
begin

text \<open>
  \<open>student-distrib/keyboard.c\<close>: the scan code tables and the interrupt handler, which edits the
  line being typed, echoes it, switches terminals and wakes up \<open>terminal_read\<close>.
\<close>

section \<open>The scan code tables\<close>

definition key_row :: "string \<Rightarrow> string \<Rightarrow> string \<Rightarrow> u8 list \<Rightarrow> u8 \<Rightarrow> string \<Rightarrow> u8 list" where
  "key_row digits upper home home_end backslash bottom =
     [0, 0] @ lit digits @ [8, 9] @ lit upper @ [10, 0] @ lit home @ home_end @ [0, backslash]
       @ lit bottom @ [0, 0, 0, 0x20, 0]"

definition keyboard_map :: "nat \<Rightarrow> u8 list" where
  "keyboard_map i =
     (if i = 0 then key_row ''1234567890-='' ''qwertyuiop[]'' ''asdfghjkl;'' [0x27, 0x60] 0x5C ''zxcvbnm,./''
      else if i = 1 then key_row ''!@#$%^&*()_+'' ''QWERTYUIOP{}'' ''ASDFGHJKL:'' [0x22, 0x7E] 0x7C ''ZXCVBNM<>?''
      else if i = 2 then key_row ''1234567890-='' ''QWERTYUIOP[]'' ''ASDFGHJKL;'' [0x27, 0x60] 0x5C ''ZXCVBNM,./''
      else key_row ''!@#$%^&*()_+'' ''qwertyuiop{}'' ''asdfghjkl:'' [0x22, 0x7E] 0x7C ''zxcvbnm<>?'')"

section \<open>The functions\<close>

definition init_keyb :: "kernel \<Rightarrow> kernel" where
  "init_keyb s =
     (let s1 = upd_kb (\<lambda>k. k\<lparr>capslk := False, left_shift := False, left_ctrl := False,
                             left_alt := False, alt := False\<rparr>) (enable_irq 1 s)
      in say (''keyboard interrupt enabled '' @ [CHR 0x0A]) s1)"

text \<open>The first switch of the handler; \<open>None\<close> is its default case.\<close>

definition command_key :: "u32 \<Rightarrow> keyboard \<Rightarrow> keyboard option" where
  "command_key code k =
     (if code = 0x2A then Some (k\<lparr>left_shift := True\<rparr>)
      else if code = 0xAA then Some (k\<lparr>left_shift := False\<rparr>)
      else if code = 0x1D then Some (k\<lparr>left_ctrl := True\<rparr>)
      else if code = 0x9D then Some (k\<lparr>left_ctrl := False\<rparr>)
      else if code = 0x38 then Some (k\<lparr>alt := True\<rparr>)
      else if code = 0xB8 then Some (k\<lparr>alt := False\<rparr>)
      else if code = 0x3A then Some (k\<lparr>capslk := \<not> capslk k\<rparr>)
      else None)"

definition key_char :: "keyboard \<Rightarrow> u32 \<Rightarrow> u8" where
  "key_char k code =
     (if left_shift k \<and> \<not> capslk k then keyboard_map 1 ! unat code
      else if capslk k \<and> \<not> left_shift k then keyboard_map 2 ! unat code
      else if capslk k \<and> left_shift k then keyboard_map 3 ! unat code
      else keyboard_map 0 ! unat code)"

text \<open>
  The code stores the character at \<open>keyb_index\<close> without a test against the 128 bytes of the
  buffer; what is said of typing asks for an index below.
\<close>

definition type_char :: "u8 \<Rightarrow> kernel \<Rightarrow> kernel" where
  "type_char display_char s =
     (if display_char = 8
      then if keyb_index (kb s) = 0 then s
           else putc 8 (set_keyb_pressed (upd_kb (\<lambda>k. k\<lparr>keyb_index := keyb_index k - 1\<rparr>) s))
      else let s1 = set_keyb_pressed s;
               s2 = upd_kb (\<lambda>k. k\<lparr>key_buffer := (key_buffer k)(keyb_index k := display_char),
                                 keyb_index := keyb_index k + 1\<rparr>) s1;
               s3 = putc display_char s2
           in if display_char = 10 then set_signal_enable s3 else s3)"

definition plain_key :: "u32 \<Rightarrow> kernel \<Rightarrow> kernel" where
  "plain_key code s =
     (let d = get_display_tid s;
          s1 = update_video_mem VIDEO_MEMORY_ADDR s;
          s2 = update_screen_x_y (x_cursor (terminal_list s1 d)) (y_cursor (terminal_list s1 d)) s1
      in if left_ctrl (kb s2) \<and> code = 38 then clear s2
         else if alt (kb s2) \<and> code = 0x3B then terminal_switch 0 s2
         else if alt (kb s2) \<and> code = 0x3C then terminal_switch 1 s2
         else if alt (kb s2) \<and> code = 0x3D then terminal_switch 2 s2
         else if code < 59 then type_char (key_char (kb s2) code) s2
         else s2)"

definition keyb_end :: "kernel \<Rightarrow> kernel" where
  "keyb_end s =
     (let s1 = sti s;
          scheduled_tid = get_scheduled_tid s1; display_tid = get_display_tid s1;
          s2 = (if scheduled_tid \<noteq> display_tid
                then update_video_mem (video_page (terminal_list s1 scheduled_tid)) s1
                else update_video_mem VIDEO_MEMORY_ADDR s1)
      in send_eoi 1 s2)"

definition keyb_intr_handler :: "kernel \<Rightarrow> kernel" where
  "keyb_intr_handler s =
     (let s1 = cli s; keyb_input = inb 0x60 s1
      in case command_key keyb_input (kb s1) of
           Some k \<Rightarrow> keyb_end (s1\<lparr>kb := k\<rparr>)
         | None \<Rightarrow> keyb_end (plain_key keyb_input s1))"

section \<open>Editing the line\<close>

text \<open>What a scan code asks for.\<close>

datatype key_event = Modifier keyboard | Clear_screen | Switch nat | Erase | Insert u8 | Ignored

definition key_event_of :: "keyboard \<Rightarrow> u32 \<Rightarrow> key_event" where
  "key_event_of k code =
     (case command_key code k of
        Some k1 \<Rightarrow> Modifier k1
      | None \<Rightarrow>
          if left_ctrl k \<and> code = 38 then Clear_screen
          else if alt k \<and> code \<in> {0x3B, 0x3C, 0x3D} then Switch (unat (code - 0x3B))
          else if code < 59 then
            (let c = key_char k code in if c = 8 then Erase else Insert c)
          else Ignored)"

lemma set_keyb_pressed_frame [simp]:
  "kb (set_keyb_pressed s) = kb s" "tlb (set_keyb_pressed s) = tlb s"
  "terminal_read_enable_signal (set_keyb_pressed s) = terminal_read_enable_signal s"
  by (simp_all add: set_keyb_pressed_def)

lemma keyb_end_frame [simp]:
  "kb (keyb_end s) = kb s" "tlb (keyb_end s) = tlb s" "mem (keyb_end s) = mem s"
  "terminal_list (keyb_end s) = terminal_list s"
  "terminal_read_enable_signal (keyb_end s) = terminal_read_enable_signal s"
  "curr_terminal_num (keyb_end s) = curr_terminal_num s"
  "scheduled_terminal_num (keyb_end s) = scheduled_terminal_num s"
  "intr_flag (keyb_end s) = True" "outs (keyb_end s) = outs s @ [(0x20, 0x61)]"
  by (simp_all add: keyb_end_def Let_def send_eoi_def update_video_mem_def kernel_simps)

lemma type_char_line:
  assumes "0 \<le> keyb_index (kb s)"
  shows "typed_line (type_char c s) = (if c = 8 then butlast (typed_line s) else typed_line s @ [c])"
proof (cases "c = 8")
  case True
  have "keyb_index (kb s) \<noteq> 0 \<Longrightarrow> line_of (key_buffer (kb s)) (keyb_index (kb s) - 1) =
      butlast (line_of (key_buffer (kb s)) (keyb_index (kb s)))"
    using assms by (intro line_of_pop) simp
  then show ?thesis using True by (simp add: type_char_def typed_line_def)
next
  case False
  then show ?thesis
    using line_of_push [OF assms, of "key_buffer (kb s)" c]
    by (auto simp: type_char_def typed_line_def Let_def set_signal_enable_def)
qed

lemma type_char_frame [simp]:
  "tlb (type_char c s) = tlb s" "curr_terminal_num (type_char c s) = curr_terminal_num s"
  "scheduled_terminal_num (type_char c s) = scheduled_terminal_num s"
  "outs (type_char c s) = outs s"
  by (simp_all add: type_char_def Let_def set_keyb_pressed_def set_signal_enable_def)

lemma type_char_signal:
  "terminal_read_enable_signal (type_char c s) = (c = 10 \<or> terminal_read_enable_signal s)"
  by (simp add: type_char_def Let_def set_signal_enable_def)

lemma keyboard_map_length: "length (keyboard_map i) = 59"
  by (simp add: keyboard_map_def key_row_def)

lemma terminal_switch_frame [simp]:
  "outs (terminal_switch n s) = outs s"
  "terminal_read_enable_signal (terminal_switch n s) = terminal_read_enable_signal s"
  by (simp_all add: terminal_switch_def Let_def swap_video_def swap_keyboard_def update_keyb_buf_def
      clean_keyb_buffer_def update_screen_x_y_def update_video_mem_def kernel_simps)

lemma clear_line [simp]: "typed_line (clear s) = typed_line s"
  by (rule typed_line_kb) simp

text \<open>The state in which a key is handled: the console points at the displayed terminal.\<close>

definition at_display :: "kernel \<Rightarrow> kernel" where
  "at_display s =
     (let s1 = update_video_mem VIDEO_MEMORY_ADDR s; d = get_display_tid s
      in update_screen_x_y (x_cursor (terminal_list s1 d)) (y_cursor (terminal_list s1 d)) s1)"

lemma at_display_frame [simp]:
  "kb (at_display s) = kb s" "outs (at_display s) = outs s" "tlb (at_display s) = tlb s"
  "terminal_list (at_display s) = terminal_list s" "mem (at_display s) = mem s"
  "curr_terminal_num (at_display s) = curr_terminal_num s"
  "scheduled_terminal_num (at_display s) = scheduled_terminal_num s"
  "terminal_read_enable_signal (at_display s) = terminal_read_enable_signal s"
  "line_rows (at_display s) = line_rows s" "pending_line (at_display s) = pending_line s"
  "terminals_ok (at_display s) = terminals_ok s" "lines_ok (at_display s) = lines_ok s"
proof -
  show "pending_line (at_display s) = pending_line s"
    by (simp add: fun_eq_iff pending_line_def typed_line_def at_display_def Let_def row_at_def
        update_video_mem_def update_screen_x_y_def)
  show "terminals_ok (at_display s) = terminals_ok s" "lines_ok (at_display s) = lines_ok s"
    by (simp_all add: terminals_ok_def lines_ok_def at_display_def Let_def
        update_video_mem_def update_screen_x_y_def)
qed (simp_all add: at_display_def Let_def update_video_mem_def update_screen_x_y_def)

lemma plain_key_cases:
  "plain_key code s =
    (if left_ctrl (kb s) \<and> code = 38 then clear (at_display s)
     else if alt (kb s) \<and> code = 0x3B then terminal_switch 0 (at_display s)
     else if alt (kb s) \<and> code = 0x3C then terminal_switch 1 (at_display s)
     else if alt (kb s) \<and> code = 0x3D then terminal_switch 2 (at_display s)
     else if code < 59 then type_char (key_char (kb s) code) (at_display s)
     else at_display s)"
proof -
  have "update_screen_x_y (x_cursor (terminal_list (update_video_mem VIDEO_MEMORY_ADDR s) (get_display_tid s)))
      (y_cursor (terminal_list (update_video_mem VIDEO_MEMORY_ADDR s) (get_display_tid s)))
      (update_video_mem VIDEO_MEMORY_ADDR s) = at_display s"
    by (simp add: at_display_def Let_def)
  then show ?thesis by (simp add: plain_key_def Let_def)
qed

lemma switch_line:
  assumes "n < 3" and "terminals_ok s" and "lines_ok s"
  shows "typed_line (terminal_switch n s) = (if n = curr_terminal_num s then typed_line s else pending_line s n)"
proof (cases "n = curr_terminal_num s")
  case True
  then show ?thesis by (simp add: terminal_switch_def)
next
  case False
  then show ?thesis
    using terminal_switch_line [OF assms(2,3,1,1) False] terminal_switch_fields(1) [OF False]
    by (simp add: pending_line_def)
qed

text \<open>The handler as an edit of the line and of the signal.\<close>

fun edit_line :: "key_event \<Rightarrow> kernel \<Rightarrow> u8 list" where
  "edit_line Erase s = butlast (typed_line s)"
| "edit_line (Insert c) s = typed_line s @ [c]"
| "edit_line (Switch n) s = (if n = curr_terminal_num s then typed_line s else pending_line s n)"
| "edit_line e s = typed_line s"

lemma plain_key_edit:
  assumes "0 \<le> keyb_index (kb s)" and "command_key code (kb s) = None"
    and "\<And>n. key_event_of (kb s) code = Switch n \<Longrightarrow> terminals_ok s \<and> lines_ok s"
  shows "typed_line (plain_key code s) = edit_line (key_event_of (kb s) code) s"
    and "terminal_read_enable_signal (plain_key code s) \<longleftrightarrow>
      key_event_of (kb s) code = Insert 10 \<or> terminal_read_enable_signal s"
    and "outs (plain_key code s) = outs s"
proof -
  have l: "typed_line (at_display s) = typed_line s" by (rule typed_line_kb) simp
  note tc = type_char_line [of "at_display s"]
  consider "left_ctrl (kb s) \<and> code = 38" | "\<not> (left_ctrl (kb s) \<and> code = 38)" "alt (kb s)" "code = 0x3B"
    | "alt (kb s)" "code = 0x3C" | "alt (kb s)" "code = 0x3D"
    | "\<not> (left_ctrl (kb s) \<and> code = 38)" "\<not> (alt (kb s) \<and> code \<in> {0x3B, 0x3C, 0x3D})" by auto
  then show "typed_line (plain_key code s) = edit_line (key_event_of (kb s) code) s"
    and "terminal_read_enable_signal (plain_key code s) \<longleftrightarrow>
      key_event_of (kb s) code = Insert 10 \<or> terminal_read_enable_signal s"
    and "outs (plain_key code s) = outs s"
    using assms tc l switch_line [of _ "at_display s"]
    by (cases; auto simp: plain_key_cases key_event_of_def type_char_signal Let_def)+
qed

lemma keyb_handler_spec:
  assumes "0 \<le> keyb_index (kb s)"
    and "\<And>n. key_event_of (kb s) (inb 0x60 s) = Switch n \<Longrightarrow> terminals_ok s \<and> lines_ok s"
  shows "typed_line (keyb_intr_handler s) = edit_line (key_event_of (kb s) (inb 0x60 s)) s \<and>
    (terminal_read_enable_signal (keyb_intr_handler s) \<longleftrightarrow>
       key_event_of (kb s) (inb 0x60 s) = Insert 10 \<or> terminal_read_enable_signal s) \<and>
    intr_flag (keyb_intr_handler s) \<and> outs (keyb_intr_handler s) = outs s @ [(0x20, 0x61)]"
proof -
  have cli: "kb (cli s) = kb s" "inb 0x60 (cli s) = inb 0x60 s" "outs (cli s) = outs s"
    "terminal_read_enable_signal (cli s) = terminal_read_enable_signal s"
    "\<And>e. edit_line e (cli s) = edit_line e s" "terminals_ok (cli s) = terminals_ok s" "lines_ok (cli s) = lines_ok s"
  proof -
    show "edit_line e (cli s) = edit_line e s" for e
      by (cases e) (simp_all add: kernel_simps typed_line_def pending_line_def row_at_def)
    show "terminals_ok (cli s) = terminals_ok s" "lines_ok (cli s) = lines_ok s"
      by (simp_all add: kernel_simps terminals_ok_def lines_ok_def)
  qed (simp_all add: kernel_simps)
  have line_end: "typed_line (keyb_end t) = typed_line t" for t by (rule typed_line_kb) simp
  show ?thesis
  proof (cases "command_key (inb 0x60 s) (kb s)")
    case None
    then have h: "keyb_intr_handler s = keyb_end (plain_key (inb 0x60 s) (cli s))"
      by (simp add: keyb_intr_handler_def Let_def cli)
    have "0 \<le> keyb_index (kb (cli s))" and "command_key (inb 0x60 s) (kb (cli s)) = None"
      using assms None by (simp_all add: cli)
    from plain_key_edit [OF this] assms(2) show ?thesis unfolding h by (simp add: line_end cli)
  next
    case (Some k)
    then have h: "keyb_intr_handler s = keyb_end ((cli s)\<lparr>kb := k\<rparr>)"
      by (simp add: keyb_intr_handler_def Let_def cli)
    have "key_event_of (kb s) (inb 0x60 s) = Modifier k" using Some by (simp add: key_event_of_def)
    moreover have "key_buffer k = key_buffer (kb s)" "keyb_index k = keyb_index (kb s)"
      using Some by (auto simp: command_key_def split: if_splits)
    ultimately show ?thesis unfolding h by (simp add: line_end cli typed_line_def)
  qed
qed

section \<open>The echo\<close>

text \<open>The screen in the page on display, and what each event has to do to it.\<close>

definition displayed :: "kernel \<Rightarrow> screen" where
  "displayed s = screen_of (update_video_mem VIDEO_MEMORY_ADDR s)"

fun echo :: "key_event \<Rightarrow> kernel \<Rightarrow> screen" where
  "echo (Insert c) s = emit c (screen_of (at_display s))"
| "echo Erase s = (if typed_line s = [] then screen_of (at_display s)
     else rub_out (erase_to (con (at_display s))) (screen_of (at_display s)))"
| "echo Clear_screen s = blank_screen"
| "echo (Modifier k) s = displayed s"
| "echo e s = screen_of (at_display s)"

lemma displayed_here: "video_mem (con s) = VIDEO_MEMORY_ADDR \<Longrightarrow> displayed s = screen_of s"
  by (simp add: displayed_def update_video_mem_def screen_of_con)

lemma screen_of_same:
  "mem t = mem s \<Longrightarrow> tlb t = tlb s \<Longrightarrow> con t = con s \<Longrightarrow> screen_of t = screen_of s"
  by (simp add: screen_of_def grid_def vbyte_def ld8_def rd_def cong: if_cong)

lemma at_display_video [simp]: "video_mem (con (at_display s)) = VIDEO_MEMORY_ADDR"
  by (simp add: at_display_def Let_def update_video_mem_def update_screen_x_y_def)

lemma at_display_cli: "at_display (cli s) = (at_display s)\<lparr>intr_flag := False\<rparr>"
  by (simp add: at_display_def Let_def update_video_mem_def update_screen_x_y_def io_defs get_display_tid_def)

lemma displayed_keyb_end: "displayed (keyb_end t) = displayed t"
  unfolding displayed_def
  by (rule screen_of_same) (simp_all add: keyb_end_def Let_def update_video_mem_def send_eoi_def io_defs)

lemma type_char_echo:
  assumes ok: "console_ok s" and v: "video_mem (con s) = VIDEO_MEMORY_ADDR" and i: "0 \<le> keyb_index (kb s)"
    and to: "c = 8 \<Longrightarrow> 0 \<le> fst (erase_to (con s))"
  shows "displayed (type_char c s) = (if c \<noteq> 8 then emit c (screen_of s)
     else if typed_line s = [] then screen_of s else rub_out (erase_to (con s)) (screen_of s))"
proof -
  have put: "displayed (putc ch t) = screen_of (putc ch t)" if "video_mem (con t) = VIDEO_MEMORY_ADDR" for ch t
    by (rule displayed_here) (simp add: that putc_con)
  have empty: "typed_line s = [] \<longleftrightarrow> keyb_index (kb s) = 0" using i by (simp add: typed_line_def line_of_def)
  show ?thesis
  proof (cases "c = 8")
    case True
    let ?t = "set_keyb_pressed (upd_kb (\<lambda>k. k\<lparr>keyb_index := keyb_index k - 1\<rparr>) s)"
    have t: "console_ok ?t" "screen_of ?t = screen_of s" "erase_to (con ?t) = erase_to (con s)"
      "video_mem (con ?t) = VIDEO_MEMORY_ADDR"
      using ok v by (auto simp: console_ok_def screen_mapped_def set_keyb_pressed_def erase_to_def reset_log_def Let_def
          screen_of_def grid_def vbyte_def ld8_def cong: if_cong)
    have "displayed (putc 8 ?t) = rub_out (erase_to (con s)) (screen_of s)"
      using put [OF t(4)] putc_rub_out [OF t(1)] t(2,3) to True by simp
    then show ?thesis using True empty v by (simp add: type_char_def displayed_here)
  next
    case False
    let ?t = "upd_kb (\<lambda>k. k\<lparr>key_buffer := (key_buffer k)(keyb_index k := c), keyb_index := keyb_index k + 1\<rparr>) (set_keyb_pressed s)"
    have t: "console_ok ?t" "screen_of ?t = screen_of s" "video_mem (con ?t) = VIDEO_MEMORY_ADDR"
      using ok v by (auto simp: console_ok_def screen_mapped_def set_keyb_pressed_def
          screen_of_def grid_def vbyte_def ld8_def cong: if_cong)
    have "displayed (putc c ?t) = emit c (screen_of s)"
      using put [OF t(3)] putc_emit [OF t(1) False] t(2) by simp
    moreover have "displayed (set_signal_enable u) = displayed u" for u
      unfolding displayed_def by (rule screen_of_same) (simp_all add: set_signal_enable_def update_video_mem_def)
    ultimately show ?thesis using False by (cases "c = 10") (simp_all add: type_char_def Let_def)
  qed
qed

lemma type_char_cursor:
  assumes "cursor_kept s"
  shows "cursor_kept (type_char c s)"
proof -
  have p: "cursor_kept (set_keyb_pressed (s\<lparr>kb := k\<rparr>))" "cursor_kept ((set_keyb_pressed s)\<lparr>kb := k\<rparr>)"
    "keyb_pressed (con (set_keyb_pressed (s\<lparr>kb := k\<rparr>)))" "keyb_pressed (con ((set_keyb_pressed s)\<lparr>kb := k\<rparr>))" for k
    using assms by (simp_all add: set_keyb_pressed_def cursor_kept_def)
  have "cursor_kept (set_signal_enable t) = cursor_kept t" for t
    by (simp add: set_signal_enable_def cursor_kept_def)
  then show ?thesis
    using assms cursor_kept_putc p by (simp add: type_char_def Let_def)
qed

lemma keyb_handler_cursor:
  assumes "key_event_of (kb s) (inb 0x60 s) \<notin> range Switch \<union> range Modifier"
  shows "cursor_kept (keyb_intr_handler s)"
proof -
  let ?code = "inb 0x60 s" and ?d = "at_display (cli s)"
  have c: "kb (cli s) = kb s" "inb 0x60 (cli s) = ?code" by (simp_all add: kernel_simps)
  have none: "command_key ?code (kb s) = None" using assms by (auto simp: key_event_of_def split: option.splits)
  have e: "cursor_kept (keyb_end t) = cursor_kept t" for t
    by (simp add: cursor_kept_def) (simp add: keyb_end_def Let_def update_video_mem_def send_eoi_def io_defs)
  have d: "cursor_kept ?d"
    by (simp add: cursor_kept_def) (simp add: at_display_def Let_def get_display_tid_def update_screen_x_y_def update_video_mem_def)
  have ev: "key_event_of (kb s) ?code \<noteq> Switch n" for n using assms by auto
  have "cursor_kept (plain_key ?code (cli s))"
    using ev [of 0] ev [of 1] ev [of 2] none unfolding plain_key_cases c
    by (auto simp: key_event_of_def Let_def d type_char_cursor cursor_kept_clear split: if_splits)
  then show ?thesis using none c by (simp add: keyb_intr_handler_def Let_def e)
qed

lemma keyb_handler_echo:
  assumes i: "0 \<le> keyb_index (kb s)" and ok: "console_ok (at_display s)"
    and to: "0 \<le> fst (erase_to (con (at_display s)))"
    and ev: "\<And>n. key_event_of (kb s) (inb 0x60 s) \<noteq> Switch n"
  shows "displayed (keyb_intr_handler s) = echo (key_event_of (kb s) (inb 0x60 s)) s"
proof (cases "command_key (inb 0x60 s) (kb s)")
  case None
  let ?code = "inb 0x60 s" and ?d = "at_display (cli s)"
  have c: "kb (cli s) = kb s" "inb 0x60 (cli s) = ?code" by (simp_all add: kernel_simps)
  have d: "console_ok ?d" "screen_of ?d = screen_of (at_display s)" "con ?d = con (at_display s)" "kb ?d = kb s"
    using ok by (simp_all add: at_display_cli c)
  have line: "typed_line ?d = typed_line s" by (rule typed_line_kb) (simp add: c)
  have h: "displayed (keyb_intr_handler s) = displayed (plain_key ?code (cli s))"
    using None c by (simp add: keyb_intr_handler_def Let_def displayed_keyb_end)
  have type: "displayed (type_char ch ?d) = (if ch \<noteq> 8 then emit ch (screen_of (at_display s))
     else if typed_line s = [] then screen_of (at_display s)
     else rub_out (erase_to (con (at_display s))) (screen_of (at_display s)))" for ch
    using type_char_echo [OF d(1), of ch] i to d(2-4) line by simp
  have clear: "displayed (clear ?d) = blank_screen"
    using screen_of_clear [of ?d] d(1) by (simp add: displayed_here con_clear console_ok_def)
  have stay: "displayed ?d = screen_of (at_display s)" using d(2) by (simp add: displayed_here)
  show ?thesis
    using ev [of 0] ev [of 1] ev [of 2] None unfolding h plain_key_cases c
    by (auto simp: key_event_of_def Let_def clear type stay split: if_splits)
next
  case (Some k)
  have "displayed (keyb_intr_handler s) = displayed ((cli s)\<lparr>kb := k\<rparr>)"
    using Some by (simp add: keyb_intr_handler_def Let_def displayed_keyb_end kernel_simps)
  also have "\<dots> = displayed s"
    unfolding displayed_def by (rule screen_of_same) (simp_all add: update_video_mem_def io_defs)
  finally show ?thesis using Some by (simp add: key_event_of_def)
qed

text \<open>
  C24: the keyboard interrupt handler is a line editor with echo.  It inserts the character of the
  key under the current modifiers, erases the last one on backspace (if there is one), brings in
  the line of the terminal switched to, and leaves the line alone for every other key.  On the
  screen on display, at the cursor of the terminal on display, the character inserted is shown, the
  one erased is rubbed out, control-L leaves a blank screen and the other keys change nothing, and
  the terminal remembers where its cursor has come to (the screens at a switch are the subject
  of C27).  The handler wakes up a waiting read exactly on a
  line feed, and ends with interrupts enabled and the interrupt acknowledged.
\<close>

theorem keyb_handler_edits:
  assumes "0 \<le> keyb_index (kb s)" and "keyb_index (kb s) < 128"
    and "console_ok (at_display s)" and "0 \<le> fst (erase_to (con (at_display s)))"
    and "terminals_ok s" and "lines_ok s"
  shows "typed_line (keyb_intr_handler s) = edit_line (key_event_of (kb s) (inb 0x60 s)) s \<and>
    (key_event_of (kb s) (inb 0x60 s) \<notin> range Switch \<longrightarrow>
       displayed (keyb_intr_handler s) = echo (key_event_of (kb s) (inb 0x60 s)) s) \<and>
    (key_event_of (kb s) (inb 0x60 s) \<notin> range Switch \<union> range Modifier \<longrightarrow> cursor_kept (keyb_intr_handler s)) \<and>
    (terminal_read_enable_signal (keyb_intr_handler s) \<longleftrightarrow>
       key_event_of (kb s) (inb 0x60 s) = Insert 10 \<or> terminal_read_enable_signal s) \<and>
    intr_flag (keyb_intr_handler s) \<and> outs (keyb_intr_handler s) = outs s @ [(0x20, 0x61)]"
  using keyb_handler_spec [OF assms(1)] keyb_handler_echo [OF assms(1,3,4)] keyb_handler_cursor [of s] assms(5,6) by blast

text \<open>The terminals after the boot, and the key of the letter a.\<close>

definition key_kernel :: kernel where
  "key_kernel = (boot_terminals static_kernel)\<lparr>inport := (\<lambda>_. 0x1E)\<rparr>"

lemma boot_console: "con (boot_terminals static_kernel) = con static_kernel"
proof -
  have "int_fill_loop n 0 (\<lambda>_. 0) = (\<lambda>_. 0 :: int)" "int_fill_loop n 0 (\<lambda>_. 0) = (\<lambda>_. 0 :: u8)" for n
    by (induction n) (simp_all add: fun_eq_iff)
  then have "con (wipe_behind n s) = con s" if "con s = con static_kernel" for n s
    using that by (simp add: wipe_behind_def wipe_variables_def Let_def static_kernel_def)
  then have "con (init_terminal i s) = con s" if "con s = con static_kernel" for i s
    using that by (simp add: init_terminal_def wipe_display_buf_def Let_def)
  then show ?thesis by (simp add: boot_terminals_steps init_paging_def flush_tlb_def)
qed

lemma key_kernel_ready:
  "terminals_ok key_kernel" "lines_ok key_kernel" "typed_line key_kernel = []" "keyb_index (kb key_kernel) = 0"
  "console_ok (at_display key_kernel)" "erase_to (con (at_display key_kernel)) = (0, 0)"
  "key_event_of (kb key_kernel) 0x1E = Insert 0x61" "inb 0x60 key_kernel = 0x1E"
proof -
  let ?b = "boot_terminals static_kernel"
  have t: "terminals_ok ?b" "\<And>i. i < 3 \<Longrightarrow> terminal_empty (terminal_list ?b i)"
    using boot_terminals_ready by blast+
  have kf: "keyb_index (kb ?b) = 0" "\<not> left_shift (kb ?b)" "\<not> left_ctrl (kb ?b)" "\<not> capslk (kb ?b)" "\<not> alt (kb ?b)"
    by (simp_all add: boot_terminals_steps init_terminal_kb)
  show "terminals_ok key_kernel" "lines_ok key_kernel"
    using t kf by (auto simp: key_kernel_def terminals_ok_def lines_ok_def terminal_empty_def)
  show "keyb_index (kb key_kernel) = 0" by (simp add: key_kernel_def kf)
  then show "typed_line key_kernel = []" by (simp add: typed_line_def)
  show "inb 0x60 key_kernel = 0x1E" by (simp add: key_kernel_def inb_def)
  show "key_event_of (kb key_kernel) 0x1E = Insert 0x61"
    using kf by (simp add: key_kernel_def key_event_of_def command_key_def key_char_def keyboard_map_def key_row_def)
  have cur: "curr_terminal_num key_kernel = 0" "terminal_empty (terminal_list key_kernel 0)"
    using t(2) [of 0] by (simp_all add: key_kernel_def boot_terminals_steps)
  have "tlb_current ?b" using tlb_current_init_terminal [of 2] by (simp add: boot_terminals_steps tlb_current_def)
  moreover have "video_tables_ok (pg ?b)" by (rule boot_video_tables) (simp add: static_kernel_def)
  ultimately have v: "video_mapped ?b" by (simp add: video_mapped_def)
  have c: "con (at_display key_kernel) = (con static_kernel)\<lparr>video_mem := 0xB8000, screen_x := 0, screen_y := 0\<rparr>"
    using cur by (simp add: at_display_def Let_def update_video_mem_def update_screen_x_y_def get_display_tid_def
        key_kernel_def boot_console terminal_empty_def VIDEO_MEMORY_ADDR_def)
  have "tlb (at_display key_kernel) (0xB8000 + of_nat n) = 0xB8000 + of_nat n" if "n < 4000" for n
    using tlb_video [OF v, of n] that by (simp add: key_kernel_def)
  then have "inj_on (\<lambda>k. tlb (at_display key_kernel) (0xB8000 + of_nat k)) {..<4000}"
    by (intro inj_onI) (simp add: of_nat_inj_u32)
  then show "console_ok (at_display key_kernel)"
    by (simp add: console_ok_def screen_mapped_def c position_ok_def static_kernel_def)
  show "erase_to (con (at_display key_kernel)) = (0, 0)"
    by (simp add: erase_to_def c reset_log_def Let_def static_kernel_def)
qed

theorem keyb_handler_edits_witness:
  "typed_line (keyb_intr_handler key_kernel) = [0x61] \<and>
   displayed (keyb_intr_handler key_kernel) = emit 0x61 (screen_of (at_display key_kernel)) \<and>
   cursor_kept (keyb_intr_handler key_kernel)"
  using keyb_handler_edits [of key_kernel] by (auto simp: key_kernel_ready)

section \<open>Reading a line\<close>

text \<open>Nothing happens for \<open>n\<close> tests of the waiting loop, then the Enter key is pressed.\<close>

definition press :: "u8 \<Rightarrow> kernel \<Rightarrow> kernel" where
  "press code s = keyb_intr_handler (s\<lparr>inport := (inport s)(0x60 := code)\<rparr>)"

definition enter_after :: "nat \<Rightarrow> nat \<Rightarrow> kernel \<Rightarrow> kernel" where
  "enter_after n k s = (if k < n then s else press 0x1C s)"

lemma enter_event: "key_event_of k 0x1C = Insert 10"
  by (simp add: key_event_of_def command_key_def key_char_def keyboard_map_def key_row_def)

lemma press_enter:
  assumes "0 \<le> keyb_index (kb s)"
  shows "typed_line (press 0x1C s) = typed_line s @ [10]" "terminal_read_enable_signal (press 0x1C s)"
    "tlb (press 0x1C s) = tlb s" "curr_terminal_num (press 0x1C s) = curr_terminal_num s"
    "scheduled_terminal_num (press 0x1C s) = scheduled_terminal_num s"
proof -
  let ?s = "s\<lparr>inport := (inport s)(0x60 := 0x1C)\<rparr>"
  have code: "inb 0x60 ?s = 0x1C" by (simp add: inb_def)
  have l: "typed_line ?s = typed_line s" by (rule typed_line_kb) simp
  show "typed_line (press 0x1C s) = typed_line s @ [10]" "terminal_read_enable_signal (press 0x1C s)"
    using keyb_handler_spec [of ?s] assms unfolding code enter_event by (simp_all add: press_def l)
  have cmd: "command_key 0x1C k = None" for k by (simp add: command_key_def)
  have "press 0x1C s = keyb_end (type_char (key_char (kb s) 0x1C) (at_display (cli ?s)))"
    using code by (simp add: press_def keyb_intr_handler_def Let_def inb_def cmd plain_key_cases kernel_simps)
  then show "tlb (press 0x1C s) = tlb s" "curr_terminal_num (press 0x1C s) = curr_terminal_num s"
    "scheduled_terminal_num (press 0x1C s) = scheduled_terminal_num s"
    by (simp_all add: kernel_simps)
qed

lemma read_wait_enter:
  assumes no: "\<not> read_allowed s" and yes: "read_allowed (press 0x1C s)"
  shows "k \<le> n \<Longrightarrow> read_wait (enter_after n) k s = Some (press 0x1C s)"
proof (induction "n - k" arbitrary: k)
  case 0
  then have "enter_after n k s = press 0x1C s" by (simp add: enter_after_def)
  then show ?case
    using no yes read_wait.simps [of "enter_after n" k s]
      read_wait.simps [of "enter_after n" "k + 1" "press 0x1C s"] by simp
next
  case (Suc m)
  then have "enter_after n k s = s" by (simp add: enter_after_def)
  then show ?case
    using no Suc(1) [of "k + 1"] Suc(2) read_wait.simps [of "enter_after n" k s] by simp
qed

lemma take_line_short:
  assumes i: "0 \<le> keyb_index (kb s)" "keyb_index (kb s) < 128"
    and inj: "inj_on (\<lambda>k. tlb s (buf + of_nat k)) {..length (typed_line s)}"
  shows "fst (take_line buf s) = int (length (typed_line s))"
    and "load_bytes (tlb s) (mem (snd (take_line buf s))) buf (length (typed_line s) + 1) = typed_line s @ [0]"
    and "typed_line (snd (take_line buf s)) = []"
    and "\<not> terminal_read_enable_signal (snd (take_line buf s))"
proof -
  let ?s1 = "s\<lparr>terminal_read_enable_signal := False\<rparr>" and ?l = "typed_line s"
  have len: "length ?l = nat (keyb_index (kb s))" by (simp add: typed_line_def)
  have idx: "of_int (keyb_index (kb s)) = (of_nat (length ?l) :: u32)" using i(1) by (simp add: len)
  have t0: "take_line buf s = (int (nat (keyb_index (kb s))),
      clean_keyb_buffer (st8 (buf + of_int (keyb_index (kb s))) 0 (store_bytes buf ?l ?s1)))"
    using i(2) by (simp add: take_line_def Let_def get_keyb_buffer_index_def get_keyb_buffer_def
        typed_line_def)
  have t: "take_line buf s = (int (length ?l),
      clean_keyb_buffer (st8 (buf + of_nat (length ?l)) 0 (store_bytes buf ?l ?s1)))"
    unfolding t0 idx len ..
  have last: "store_bytes buf (?l @ [0]) ?s1 = st8 (buf + of_nat (length ?l)) 0 (store_bytes buf ?l ?s1)"
    by (rule store_bytes_snoc)
  have m: "mem (snd (take_line buf s)) = mem (store_bytes buf (?l @ [0]) ?s1)"
    unfolding t last by (simp add: clean_keyb_buffer_def)
  show "fst (take_line buf s) = int (length ?l)" by (simp add: t)
  have "{..<length (?l @ [0])} = {..length ?l}" by auto
  then show "load_bytes (tlb s) (mem (snd (take_line buf s))) buf (length ?l + 1) = ?l @ [0]"
    using store_bytes_load [of ?s1 buf "?l @ [0]"] inj unfolding m by simp
  show "typed_line (snd (take_line buf s)) = []" by (simp add: t)
  show "\<not> terminal_read_enable_signal (snd (take_line buf s))"
    by (simp add: t clean_keyb_buffer_def)
qed

text \<open>
  C25: a \<open>terminal_read\<close> of the terminal on display returns when Enter is pressed, however long
  that takes: it delivers the line typed so far with the line feed and a terminating NUL to the
  user's buffer, returns its length, and leaves an empty line and no further wake-up.
\<close>

theorem terminal_read_returns:
  assumes "\<not> terminal_read_enable_signal s" and "scheduled_terminal_num s = curr_terminal_num s"
    and "0 \<le> keyb_index (kb s)" and "length (typed_line s) < 127"
    and "inj_on (\<lambda>k. tlb s (buf + of_nat k)) {..length (typed_line s) + 1}"
  shows "\<exists>t. terminal_read (enter_after n) fd buf nbytes s = Some (int (length (typed_line s)) + 1, t) \<and>
    load_bytes (tlb s) (mem t) buf (length (typed_line s) + 2) = typed_line s @ [10, 0] \<and>
    typed_line t = [] \<and> \<not> terminal_read_enable_signal t"
proof -
  let ?h = "press 0x1C s"
  note h = press_enter [OF assms(3)]
  have "\<not> read_allowed s" and "read_allowed ?h"
    using assms(1,2) h by (simp_all add: read_allowed_def get_display_tid_def)
  then have w: "read_wait (enter_after n) 0 s = Some ?h" by (rule read_wait_enter) simp
  have len: "length (typed_line ?h) = length (typed_line s) + 1" using h(1) by simp
  have "nat (keyb_index (kb ?h)) = length (typed_line s) + 1" using len by (simp add: typed_line_def)
  then have i: "0 \<le> keyb_index (kb ?h)" "keyb_index (kb ?h) < 128" using assms(4) by linarith+
  have inj: "inj_on (\<lambda>k. tlb ?h (buf + of_nat k)) {..length (typed_line ?h)}"
    using assms(5) h(3) len by simp
  note tl = take_line_short [OF i inj]
  have two: "length (typed_line ?h) + 1 = length (typed_line s) + 2" using len by simp
  have "load_bytes (tlb s) (mem (snd (take_line buf ?h))) buf (length (typed_line s) + 2) = typed_line s @ [10, 0]"
    using tl(2) unfolding two h(1,3) by simp
  moreover have "take_line buf ?h = (int (length (typed_line s)) + 1, snd (take_line buf ?h))"
    using tl(1) len by (simp add: prod_eq_iff)
  ultimately show ?thesis
    using tl(3,4) w unfolding terminal_read_def by (metis option.simps(5))
qed

theorem terminal_read_returns_witness:
  "\<exists>t. terminal_read (enter_after 5) 0 0x8000000 10 static_kernel
      = Some (int (length (typed_line static_kernel)) + 1, t) \<and>
    load_bytes (tlb static_kernel) (mem t) 0x8000000 (length (typed_line static_kernel) + 2)
      = typed_line static_kernel @ [10, 0] \<and>
    typed_line t = [] \<and> \<not> terminal_read_enable_signal t"
  by (rule terminal_read_returns) (simp_all add: static_kernel_def typed_line_def inj_on_def atMost_Suc)

end
