(* ===== verification/Descriptors.thy ===== *)
theory Descriptors
  imports Files Rtc Keyboard
begin

text \<open>
  The file descriptor calls of \<open>student-distrib/syscall.c\<close> (\<open>read\<close>, \<open>write\<close>, \<open>open\<close>, \<open>close\<close>)
  and the operation tables through which they reach the drivers.  Calling a pointer of the
  tables is \<open>call_read\<close> and its like: a case per function the kernel stores there; a null
  pointer or a function of another signature is undefined behaviour and has no result.

  The locale \<open>slot_table\<close> is the contract of a table of slots that are claimed lowest first
  and released; the descriptor table provides it, and so does the table of processes.
\<close>

section \<open>The operation tables\<close>

definition stdin_table :: file_operation_table where
  "stdin_table = \<lparr>fop_open = Fn_terminal_open, fop_read = Fn_terminal_read,
     fop_write = Fn_terminal_bad_write, fop_close = Fn_terminal_close\<rparr>"

definition stdout_table :: file_operation_table where
  "stdout_table = \<lparr>fop_open = Fn_terminal_open, fop_read = Fn_terminal_bad_read,
     fop_write = Fn_terminal_write, fop_close = Fn_terminal_close\<rparr>"

definition rtc_table :: file_operation_table where
  "rtc_table = \<lparr>fop_open = Fn_rtc_open, fop_read = Fn_rtc_read, fop_write = Fn_rtc_write,
     fop_close = Fn_rtc_close\<rparr>"

definition dir_table :: file_operation_table where
  "dir_table = \<lparr>fop_open = Fn_dir_open, fop_read = Fn_dir_read, fop_write = Fn_dir_write,
     fop_close = Fn_dir_close\<rparr>"

definition file_table :: file_operation_table where
  "file_table = \<lparr>fop_open = Fn_file_open, fop_read = Fn_file_read, fop_write = Fn_file_write,
     fop_close = Fn_file_close\<rparr>"

definition fail_table1 :: file_operation_table where
  "fail_table1 = \<lparr>fop_open = Fn_fail, fop_read = Fn_fail, fop_write = Fn_fail, fop_close = Fn_fail\<rparr>"

definition fail1 :: "kernel \<Rightarrow> int \<times> kernel" where
  "fail1 s = (-1, s)"

fun call_open :: "fop \<Rightarrow> bytes \<Rightarrow> kernel \<Rightarrow> (int \<times> kernel) option" where
  "call_open Fn_terminal_open name s = Some (terminal_open name s)"
| "call_open Fn_rtc_open name s = Some (rtc_open name s)"
| "call_open Fn_dir_open name s = Some (dir_open name s)"
| "call_open Fn_file_open name s = Some (file_open name s)"
| "call_open Fn_fail name s = Some (fail1 s)"
| "call_open f name s = None"

fun call_read :: "(nat \<Rightarrow> kernel \<Rightarrow> kernel) \<Rightarrow> fop \<Rightarrow> nat \<Rightarrow> u32 \<Rightarrow> u32 \<Rightarrow> kernel \<Rightarrow> (int \<times> kernel) option" where
  "call_read env Fn_terminal_read fd buf n s = terminal_read env fd buf n s"
| "call_read env Fn_terminal_bad_read fd buf n s = Some (terminal_bad_read fd buf n s)"
| "call_read env Fn_rtc_read fd buf n s = rtc_read env fd buf n s"
| "call_read env Fn_dir_read fd buf n s = Some (dir_read fd buf n s)"
| "call_read env Fn_file_read fd buf n s = Some (file_read fd buf n s)"
| "call_read env Fn_fail fd buf n s = Some (fail1 s)"
| "call_read env f fd buf n s = None"

fun call_write :: "fop \<Rightarrow> nat \<Rightarrow> u32 \<Rightarrow> u32 \<Rightarrow> kernel \<Rightarrow> (int \<times> kernel) option" where
  "call_write Fn_terminal_write fd buf n s = Some (terminal_write fd buf n s)"
| "call_write Fn_terminal_bad_write fd buf n s = Some (terminal_bad_write fd buf n s)"
| "call_write Fn_rtc_write fd buf n s = Some (rtc_write fd buf n s)"
| "call_write Fn_dir_write fd buf n s = Some (dir_write fd buf n s)"
| "call_write Fn_file_write fd buf n s = Some (file_write fd buf n s)"
| "call_write Fn_fail fd buf n s = Some (fail1 s)"
| "call_write f fd buf n s = None"

section \<open>The calls\<close>

definition get_current_pcb :: "kernel \<Rightarrow> u32" where
  "get_current_pcb s = curr_pcb s"

definition read_fd :: "(nat \<Rightarrow> kernel \<Rightarrow> kernel) \<Rightarrow> int \<Rightarrow> u32 \<Rightarrow> u32 \<Rightarrow> kernel \<Rightarrow> (int \<times> kernel) option" where
  "read_fd env fd buf nbytes s =
     (if fd < 0 \<or> fd \<ge> 8 \<or> buf = 0 \<or> sint nbytes < 0 then Some (-1, s)
      else let f = file_descriptor (pcb_at s (get_current_pcb s)) (nat fd) in
        if flag f = 0 then Some (-1, s)
        else call_read env (fop_read (file_op_tb f)) (nat fd) buf nbytes s)"

definition write_fd :: "int \<Rightarrow> u32 \<Rightarrow> u32 \<Rightarrow> kernel \<Rightarrow> (int \<times> kernel) option" where
  "write_fd fd buf nbytes s =
     (if fd < 0 \<or> fd \<ge> 8 then Some (-1, s)
      else if buf = 0 then Some (-1, s)
      else if sint nbytes < 0 then Some (-1, s)
      else let f = file_descriptor (pcb_at s (get_current_pcb s)) (nat fd) in
        if flag f = 0 then Some (-1, s)
        else call_write (fop_write (file_op_tb f)) (nat fd) buf nbytes s)"

text \<open>The search for a descriptor; \<open>None\<close> is the return of -1 inside the loop.\<close>

fun find_fd :: "pcb \<Rightarrow> nat \<Rightarrow> nat \<Rightarrow> nat option" where
  "find_fd p i 0 = Some 0"
| "find_fd p i (Suc k) =
     (if i = 7 \<and> flag (file_descriptor p i) = 1 then None
      else if flag (file_descriptor p i) = 0 then Some i
      else find_fd p (i + 1) k)"

definition open_table :: "int \<Rightarrow> file_operation_table \<Rightarrow> file_operation_table" where
  "open_table type old = (if type = 0 then rtc_table else if type = 1 then dir_table
     else if type = 2 then file_table else old)"

definition open_file :: "dentry \<Rightarrow> file_object \<Rightarrow> file_object" where
  "open_file d f =
     (let type = sint (file_type d);
          f1 = f\<lparr>inode := (if type = 2 then inode_id d else 0), file_position := 0, flag := 1\<rparr>;
          f2 = f1\<lparr>file_op_tb := open_table type (file_op_tb f1)\<rparr>
      in if type = 0 then f2\<lparr>inode := -1\<rparr> else f2)"

definition open_fd :: "u32 \<Rightarrow> kernel \<Rightarrow> (int \<times> kernel) option" where
  "open_fd filename s =
     (let p = get_current_pcb s in
      case find_fd (pcb_at s p) 0 8 of
        None \<Rightarrow> Some (-1, s)
      | Some fd \<Rightarrow>
          if filename = 0 then Some (-1, s)
          else case read_dentry_by_name (ld8 s) (fs s) (view s filename) of
            None \<Rightarrow> Some (-1, s)
          | Some d \<Rightarrow>
              if sint (file_type d) < 0 \<or> sint (file_type d) > 2 then Some (-1, s)
              else let s1 = upd_pcb p (upd_fd fd (open_file d)) s in
                case call_open (fop_open (file_op_tb (file_descriptor (pcb_at s1 p) fd))) (view s1 filename) s1 of
                  None \<Rightarrow> None
                | Some (r, s2) \<Rightarrow> Some (int fd, s2))"

definition closed_file :: "file_object \<Rightarrow> file_object" where
  "closed_file f = f\<lparr>flag := 0, file_op_tb := fail_table1, inode := 0, file_position := 0\<rparr>"

definition close_fd :: "int \<Rightarrow> kernel \<Rightarrow> int \<times> kernel" where
  "close_fd fd s =
     (let p = get_current_pcb s in
      if fd = 0 \<or> fd = 1 then (-1, s)
      else if fd < 8 \<and> fd \<ge> 2 then
        (if flag (file_descriptor (pcb_at s p) (nat fd)) = 0 then (-1, s)
         else (0, upd_pcb p (upd_fd (nat fd) closed_file) s))
      else (-1, s))"

section \<open>The contract of a table of slots\<close>

locale slot_table =
  fixes search :: "'s \<Rightarrow> nat option"
    and in_use :: "'s \<Rightarrow> nat \<Rightarrow> bool"
    and claim :: "nat \<Rightarrow> 's \<Rightarrow> 's"
    and release :: "nat \<Rightarrow> 's \<Rightarrow> 's"
    and size :: nat
    and sound :: "'s \<Rightarrow> bool"
  assumes search_free: "sound s \<Longrightarrow> search s = Some i \<Longrightarrow> i < size \<and> \<not> in_use s i \<and> (\<forall>j < i. in_use s j)"
    and search_full: "sound s \<Longrightarrow> search s = None \<Longrightarrow> \<forall>j < size. in_use s j"
    and claimed: "i < size \<Longrightarrow> in_use (claim i s) j \<longleftrightarrow> j = i \<or> in_use s j"
    and released: "i < size \<Longrightarrow> in_use (release i s) j \<longleftrightarrow> j \<noteq> i \<and> in_use s j"
    and claim_sound: "i < size \<Longrightarrow> sound s \<Longrightarrow> sound (claim i s)"
    and release_sound: "i < size \<Longrightarrow> sound s \<Longrightarrow> sound (release i s)"
begin

lemma search_iff: "sound s \<Longrightarrow> search s = None \<longleftrightarrow> (\<forall>j < size. in_use s j)"
  using search_full search_free by (cases "search s") fastforce+

text \<open>A released slot below every other free one is the next one to be found.\<close>

lemma reuse_lowest:
  assumes "sound s" and "i < size" and "\<forall>j < i. in_use s j"
  shows "search (release i s) = Some i"
proof (cases "search (release i s)")
  case None
  then show ?thesis
    using search_full [OF release_sound [OF assms(2,1)]] released [OF assms(2)] assms(2) by blast
next
  case (Some k)
  note k = search_free [OF release_sound [OF assms(2,1)] Some]
  then have "\<not> k < i" using assms(3) released [OF assms(2)] by blast
  moreover have "\<not> i < k" using k released [OF assms(2)] by blast
  ultimately show ?thesis using Some by simp
qed

text \<open>Releasing what was just claimed gives it back.\<close>

lemma claim_release: "i < size \<Longrightarrow> \<not> in_use s i \<Longrightarrow> in_use (release i (claim i s)) = in_use s"
  by (rule ext) (auto simp: claimed released)

lemma claim_least:
  assumes "sound s" and "search s = Some i"
  shows "\<forall>j < size. in_use (claim i s) j \<longleftrightarrow> j = i \<or> in_use s j" and "\<forall>j \<le> i. in_use (claim i s) j"
  using search_free [OF assms] claimed [of i s] by (auto simp: le_less)

end

section \<open>The descriptor table provides it\<close>

definition fd_in_use :: "pcb \<Rightarrow> nat \<Rightarrow> bool" where
  "fd_in_use p i \<longleftrightarrow> flag (file_descriptor p i) \<noteq> 0"

definition flags_ok :: "pcb \<Rightarrow> bool" where
  "flags_ok p \<longleftrightarrow> (\<forall>i < 8. flag (file_descriptor p i) = 0 \<or> flag (file_descriptor p i) = 1)"

lemma find_fd_spec:
  assumes "flags_ok p"
  shows "i + k = 8 \<Longrightarrow> \<forall>j < i. fd_in_use p j \<Longrightarrow> 0 < k \<Longrightarrow>
    (case find_fd p i k of
       None \<Rightarrow> \<forall>j < 8. fd_in_use p j
     | Some n \<Rightarrow> n < 8 \<and> \<not> fd_in_use p n \<and> (\<forall>j < n. fd_in_use p j))"
proof (induction k arbitrary: i)
  case 0
  then show ?case by simp
next
  case (Suc k)
  show ?case
  proof (cases "flag (file_descriptor p i) = 0")
    case True
    then show ?thesis using Suc.prems by (simp add: fd_in_use_def)
  next
    case False
    then have used: "\<forall>j < i + 1. fd_in_use p j" using Suc.prems(2) by (auto simp: fd_in_use_def less_Suc_eq)
    have "i < 8" using Suc.prems(1) by simp
    then have one: "flag (file_descriptor p i) = 1"
      using assms False by (auto simp: flags_ok_def)
    show ?thesis
    proof (cases "i = 7")
      case True
      then show ?thesis using one used by simp
    next
      case False
      then have "0 < k" using Suc.prems(1) by simp
      then show ?thesis
        using Suc.IH [of "i + 1"] Suc.prems(1) used one False by simp
    qed
  qed
qed

lemma open_file_flag [simp]: "flag (open_file d f) = 1"
  by (simp add: open_file_def Let_def)

interpretation fds: slot_table "\<lambda>p. find_fd p 0 8" fd_in_use "\<lambda>i. upd_fd i (open_file d)"
  "\<lambda>i. upd_fd i closed_file" 8 flags_ok for d
proof
  fix p i assume s: "flags_ok p" and f: "find_fd p 0 8 = Some i"
  show "i < 8 \<and> \<not> fd_in_use p i \<and> (\<forall>j < i. fd_in_use p j)"
    using find_fd_spec [OF s, of 0 8] f by simp
next
  fix p assume s: "flags_ok p" and f: "find_fd p 0 8 = None"
  show "\<forall>j < 8. fd_in_use p j" using find_fd_spec [OF s, of 0 8] f by simp
qed (auto simp: fd_in_use_def flags_ok_def closed_file_def)

section \<open>open\<close>

lemma call_open_frame:
  assumes "call_open f name s = Some (r, t)"
  shows "pcb_at t = pcb_at s" "curr_pcb t = curr_pcb s" "mem t = mem s" "tlb t = tlb s" "con t = con s"
    "\<exists>d. fs t = (fs s)\<lparr>global_dentry := d\<rparr>"
proof -
  have same: "\<exists>d. fs s = (fs s)\<lparr>global_dentry := d\<rparr>" by (rule exI [of _ "global_dentry (fs s)"]) simp
  show "pcb_at t = pcb_at s" "curr_pcb t = curr_pcb s" "mem t = mem s" "tlb t = tlb s" "con t = con s"
    "\<exists>d. fs t = (fs s)\<lparr>global_dentry := d\<rparr>"
    using assms same
    by (cases f; auto simp: terminal_open_def rtc_open_def dir_open_def file_open_def fail1_def outb_def
        split: option.splits)+
qed

lemma call_open_of_type:
  "0 \<le> sint (file_type d) \<Longrightarrow> sint (file_type d) \<le> 2 \<Longrightarrow>
   \<exists>r t. call_open (fop_open (file_op_tb (open_file d f))) name s = Some (r, t)"
proof -
  assume "0 \<le> sint (file_type d)" "sint (file_type d) \<le> 2"
  then consider "sint (file_type d) = 0" | "sint (file_type d) = 1" | "sint (file_type d) = 2" by linarith
  then show ?thesis
    by cases (simp_all add: open_file_def open_table_def Let_def rtc_table_def dir_table_def
        file_table_def rtc_open_def dir_open_def file_open_def split: option.split)
qed

definition current :: "kernel \<Rightarrow> pcb" where
  "current s = pcb_at s (curr_pcb s)"

lemma find_lowest:
  assumes "flags_ok p" and "i < 8" and "\<not> fd_in_use p i" and "\<forall>j < i. fd_in_use p j"
  shows "find_fd p 0 8 = Some i"
proof (cases "find_fd p 0 8")
  case None
  then show ?thesis using fds.search_full [OF assms(1)] assms(2,3) by blast
next
  case (Some k)
  note k = fds.search_free [OF assms(1) Some]
  have "\<not> k < i" "\<not> i < k" using k assms(3,4) by blast+
  then show ?thesis using Some by simp
qed

lemma open_fd_installs:
  assumes "flags_ok (current s)" and "i < 8" and "\<not> fd_in_use (current s) i"
    and "\<forall>j < i. fd_in_use (current s) j"
    and "filename \<noteq> 0" and "map_of (directory (ld8 s) (fs s)) (string_in 32 (view s filename)) = Some d"
    and "0 \<le> sint (file_type d)" and "sint (file_type d) \<le> 2"
  shows "\<exists>t g. open_fd filename s = Some (int i, t) \<and>
    pcb_at t = (pcb_at s)(curr_pcb s := upd_fd i (open_file d) (current s)) \<and>
    curr_pcb t = curr_pcb s \<and> mem t = mem s \<and> tlb t = tlb s \<and> con t = con s \<and> fs t = (fs s)\<lparr>global_dentry := g\<rparr>"
proof -
  note find_lowest [OF assms(1-4)]
  moreover have lookup: "read_dentry_by_name (ld8 s) (fs s) (view s filename) = Some d"
    using assms(6) by (simp add: read_dentry_by_name_def find_dentry_map_of directory_def)
  let ?s1 = "upd_pcb (curr_pcb s) (upd_fd i (open_file d)) s"
  obtain r t where call: "call_open (fop_open (file_op_tb (open_file d (file_descriptor (current s) i))))
      (view ?s1 filename) ?s1 = Some (r, t)"
    using call_open_of_type [OF assms(7,8)] by blast
  have "open_fd filename s = Some (int i, t)"
    using calculation lookup call assms(5,7,8)
    by (simp add: open_fd_def get_current_pcb_def current_def Let_def)
  then show ?thesis
    using call_open_frame [OF call] by (auto simp: current_def)
qed

text \<open>The descriptor that \<open>open\<close> has set up, field by field, for the three types of entries.\<close>

definition opened :: "dentry \<Rightarrow> file_object" where
  "opened d =
     (if file_type d = 0 then
        \<lparr>file_op_tb = \<lparr>fop_open = Fn_rtc_open, fop_read = Fn_rtc_read, fop_write = Fn_rtc_write,
           fop_close = Fn_rtc_close\<rparr>, inode = -1, file_position = 0, flag = 1\<rparr>
      else if file_type d = 1 then
        \<lparr>file_op_tb = \<lparr>fop_open = Fn_dir_open, fop_read = Fn_dir_read, fop_write = Fn_dir_write,
           fop_close = Fn_dir_close\<rparr>, inode = 0, file_position = 0, flag = 1\<rparr>
      else
        \<lparr>file_op_tb = \<lparr>fop_open = Fn_file_open, fop_read = Fn_file_read, fop_write = Fn_file_write,
           fop_close = Fn_file_close\<rparr>, inode = inode_id d, file_position = 0, flag = 1\<rparr>)"

lemma open_types:
  assumes "0 \<le> sint (file_type d)" "sint (file_type d) \<le> 2"
  obtains "file_type d = 0" | "file_type d = 1" | "file_type d = 2"
proof -
  have "sint (file_type d) = sint (0 :: u32) \<or> sint (file_type d) = sint (1 :: u32) \<or> sint (file_type d) = sint (2 :: u32)"
    using assms by simp linarith
  then show thesis using that by (simp only: sint_eq_iff) blast
qed

lemma open_file_opened:
  assumes "0 \<le> sint (file_type d)" "sint (file_type d) \<le> 2"
  shows "open_file d f = opened d"
  using open_types [OF assms]
  by cases (simp_all add: open_file_def opened_def open_table_def rtc_table_def dir_table_def file_table_def Let_def)

text \<open>
  C32: \<open>open\<close> of a name in the directory takes the lowest free descriptor and returns its number.
  The descriptor has the four functions of the driver of the entry's type, the entry's inode (-1
  for the clock, 0 for the directory), position 0 and the flag of an open one.  This is the whole
  change of the kernel, but for what the driver's own \<open>open\<close> does: a file or directory is
  remembered in \<open>global_dentry\<close>, the clock's rate is written to its two ports.
\<close>

theorem open_allocates:
  assumes "flags_ok (current s)" and "i < 8" and "\<not> fd_in_use (current s) i"
    and "\<forall>j < i. fd_in_use (current s) j"
    and "filename \<noteq> 0" and "map_of (directory (ld8 s) (fs s)) (string_in 32 (view s filename)) = Some d"
    and "0 \<le> sint (file_type d)" and "sint (file_type d) \<le> 2"
  shows "open_fd filename s = Some (int i,
    (let t = s\<lparr>pcb_at := (pcb_at s)(curr_pcb s := (current s)\<lparr>file_descriptor :=
               (file_descriptor (current s))(i := opened d)\<rparr>)\<rparr>
     in if file_type d = 0 then t\<lparr>outs := outs s @ [(0x70, 0x8A), (0x71, 0xF)]\<rparr>
        else t\<lparr>fs := (fs s)\<lparr>global_dentry := d\<rparr>\<rparr>))"
proof -
  have find: "find_fd (current s) 0 8 = Some i" by (rule find_lowest [OF assms(1-4)])
  have lookup: "read_dentry_by_name (ld8 s) (fs s) (view s filename) = Some d"
    using assms(6) by (simp add: read_dentry_by_name_def find_dentry_map_of directory_def)
  have ld: "ld8 (s\<lparr>pcb_at := x\<rparr>) = ld8 s" "view (s\<lparr>pcb_at := x\<rparr>) a = view s a" for x a
    by (simp_all add: ld8_def view_def fun_eq_iff)
  have set_up: "open_file d f = opened d" for f by (rule open_file_opened [OF assms(7,8)])
  show ?thesis
    using open_types [OF assms(7,8)]
  proof cases
    case 1
    then show ?thesis using find lookup assms(5)
      by (simp add: open_fd_def get_current_pcb_def current_def set_up Let_def)
        (simp add: set_up opened_def rtc_open_def outb_def upd_pcb_def upd_fd_def)
  next
    case 2
    then show ?thesis using find lookup assms(5)
      by (simp add: open_fd_def get_current_pcb_def current_def set_up Let_def)
        (simp add: opened_def dir_open_def lookup ld set_up upd_pcb_def upd_fd_def)
  next
    case 3
    then show ?thesis using find lookup assms(5)
      by (simp add: open_fd_def get_current_pcb_def current_def set_up Let_def)
        (simp add: opened_def file_open_def lookup ld set_up upd_pcb_def upd_fd_def)
  qed
qed

text \<open>A process with its two terminal descriptors, and the small image in memory at 0.\<close>

definition sample_process :: kernel where
  "sample_process = static_kernel\<lparr>mem := sample_image(0x8000000 := 0x61), fs := sample_fs,
     curr_pcb := pcb_addr 0,
     pcb_at := (\<lambda>_. null_pcb\<lparr>active := 1, file_descriptor := (\<lambda>_. null_file)
       (0 := null_file\<lparr>file_op_tb := stdin_table, flag := 1\<rparr>,
        1 := null_file\<lparr>file_op_tb := stdout_table, flag := 1\<rparr>)\<rparr>)\<rparr>"

lemma sample_process_simps:
  "current sample_process = null_pcb\<lparr>active := 1, file_descriptor := (\<lambda>_. null_file)
     (0 := null_file\<lparr>file_op_tb := stdin_table, flag := 1\<rparr>,
      1 := null_file\<lparr>file_op_tb := stdout_table, flag := 1\<rparr>)\<rparr>"
  "ld8 sample_process = sample_image(0x8000000 := 0x61)" "fs sample_process = sample_fs"
  "tlb sample_process = (\<lambda>a. a)" "curr_pcb sample_process = pcb_addr 0"
  by (simp_all add: current_def sample_process_def static_kernel_def ld8_def rd_def fun_eq_iff)

lemma sample_name: "string_in 32 (view sample_process 0x8000000) = [0x61]"
proof (rule string_in_cstr)
  have "(0x8000000 + 1 :: u32) = 0x8000001" by simp
  then show "cstr (view sample_process 0x8000000) [0x61]"
    by (simp add: cstr_def view_def sample_process_simps sample_image_def)
qed simp

definition sample_entry :: dentry where
  "sample_entry = dentry_at (sample_image(0x8000000 := 0x61)) 64"

lemma sample_entry_fields: "file_type sample_entry = 2" "inode_id sample_entry = 0"
  by (simp_all add: sample_entry_def dentry_at_def word_at_def sample_image_def)

lemma sample_dir_name: "dir_name (sample_image(0x8000000 := 0x61)) sample_fs 0 = [0x61]"
  unfolding dir_name_def
  by (rule string_in_cstr) (simp_all add: cstr_def dir_entry_addr_def sample_fs_def sample_image_def)

lemma sample_lookup:
  "map_of (directory (ld8 sample_process) (fs sample_process)) (string_in 32 (view sample_process 0x8000000))
    = Some sample_entry"
proof -
  have n: "num_dir_entries (sample_image(0x8000000 := 0x61)) sample_fs = 1"
    by (simp add: num_dir_entries_def word_at_def sample_image_def sample_fs_def)
  have a: "dir_entry_addr sample_fs 0 = 64" by (simp add: dir_entry_addr_def sample_fs_def)
  have "directory (ld8 sample_process) (fs sample_process) = [([0x61], sample_entry)]"
    by (simp add: directory_def sample_process_simps(2,3) n sample_dir_name sample_entry_def a)
  then show ?thesis by (simp add: sample_name)
qed

lemma sample_flags: "flags_ok (current sample_process)" "\<not> fd_in_use (current sample_process) 2"
  "\<forall>j < 2. fd_in_use (current sample_process) j"
  by (auto simp: sample_process_simps flags_ok_def fd_in_use_def null_file_def less_Suc_eq numeral_2_eq_2)

theorem open_allocates_witness:
  "\<exists>t. open_fd 0x8000000 sample_process = Some (int 2, t) \<and>
    pcb_at t = (pcb_at sample_process)(curr_pcb sample_process := (current sample_process)\<lparr>file_descriptor :=
      (file_descriptor (current sample_process))(2 := \<lparr>file_op_tb = \<lparr>fop_open = Fn_file_open,
        fop_read = Fn_file_read, fop_write = Fn_file_write, fop_close = Fn_file_close\<rparr>,
        inode = 0, file_position = 0, flag = 1\<rparr>)\<rparr>) \<and>
    mem t = mem sample_process \<and> global_dentry (fs t) = sample_entry"
  using open_allocates [OF sample_flags(1) _ sample_flags(2,3) _ sample_lookup]
  by (simp add: sample_entry_fields opened_def Let_def)

section \<open>open and read\<close>

lemma file_content_fs: "file_content g (f\<lparr>global_dentry := d\<rparr>) i = file_content g f i"
  by (simp add: file_content_def file_byte_def inode_length_def inode_block_def block_addr_def fun_eq_iff)

lemma readable_file_fs: "readable_file g (f\<lparr>global_dentry := d\<rparr>) buf fo = readable_file g f buf fo"
  by (simp add: readable_file_def num_inodes_def inode_length_def)

lemma file_read_bytes:
  assumes "readable_file (ld8 s) (fs s) buf (current_file s fd)" and "unat n < 2 ^ 31"
    and "inj_on (\<lambda>k. tlb s (buf + of_nat k)) {..<unat n}"
  defines "bs \<equiv> take (unat n) (file_rest (ld8 s) (fs s) (current_file s fd))"
  shows "fst (file_read fd buf n s) = int (length bs)"
    and "load_bytes (tlb s) (mem (snd (file_read fd buf n s))) buf (length bs) = bs"
    and "current_file (snd (file_read fd buf n s)) fd =
      (current_file s fd)\<lparr>file_position := file_position (current_file s fd) + of_nat (length bs)\<rparr>"
proof -
  note step = file_step_valid [OF assms(1,2), folded bs_def]
  have f: "file_read fd buf n s = (int (length bs), upd_pcb (curr_pcb s) (upd_fd fd (\<lambda>_.
      (current_file s fd)\<lparr>file_position := file_position (current_file s fd) + of_nat (length bs)\<rparr>))
      (store_bytes buf bs s))"
    by (simp add: file_read_def step)
  show "fst (file_read fd buf n s) = int (length bs)" by (simp add: f)
  have "inj_on (\<lambda>k. tlb s (buf + of_nat k)) {..<length bs}"
    by (rule inj_on_subset [OF assms(3)]) (auto simp: bs_def)
  from store_bytes_load [OF this]
  show "load_bytes (tlb s) (mem (snd (file_read fd buf n s))) buf (length bs) = bs" by (simp add: f)
  show "current_file (snd (file_read fd buf n s)) fd =
      (current_file s fd)\<lparr>file_position := file_position (current_file s fd) + of_nat (length bs)\<rparr>"
    by (simp add: f current_file_def)
qed

text \<open>
  \<open>open\<close> of a regular file followed by \<open>read\<close> through the descriptor it returned puts the
  first \<open>n\<close> bytes of the file (all of it, if it is shorter) into the user's buffer and returns
  their number: the calls, the operation tables, the driver, the file system and the lookup of
  the name together.
\<close>

lemma open_read_file:
  assumes "flags_ok (current s)" and "i < 8" and "\<not> fd_in_use (current s) i"
    and "\<forall>j < i. fd_in_use (current s) j"
    and "filename \<noteq> 0" and "map_of (directory (ld8 s) (fs s)) (string_in 32 (view s filename)) = Some d"
    and "file_type d = 2" and "inode_id d \<le> num_inodes (ld8 s) (fs s) - 1" and "buf \<noteq> 0"
    and "unat (inode_length (ld8 s) (fs s) (inode_id d)) < 2 ^ 31" and "unat n < 2 ^ 31"
    and "inj_on (\<lambda>k. tlb s (buf + of_nat k)) {..<unat n}"
  shows "\<exists>t u. open_fd filename s = Some (int i, t) \<and>
    read_fd env (int i) buf n t = Some (int (length (take (unat n) (file_content (ld8 s) (fs s) (inode_id d)))), u) \<and>
    load_bytes (tlb s) (mem u) buf (length (take (unat n) (file_content (ld8 s) (fs s) (inode_id d))))
      = take (unat n) (file_content (ld8 s) (fs s) (inode_id d))"
proof -
  let ?f = "open_file d (file_descriptor (current s) i)"
  have f: "inode ?f = inode_id d" "file_position ?f = 0" "fop_read (file_op_tb ?f) = Fn_file_read"
    using assms(7) by (simp_all add: open_file_def open_table_def file_table_def Let_def)
  obtain t g where t: "open_fd filename s = Some (int i, t)"
    "pcb_at t = (pcb_at s)(curr_pcb s := upd_fd i (open_file d) (current s))"
    "curr_pcb t = curr_pcb s" "mem t = mem s" "tlb t = tlb s" "fs t = (fs s)\<lparr>global_dentry := g\<rparr>"
    using open_fd_installs [OF assms(1-6)] assms(7) by auto
  have cf: "current_file t i = ?f" by (simp add: current_file_def t(2,3) current_def)
  have ld: "ld8 t = ld8 s" by (simp add: ld8_def t(4,5) fun_eq_iff)
  have rest: "file_rest (ld8 t) (fs t) ?f = file_content (ld8 s) (fs s) (inode_id d)"
    by (simp add: file_rest_def f ld t(6) file_content_fs)
  have r: "readable_file (ld8 t) (fs t) buf (current_file t i)"
    using assms(8-10) by (simp add: cf ld t(6) readable_file_fs) (simp add: readable_file_def f)
  have inj: "inj_on (\<lambda>k. tlb t (buf + of_nat k)) {..<unat n}" using assms(12) by (simp add: t(5))
  have n: "\<not> sint n < 0" using sint_small [OF assms(11)] by simp
  have "read_fd env (int i) buf n t = Some (file_read i buf n t)"
    using assms(2,9) n f(3) by (simp add: read_fd_def get_current_pcb_def t(2,3) Let_def current_def)
  then show ?thesis
    using t(1) file_read_bytes [OF r assms(11) inj] unfolding cf rest t(5)
    by (metis prod.collapse)
qed

lemma sample_inode:
  "num_inodes (ld8 sample_process) (fs sample_process) = 1"
  "inode_length (ld8 sample_process) (fs sample_process) 0 = 3"
  by (simp_all add: sample_process_simps num_inodes_def inode_length_def word_at_def sample_image_def sample_fs_def)

theorem open_read_file_witness:
  "\<exists>t u. open_fd 0x8000000 sample_process = Some (int 2, t) \<and>
    read_fd (\<lambda>_ s. s) (int 2) 0x8000100 2 t = Some (int (length (take (unat (2 :: u32))
      (file_content (ld8 sample_process) (fs sample_process) (inode_id sample_entry)))), u) \<and>
    load_bytes (tlb sample_process) (mem u) 0x8000100 (length (take (unat (2 :: u32))
      (file_content (ld8 sample_process) (fs sample_process) (inode_id sample_entry))))
      = take (unat (2 :: u32)) (file_content (ld8 sample_process) (fs sample_process) (inode_id sample_entry))"
proof (rule open_read_file [OF sample_flags(1) _ sample_flags(2,3) _ sample_lookup])
  have "inj_on (\<lambda>k :: nat. (0x8000100 :: u32) + of_nat k) {..<2}"
  proof (rule inj_onI)
    fix i j :: nat
    assume "i \<in> {..<2}" "j \<in> {..<2}" "(0x8000100 :: u32) + of_nat i = 0x8000100 + of_nat j"
    then show "i = j" using of_nat_inj_u32 [of i j] by simp
  qed
  then show "inj_on (\<lambda>k. tlb sample_process (0x8000100 + of_nat k)) {..<unat (2 :: u32)}"
    by (simp add: sample_process_simps(4))
qed (simp_all add: sample_entry_fields sample_inode)

section \<open>close\<close>

text \<open>
  Closing a descriptor 2 to 7 that is open makes it free and inert: a second \<open>close\<close>, a
  \<open>read\<close> and a \<open>write\<close> of it fail, every other descriptor is as before, and if it is the lowest
  free one the next \<open>open\<close> finds it again.
\<close>

lemma close_frees:
  assumes "flags_ok (current s)" and "2 \<le> i" and "i < 8" and "fd_in_use (current s) i"
    and "\<forall>j < i. fd_in_use (current s) j"
  shows "\<exists>t. close_fd (int i) s = (0, t) \<and> close_fd (int i) t = (-1, t) \<and>
    read_fd env (int i) buf n t = Some (-1, t) \<and> write_fd (int i) buf n t = Some (-1, t) \<and>
    find_fd (current t) 0 8 = Some i \<and> fd_in_use (current t) = (fd_in_use (current s))(i := False)"
proof -
  let ?t = "upd_pcb (curr_pcb s) (upd_fd i closed_file) s"
  have c: "current ?t = upd_fd i closed_file (current s)" by (simp add: current_def)
  have "close_fd (int i) s = (0, ?t)"
    using assms(2-4) by (simp add: close_fd_def get_current_pcb_def Let_def fd_in_use_def current_def)
  moreover have "close_fd (int i) ?t = (-1, ?t)" "read_fd env (int i) buf n ?t = Some (-1, ?t)"
    "write_fd (int i) buf n ?t = Some (-1, ?t)"
    by (simp_all add: close_fd_def read_fd_def write_fd_def get_current_pcb_def Let_def closed_file_def)
  moreover have "find_fd (current ?t) 0 8 = Some i"
    unfolding c by (rule fds.reuse_lowest [OF assms(1,3,5)])
  moreover have "fd_in_use (current ?t) = (fd_in_use (current s))(i := False)"
    unfolding c by (rule ext) (simp add: fd_in_use_def closed_file_def)
  ultimately show ?thesis by blast
qed

definition sample_open :: kernel where
  "sample_open = upd_pcb (pcb_addr 0) (upd_fd 2 (open_file sample_entry)) sample_process"

lemma sample_open_flags:
  "flags_ok (current sample_open)" "fd_in_use (current sample_open) 2" "\<forall>j < 2. fd_in_use (current sample_open) j"
proof -
  have c: "current sample_open = upd_fd 2 (open_file sample_entry) (current sample_process)"
    by (simp add: sample_open_def current_def sample_process_simps(5))
  show "flags_ok (current sample_open)"
    unfolding c by (rule fds.claim_sound) (simp_all add: sample_flags)
  show "fd_in_use (current sample_open) 2" "\<forall>j < 2. fd_in_use (current sample_open) j"
    unfolding c using sample_flags(3) by (auto simp: fd_in_use_def)
qed

lemma close_frees_example:
  "\<exists>t. close_fd (int 2) sample_open = (0, t) \<and> close_fd (int 2) t = (-1, t) \<and>
    read_fd (\<lambda>_ s. s) (int 2) 0x8000000 1 t = Some (-1, t) \<and> write_fd (int 2) 0x8000000 1 t = Some (-1, t) \<and>
    find_fd (current t) 0 8 = Some 2 \<and>
    fd_in_use (current t) = (fd_in_use (current sample_open))(2 := False)"
  by (rule close_frees [OF sample_open_flags(1) _ _ sample_open_flags(2,3)]) simp_all

end
