(* ===== verification/Execute.thy ===== *)
theory Execute
  imports Commands Descriptors
begin

text \<open>
  \<open>student-distrib/execute.c\<close>: starting and ending programs and switching between them.

  These functions may not return to their caller: \<open>iret\<close> enters a user program, and the
  \<open>leave; ret\<close> after the stack pointers are loaded continues the C frame that saved them.  The
  result is an \<open>outcome\<close> with the state.  Where a function stores \<open>%esp\<close> and \<open>%ebp\<close> the model
  takes their values as arguments.  A command is the array its pointer points to, \<open>None\<close> the
  null pointer; local arrays start as zeros.  \<open>None\<close> as the result of a call means that a string
  has no end, or that \<open>execute\<close> was given a command whose words do not fit its local arrays.
\<close>

datatype outcome =
    Returned int
  | Entered u32 u32
  | Resumed u32 u32 "u32 option"

text \<open>
  \<open>Entered eip esp\<close> is user code; \<open>Resumed esp ebp eax\<close> continues the frame at these stack
  pointers, with a value in \<open>%eax\<close> if the code sets one.  A void function returns 0.
\<close>

section \<open>Process control blocks\<close>

fun find_pcb :: "kernel \<Rightarrow> nat \<Rightarrow> nat \<Rightarrow> nat option" where
  "find_pcb s i 0 = None"
| "find_pcb s i (Suc k) = (if active (pcb_at s (pcb_addr (int i))) = 0 then Some i else find_pcb s (i + 1) k)"

definition determine_which_pcb_empty :: "kernel \<Rightarrow> int \<times> kernel" where
  "determine_which_pcb_empty s =
     (case find_pcb s 0 6 of
        Some i \<Rightarrow> (int i, s)
      | None \<Rightarrow> (-2, say (''no pcb block available, 6 are opened!'' @ [CHR 0x0A]) s))"

definition fresh_files :: "(nat \<Rightarrow> file_object) \<Rightarrow> nat \<Rightarrow> file_object" where
  "fresh_files f =
     (fill_loop 8 null_file f)
       (0 := \<lparr>file_op_tb = stdin_table, inode = 0, file_position = 0, flag = 1\<rparr>,
        1 := \<lparr>file_op_tb = stdout_table, inode = 0, file_position = 0, flag = 1\<rparr>)"

definition create_pcb :: "u32 \<Rightarrow> int \<Rightarrow> bytes \<Rightarrow> kernel \<Rightarrow> kernel" where
  "create_pcb p i arg s =
     (let first = count_pcb (terminal_list s (scheduled_terminal s)) = 0;
          s1 = upd_pcb p (\<lambda>b. b\<lparr>file_descriptor := fresh_files (file_descriptor b),
                 pid := of_int i, argument := arg, tss_esp0 := tss_reg_esp0 s,
                 pcb_tid := get_scheduled_tid s, active := 1,
                 esp0 := 0x800000 - 0x2000 * of_int i - 4\<rparr>) s;
          s2 = upd_pcb p (\<lambda>b. b\<lparr>parent_id := (if first then -1 else pid (pcb_at s1 (curr_pcb s1)))\<rparr>) s1
      in upd_term (scheduled_terminal s2) (\<lambda>t. t\<lparr>count_pcb := count_pcb t + 1\<rparr>) s2)"

definition context_switch :: "u32 \<Rightarrow> u8 list \<Rightarrow> kernel \<Rightarrow> outcome \<times> kernel" where
  "context_switch p entry s =
     (let eip = word_at (\<lambda>a. array_of entry (unat a)) 0;
          esp = 0x8000000 + 0x400000 - 4
      in (Entered eip esp,
          s\<lparr>tss_reg_esp0 := esp0 (pcb_at s p), tss_reg_ss0 := 0x18, intr_flag := True\<rparr>))"

section \<open>execute\<close>

abbreviation on_stack :: u32 where "on_stack \<equiv> 0x7FE000"

definition exe_magic_table :: bytes where
  "exe_magic_table = array_of [0x7F, 0x45, 0x4C, 0x46]"

text \<open>The checks between \<open>parse_cmd\<close> and the paging set-up; \<open>None\<close> is the return of -1.\<close>

definition check_executable :: "image \<Rightarrow> filesys \<Rightarrow> bytes \<Rightarrow> (dentry \<times> u8 list) option" where
  "check_executable g f filename =
     (case read_dentry_by_name g f filename of
        None \<Rightarrow> None
      | Some d \<Rightarrow>
          let (n, buf) = read_data g f (inode_id d) 0 on_stack 40 in
          if n \<noteq> 40 then None
          else if strncmp (array_of buf) exe_magic_table 4 \<noteq> 0 then None
          else let (m, entry) = read_data g f (inode_id d) 24 on_stack 4 in
            if m \<noteq> 4 then None else Some (d, entry))"

definition load_program :: "dentry \<Rightarrow> kernel \<Rightarrow> int \<times> kernel" where
  "load_program d s =
     (let (n, bs) = read_data (ld8 s) (fs s) (inode_id d) 0 0x8048000 (inode_length (ld8 s) (fs s) (inode_id d))
      in (n, store_bytes 0x8048000 bs s))"

definition start_process :: "int \<Rightarrow> u32 \<Rightarrow> u32 \<Rightarrow> bytes \<Rightarrow> u8 list \<Rightarrow> kernel \<Rightarrow> outcome \<times> kernel" where
  "start_process i esp ebp arg entry s =
     (let new_pcb = pcb_addr i;
          s1 = (create_pcb new_pcb i arg s)\<lparr>curr_pcb := new_pcb\<rparr>;
          parent = parent_id (pcb_at s1 new_pcb);
          s2 = (if parent \<noteq> -1
                then upd_pcb (pcb_addr (uint parent)) (\<lambda>p. p\<lparr>saved_esp := esp, saved_ebp := ebp\<rparr>) s1
                else s1)
      in context_switch new_pcb entry s2)"

definition shell :: bytes where
  "shell = array_of (lit ''shell'')"

definition announce :: "bytes \<Rightarrow> kernel \<Rightarrow> kernel option" where
  "announce command s =
     Option.bind (printf (array_of (lit (''command is %s '' @ [CHR 0x0A]))) [Str command] s) (\<lambda>(n, s1).
       if strncmp command shell 5 = 0
       then Option.bind (printf (array_of (lit (''in terminal %d now'' @ [CHR 0x0A])))
              [Num (of_nat (get_scheduled_tid s1) + 1)] s1) (\<lambda>(m, s2). Some s2)
       else Some s1)"

text \<open>
  \<open>parse_cmd\<close> does not know the sizes of the arrays \<open>filename[32]\<close> and \<open>argument[128]\<close> it writes to,
  which lie on the stack of \<open>execute\<close>.  It ends each of them with a NUL, the second unless it
  refuses the argument: when there is none within the array it has been put behind it, over
  whatever \<open>execute\<close> and its callers keep there, and nothing is said of the rest of the call.
\<close>

definition overruns :: "int \<Rightarrow> bytes \<Rightarrow> bytes \<Rightarrow> bool" where
  "overruns r filename arg \<longleftrightarrow> list_all (\<lambda>k. filename k \<noteq> 0) [0..<32] \<or>
     (r = 0 \<and> list_all (\<lambda>k. arg k \<noteq> 0) [0..<128])"

definition execute :: "u32 \<Rightarrow> u32 \<Rightarrow> bytes option \<Rightarrow> kernel \<Rightarrow> (outcome \<times> kernel) option" where
  "execute esp ebp command s0 =
     (let s = cli s0 in
      case command of
        None \<Rightarrow> Some (Returned (-1), s)
      | Some cmd \<Rightarrow>
          let (i, s1) = determine_which_pcb_empty s; s2 = s1\<lparr>pid_var := i\<rparr> in
          if i = -2 then Some (Returned 0, s2)
          else Option.bind (announce cmd s2) (\<lambda>s3.
            Option.bind (parse_cmd cmd (\<lambda>_. 0) (Some (\<lambda>_. 0))) (\<lambda>(r, filename, arg).
              if overruns r filename (the arg) then None
              else if r \<noteq> 0 then Some (Returned (-1), s3)
              else case check_executable (ld8 s3) (fs s3) filename of
                None \<Rightarrow> Some (Returned (-1), s3)
              | Some (d, entry) \<Rightarrow>
                  let s4 = set_up_paging (pid_var s3) s3;
                      (n, s5) = load_program d s4
                  in if inode_length (ld8 s4) (fs s4) (inode_id d) \<noteq> of_int n then Some (Returned (-1), s5)
                     else Some (start_process (pid_var s5) esp ebp (the arg) entry s5))))"

section \<open>halt\<close>

definition close_files :: "kernel \<Rightarrow> kernel" where
  "close_files s = for_loop 6 (\<lambda>k t.
     if flag (file_descriptor (current t) (k + 2)) = 1 then snd (close_fd (int (k + 2)) t) else t) s"

definition release_pcb :: "kernel \<Rightarrow> kernel" where
  "release_pcb s =
     upd_pcb (curr_pcb s) (\<lambda>p. (upd_fd 1 (\<lambda>f. f\<lparr>flag := 0\<rparr>) (upd_fd 0 (\<lambda>f. f\<lparr>flag := 0\<rparr>) p))\<lparr>active := 0\<rparr>) s"

definition drop_vidmap :: "kernel \<Rightarrow> kernel" where
  "drop_vidmap s =
     (let display_tid = get_display_tid s in
      if term_vidmap (terminal_list s (scheduled_terminal s)) = 1
      then upd_term display_tid (\<lambda>t. t\<lparr>term_vidmap := 0\<rparr>)
             (upd_term (scheduled_terminal s) (\<lambda>t. t\<lparr>term_vidmap := 0\<rparr>) s)
      else s)"

definition exit_value :: "u8 \<Rightarrow> u32" where
  "exit_value status = (if status = 15 then 256 else ucast status)"

text \<open>\<open>halt\<close> from its second \<open>cli\<close> on: back to the parent.\<close>

definition return_to_parent :: "u8 \<Rightarrow> kernel \<Rightarrow> outcome \<times> kernel" where
  "return_to_parent status s0 =
     (let s = cli s0;
          parent_id = parent_id (current s);
          parent_pcb = pcb_addr (uint parent_id);
          s1 = release_pcb (close_files s);
          s2 = drop_vidmap (set_up_paging (sint parent_id) s1);
          p = pcb_at s2 parent_pcb;
          s3 = s2\<lparr>tss_reg_esp0 := esp0 p, tss_reg_ss0 := 0x18, curr_pcb := parent_pcb\<rparr>
      in (Resumed (saved_esp p) (saved_ebp p) (Some (exit_value status)), s3))"

text \<open>
  The count of processes is unsigned, so the test for a negative count and its \<open>int $1\<close> are
  never taken.  \<open>esp\<close> and \<open>ebp\<close> are those of the \<open>execute\<close> that restarts a base shell.
\<close>

definition halt :: "u32 \<Rightarrow> u32 \<Rightarrow> u8 \<Rightarrow> kernel \<Rightarrow> (outcome \<times> kernel) option" where
  "halt esp ebp status s0 =
     (let s = say (''in halt'' @ [CHR 0x0A]) s0;
          s1 = upd_term (scheduled_terminal s) (\<lambda>t. t\<lparr>count_pcb := count_pcb t - 1\<rparr>) s
      in if parent_id (current s1) = -1
         then let s2 = say (''we can'' @ [CHR 0x27] @ ''t exit base!'' @ [CHR 0x0A]) s1;
                  s3 = upd_pcb (curr_pcb s2) (\<lambda>p. p\<lparr>active := 0\<rparr>) s2
              in Option.bind (execute esp ebp (Some shell) s3) (\<lambda>(out, s4).
                   case out of
                     Returned _ \<Rightarrow> Some (return_to_parent status s4)
                   | _ \<Rightarrow> Some (out, s4))
         else Some (return_to_parent status s1))"

section \<open>The scheduler\<close>

definition suspend :: "u32 \<Rightarrow> u32 \<Rightarrow> kernel \<Rightarrow> kernel" where
  "suspend esp ebp s =
     (let s1 = upd_term (scheduled_terminal s) (\<lambda>t. t\<lparr>pcb_ptr := curr_pcb s\<rparr>) s in
      if pid_var s1 \<noteq> -1
      then upd_pcb (curr_pcb s1) (\<lambda>p. p\<lparr>saved_esp := esp, saved_ebp := ebp, tss_esp0 := tss_reg_esp0 s1\<rparr>) s1
      else s1)"

definition resume :: "u32 \<Rightarrow> kernel \<Rightarrow> outcome \<times> kernel" where
  "resume p s =
     (let s1 = (set_up_paging (sint (pid (pcb_at s p))) s)\<lparr>curr_pcb := p\<rparr>;
          q = pcb_at s1 p
      in (Resumed (saved_esp q) (saved_ebp q) None,
          s1\<lparr>tss_reg_esp0 := tss_esp0 q, tss_reg_ss0 := 0x18\<rparr>))"

definition scheduler :: "u32 \<Rightarrow> u32 \<Rightarrow> kernel \<Rightarrow> (outcome \<times> kernel) option" where
  "scheduler esp ebp s =
     (let s1 = suspend esp ebp s in
      case next_terminal (terminal_list s1 (scheduled_terminal s1)) of
        None \<Rightarrow> Some (Returned 0, s1)
      | Some n \<Rightarrow>
          let s2 = set_scheduled_tid (tid (terminal_list s1 n)) (s1\<lparr>scheduled_terminal := n\<rparr>);
              p = pcb_ptr (terminal_list s2 n);
              s3 = (if p \<noteq> 0 then s2\<lparr>curr_pcb := p\<rparr> else s2)
          in if count_pcb (terminal_list s3 n) = 0
             then Option.bind (execute esp ebp (Some shell) s3) (\<lambda>(out, s4).
               case out of Returned _ \<Rightarrow> Some (Returned 0, s4) | _ \<Rightarrow> Some (out, s4))
             else Some (resume p s3))"

end
