(* ===== verification/Processes.thy ===== *)
theory Processes
  imports Execute
begin

text \<open>
  What \<open>execute\<close>, \<open>halt\<close> and \<open>scheduler\<close> do to the processes, against an abstract
  specification: every terminal has a stack of processes, the program that runs in it on top
  and its base shell at the bottom.  \<open>execute\<close> pushes, \<open>halt\<close> pops, the scheduler goes round the
  terminals.  The process table also provides the contract \<open>slot_table\<close> of the descriptor
  tables: slots claimed lowest first and released.
\<close>

section \<open>Frames\<close>

definition links :: "kernel \<Rightarrow> u32 \<times> nat \<times> (nat \<Rightarrow> nat \<times> u32 \<times> u32 \<times> nat option)" where
  "links s = (curr_pcb s, scheduled_terminal s,
     (\<lambda>i. let t = terminal_list s i in (tid t, pcb_ptr t, count_pcb t, next_terminal t)))"

lemma linksD:
  assumes "links s = links t"
  shows "curr_pcb s = curr_pcb t" "scheduled_terminal s = scheduled_terminal t"
    "tid (terminal_list s i) = tid (terminal_list t i)"
    "pcb_ptr (terminal_list s i) = pcb_ptr (terminal_list t i)"
    "count_pcb (terminal_list s i) = count_pcb (terminal_list t i)"
    "next_terminal (terminal_list s i) = next_terminal (terminal_list t i)"
proof -
  have "snd (snd (links s)) i = snd (snd (links t)) i" by (simp only: assms)
  then show "tid (terminal_list s i) = tid (terminal_list t i)"
    "pcb_ptr (terminal_list s i) = pcb_ptr (terminal_list t i)"
    "count_pcb (terminal_list s i) = count_pcb (terminal_list t i)"
    "next_terminal (terminal_list s i) = next_terminal (terminal_list t i)"
    by (simp_all add: links_def Let_def)
qed (use assms in \<open>simp_all add: links_def\<close>)

lemma links_beside: "beside_screen s = beside_screen t \<Longrightarrow> links s = links t"
proof -
  assume b: "beside_screen s = beside_screen t"
  note eqs = beside_eqD(10,15) [OF b] beside_terminalD(1,3-5) [OF b]
  show ?thesis unfolding links_def Let_def eqs by (rule refl)
qed

text \<open>Nothing of the process table, the current process or the terminals' links changes.\<close>

definition same_table :: "kernel \<Rightarrow> kernel \<Rightarrow> bool" where
  "same_table s t \<longleftrightarrow> pcb_at s = pcb_at t \<and> links s = links t"

lemma same_table_refl [simp]: "same_table s s"
  by (simp add: same_table_def)

lemma same_table_trans: "same_table s t \<Longrightarrow> same_table t u \<Longrightarrow> same_table s u"
  by (simp add: same_table_def)

lemma same_table_beside: "beside_screen s = beside_screen t \<Longrightarrow> same_table s t"
proof -
  assume b: "beside_screen s = beside_screen t"
  show ?thesis using links_beside [OF b] beside_eqD(13) [OF b] by (simp add: same_table_def)
qed

lemma same_table_cli [simp]: "same_table (cli s) t = same_table s t"
  by (simp add: same_table_def links_def io_defs)

lemma same_table_paging [simp]: "same_table (set_up_paging i s) t = same_table s t"
  by (simp add: same_table_def links_def)

lemma same_table_store [simp]: "same_table (store_bytes a bs s) t = same_table s t"
  by (simp add: same_table_def links_def)

lemma same_table_pid [simp]: "same_table (s\<lparr>pid_var := i\<rparr>) t = same_table s t"
  by (simp add: same_table_def links_def)

lemma same_table_say [simp]: "same_table (say m s) t = same_table s t"
  using same_table_beside [OF beside_say [of m s]] by (simp add: same_table_def)

lemma announce_frame:
  assumes "announce c s = Some t"
  shows "beside_screen t = beside_screen s"
  using assms by (auto simp: announce_def bind_eq_Some_conv dest!: printf_beside split: if_splits)

lemma load_program_frame:
  "load_program d s = (n, t) \<Longrightarrow> same_table t s \<and> pid_var t = pid_var s \<and> tss_reg_esp0 t = tss_reg_esp0 s"
  by (auto simp: load_program_def split: prod.splits)

section \<open>The process table is a table of slots\<close>

definition pcb_of :: "kernel \<Rightarrow> nat \<Rightarrow> pcb" where
  "pcb_of s i = pcb_at s (pcb_addr (int i))"

definition process_active :: "kernel \<Rightarrow> nat \<Rightarrow> bool" where
  "process_active s i \<longleftrightarrow> i < 6 \<and> active (pcb_of s i) \<noteq> 0"

lemma find_pcb_spec:
  "\<forall>j < i. active (pcb_of s j) \<noteq> 0 \<Longrightarrow>
   (case find_pcb s i k of
      None \<Rightarrow> \<forall>j < i + k. active (pcb_of s j) \<noteq> 0
    | Some n \<Rightarrow> n < i + k \<and> active (pcb_of s n) = 0 \<and> (\<forall>j < n. active (pcb_of s j) \<noteq> 0))"
proof (induction k arbitrary: i)
  case 0
  then show ?case by simp
next
  case (Suc k)
  show ?case
  proof (cases "active (pcb_of s i) = 0")
    case True
    then show ?thesis using Suc.prems by (simp add: pcb_of_def)
  next
    case False
    then have "\<forall>j < i + 1. active (pcb_of s j) \<noteq> 0" using Suc.prems by (simp add: less_Suc_eq)
    note step = Suc.IH [OF this]
    have "find_pcb s i (Suc k) = find_pcb s (i + 1) k" using False by (simp add: pcb_of_def)
    then show ?thesis using step by (simp split: option.splits)
  qed
qed

lemma pcb_of_other: "i < 6 \<Longrightarrow> j < 6 \<Longrightarrow> i \<noteq> j \<Longrightarrow> pcb_addr (int j) \<noteq> pcb_addr (int i)"
  by (simp add: pcb_addr_inj)

lemma create_pcb_state:
  "pcb_at (create_pcb p i arg s) = (pcb_at s)(p := (pcb_at s p)\<lparr>
     file_descriptor := fresh_files (file_descriptor (pcb_at s p)), pid := of_int i, argument := arg,
     tss_esp0 := tss_reg_esp0 s, pcb_tid := get_scheduled_tid s, active := 1,
     esp0 := 0x800000 - 0x2000 * of_int i - 4,
     parent_id := (if count_pcb (terminal_list s (scheduled_terminal s)) = 0 then -1
       else if curr_pcb s = p then of_int i else pid (pcb_at s (curr_pcb s)))\<rparr>)"
  "terminal_list (create_pcb p i arg s) = (terminal_list s)(scheduled_terminal s :=
     (terminal_list s (scheduled_terminal s))\<lparr>
       count_pcb := count_pcb (terminal_list s (scheduled_terminal s)) + 1\<rparr>)"
  "curr_pcb (create_pcb p i arg s) = curr_pcb s"
  "scheduled_terminal (create_pcb p i arg s) = scheduled_terminal s"
  "pid_var (create_pcb p i arg s) = pid_var s" "tlb (create_pcb p i arg s) = tlb s"
  "mem (create_pcb p i arg s) = mem s" "pg (create_pcb p i arg s) = pg s" "fs (create_pcb p i arg s) = fs s"
  "outs (create_pcb p i arg s) = outs s" "con (create_pcb p i arg s) = con s"
  by (simp_all add: create_pcb_def Let_def get_scheduled_tid_def fun_eq_iff)

interpretation procs: slot_table "\<lambda>s. find_pcb s 0 6" process_active
  "\<lambda>i s. create_pcb (pcb_addr (int i)) (int i) arg s"
  "\<lambda>i s. upd_pcb (pcb_addr (int i)) (\<lambda>p. p\<lparr>active := 0\<rparr>) s" 6 "\<lambda>_. True" for arg
proof
  fix s i assume "find_pcb s 0 6 = Some i"
  then show "i < 6 \<and> \<not> process_active s i \<and> (\<forall>j < i. process_active s j)"
    using find_pcb_spec [of 0 s 6] by (auto simp: process_active_def)
next
  fix s assume "find_pcb s 0 6 = None"
  then show "\<forall>j < 6. process_active s j"
    using find_pcb_spec [of 0 s 6] by (auto simp: process_active_def)
next
  fix i j :: nat and s assume "i < 6"
  then show "process_active (create_pcb (pcb_addr (int i)) (int i) arg s) j \<longleftrightarrow> j = i \<or> process_active s j"
    by (cases "j < 6") (auto simp: process_active_def pcb_of_def create_pcb_state pcb_addr_inj)
next
  fix i j :: nat and s assume "i < 6"
  then show "process_active (upd_pcb (pcb_addr (int i)) (\<lambda>p. p\<lparr>active := 0\<rparr>) s) j \<longleftrightarrow>
      j \<noteq> i \<and> process_active s j"
    by (cases "j < 6") (auto simp: process_active_def pcb_of_def pcb_addr_inj)
qed simp_all

section \<open>The outcomes of execute\<close>

lemma start_process_memory:
  assumes "start_process i esp ebp arg entry s = (out, t)"
  shows "out = Entered (word_at (\<lambda>a. array_of entry (unat a)) 0) 0x83FFFFC"
    and "mem t = mem s" "tlb t = tlb s" "argument (pcb_at t (pcb_addr i)) = arg" "curr_pcb t = pcb_addr i"
    "outs t = outs s" "fs t = fs s" "con t = con s"
    "file_descriptor (pcb_at t (pcb_addr i)) = fresh_files (file_descriptor (pcb_at s (pcb_addr i)))"
  using assms by (auto simp: start_process_def context_switch_def create_pcb_state Let_def)

lemma determine_cases:
  "determine_which_pcb_empty s =
     (case find_pcb s 0 6 of Some i \<Rightarrow> (int i, s)
      | None \<Rightarrow> (-2, snd (determine_which_pcb_empty s)))"
  "beside_screen (snd (determine_which_pcb_empty s)) = beside_screen s"
  by (simp_all add: determine_which_pcb_empty_def split: option.split)

lemma find_pcb_cong: "pcb_at s = pcb_at t \<Longrightarrow> find_pcb s i k = find_pcb t i k"
  by (induction k arbitrary: i) simp_all

lemma execute_outcome:
  assumes "execute esp ebp (Some cmd) s = Some (out, t)"
  shows "(\<exists>r. out = Returned r \<and> r = (if find_pcb s 0 6 = None then 0 else -1) \<and> same_table t s \<and> pid_var t \<noteq> -1) \<or>
    (\<exists>i u arg entry. find_pcb s 0 6 = Some i \<and> same_table u s \<and> pid_var u = int i \<and>
      tss_reg_esp0 u = tss_reg_esp0 s \<and> (out, t) = start_process (int i) esp ebp arg entry u)"
proof (cases "find_pcb s 0 6")
  case None
  then have "find_pcb (cli s) 0 6 = None" using find_pcb_cong [of "cli s" s] by (simp add: io_defs)
  then have "out = Returned 0 \<and> t = (snd (determine_which_pcb_empty (cli s)))\<lparr>pid_var := -2\<rparr>"
    using assms determine_cases(1) [of "cli s"] by (auto simp: execute_def Let_def split: prod.splits)
  then show ?thesis
    using None same_table_beside [OF determine_cases(2) [of "cli s"]] by (auto simp: same_table_def)
      (simp_all add: links_def io_defs)
next
  case (Some i)
  then have f: "find_pcb (cli s) 0 6 = Some i" using find_pcb_cong [of "cli s" s] by (simp add: io_defs)
  let ?s2 = "(cli s)\<lparr>pid_var := int i\<rparr>"
  from assms f obtain s3 r filename arg where a: "announce cmd ?s2 = Some s3"
    and p: "parse_cmd cmd (\<lambda>_. 0) (Some (\<lambda>_. 0)) = Some (r, filename, arg)"
    and rest: "(if r \<noteq> 0 then Some (Returned (-1), s3)
       else case check_executable (ld8 s3) (fs s3) filename of
         None \<Rightarrow> Some (Returned (-1), s3)
       | Some (d, entry) \<Rightarrow>
           let s4 = set_up_paging (pid_var s3) s3; (n, s5) = load_program d s4
           in if inode_length (ld8 s4) (fs s4) (inode_id d) \<noteq> of_int n then Some (Returned (-1), s5)
              else Some (start_process (pid_var s5) esp ebp (the arg) entry s5)) = Some (out, t)"
    by (auto simp: execute_def Let_def determine_which_pcb_empty_def bind_eq_Some_conv split: if_splits)
  have b: "beside_screen s3 = beside_screen ?s2" by (rule announce_frame [OF a])
  have s3: "same_table s3 s" "pid_var s3 = int i" "tss_reg_esp0 s3 = tss_reg_esp0 s"
    using same_table_trans [OF same_table_beside [OF b], of s] beside_eqD(14,16) [OF b]
    by (simp_all add: io_defs(3)) (simp_all add: io_defs same_table_def links_def)
  show ?thesis
  proof (cases "r = 0 \<and> check_executable (ld8 s3) (fs s3) filename \<noteq> None")
    case False
    then have "out = Returned (-1) \<and> t = s3" using rest by (auto split: if_splits option.splits)
    then show ?thesis using s3 Some by simp
  next
    case True
    then obtain d entry where c: "check_executable (ld8 s3) (fs s3) filename = Some (d, entry)" by auto
    obtain n s5 where l: "load_program d (set_up_paging (int i) s3) = (n, s5)" by (rule prod.exhaust)
    have s5: "same_table s5 s" "pid_var s5 = int i" "tss_reg_esp0 s5 = tss_reg_esp0 s"
      using load_program_frame [OF l] s3 by (auto simp: same_table_def links_def)
    consider "out = Returned (-1)" "t = s5" | "start_process (int i) esp ebp (the arg) entry s5 = (out, t)"
      using rest True c l s3(2) s5(2) by (auto simp: Let_def split: if_splits)
    then show ?thesis
    proof cases
      case 1
      then show ?thesis using s5 Some by simp
    next
      case 2
      then show ?thesis using s5 Some by metis
    qed
  qed
qed

text \<open>
  C30: an \<open>execute\<close> that comes back to its caller has started nothing: every process control
  block, the current process and the terminals' links are as before.  The value returned is 0 when
  there was a command but no free process, and -1 in every other case: the null pointer, an argument
  that is too long, a file that is missing, not executable or not completely read.
\<close>

theorem execute_failure_keeps:
  assumes "execute esp ebp command s = Some (Returned r, t)"
  shows "pcb_at t = pcb_at s \<and> links t = links s \<and>
    r = (if command \<noteq> None \<and> find_pcb s 0 6 = None then 0 else -1)"
proof (cases command)
  case None
  then show ?thesis using assms by (auto simp: execute_def io_defs links_def)
next
  case (Some cmd)
  have "\<not> (\<exists>i u arg entry. (Returned r, t) = start_process i esp ebp arg entry u)"
    by (simp add: start_process_def context_switch_def Let_def)
  then show ?thesis using execute_outcome [OF assms [unfolded Some]] Some by (auto simp: same_table_def)
qed

text \<open>Six processes are active: there is no slot for another.\<close>

definition full_kernel :: kernel where
  "full_kernel = static_kernel\<lparr>pcb_at := (\<lambda>_. null_pcb\<lparr>active := 1\<rparr>)\<rparr>"

lemma full_find: "find_pcb (cli full_kernel) i k = None"
  by (induction k arbitrary: i) (simp_all add: full_kernel_def io_defs)

lemma full_execute: "\<exists>t. execute 0 0 (Some shell) full_kernel = Some (Returned 0, t)"
  by (simp add: execute_def determine_which_pcb_empty_def full_find Let_def)

theorem execute_failure_keeps_witness:
  "\<exists>t u. execute 0 0 (Some shell) full_kernel = Some (Returned 0, t) \<and>
    pcb_at t = pcb_at full_kernel \<and> links t = links full_kernel \<and>
    execute 0 0 None full_kernel = Some (Returned (-1), u) \<and> links u = links full_kernel"
proof -
  obtain t where t: "execute 0 0 (Some shell) full_kernel = Some (Returned 0, t)"
    using full_execute by blast
  have "execute 0 0 None full_kernel = Some (Returned (-1), cli full_kernel)"
    by (simp add: execute_def Let_def)
  then show ?thesis using execute_failure_keeps [OF t] execute_failure_keeps t by blast
qed

end
