(* ===== verification/Process_Stacks.thy ===== *)
theory Process_Stacks
  imports Processes
begin

text \<open>
  The abstract specification of the process table: each of the three terminals has a stack of
  process numbers.  \<open>represents s st\<close> relates the kernel's tables to the stacks; \<open>execute\<close>,
  \<open>halt\<close> and \<open>scheduler\<close> are shown to push, pop and rotate.
\<close>

section \<open>The abstraction\<close>

type_synonym stacks = "nat \<Rightarrow> nat list"

definition processes :: "stacks \<Rightarrow> nat list" where
  "processes st = st 0 @ st 1 @ st 2"

fun linked :: "kernel \<Rightarrow> nat \<Rightarrow> nat list \<Rightarrow> bool" where
  "linked s t [] \<longleftrightarrow> True"
| "linked s t (i # rest) \<longleftrightarrow>
     pid (pcb_of s i) = of_nat i \<and>
     parent_id (pcb_of s i) = (case rest of [] \<Rightarrow> -1 | j # _ \<Rightarrow> of_nat j) \<and>
     pcb_tid (pcb_of s i) = t \<and>
     esp0 (pcb_of s i) = 0x800000 - 0x2000 * of_nat i - 4 \<and>
     linked s t rest"

text \<open>The process a terminal runs, or is to run when it is scheduled again.\<close>

definition front :: "kernel \<Rightarrow> nat \<Rightarrow> u32" where
  "front s t = (if t = scheduled_terminal s then curr_pcb s else pcb_ptr (terminal_list s t))"

definition ring :: "kernel \<Rightarrow> bool" where
  "ring s \<longleftrightarrow> (\<forall>t < 3. tid (terminal_list s t) = t \<and> next_terminal (terminal_list s t) = Some ((t + 1) mod 3))"

definition table_matches :: "kernel \<Rightarrow> stacks \<Rightarrow> bool" where
  "table_matches s st \<longleftrightarrow> distinct (processes st) \<and>
     (\<forall>i. process_active s i \<longleftrightarrow> i \<in> set (processes st))"

definition terminal_matches :: "kernel \<Rightarrow> stacks \<Rightarrow> nat \<Rightarrow> bool" where
  "terminal_matches s st t \<longleftrightarrow>
     count_pcb (terminal_list s t) = of_nat (length (st t)) \<and> linked s t (st t) \<and>
     (st t \<noteq> [] \<longrightarrow> front s t = pcb_addr (int (hd (st t))))"

definition represents :: "kernel \<Rightarrow> stacks \<Rightarrow> bool" where
  "represents s st \<longleftrightarrow> scheduled_terminal s < 3 \<and> ring s \<and> table_matches s st \<and>
     (\<forall>t < 3. terminal_matches s st t) \<and> (pid_var s = -1 \<longrightarrow> processes st = [])"

lemma representsD:
  assumes "represents s st"
  shows "scheduled_terminal s < 3" "ring s" "table_matches s st"
    "t < 3 \<Longrightarrow> terminal_matches s st t" "pid_var s = -1 \<Longrightarrow> processes st = []"
  using assms by (simp_all add: represents_def)

lemma three_cases: "t < (3 :: nat) \<Longrightarrow> t = 0 \<or> t = 1 \<or> t = 2"
  by linarith

lemma stack_processes: "t < 3 \<Longrightarrow> set (st t) \<subseteq> set (processes st)"
  using three_cases [of t] by (auto simp: processes_def)

lemma table_bound: "table_matches s st \<Longrightarrow> i \<in> set (processes st) \<Longrightarrow> i < 6"
  unfolding table_matches_def process_active_def by blast

lemma stack_bound: "table_matches s st \<Longrightarrow> t < 3 \<Longrightarrow> i \<in> set (st t) \<Longrightarrow> i < 6"
  using table_bound stack_processes by blast

lemma stacks_disjoint:
  assumes "distinct (processes st)" and "t < 3" "u < 3" "t \<noteq> u"
  shows "set (st t) \<inter> set (st u) = {}"
  using three_cases [OF assms(2)] three_cases [OF assms(3)] assms(1,4)
  by (auto simp: processes_def)

lemma stack_length: "table_matches s st \<Longrightarrow> t < 3 \<Longrightarrow> length (st t) \<le> 6"
proof -
  assume m: "table_matches s st" and t: "t < 3"
  have "distinct (st t)"
    using m three_cases [OF t] by (auto simp: table_matches_def processes_def)
  moreover have "set (st t) \<subseteq> {..<6}" using stack_bound [OF m t] by auto
  ultimately show ?thesis
    using card_mono [of "{..<6 :: nat}" "set (st t)"] distinct_card [of "st t"] by simp
qed

lemma count_zero:
  assumes "represents s st" and "t < 3"
  shows "count_pcb (terminal_list s t) = 0 \<longleftrightarrow> st t = []"
proof -
  have "count_pcb (terminal_list s t) = of_nat (length (st t))"
    using representsD(4) [OF assms] by (simp add: terminal_matches_def)
  moreover have "length (st t) < 2 ^ 32" using stack_length [OF representsD(3) [OF assms(1)] assms(2)] by simp
  ultimately show ?thesis using of_nat_inj_u32 [of "length (st t)" 0] by simp
qed

lemma linked_cong:
  "linked s t xs \<Longrightarrow> (\<And>i. i \<in> set xs \<Longrightarrow>
     pid (pcb_of s' i) = pid (pcb_of s i) \<and> parent_id (pcb_of s' i) = parent_id (pcb_of s i) \<and>
     pcb_tid (pcb_of s' i) = pcb_tid (pcb_of s i) \<and> esp0 (pcb_of s' i) = esp0 (pcb_of s i)) \<Longrightarrow>
   linked s' t xs"
  by (induction xs) auto

text \<open>Only the control fields of the tables matter.\<close>

definition same_control :: "kernel \<Rightarrow> kernel \<Rightarrow> bool" where
  "same_control s t \<longleftrightarrow> links s = links t \<and> (\<forall>i.
     pid (pcb_of s i) = pid (pcb_of t i) \<and> parent_id (pcb_of s i) = parent_id (pcb_of t i) \<and>
     pcb_tid (pcb_of s i) = pcb_tid (pcb_of t i) \<and> esp0 (pcb_of s i) = esp0 (pcb_of t i) \<and>
     active (pcb_of s i) = active (pcb_of t i))"

lemma represents_control:
  assumes "represents s st" and "same_control s t" and "pid_var t \<noteq> -1 \<or> pid_var t = pid_var s"
  shows "represents t st"
proof -
  have l: "links s = links t" and c: "\<And>i. pid (pcb_of t i) = pid (pcb_of s i) \<and>
     parent_id (pcb_of t i) = parent_id (pcb_of s i) \<and> pcb_tid (pcb_of t i) = pcb_tid (pcb_of s i) \<and>
     esp0 (pcb_of t i) = esp0 (pcb_of s i)" and a: "\<And>i. active (pcb_of s i) = active (pcb_of t i)"
    using assms(2) by (simp_all add: same_control_def)
  note r = representsD [OF assms(1)] and ls = linksD [OF l]
  have "ring t" using r(2) by (simp add: ring_def ls)
  moreover have "table_matches t st" using r(3) by (simp add: table_matches_def process_active_def a)
  moreover have "terminal_matches t st i" if "i < 3" for i
    using r(4) [OF that] linked_cong [of s i "st i" t] c
    by (auto simp: terminal_matches_def front_def ls)
  ultimately show ?thesis using r(1,5) assms(3) by (auto simp: represents_def ls)
qed

lemma same_table_control: "same_table s t \<Longrightarrow> same_control s t"
  by (simp add: same_table_def same_control_def pcb_of_def)

section \<open>execute pushes\<close>

definition push :: "nat \<Rightarrow> nat \<Rightarrow> stacks \<Rightarrow> stacks" where
  "push t i st = st(t := i # st t)"

definition pop :: "nat \<Rightarrow> stacks \<Rightarrow> stacks" where
  "pop t st = st(t := tl (st t))"

lemma processes_push: "t < 3 \<Longrightarrow> set (processes (push t i st)) = insert i (set (processes st))"
  using three_cases [of t] by (auto simp: processes_def push_def)

lemma distinct_push: "t < 3 \<Longrightarrow> distinct (processes (push t i st)) \<longleftrightarrow>
    i \<notin> set (processes st) \<and> distinct (processes st)"
  using three_cases [of t] by (auto simp: processes_def push_def)

text \<open>The new control block, the parent's saved frame, and all the others as they were.\<close>

lemma start_process_pcbs:
  assumes r: "represents u st" and i: "i < 6" "\<not> process_active u i"
    and t: "start_process (int i) esp ebp arg entry u = (out, t)"
  shows "pcb_of t i = (pcb_of u i)\<lparr>
      file_descriptor := fresh_files (file_descriptor (pcb_of u i)), pid := of_nat i, argument := arg,
      tss_esp0 := tss_reg_esp0 u, pcb_tid := scheduled_terminal u, active := 1,
      esp0 := 0x800000 - 0x2000 * of_nat i - 4,
      parent_id := (case st (scheduled_terminal u) of [] \<Rightarrow> -1 | j # _ \<Rightarrow> of_nat j)\<rparr>"
    and "j < 6 \<Longrightarrow> j \<noteq> i \<Longrightarrow> pcb_of t j =
      (if st (scheduled_terminal u) \<noteq> [] \<and> j = hd (st (scheduled_terminal u))
       then (pcb_of u j)\<lparr>saved_esp := esp, saved_ebp := ebp\<rparr> else pcb_of u j)"
    and "out = Entered (word_at (\<lambda>a. array_of entry (unat a)) 0) 0x83FFFFC"
    and "curr_pcb t = pcb_addr (int i)" "scheduled_terminal t = scheduled_terminal u"
    and "pid_var t = pid_var u"
    and "terminal_list t = (terminal_list u)(scheduled_terminal u :=
      (terminal_list u (scheduled_terminal u))\<lparr>
        count_pcb := count_pcb (terminal_list u (scheduled_terminal u)) + 1\<rparr>)"
    and "tss_reg_esp0 t = 0x800000 - 0x2000 * of_nat i - 4" "tss_reg_ss0 t = 0x18" "intr_flag t"
    and "mem t = mem u" "tlb t = tlb u"
proof -
  let ?r = "scheduled_terminal u"
  have r3: "?r < 3" by (rule representsD(1) [OF r])
  have tid: "get_scheduled_tid u = ?r"
    using representsD(2) [OF r] r3 by (simp add: ring_def get_scheduled_tid_def)
  have curr: "curr_pcb u = pcb_addr (int j)" "pid (pcb_at u (curr_pcb u)) = of_nat j" "j < 6" "j \<noteq> i"
    if "st ?r = j # rest" for j rest
  proof -
    have m: "terminal_matches u st ?r" by (rule representsD(4) [OF r r3])
    show c: "curr_pcb u = pcb_addr (int j)" using m that by (simp add: terminal_matches_def front_def)
    show "pid (pcb_at u (curr_pcb u)) = of_nat j"
      using m that unfolding c by (simp add: terminal_matches_def pcb_of_def)
    have "j \<in> set (processes st)" using stack_processes [OF r3, of st] that by auto
    then show "j < 6" "j \<noteq> i"
      using representsD(3) [OF r] i table_bound by (auto simp: table_matches_def)
  qed
  have zero: "count_pcb (terminal_list u ?r) = 0 \<longleftrightarrow> st ?r = []" by (rule count_zero [OF r r3])
  have small: "uint (of_nat j :: u32) = int j" if "j < 6" for j
    using that unat_of_nat_u32 [of j] by (simp add: uint_nat)
  have ne: "(of_nat j :: u32) \<noteq> -1" if "j < 6" for j
  proof -
    have "(-1 :: u32) = of_nat 4294967295" by simp
    then show ?thesis using of_nat_inj_u32 [of j 4294967295] that by (simp only:) simp
  qed
  note unfold = start_process_def context_switch_def create_pcb_state Let_def tid zero pcb_of_def
  show "pcb_of t i = (pcb_of u i)\<lparr>
      file_descriptor := fresh_files (file_descriptor (pcb_of u i)), pid := of_nat i, argument := arg,
      tss_esp0 := tss_reg_esp0 u, pcb_tid := scheduled_terminal u, active := 1,
      esp0 := 0x800000 - 0x2000 * of_nat i - 4,
      parent_id := (case st (scheduled_terminal u) of [] \<Rightarrow> -1 | j # _ \<Rightarrow> of_nat j)\<rparr>"
    using t i(1) curr ne by (cases "st ?r") (auto simp: unfold small pcb_addr_inj)
  show "pcb_of t j =
      (if st (scheduled_terminal u) \<noteq> [] \<and> j = hd (st (scheduled_terminal u))
       then (pcb_of u j)\<lparr>saved_esp := esp, saved_ebp := ebp\<rparr> else pcb_of u j)" if "j < 6" "j \<noteq> i"
    using t i(1) curr ne that by (cases "st ?r") (auto simp: unfold small pcb_addr_inj)
  show "tss_reg_esp0 t = 0x800000 - 0x2000 * of_nat i - 4"
    using t i(1) curr ne by (cases "st ?r") (auto simp: unfold small pcb_addr_inj)
  show "out = Entered (word_at (\<lambda>a. array_of entry (unat a)) 0) 0x83FFFFC"
    "curr_pcb t = pcb_addr (int i)" "scheduled_terminal t = scheduled_terminal u" "pid_var t = pid_var u"
    "terminal_list t = (terminal_list u)(scheduled_terminal u :=
      (terminal_list u (scheduled_terminal u))\<lparr>
        count_pcb := count_pcb (terminal_list u (scheduled_terminal u)) + 1\<rparr>)"
    "tss_reg_ss0 t = 0x18" "intr_flag t" "mem t = mem u" "tlb t = tlb u"
    using t by (auto simp: unfold)
qed


lemma linked_Cons_start:
  assumes r: "represents u st" and i: "i < 6" "\<not> process_active u i"
    and t: "start_process (int i) esp ebp arg entry u = (out, t)"
  shows "linked t (scheduled_terminal u) (i # st (scheduled_terminal u))"
    and "k < 3 \<Longrightarrow> k \<noteq> scheduled_terminal u \<Longrightarrow> linked t k (st k)"
proof -
  have out: "j < 6 \<and> j \<noteq> i" if "k < 3" "j \<in> set (st k)" for j k
  proof -
    have "j \<in> set (processes st)" using stack_processes [OF that(1), of st] that(2) by blast
    then show ?thesis using representsD(3) [OF r] table_bound i(2) by (auto simp: table_matches_def)
  qed
  have keep: "linked t k (st k)" if k: "k < 3" for k
  proof (rule linked_cong)
    show "linked u k (st k)" using representsD(4) [OF r k] by (simp add: terminal_matches_def)
    fix j assume "j \<in> set (st k)"
    with out [OF k this] show "pid (pcb_of t j) = pid (pcb_of u j) \<and>
        parent_id (pcb_of t j) = parent_id (pcb_of u j) \<and>
        pcb_tid (pcb_of t j) = pcb_tid (pcb_of u j) \<and> esp0 (pcb_of t j) = esp0 (pcb_of u j)"
      using start_process_pcbs(2) [OF r i t, of j] by simp
  qed
  show "linked t (scheduled_terminal u) (i # st (scheduled_terminal u))"
    using keep [OF representsD(1) [OF r]] by (simp add: start_process_pcbs(1) [OF r i t])
  show "linked t k (st k)" if "k < 3" "k \<noteq> scheduled_terminal u" using keep that(1) .
qed

lemma start_process_pushes:
  assumes r: "represents u st" and i: "i < 6" "\<not> process_active u i" and p: "pid_var u = int i"
    and t: "start_process (int i) esp ebp arg entry u = (out, t)"
  shows "represents t (push (scheduled_terminal u) i st)"
proof -
  let ?r = "scheduled_terminal u" and ?st = "push (scheduled_terminal u) i st"
  have r3: "?r < 3" by (rule representsD(1) [OF r])
  note new = start_process_pcbs [OF r i t]
  have "ring t" using representsD(2) [OF r] by (auto simp: ring_def new(7))
  moreover have "table_matches t ?st"
  proof -
    have "process_active t j \<longleftrightarrow> j = i \<or> process_active u j" for j
      using new(1) new(2) [of j] i(1) by (cases "j = i") (auto simp: process_active_def split: if_splits)
    then show ?thesis
      using representsD(3) [OF r] i(2) r3
      by (simp add: table_matches_def processes_push distinct_push)
  qed
  moreover have "terminal_matches t ?st k" if k: "k < 3" for k
  proof (cases "k = ?r")
    case True
    then show ?thesis
      using linked_Cons_start(1) [OF r i t] representsD(4) [OF r r3]
      by (simp add: terminal_matches_def push_def front_def new(4,5,7))
  next
    case False
    then show ?thesis
      using linked_Cons_start(2) [OF r i t k] representsD(4) [OF r k]
      by (simp add: terminal_matches_def push_def front_def new(5,7))
  qed
  ultimately show ?thesis using r3 p by (simp add: represents_def new(5,6))
qed

lemma represents_cli_etc:
  assumes "represents s st" and "same_table u s" and "pid_var u \<noteq> -1"
  shows "represents u st"
  by (rule represents_control [OF assms(1) same_table_control]) (use assms(2,3) in \<open>simp_all add: same_table_def\<close>)

lemma represents_find:
  assumes "represents s st" and "find_pcb s 0 6 = Some i"
  shows "i < 6" "\<not> process_active s i" "i \<notin> set (processes st)" "\<forall>j < i. j \<in> set (processes st)"
  using procs.search_free [OF TrueI assms(2)] representsD(3) [OF assms(1)]
  by (auto simp: table_matches_def)

lemma execute_pushes_aux:
  assumes r: "represents s st" and e: "execute esp ebp (Some cmd) s = Some (Entered eip usp, t)"
  obtains i where "i < 6" "i \<notin> set (processes st)" "\<forall>j < i. j \<in> set (processes st)"
    "represents t (push (scheduled_terminal s) i st)" "scheduled_terminal t = scheduled_terminal s"
    "usp = 0x83FFFFC" "tss_reg_esp0 t = esp0 (pcb_of t i)" "pcb_tid (pcb_of t i) = scheduled_terminal s"
    "\<And>j. j < 6 \<Longrightarrow> j \<noteq> i \<Longrightarrow> pcb_of t j =
      (if st (scheduled_terminal s) \<noteq> [] \<and> j = hd (st (scheduled_terminal s))
       then (pcb_of s j)\<lparr>saved_esp := esp, saved_ebp := ebp\<rparr> else pcb_of s j)"
proof -
  from execute_outcome [OF e] obtain i u arg entry where f: "find_pcb s 0 6 = Some i"
    and u: "same_table u s" "pid_var u = int i"
    and p: "start_process (int i) esp ebp arg entry u = (Entered eip usp, t)"
    by auto
  have ru: "represents u st" by (rule represents_cli_etc [OF r u(1)]) (simp add: u(2))
  note free = represents_find [OF r f]
  have i: "i < 6" "\<not> process_active u i"
    using free u(1) by (simp_all add: process_active_def pcb_of_def same_table_def)
  have eq: "scheduled_terminal u = scheduled_terminal s" "\<And>j. pcb_of u j = pcb_of s j"
    using u(1) linksD(2) [of u s] by (simp_all add: same_table_def pcb_of_def)
  note new = start_process_pcbs [OF ru i p]
  show thesis
  proof (rule that [of i])
    show "pcb_of t j = (if st (scheduled_terminal s) \<noteq> [] \<and> j = hd (st (scheduled_terminal s))
       then (pcb_of s j)\<lparr>saved_esp := esp, saved_ebp := ebp\<rparr> else pcb_of s j)"
      if "j < 6" "j \<noteq> i" for j using new(2) [OF that] by (simp add: eq)
    show "represents t (push (scheduled_terminal s) i st)"
      using start_process_pushes [OF ru i u(2) p] by (simp add: eq)
    show "i < 6" "i \<notin> set (processes st)" "\<forall>j < i. j \<in> set (processes st)" using free by simp_all
    show "usp = 0x83FFFFC" using new(3) by simp
    show "scheduled_terminal t = scheduled_terminal s" "tss_reg_esp0 t = esp0 (pcb_of t i)"
      "pcb_tid (pcb_of t i) = scheduled_terminal s"
      by (simp_all add: new(1,5,8) eq)
  qed
qed



section \<open>halt pops\<close>

definition closed_up_to :: "nat \<Rightarrow> (nat \<Rightarrow> file_object) \<Rightarrow> nat \<Rightarrow> file_object" where
  "closed_up_to n f k = (if 2 \<le> k \<and> k < n + 2 \<and> flag (f k) = 1 then closed_file (f k) else f k)"

lemma closed_up_to_0 [simp]: "closed_up_to 0 f = f"
  by (rule ext) (auto simp: closed_up_to_def)

lemma closed_up_to_Suc:
  "closed_up_to (Suc n) f = (if flag (f (n + 2)) = 1
     then (closed_up_to n f)(n + 2 := closed_file (f (n + 2))) else closed_up_to n f)"
  by (rule ext) (auto simp: closed_up_to_def less_Suc_eq)

lemma close_loop:
  "n \<le> 6 \<Longrightarrow> for_loop n (\<lambda>k t.
     if flag (file_descriptor (current t) (k + 2)) = 1 then snd (close_fd (int (k + 2)) t) else t) s
   = upd_pcb (curr_pcb s) (\<lambda>p. p\<lparr>file_descriptor := closed_up_to n (file_descriptor p)\<rparr>) s"
proof (induction n)
  case 0
  then show ?case by (simp add: upd_pcb_def)
next
  case (Suc n)
  let ?t = "upd_pcb (curr_pcb s) (\<lambda>p. p\<lparr>file_descriptor := closed_up_to n (file_descriptor p)\<rparr>) s"
  have f: "file_descriptor (current ?t) (n + 2) = file_descriptor (current s) (n + 2)"
    by (simp add: current_def closed_up_to_def)
  have "int (n + 2) < 8" "int (n + 2) \<ge> 2" "int (n + 2) \<noteq> 0" "int (n + 2) \<noteq> 1" using Suc.prems by simp_all
  then have "flag (file_descriptor (current s) (n + 2)) = 1 \<Longrightarrow>
      snd (close_fd (int (n + 2)) ?t) = upd_pcb (curr_pcb s) (upd_fd (n + 2) closed_file) ?t"
    using f by (simp add: close_fd_def get_current_pcb_def Let_def current_def nat_add_distrib)
  then show ?case
    using Suc f by (simp add: closed_up_to_Suc upd_pcb_def upd_fd_def current_def)
qed

lemma close_files_state:
  "close_files s = upd_pcb (curr_pcb s) (\<lambda>p. p\<lparr>file_descriptor := closed_up_to 6 (file_descriptor p)\<rparr>) s"
  unfolding close_files_def by (rule close_loop) simp

text \<open>The control block of a process that has ended.\<close>

definition ended :: "pcb \<Rightarrow> pcb" where
  "ended p = p\<lparr>file_descriptor := (closed_up_to 6 (file_descriptor p))
     (0 := (file_descriptor p 0)\<lparr>flag := 0\<rparr>, 1 := (file_descriptor p 1)\<lparr>flag := 0\<rparr>), active := 0\<rparr>"

lemma ended_inert: "flags_ok p \<Longrightarrow> k < 8 \<Longrightarrow> \<not> fd_in_use (ended p) k"
  by (auto simp: ended_def fd_in_use_def closed_up_to_def closed_file_def flags_ok_def)

lemma release_state:
  "release_pcb (close_files s) = upd_pcb (curr_pcb s) ended s"
  by (simp add: release_pcb_def close_files_state upd_pcb_def upd_fd_def ended_def)
    (simp add: closed_up_to_def fun_eq_iff)

lemma drop_vidmap_frame [simp]:
  "pcb_at (drop_vidmap s) = pcb_at s" "links (drop_vidmap s) = links s" "curr_pcb (drop_vidmap s) = curr_pcb s"
  "tlb (drop_vidmap s) = tlb s" "mem (drop_vidmap s) = mem s" "pid_var (drop_vidmap s) = pid_var s"
  "pg (drop_vidmap s) = pg s" "scheduled_terminal (drop_vidmap s) = scheduled_terminal s"
  by (simp_all add: drop_vidmap_def Let_def links_def fun_eq_iff)

lemma drop_vidmap_terminal [simp]:
  "tid (terminal_list (drop_vidmap s) i) = tid (terminal_list s i)"
  "pcb_ptr (terminal_list (drop_vidmap s) i) = pcb_ptr (terminal_list s i)"
  "count_pcb (terminal_list (drop_vidmap s) i) = count_pcb (terminal_list s i)"
  "next_terminal (terminal_list (drop_vidmap s) i) = next_terminal (terminal_list s i)"
  by (simp_all add: drop_vidmap_def Let_def)

lemma return_to_parent_state:
  assumes "return_to_parent status s = (out, t)"
  defines "parent \<equiv> parent_id (current s)"
  shows "pcb_at t = (pcb_at s)(curr_pcb s := ended (current s))"
    and "curr_pcb t = pcb_addr (uint parent)" "scheduled_terminal t = scheduled_terminal s"
    and "snd (snd (links t)) = snd (snd (links s))" "pid_var t = pid_var s"
    and "out = Resumed (saved_esp (pcb_at t (pcb_addr (uint parent))))
      (saved_ebp (pcb_at t (pcb_addr (uint parent)))) (Some (exit_value status))"
    and "tss_reg_esp0 t = esp0 (pcb_at t (pcb_addr (uint parent)))"
    and "pg t = pg (set_up_paging (sint parent) s)" "tlb t = tlb (set_up_paging (sint parent) s)"
  using assms(1)
  by (auto simp: return_to_parent_def Let_def release_state io_defs parent_def current_def links_def
      set_up_paging_def flush_tlb_def cong: if_cong)

lemma uint_of_nat_small: "j < 6 \<Longrightarrow> uint (of_nat j :: u32) = int j" "j < 6 \<Longrightarrow> sint (of_nat j :: u32) = int j"
proof -
  assume "j < 6"
  then have u: "unat (of_nat j :: u32) = j" by (intro unat_of_nat_u32) simp
  then show "uint (of_nat j :: u32) = int j" by (simp add: uint_nat)
  show "sint (of_nat j :: u32) = int j" using sint_small [of "of_nat j"] u \<open>j < 6\<close> by simp
qed

lemma of_nat_not_minus1: "j < 6 \<Longrightarrow> (of_nat j :: u32) \<noteq> -1"
proof -
  assume "j < 6"
  have "(-1 :: u32) = of_nat 4294967295" by simp
  then show ?thesis using of_nat_inj_u32 [of j 4294967295] \<open>j < 6\<close> by (simp only:) simp
qed

lemma set_processes_pop:
  assumes "distinct (processes st)" and "r < 3" and "st r = i # rest"
  shows "set (processes (pop r st)) = set (processes st) - {i}" "distinct (processes (pop r st))"
  using three_cases [OF assms(2)] assms(1,3) by (auto simp: processes_def pop_def)

text \<open>
  Ending the top process of the scheduled terminal: any state that differs from a represented
  one by an ended control block, a count one less and the process below in front.
\<close>

lemma pop_represents:
  assumes r: "represents s st" and top: "st (scheduled_terminal s) = i # rest"
    and pcbs: "active (pcb_of t i) = 0" "\<And>k. k < 6 \<Longrightarrow> k \<noteq> i \<Longrightarrow> pcb_of t k = pcb_of s k"
    and sch: "scheduled_terminal t = scheduled_terminal s"
    and count: "count_pcb (terminal_list t (scheduled_terminal s)) =
      count_pcb (terminal_list s (scheduled_terminal s)) - 1"
    and others: "\<And>k. k \<noteq> scheduled_terminal s \<Longrightarrow>
      count_pcb (terminal_list t k) = count_pcb (terminal_list s k)"
    and keep: "\<And>k. tid (terminal_list t k) = tid (terminal_list s k) \<and>
      next_terminal (terminal_list t k) = next_terminal (terminal_list s k) \<and>
      pcb_ptr (terminal_list t k) = pcb_ptr (terminal_list s k)"
    and curr: "rest \<noteq> [] \<Longrightarrow> curr_pcb t = pcb_addr (int (hd rest))" and pid: "pid_var t = pid_var s"
  shows "represents t (pop (scheduled_terminal s) st)"
proof -
  let ?r = "scheduled_terminal s"
  have r3: "?r < 3" by (rule representsD(1) [OF r])
  have m: "distinct (processes st)" "\<And>k. process_active s k \<longleftrightarrow> k \<in> set (processes st)"
    using representsD(3) [OF r] by (simp_all add: table_matches_def)
  have i: "i \<in> set (st ?r)" "i \<in> set (processes st)" using top stack_processes [OF r3, of st] by auto
  have i6: "i < 6" using table_bound [OF representsD(3) [OF r] i(2)] .
  have active: "process_active t k \<longleftrightarrow> k \<noteq> i \<and> process_active s k" for k
    using pcbs(1) pcbs(2) [of k] by (cases "k = i") (auto simp: process_active_def)
  have "linked t k xs" if "k < 3" "linked s k xs" "set xs \<subseteq> set (st k)" "i \<notin> set xs" for k xs
  proof (rule linked_cong [OF that(2)])
    fix j assume "j \<in> set xs"
    then have "j < 6" "j \<noteq> i" using stack_bound [OF representsD(3) [OF r] that(1)] that(3,4) by auto
    then show "pid (pcb_of t j) = pid (pcb_of s j) \<and> parent_id (pcb_of t j) = parent_id (pcb_of s j) \<and>
        pcb_tid (pcb_of t j) = pcb_tid (pcb_of s j) \<and> esp0 (pcb_of t j) = esp0 (pcb_of s j)"
      using pcbs by simp
  qed
  note link = this
  have "terminal_matches t (pop ?r st) k" if k: "k < 3" for k
  proof (cases "k = ?r")
    case True
    have "distinct (i # rest)" using m(1) three_cases [OF r3] top by (auto simp: processes_def)
    then have "linked t ?r rest"
      using link [OF r3, of rest] representsD(4) [OF r r3] top by (auto simp: terminal_matches_def)
    then show ?thesis
      using True representsD(4) [OF r r3] top curr
      by (simp add: terminal_matches_def pop_def count front_def sch)
  next
    case False
    have "i \<notin> set (st k)" using stacks_disjoint [OF m(1) k r3 False] i(1) by blast
    then have "linked t k (st k)"
      using link [OF k] representsD(4) [OF r k] by (simp add: terminal_matches_def)
    then show ?thesis
      using False representsD(4) [OF r k] others [OF False] keep [of k]
      by (simp add: terminal_matches_def pop_def front_def sch)
  qed
  moreover have "ring t" using representsD(2) [OF r] keep by (simp add: ring_def)
  moreover have "table_matches t (pop ?r st)"
    using m set_processes_pop [OF m(1) r3 top] active by (auto simp: table_matches_def)
  ultimately show ?thesis using r3 representsD(5) [OF r] i(2) by (auto simp: represents_def sch pid)
qed

abbreviation front_of :: "kernel \<Rightarrow> stacks \<Rightarrow> nat list" where
  "front_of s st \<equiv> st (scheduled_terminal s)"

lemma top_process:
  assumes r: "represents s st" and top: "front_of s st = i # rest"
  shows "i < 6" "curr_pcb s = pcb_addr (int i)" "current s = pcb_of s i"
    "parent_id (current s) = (case rest of [] \<Rightarrow> -1 | j # _ \<Rightarrow> of_nat j)" "set rest \<subseteq> {..<6}" "i \<notin> set rest"
proof -
  note r3 = representsD(1) [OF r]
  have m: "terminal_matches s st (scheduled_terminal s)" by (rule representsD(4) [OF r r3])
  show c: "curr_pcb s = pcb_addr (int i)" using m top by (simp add: terminal_matches_def front_def)
  show "current s = pcb_of s i" by (simp add: current_def pcb_of_def c)
  then show "parent_id (current s) = (case rest of [] \<Rightarrow> -1 | j # _ \<Rightarrow> of_nat j)"
    using m top by (simp add: terminal_matches_def)
  show "i < 6" "set rest \<subseteq> {..<6}"
    using stack_bound [OF representsD(3) [OF r] r3] top by auto
  show "i \<notin> set rest"
    using representsD(3) [OF r] three_cases [OF r3] top by (auto simp: table_matches_def processes_def)
qed

text \<open>The part of \<open>halt\<close> before its two cases.\<close>

definition leave_terminal :: "kernel \<Rightarrow> kernel" where
  "leave_terminal s0 =
     (let s = say (''in halt'' @ [CHR 0x0A]) s0
      in upd_term (scheduled_terminal s) (\<lambda>t. t\<lparr>count_pcb := count_pcb t - 1\<rparr>) s)"

lemma leave_terminal_frame [simp]:
  "pcb_at (leave_terminal s) = pcb_at s" "curr_pcb (leave_terminal s) = curr_pcb s"
  "current (leave_terminal s) = current s" "scheduled_terminal (leave_terminal s) = scheduled_terminal s"
  "pid_var (leave_terminal s) = pid_var s" "pg (leave_terminal s) = pg s" "tlb (leave_terminal s) = tlb s"
  "tid (terminal_list (leave_terminal s) k) = tid (terminal_list s k)"
  "next_terminal (terminal_list (leave_terminal s) k) = next_terminal (terminal_list s k)"
  "pcb_ptr (terminal_list (leave_terminal s) k) = pcb_ptr (terminal_list s k)"
  "count_pcb (terminal_list (leave_terminal s) k) =
     (if k = scheduled_terminal s then count_pcb (terminal_list s k) - 1 else count_pcb (terminal_list s k))"
  by (simp_all add: leave_terminal_def Let_def current_def)

lemma halt_to_parent:
  assumes r: "represents s st" and top: "front_of s st = i # j # rest"
    and o: "return_to_parent status (leave_terminal s) = (out, t)"
  shows "halt esp ebp status s = Some (out, t)"
    and "out = Resumed (saved_esp (pcb_of s j)) (saved_ebp (pcb_of s j)) (Some (exit_value status))"
    and "represents t (pop (scheduled_terminal s) st)" "scheduled_terminal t = scheduled_terminal s"
    and "pcb_of t i = ended (pcb_of s i)" "\<And>k. k < 6 \<Longrightarrow> k \<noteq> i \<Longrightarrow> pcb_of t k = pcb_of s k"
    and "curr_pcb t = pcb_addr (int j)" "tss_reg_esp0 t = esp0 (pcb_of s j)"
    and "tlb t = tlb (set_up_paging (int j) s)"
proof -
  note tp = top_process [OF r top]
  have j: "j < 6" "j \<noteq> i" using tp(5,6) by auto
  have par: "parent_id (current s) = of_nat j" using tp(4) by simp
  note rt = return_to_parent_state [OF o]
  have pcbs: "pcb_of t k = (if k = i then ended (pcb_of s i) else pcb_of s k)" if "k < 6" for k
    using that tp(1) by (simp add: pcb_of_def rt(1) tp(2) pcb_addr_inj) (simp add: tp(3) pcb_of_def)
  show "halt esp ebp status s = Some (out, t)"
    using o of_nat_not_minus1 [OF j(1)] par by (simp add: halt_def leave_terminal_def Let_def current_def)
  show "pcb_of t i = ended (pcb_of s i)" "\<And>k. k < 6 \<Longrightarrow> k \<noteq> i \<Longrightarrow> pcb_of t k = pcb_of s k"
    using pcbs tp(1) by simp_all
  show c: "curr_pcb t = pcb_addr (int j)" using rt(2) par uint_of_nat_small(1) [OF j(1)] by simp
  have pj: "pcb_at t (pcb_addr (int j)) = pcb_of s j" using pcbs [OF j(1)] j by (simp add: pcb_of_def)
  show "out = Resumed (saved_esp (pcb_of s j)) (saved_ebp (pcb_of s j)) (Some (exit_value status))"
    using rt(6) par uint_of_nat_small(1) [OF j(1)] pj by simp
  show "tss_reg_esp0 t = esp0 (pcb_of s j)"
    using rt(7) par uint_of_nat_small(1) [OF j(1)] pj by simp
  show "tlb t = tlb (set_up_paging (int j) s)"
    using rt(9) par uint_of_nat_small(2) [OF j(1)] by (simp add: set_up_paging_def flush_tlb_def io_defs Let_def)
  show sch: "scheduled_terminal t = scheduled_terminal s" using rt(3) by simp
  have l: "tid (terminal_list t k) = tid (terminal_list (leave_terminal s) k)"
    "pcb_ptr (terminal_list t k) = pcb_ptr (terminal_list (leave_terminal s) k)"
    "count_pcb (terminal_list t k) = count_pcb (terminal_list (leave_terminal s) k)"
    "next_terminal (terminal_list t k) = next_terminal (terminal_list (leave_terminal s) k)" for k
    using fun_cong [OF rt(4), of k] by (simp_all add: links_def Let_def)
  show "represents t (pop (scheduled_terminal s) st)"
    by (rule pop_represents [OF r top]) (use pcbs tp(1) c in \<open>simp_all add: sch l rt(5) ended_def\<close>)
qed

section \<open>The scheduler goes round\<close>

lemma suspend_frame [simp]:
  "scheduled_terminal (suspend esp ebp s) = scheduled_terminal s" "curr_pcb (suspend esp ebp s) = curr_pcb s"
  "pid_var (suspend esp ebp s) = pid_var s"
  "tid (terminal_list (suspend esp ebp s) k) = tid (terminal_list s k)"
  "next_terminal (terminal_list (suspend esp ebp s) k) = next_terminal (terminal_list s k)"
  "count_pcb (terminal_list (suspend esp ebp s) k) = count_pcb (terminal_list s k)"
  "pcb_ptr (terminal_list (suspend esp ebp s) k) =
     (if k = scheduled_terminal s then curr_pcb s else pcb_ptr (terminal_list s k))"
  "pcb_at (suspend esp ebp s) = (if pid_var s = -1 then pcb_at s else (pcb_at s)(curr_pcb s :=
     (current s)\<lparr>saved_esp := esp, saved_ebp := ebp, tss_esp0 := tss_reg_esp0 s\<rparr>))"
  by (simp_all add: suspend_def Let_def current_def)

lemma suspend_control:
  "pid (pcb_of (suspend esp ebp s) k) = pid (pcb_of s k)"
  "parent_id (pcb_of (suspend esp ebp s) k) = parent_id (pcb_of s k)"
  "pcb_tid (pcb_of (suspend esp ebp s) k) = pcb_tid (pcb_of s k)"
  "esp0 (pcb_of (suspend esp ebp s) k) = esp0 (pcb_of s k)"
  "active (pcb_of (suspend esp ebp s) k) = active (pcb_of s k)"
  by (simp_all add: pcb_of_def current_def)

text \<open>The state in which the next terminal is scheduled, before its process is resumed.\<close>

definition switched :: "nat \<Rightarrow> kernel \<Rightarrow> kernel" where
  "switched n s1 =
     (let s2 = set_scheduled_tid (tid (terminal_list s1 n)) (s1\<lparr>scheduled_terminal := n\<rparr>);
          p = pcb_ptr (terminal_list s2 n)
      in if p \<noteq> 0 then s2\<lparr>curr_pcb := p\<rparr> else s2)"

lemma switched_frame [simp]:
  "scheduled_terminal (switched n s) = n" "terminal_list (switched n s) = terminal_list s"
  "pcb_at (switched n s) = pcb_at s" "pid_var (switched n s) = pid_var s" "pg (switched n s) = pg s"
  "pcb_of (switched n s) k = pcb_of s k"
  "curr_pcb (switched n s) =
     (if pcb_ptr (terminal_list s n) \<noteq> 0 then pcb_ptr (terminal_list s n) else curr_pcb s)"
  by (simp_all add: switched_def Let_def set_scheduled_tid_def pcb_of_def)

lemma pcb_addr_nonzero: "j < 6 \<Longrightarrow> pcb_addr (int j) \<noteq> 0"
proof -
  assume "j < 6"
  then have "j = 0 \<or> j = 1 \<or> j = 2 \<or> j = 3 \<or> j = 4 \<or> j = 5" by linarith
  then show ?thesis by (auto simp: pcb_addr_def)
qed

lemma switch_represents:
  assumes r: "represents s st" and n: "n < 3" "n \<noteq> scheduled_terminal s"
  shows "represents (switched n (suspend esp ebp s)) st"
    and "st n = j # rest \<Longrightarrow> pcb_ptr (terminal_list s n) = pcb_addr (int j) \<and> j < 6"
proof -
  let ?u = "switched n (suspend esp ebp s)"
  have ptr: "pcb_ptr (terminal_list s n) = pcb_addr (int (hd (st n))) \<and> hd (st n) < 6" if "st n \<noteq> []"
    using representsD(4) [OF r n(1)] n(2) that stack_bound [OF representsD(3) [OF r] n(1), of "hd (st n)"]
    by (simp add: terminal_matches_def front_def)
  show "st n = j # rest \<Longrightarrow> pcb_ptr (terminal_list s n) = pcb_addr (int j) \<and> j < 6" using ptr by simp
  have "terminal_matches ?u st k" if k: "k < 3" for k
  proof -
    have "linked ?u k (st k)"
      using linked_cong [of s k "st k" ?u] representsD(4) [OF r k]
      by (simp add: terminal_matches_def suspend_control)
    moreover have "front ?u k = pcb_addr (int (hd (st k)))" if ne: "st k \<noteq> []"
      using representsD(4) [OF r k] ne ptr pcb_addr_nonzero n(2)
      by (auto simp: terminal_matches_def front_def)
    ultimately show ?thesis using representsD(4) [OF r k] by (simp add: terminal_matches_def)
  qed
  moreover have "ring ?u" using representsD(2) [OF r] by (simp add: ring_def)
  moreover have "table_matches ?u st"
    using representsD(3) [OF r] by (simp add: table_matches_def process_active_def suspend_control)
  ultimately show "represents ?u st" using n(1) representsD(5) [OF r] by (simp add: represents_def)
qed

lemma scheduler_switch:
  fixes esp ebp :: u32
  assumes r: "represents s st"
  defines "n \<equiv> (scheduled_terminal s + 1) mod 3"
  defines "u \<equiv> switched n (suspend esp ebp s)"
  shows "scheduler esp ebp s =
    (if st n = [] then Option.bind (execute esp ebp (Some shell) u) (\<lambda>(out, t).
       case out of Returned _ \<Rightarrow> Some (Returned 0, t) | _ \<Rightarrow> Some (out, t))
     else Some (resume (pcb_ptr (terminal_list s n)) u))"
    and "n < 3" "n \<noteq> scheduled_terminal s"
proof -
  have r3: "scheduled_terminal s < 3" by (rule representsD(1) [OF r])
  show n: "n < 3" "n \<noteq> scheduled_terminal s"
    using three_cases [OF r3] by (auto simp: n_def)
  have nt: "next_terminal (terminal_list s (scheduled_terminal s)) = Some n"
    using representsD(2) [OF r] r3 by (simp add: ring_def n_def)
  have c: "count_pcb (terminal_list u n) = 0 \<longleftrightarrow> st n = []"
    using count_zero [OF r n(1)] by (simp add: u_def)
  show "scheduler esp ebp s =
    (if st n = [] then Option.bind (execute esp ebp (Some shell) u) (\<lambda>(out, t).
       case out of Returned _ \<Rightarrow> Some (Returned 0, t) | _ \<Rightarrow> Some (out, t))
     else Some (resume (pcb_ptr (terminal_list s n)) u))"
    using c n(2) by (simp add: scheduler_def nt Let_def u_def switched_def set_scheduled_tid_def)
qed

lemma resume_state:
  assumes "resume p s = (out, t)"
  shows "out = Resumed (saved_esp (pcb_at s p)) (saved_ebp (pcb_at s p)) None"
    "pcb_at t = pcb_at s" "curr_pcb t = p" "scheduled_terminal t = scheduled_terminal s"
    "terminal_list t = terminal_list s" "pid_var t = pid_var s" "tss_reg_esp0 t = tss_esp0 (pcb_at s p)"
    "tlb t = tlb (set_up_paging (sint (pid (pcb_at s p))) s)" "pg t = pg (set_up_paging (sint (pid (pcb_at s p))) s)"
  using assms by (auto simp: resume_def Let_def)

lemma tick_resumes:
  assumes r: "represents s st" and top: "front_of s st = i # rest"
    and next_top: "st ((scheduled_terminal s + 1) mod 3) = j # rest'"
  obtains t where
    "scheduler esp ebp s = Some (Resumed (saved_esp (pcb_of s j)) (saved_ebp (pcb_of s j)) None, t)"
    "represents t st" "scheduled_terminal t = (scheduled_terminal s + 1) mod 3"
    "pcb_of t i = (pcb_of s i)\<lparr>saved_esp := esp, saved_ebp := ebp, tss_esp0 := tss_reg_esp0 s\<rparr>"
    "\<And>k. k < 6 \<Longrightarrow> k \<noteq> i \<Longrightarrow> pcb_of t k = pcb_of s k"
    "curr_pcb t = pcb_addr (int j)" "tss_reg_esp0 t = tss_esp0 (pcb_of s j)"
    "\<And>a. unat (drop_bit 22 a) = 32 \<Longrightarrow> tlb t a = tlb (set_up_paging (int j) s) a"
proof -
  let ?n = "(scheduled_terminal s + 1) mod 3" and ?u = "switched ((scheduled_terminal s + 1) mod 3) (suspend esp ebp s)"
  note sch = scheduler_switch(1) [OF r, of esp ebp] scheduler_switch(2,3) [OF r]
  note sw = switch_represents(1) [OF r sch(2,3), of esp ebp] switch_represents(2) [OF r sch(2,3)]
  have p: "pcb_ptr (terminal_list s ?n) = pcb_addr (int j)" and j: "j < 6" using sw(2) [OF next_top] by simp_all
  note tp = top_process [OF r top]
  have ij: "i \<noteq> j"
    using stacks_disjoint [of st ?n "scheduled_terminal s"] representsD(1,3) [OF r] sch(2,3) top next_top
    by (auto simp: table_matches_def)
  have "processes st \<noteq> []"
    using stack_processes [OF representsD(1) [OF r], of st] top by auto
  then have pv: "pid_var s \<noteq> -1" using representsD(5) [OF r] by blast
  have pcbs: "pcb_of ?u k = (if k = i then (pcb_of s i)\<lparr>saved_esp := esp, saved_ebp := ebp,
      tss_esp0 := tss_reg_esp0 s\<rparr> else pcb_of s k)" if "k < 6" for k
    using that tp(1,3) pv by (simp add: pcb_of_def tp(2) pcb_addr_inj)
  have pid: "sint (pid (pcb_of ?u j)) = int j"
    using representsD(4) [OF sw(1) sch(2)] next_top uint_of_nat_small(2) [OF j] by (simp add: terminal_matches_def)
  obtain out t where o: "resume (pcb_addr (int j)) ?u = (out, t)" by (rule prod.exhaust)
  note rs = resume_state [OF o]
  have uj: "pcb_at ?u (pcb_addr (int j)) = pcb_of s j" using pcbs [OF j] ij by (simp add: pcb_of_def)
  have tk: "pcb_of t k = pcb_of ?u k" for k using rs(2) by (simp add: pcb_of_def)
  show thesis
  proof (rule that [of t])
    show "scheduler esp ebp s = Some (Resumed (saved_esp (pcb_of s j)) (saved_ebp (pcb_of s j)) None, t)"
      using sch(1) next_top p o rs(1) uj by simp
    show "scheduled_terminal t = ?n" "curr_pcb t = pcb_addr (int j)" "tss_reg_esp0 t = tss_esp0 (pcb_of s j)"
      using rs(3,4,7) uj by simp_all
    show "pcb_of t i = (pcb_of s i)\<lparr>saved_esp := esp, saved_ebp := ebp, tss_esp0 := tss_reg_esp0 s\<rparr>"
      unfolding tk using pcbs [OF tp(1)] by simp
    show "pcb_of t k = pcb_of s k" if "k < 6" "k \<noteq> i" for k
      unfolding tk using pcbs [OF that(1)] that(2) by simp
    have "curr_pcb ?u = pcb_addr (int j)" using p sch(3) pcb_addr_nonzero [OF j] by simp
    then have "links t = links ?u" by (simp add: links_def rs(3-5))
    then have "same_control ?u t" using tk by (simp add: same_control_def)
    then show "represents t st" by (rule represents_control [OF sw(1)]) (simp add: rs(6))
    show "tlb t a = tlb (set_up_paging (int j) s) a" if "unat (drop_bit 22 a) = 32" for a
      using tlb_user_window [OF that] pid by (simp add: rs(8) uj [symmetric] pcb_of_def)
  qed
qed

end
