(* ===== verification/Syscall.thy ===== *)
theory Syscall
  imports Processes
begin

text \<open>
  The other calls of \<open>student-distrib/syscall.c\<close> and the dispatch of \<open>syscall_handler.S\<close>: a
  program puts the number of a call in \<open>%eax\<close> and its arguments in \<open>%ebx\<close>, \<open>%ecx\<close> and \<open>%edx\<close>.
\<close>

section \<open>The calls\<close>

text \<open>The sum in the range check is that of 32-bit integers.\<close>

definition getargs :: "u32 \<Rightarrow> u32 \<Rightarrow> kernel \<Rightarrow> int \<times> kernel" where
  "getargs buf nbytes s =
     (if buf = 0 \<or> nbytes = 0 then (-1, s)
      else if sint (buf + nbytes) > 0x8400000 - 4 \<or> sint buf < 0x8000000 then (-1, s)
      else let p = pcb_at s (get_current_pcb s) in
        if argument p 0 = 0 then (-1, s)
        else let b = strncpy (view s buf) (argument p) (unat nbytes)
             in (0, store_bytes buf (map b [0..<unat nbytes]) s))"

definition vidmap :: "u32 \<Rightarrow> kernel \<Rightarrow> int \<times> kernel" where
  "vidmap screen_start s =
     (if screen_start = 0 then (-1, s)
      else if sint screen_start < 0x8000000 \<or> sint screen_start > 0x8400000 - 4 then (-1, s)
      else let s1 = set_user_video_map s;
               display_tid = get_display_tid s1; scheduled_tid = get_scheduled_tid s1;
               s2 = (if display_tid \<noteq> scheduled_tid
                     then let s' = upd_term scheduled_tid (\<lambda>t. t\<lparr>term_vidmap := 1\<rparr>) s1
                          in set_vid_map (video_page (terminal_list s' scheduled_tid)) 1 s'
                     else set_vid_map VIDEO_MEMORY_ADDR 1
                            (upd_term display_tid (\<lambda>t. t\<lparr>term_vidmap := 1\<rparr>) s1));
               s3 = set_up_paging (sint (pid (pcb_at s2 (get_current_pcb s2)))) s2
           in (0, store_bytes screen_start [0x00, 0x00, 0x40, 0x08] s3))"

definition set_handler :: "u32 \<Rightarrow> u32 \<Rightarrow> kernel \<Rightarrow> int \<times> kernel" where
  "set_handler signum handler_address s = (0, s)"

definition sigreturn :: "kernel \<Rightarrow> int \<times> kernel" where
  "sigreturn s = (0, s)"

section \<open>The dispatch\<close>

datatype syscall = Sys_halt | Sys_execute | Sys_read | Sys_write | Sys_open | Sys_close
  | Sys_getargs | Sys_vidmap | Sys_set_handler | Sys_sigreturn

definition syscall_table :: "syscall list" where
  "syscall_table = [Sys_halt, Sys_execute, Sys_read, Sys_write, Sys_open, Sys_close,
     Sys_getargs, Sys_vidmap, Sys_set_handler, Sys_sigreturn]"

abbreviation returning :: "(int \<times> kernel) option \<Rightarrow> (outcome \<times> kernel) option" where
  "returning r \<equiv> map_option (\<lambda>(v, s). (Returned v, s)) r"

definition user_string :: "kernel \<Rightarrow> u32 \<Rightarrow> bytes option" where
  "user_string s p = (if p = 0 then None else Some (view s p))"

text \<open>
  \<open>esp\<close> and \<open>ebp\<close> are the kernel stack pointers of the call, \<open>env\<close> what happens to the kernel
  while a \<open>read\<close> waits.
\<close>

fun call_syscall :: "(nat \<Rightarrow> kernel \<Rightarrow> kernel) \<Rightarrow> u32 \<Rightarrow> u32 \<Rightarrow> syscall \<Rightarrow> u32 \<Rightarrow> u32 \<Rightarrow> u32 \<Rightarrow> kernel
    \<Rightarrow> (outcome \<times> kernel) option" where
  "call_syscall env esp ebp Sys_halt ebx ecx edx s = halt esp ebp (ucast ebx) s"
| "call_syscall env esp ebp Sys_execute ebx ecx edx s = execute esp ebp (user_string s ebx) s"
| "call_syscall env esp ebp Sys_read ebx ecx edx s = returning (read_fd env (sint ebx) ecx edx s)"
| "call_syscall env esp ebp Sys_write ebx ecx edx s = returning (write_fd (sint ebx) ecx edx s)"
| "call_syscall env esp ebp Sys_open ebx ecx edx s = returning (open_fd ebx s)"
| "call_syscall env esp ebp Sys_close ebx ecx edx s = returning (Some (close_fd (sint ebx) s))"
| "call_syscall env esp ebp Sys_getargs ebx ecx edx s = returning (Some (getargs ebx ecx s))"
| "call_syscall env esp ebp Sys_vidmap ebx ecx edx s = returning (Some (vidmap ebx s))"
| "call_syscall env esp ebp Sys_set_handler ebx ecx edx s = returning (Some (set_handler ebx ecx s))"
| "call_syscall env esp ebp Sys_sigreturn ebx ecx edx s = returning (Some (sigreturn s))"

definition syscall_linkage :: "(nat \<Rightarrow> kernel \<Rightarrow> kernel) \<Rightarrow> u32 \<Rightarrow> u32 \<Rightarrow> u32 \<Rightarrow> u32 \<Rightarrow> u32 \<Rightarrow> u32 \<Rightarrow> kernel
    \<Rightarrow> (outcome \<times> kernel) option" where
  "syscall_linkage env esp ebp eax ebx ecx edx s =
     (if sint eax < 1 \<or> sint eax > 10 then Some (Returned (-1), s)
      else call_syscall env esp ebp (syscall_table ! nat (sint eax - 1)) ebx ecx edx s)"

section \<open>getargs\<close>

lemma window_pointer:
  fixes buf n :: u32
  assumes "0x8000000 \<le> unat buf" and "unat buf + unat n \<le> 0x83FFFFC"
  shows "sint buf = int (unat buf)" "sint (buf + n) = int (unat buf + unat n)" "buf \<noteq> 0"
proof -
  have "unat (buf + n) = unat buf + unat n"
    by (rule unat_add_lem [THEN iffD1]) (use assms(2) in simp)
  then show "sint (buf + n) = int (unat buf + unat n)"
    using sint_small [of "buf + n"] assms(2) by simp
  show "sint buf = int (unat buf)" using sint_small [of buf] assms(2) by simp
  show "buf \<noteq> 0" using assms(1) by auto
qed

lemma getargs_copies_aux:
  assumes "0x8000000 \<le> unat buf" and "unat buf + unat n \<le> 0x83FFFFC" and "n \<noteq> 0"
    and "cstr (argument (current s)) arg" and "arg \<noteq> []"
  shows "getargs buf n s = (0, store_bytes buf (take (unat n) (arg @ replicate (unat n) 0)) s)"
proof -
  note w = window_pointer [OF assms(1,2)]
  have "argument (current s) 0 \<noteq> 0" using cstr_nonzero [OF assms(4), of 0] assms(5) by simp
  moreover have "map (strncpy (view s buf) (argument (current s)) (unat n)) [0..<unat n]
      = take (unat n) (arg @ replicate (unat n) 0)"
    by (rule nth_equalityI) (simp_all add: strncpy_apply [OF assms(4)] nth_append)
  moreover have "\<not> sint (buf + n) > 0x8400000 - 4" "\<not> sint buf < 0x8000000"
    using assms(1,2) unfolding w by linarith+
  ultimately show ?thesis
    using assms(3) w(3) by (simp add: getargs_def get_current_pcb_def current_def Let_def)
qed

text \<open>
  \<open>getargs\<close> with a buffer inside the program's memory fills it with the argument of the
  process, padded with zeros and cut to the buffer's size, and returns 0.
\<close>

lemma getargs_copies:
  assumes "0x8000000 \<le> unat buf" and "unat buf + unat n \<le> 0x83FFFFC" and "n \<noteq> 0"
    and "cstr (argument (current s)) arg" and "arg \<noteq> []"
    and "inj_on (\<lambda>k. tlb s (buf + of_nat k)) {..<unat n}"
  shows "\<exists>t. getargs buf n s = (0, t) \<and>
    load_bytes (tlb t) (mem t) buf (unat n) = take (unat n) (arg @ replicate (unat n) 0)"
proof -
  let ?bs = "take (unat n) (arg @ replicate (unat n) 0)"
  have "length ?bs = unat n" by simp
  then have "load_bytes (tlb s) (mem (store_bytes buf ?bs s)) buf (unat n) = ?bs"
    using store_bytes_load [of s buf ?bs] assms(6) by simp
  then show ?thesis using getargs_copies_aux [OF assms(1-5)] by simp
qed

definition sample_argument :: kernel where
  "sample_argument = static_kernel\<lparr>pcb_at := (\<lambda>_. null_pcb\<lparr>argument := array_of [0x61, 0x62]\<rparr>)\<rparr>"

lemma getargs_copies_example:
  "\<exists>t. getargs 0x8000000 4 sample_argument = (0, t) \<and>
    load_bytes (tlb t) (mem t) 0x8000000 (unat (4 :: u32)) = take (unat (4 :: u32)) ([0x61, 0x62] @ replicate (unat (4 :: u32)) 0)"
proof (rule getargs_copies)
  show "cstr (argument (current sample_argument)) [0x61, 0x62]"
    using cstr_array_of [of "[0x61, 0x62]"] by (simp add: sample_argument_def current_def)
  show "inj_on (\<lambda>k. tlb sample_argument (0x8000000 + of_nat k)) {..<unat (4 :: u32)}"
  proof (rule inj_onI)
    fix i j :: nat
    assume "i \<in> {..<unat (4 :: u32)}" "j \<in> {..<unat (4 :: u32)}"
      "tlb sample_argument (0x8000000 + of_nat i) = tlb sample_argument (0x8000000 + of_nat j)"
    then show "i = j" using of_nat_inj_u32 [of i j] by (simp add: sample_argument_def static_kernel_def)
  qed
qed simp_all

lemma getargs_fails:
  "buf = 0 \<or> n = 0 \<or> sint buf < 0x8000000 \<or> argument (current s) 0 = 0 \<Longrightarrow> getargs buf n s = (-1, s)"
  by (auto simp: getargs_def get_current_pcb_def current_def Let_def)

section \<open>vidmap\<close>

text \<open>The frame that the window of the scheduled terminal shows.\<close>

definition shown_page :: "kernel \<Rightarrow> u32" where
  "shown_page s = (if get_display_tid s = get_scheduled_tid s then VIDEO_MEMORY_ADDR
     else video_page (terminal_list s (get_scheduled_tid s)))"

lemma walk_set_up_paging:
  "unat (drop_bit 22 a) \<noteq> 32 \<Longrightarrow> walk (pg (set_up_paging i s)) a = walk (pg s) a"
  by (simp add: set_up_paging_def flush_tlb_def io_defs Let_def walk_def)

lemma vidmap_tables:
  "walk (pg (set_vid_map v 1 (upd_term k f (set_user_video_map s)))) a =
    walk (pg (set_vid_map v 1 (set_user_video_map s))) a"
  by (simp add: set_vid_map_def flush_tlb_def)

lemma vidmap_maps_aux:
  assumes "0x8000000 \<le> unat p" "unat p \<le> 0x83FFFFC"
    and "page_vid_table_addr (pg s) AND 0xFFF = 0" "page_vid_table_addr (pg s) \<noteq> page_table_addr (pg s)"
  obtains t where "vidmap p s = (0, store_bytes p [0x00, 0x00, 0x40, 0x08] t)"
    "\<And>a. 0x8400000 \<le> a \<Longrightarrow> a < 0x8800000 \<Longrightarrow> walk (pg t) a =
      (if a < 0x8401000 then Some ((shown_page s AND 0xFFFFF000) OR (a AND 0xFFF)) else None)"
    "\<And>a. tlb t a = (case walk (pg t) a of Some q \<Rightarrow> q | None \<Rightarrow> a)"
    "term_vidmap (terminal_list t (get_scheduled_tid s)) = 1"
proof -
  let ?s1 = "set_user_video_map s" and ?k = "get_scheduled_tid s"
  have f1: "get_display_tid ?s1 = get_display_tid s" "get_scheduled_tid ?s1 = ?k" "terminal_list ?s1 = terminal_list s"
    by (simp_all add: set_user_video_map_def flush_tlb_def get_display_tid_def get_scheduled_tid_def)
  let ?s2 = "set_vid_map (shown_page s) 1 (upd_term ?k (\<lambda>t. t\<lparr>term_vidmap := 1\<rparr>) ?s1)"
  let ?t = "set_up_paging (sint (pid (pcb_at ?s2 (get_current_pcb ?s2)))) ?s2"
  have w: "sint p = int (unat p)" and nz: "p \<noteq> 0"
    using window_pointer [of p 0] assms(1,2) by auto
  have p0: "\<not> sint p < 0x8000000" "\<not> sint p > 0x8400000 - 4"
    using assms(1,2) unfolding w by linarith+
  show thesis
  proof (rule that [of ?t])
    show "vidmap p s = (0, store_bytes p [0x00, 0x00, 0x40, 0x08] ?t)"
      using p0 nz by (simp add: vidmap_def f1 shown_page_def Let_def)
    show "walk (pg ?t) a = (if a < 0x8401000 then Some ((shown_page s AND 0xFFFFF000) OR (a AND 0xFFF)) else None)"
      if a: "0x8400000 \<le> a" "a < 0x8800000" for a
    proof -
      have "unat (drop_bit 22 a) \<noteq> 32" using video_window_index(1) [OF a] by (simp add: dir_index)
      then show ?thesis
        using walk_set_up_paging vidmap_tables video_window_walk [OF assms(3,4) a] by simp
    qed
    show "tlb ?t a = (case walk (pg ?t) a of Some q \<Rightarrow> q | None \<Rightarrow> a)" for a
      by (simp add: set_up_paging_def flush_tlb_def io_defs Let_def)
    show "term_vidmap (terminal_list ?t ?k) = 1"
      by (simp add: set_vid_map_def flush_tlb_def)
  qed
qed

text \<open>
  C28: \<open>vidmap\<close> maps one page of video memory at 132 MB and nothing else of that 4 MB window:
  the screen when the caller's terminal is displayed, its hidden page otherwise.  It stores the
  address through the pointer, which has to be in the program's memory, and marks the terminal.
\<close>

theorem vidmap_maps:
  assumes "0x8000000 \<le> unat p" "unat p \<le> 0x83FFFFC"
    and "page_vid_table_addr (pg s) AND 0xFFF = 0" "page_vid_table_addr (pg s) \<noteq> page_table_addr (pg s)"
  shows "\<exists>t. vidmap p s = (0, store_bytes p [0x00, 0x00, 0x40, 0x08] t) \<and>
    (\<forall>a. 0x8400000 \<le> a \<longrightarrow> a < 0x8800000 \<longrightarrow> walk (pg t) a =
      (if a < 0x8401000 then Some ((shown_page s AND 0xFFFFF000) OR (a AND 0xFFF)) else None)) \<and>
    (\<forall>a. tlb t a = (case walk (pg t) a of Some q \<Rightarrow> q | None \<Rightarrow> a)) \<and>
    term_vidmap (terminal_list t (get_scheduled_tid s)) = 1"
  by (rule vidmap_maps_aux [OF assms]) blast

theorem vidmap_maps_witness:
  "\<exists>t. vidmap 0x8000010 static_kernel = (0, store_bytes 0x8000010 [0x00, 0x00, 0x40, 0x08] t) \<and>
    walk (pg t) 0x8400010 = Some 0xB8010"
proof -
  obtain t where t: "vidmap 0x8000010 static_kernel = (0, store_bytes 0x8000010 [0x00, 0x00, 0x40, 0x08] t)"
    "\<forall>a. 0x8400000 \<le> a \<longrightarrow> a < 0x8800000 \<longrightarrow> walk (pg t) a =
      (if a < 0x8401000 then Some ((shown_page static_kernel AND 0xFFFFF000) OR (a AND 0xFFF)) else None)"
    using vidmap_maps [of "0x8000010" static_kernel] by (auto simp: static_kernel_def)
  have "shown_page static_kernel = 0xB8000"
    by (simp add: shown_page_def get_display_tid_def get_scheduled_tid_def static_kernel_def
        null_terminal_def VIDEO_MEMORY_ADDR_def)
  then have "walk (pg t) 0x8400010 = Some 0xB8010" using t(2) by simp
  then show ?thesis using t(1) by blast
qed

section \<open>The dispatch\<close>

lemma linkage_call:
  "1 \<le> n \<Longrightarrow> n \<le> 10 \<Longrightarrow> sint eax = int n \<Longrightarrow>
   syscall_linkage env esp ebp eax ebx ecx edx s =
     call_syscall env esp ebp (syscall_table ! (n - 1)) ebx ecx edx s"
  by (simp add: syscall_linkage_def nat_diff_distrib')

text \<open>
  The number in \<open>%eax\<close> selects the call: 1 to 10 are halt, execute, read, write, open,
  close, getargs, vidmap, set_handler and sigreturn in this order; any other number, read as a
  signed value, gives -1 and changes nothing.
\<close>

lemma syscall_numbers:
  "syscall_linkage env esp ebp eax ebx ecx edx s =
    (if eax = 1 then halt esp ebp (ucast ebx) s
     else if eax = 2 then execute esp ebp (if ebx = 0 then None else Some (view s ebx)) s
     else if eax = 3 then returning (read_fd env (sint ebx) ecx edx s)
     else if eax = 4 then returning (write_fd (sint ebx) ecx edx s)
     else if eax = 5 then returning (open_fd ebx s)
     else if eax = 6 then returning (Some (close_fd (sint ebx) s))
     else if eax = 7 then returning (Some (getargs ebx ecx s))
     else if eax = 8 then returning (Some (vidmap ebx s))
     else if eax = 9 then Some (Returned 0, s)
     else if eax = 10 then Some (Returned 0, s)
     else Some (Returned (-1), s))"
proof (cases "sint eax < 1 \<or> sint eax > 10")
  case True
  have "eax \<noteq> of_int v" if "1 \<le> v" "v \<le> 10" for v
  proof
    assume eq: "eax = of_int v"
    have "v \<in> {1, 2, 3, 4, 5, 6, 7, 8, 9, 10}" using that by simp presburger
    then have "sint eax = v" unfolding eq by auto
    then show False using True that by linarith
  qed
  note other = this [of 1] this [of 2] this [of 3] this [of 4] this [of 5] this [of 6] this [of 7]
    this [of 8] this [of 9] this [of 10]
  have "eax \<noteq> 1" "eax \<noteq> 2" "eax \<noteq> 3" "eax \<noteq> 4" "eax \<noteq> 5" "eax \<noteq> 6" "eax \<noteq> 7" "eax \<noteq> 8" "eax \<noteq> 9" "eax \<noteq> 10"
    using other by simp_all
  then show ?thesis using True by (simp add: syscall_linkage_def)
next
  case False
  then have v: "sint eax \<in> {1, 2, 3, 4, 5, 6, 7, 8, 9, 10}" by simp presburger
  have "(of_int n :: u32) \<in> {1, 2, 3, 4, 5, 6, 7, 8, 9, 10}" if "n \<in> {1, 2, 3, 4, 5, 6, 7, 8, 9, 10}" for n
    using that by auto
  from this [OF v] have "eax \<in> {1, 2, 3, 4, 5, 6, 7, 8, 9, 10}" by simp
  then show ?thesis
    by (elim insertE emptyE) (simp_all add: syscall_linkage_def syscall_table_def user_string_def
        set_handler_def sigreturn_def)
qed

end
