(* ===== verification/Idt.thy ===== *)
theory Idt
  imports Processes
begin

text \<open>
  \<open>student-distrib/idt.c\<close>: the exception handlers and the interrupt descriptor table.  The
  handlers are C functions that end the running program with \<open>halt\<close>; their addresses, like
  those of the assembly wrappers, are chosen by the linker and a parameter of \<open>init_idt\<close>.
\<close>

section \<open>The exception handlers\<close>

definition DIVIDE_ERROR_EXC_HANDLER :: "u32 \<Rightarrow> u32 \<Rightarrow> kernel \<Rightarrow> (outcome \<times> kernel) option" where
  "DIVIDE_ERROR_EXC_HANDLER esp ebp s = halt esp ebp 0 (say (''DIVIDE_ERROR_EXC_HANDLER!!'' @ [CHR 0x0A]) s)"

definition DEBUG_EXC_HANDLER :: "u32 \<Rightarrow> u32 \<Rightarrow> kernel \<Rightarrow> (outcome \<times> kernel) option" where
  "DEBUG_EXC_HANDLER esp ebp s = halt esp ebp 0 (say (''DEBUG_EXC_HANDLER!!'' @ [CHR 0x0A]) s)"

definition NMI_INTERRUPT_HANDLER :: "u32 \<Rightarrow> u32 \<Rightarrow> kernel \<Rightarrow> (outcome \<times> kernel) option" where
  "NMI_INTERRUPT_HANDLER esp ebp s = halt esp ebp 0 (say (''NMI_INTERRUPT_HANDLER!!'' @ [CHR 0x0A]) s)"

definition BREAKPOINT_EXC_HANDLER :: "u32 \<Rightarrow> u32 \<Rightarrow> kernel \<Rightarrow> (outcome \<times> kernel) option" where
  "BREAKPOINT_EXC_HANDLER esp ebp s = halt esp ebp 0 (say (''BREAKPOINT_EXC_HANDLER!!'' @ [CHR 0x0A]) s)"

definition OVERFLOW_EXC_HANDLER :: "u32 \<Rightarrow> u32 \<Rightarrow> kernel \<Rightarrow> (outcome \<times> kernel) option" where
  "OVERFLOW_EXC_HANDLER esp ebp s = halt esp ebp 0 (say (''OVERFLOW_EXC_HANDLER!!'' @ [CHR 0x0A]) s)"

definition BOUND_RANGE_EXCEEDED_EXC_HANDLER :: "u32 \<Rightarrow> u32 \<Rightarrow> kernel \<Rightarrow> (outcome \<times> kernel) option" where
  "BOUND_RANGE_EXCEEDED_EXC_HANDLER esp ebp s = halt esp ebp 0 (say (''BOUND_RANGE_EXCEEDED_EXC_HANDLER!!'' @ [CHR 0x0A]) s)"

definition INVALID_OPCODE_EXC_HANDLER :: "u32 \<Rightarrow> u32 \<Rightarrow> kernel \<Rightarrow> (outcome \<times> kernel) option" where
  "INVALID_OPCODE_EXC_HANDLER esp ebp s = halt esp ebp 0 (say (''INVALID_OPCODE_EXC_HANDLER!!'' @ [CHR 0x0A]) s)"

definition DEVICE_NOT_AVAILABLE_EXC_HANDLER :: "u32 \<Rightarrow> u32 \<Rightarrow> kernel \<Rightarrow> (outcome \<times> kernel) option" where
  "DEVICE_NOT_AVAILABLE_EXC_HANDLER esp ebp s = halt esp ebp 0 (say (''DEVICE_NOT_AVAILABLE_EXC_HANDLER!!'' @ [CHR 0x0A]) s)"

definition DOUBLE_FAULT_EXC_HANDLER :: "u32 \<Rightarrow> u32 \<Rightarrow> kernel \<Rightarrow> (outcome \<times> kernel) option" where
  "DOUBLE_FAULT_EXC_HANDLER esp ebp s = halt esp ebp 0 (say (''DOUBLE_FAULT_EXC_HANDLER!!'' @ [CHR 0x0A]) s)"

definition COPROCESSOR_SEGMENT_OVERRUN_HANDLER :: "u32 \<Rightarrow> u32 \<Rightarrow> kernel \<Rightarrow> (outcome \<times> kernel) option" where
  "COPROCESSOR_SEGMENT_OVERRUN_HANDLER esp ebp s = halt esp ebp 0 (say (''COPROCESSOR_SEGMENT_OVERRUN_HANDLER!!'' @ [CHR 0x0A]) s)"

definition INVALID_TSS_EXC_HANDLER :: "u32 \<Rightarrow> u32 \<Rightarrow> kernel \<Rightarrow> (outcome \<times> kernel) option" where
  "INVALID_TSS_EXC_HANDLER esp ebp s = halt esp ebp 0 (say (''INVALID_TSS_EXC_HANDLER!!'' @ [CHR 0x0A]) s)"

definition SEGMENT_NOT_PRESENT_HANDLER :: "u32 \<Rightarrow> u32 \<Rightarrow> kernel \<Rightarrow> (outcome \<times> kernel) option" where
  "SEGMENT_NOT_PRESENT_HANDLER esp ebp s = halt esp ebp 0 (say (''SEGMENT_NOT_PRESENT_HANDLER!!'' @ [CHR 0x0A]) s)"

definition STACK_FAULT_EXCEPTION_HANDLER :: "u32 \<Rightarrow> u32 \<Rightarrow> kernel \<Rightarrow> (outcome \<times> kernel) option" where
  "STACK_FAULT_EXCEPTION_HANDLER esp ebp s = halt esp ebp 0 (say (''STACK_FAULT_EXCEPTION_HANDLER!!'' @ [CHR 0x0A]) s)"

definition GENERAL_PROTECTION_EXC_HANDLER :: "u32 \<Rightarrow> u32 \<Rightarrow> kernel \<Rightarrow> (outcome \<times> kernel) option" where
  "GENERAL_PROTECTION_EXC_HANDLER esp ebp s = halt esp ebp 0 (say (''GENERAL_PROTECTION_EXC_HANDLER!!'' @ [CHR 0x0A]) s)"

definition PAGE_FAULT_EXC_HANDLER :: "u32 \<Rightarrow> u32 \<Rightarrow> kernel \<Rightarrow> (outcome \<times> kernel) option" where
  "PAGE_FAULT_EXC_HANDLER esp ebp s = halt esp ebp 0 (say (''PAGE_FAULT_EXC_HANDLER!!'' @ [CHR 0x0A]) s)"

definition PRESERVED_HANDLER :: "u32 \<Rightarrow> u32 \<Rightarrow> kernel \<Rightarrow> (outcome \<times> kernel) option" where
  "PRESERVED_HANDLER esp ebp s = halt esp ebp 0 (say (''PRESERVED_HANDLER!!'' @ [CHR 0x0A]) s)"

definition X87_FPU_FLOATING_POINT_ERROR_HANDLER :: "u32 \<Rightarrow> u32 \<Rightarrow> kernel \<Rightarrow> (outcome \<times> kernel) option" where
  "X87_FPU_FLOATING_POINT_ERROR_HANDLER esp ebp s = halt esp ebp 0 (say (''X87_FPU_FLOATING_POINT_ERROR_HANDLER!!'' @ [CHR 0x0A]) s)"

definition ALIGNMENT_CHECK_EXC_HANDLER :: "u32 \<Rightarrow> u32 \<Rightarrow> kernel \<Rightarrow> (outcome \<times> kernel) option" where
  "ALIGNMENT_CHECK_EXC_HANDLER esp ebp s = halt esp ebp 0 (say (''ALIGNMENT_CHECK_EXC_HANDLER!!'' @ [CHR 0x0A]) s)"

definition MACHINE_CHECK_EXC_HANDLER :: "u32 \<Rightarrow> u32 \<Rightarrow> kernel \<Rightarrow> (outcome \<times> kernel) option" where
  "MACHINE_CHECK_EXC_HANDLER esp ebp s = halt esp ebp 0 (say (''MACHINE_CHECK_EXC_HANDLER!!'' @ [CHR 0x0A]) s)"

definition SIMD_FLOATING_POINT_EXC_HANDLER :: "u32 \<Rightarrow> u32 \<Rightarrow> kernel \<Rightarrow> (outcome \<times> kernel) option" where
  "SIMD_FLOATING_POINT_EXC_HANDLER esp ebp s = halt esp ebp 0 (say (''SIMD_FLOATING_POINT_EXC_HANDLER!!'' @ [CHR 0x0A]) s)"

definition exception_handler_table :: "(u32 \<Rightarrow> u32 \<Rightarrow> kernel \<Rightarrow> (outcome \<times> kernel) option) list" where
  "exception_handler_table = [
     DIVIDE_ERROR_EXC_HANDLER,
     DEBUG_EXC_HANDLER,
     NMI_INTERRUPT_HANDLER,
     BREAKPOINT_EXC_HANDLER,
     OVERFLOW_EXC_HANDLER,
     BOUND_RANGE_EXCEEDED_EXC_HANDLER,
     INVALID_OPCODE_EXC_HANDLER,
     DEVICE_NOT_AVAILABLE_EXC_HANDLER,
     DOUBLE_FAULT_EXC_HANDLER,
     COPROCESSOR_SEGMENT_OVERRUN_HANDLER,
     INVALID_TSS_EXC_HANDLER,
     SEGMENT_NOT_PRESENT_HANDLER,
     STACK_FAULT_EXCEPTION_HANDLER,
     GENERAL_PROTECTION_EXC_HANDLER,
     PAGE_FAULT_EXC_HANDLER,
     PRESERVED_HANDLER,
     X87_FPU_FLOATING_POINT_ERROR_HANDLER,
     ALIGNMENT_CHECK_EXC_HANDLER,
     MACHINE_CHECK_EXC_HANDLER,
     SIMD_FLOATING_POINT_EXC_HANDLER]"

lemmas exception_handler_defs =
  DIVIDE_ERROR_EXC_HANDLER_def DEBUG_EXC_HANDLER_def
  NMI_INTERRUPT_HANDLER_def BREAKPOINT_EXC_HANDLER_def
  OVERFLOW_EXC_HANDLER_def BOUND_RANGE_EXCEEDED_EXC_HANDLER_def
  INVALID_OPCODE_EXC_HANDLER_def DEVICE_NOT_AVAILABLE_EXC_HANDLER_def
  DOUBLE_FAULT_EXC_HANDLER_def COPROCESSOR_SEGMENT_OVERRUN_HANDLER_def
  INVALID_TSS_EXC_HANDLER_def SEGMENT_NOT_PRESENT_HANDLER_def
  STACK_FAULT_EXCEPTION_HANDLER_def GENERAL_PROTECTION_EXC_HANDLER_def
  PAGE_FAULT_EXC_HANDLER_def PRESERVED_HANDLER_def
  X87_FPU_FLOATING_POINT_ERROR_HANDLER_def ALIGNMENT_CHECK_EXC_HANDLER_def
  MACHINE_CHECK_EXC_HANDLER_def SIMD_FLOATING_POINT_EXC_HANDLER_def

section \<open>The descriptor table (x86_desc.h)\<close>

record idt_desc =
  offset_15_00 :: u16
  seg_selector :: u16
  reserved4 :: u8
  reserved3 :: bool
  reserved2 :: bool
  reserved1 :: bool
  gate_size :: bool
  reserved0 :: bool
  gate_dpl :: "2 word"
  gate_present :: bool
  offset_31_16 :: u16

definition SET_IDT_ENTRY :: "u32 \<Rightarrow> idt_desc \<Rightarrow> idt_desc" where
  "SET_IDT_ENTRY handler d =
     d\<lparr>offset_31_16 := ucast (drop_bit 16 (handler AND 0xFFFF0000)),
       offset_15_00 := ucast (handler AND 0xFFFF)\<rparr>"

datatype handler = Exception nat | Pit_wrapper | Keyb_wrapper | Rtc_wrapper | Syscall_linkage

type_synonym idt = "nat \<Rightarrow> idt_desc"

definition upd_gate :: "nat \<Rightarrow> (idt_desc \<Rightarrow> idt_desc) \<Rightarrow> idt \<Rightarrow> idt" where
  "upd_gate i f t = t(i := f (t i))"

definition blank_gate :: "idt_desc \<Rightarrow> idt_desc" where
  "blank_gate d = d\<lparr>seg_selector := 0x10, reserved4 := 0, gate_size := True, reserved3 := True,
     reserved2 := True, reserved1 := True, reserved0 := False, gate_dpl := 0, gate_present := True\<rparr>"

definition init_idt :: "(handler \<Rightarrow> u32) \<Rightarrow> idt \<Rightarrow> idt" where
  "init_idt addr t0 =
     (let t1 = for_loop 256 (\<lambda>i. upd_gate i blank_gate) t0;
          t2 = for_loop 20 (\<lambda>i. upd_gate i (SET_IDT_ENTRY (addr (Exception i)))) t1;
          t3 = for_loop (32 - 20) (\<lambda>i. upd_gate (20 + i) (SET_IDT_ENTRY (addr (Exception 15)))) t2;
          t4 = upd_gate 0x20 (\<lambda>d. SET_IDT_ENTRY (addr Pit_wrapper) (d\<lparr>reserved3 := False\<rparr>)) t3;
          t5 = upd_gate 0x21 (\<lambda>d. SET_IDT_ENTRY (addr Keyb_wrapper) (d\<lparr>reserved3 := False\<rparr>)) t4;
          t6 = upd_gate 0x28 (\<lambda>d. SET_IDT_ENTRY (addr Rtc_wrapper) (d\<lparr>reserved3 := False\<rparr>)) t5
      in upd_gate 0x80 (\<lambda>d. SET_IDT_ENTRY (addr Syscall_linkage) (d\<lparr>gate_dpl := 3\<rparr>)) t6)"

section \<open>What the processor reads\<close>

text \<open>
  The structure is packed into two 32-bit words, fields from the lowest bit up.  The processor
  reads a gate from these words: the address of the handler from two halves, the code
  segment, the type of the gate, the privilege a program needs to call it and the present bit.
\<close>

definition gate_words :: "idt_desc \<Rightarrow> u32 \<times> u32" where
  "gate_words d =
     (ucast (offset_15_00 d) OR push_bit 16 (ucast (seg_selector d)),
      ucast (reserved4 d) OR of_bool (reserved3 d) * 0x100 OR of_bool (reserved2 d) * 0x200
      OR of_bool (reserved1 d) * 0x400 OR of_bool (gate_size d) * 0x800
      OR of_bool (reserved0 d) * 0x1000 OR push_bit 13 (ucast (gate_dpl d))
      OR of_bool (gate_present d) * 0x8000 OR push_bit 16 (ucast (offset_31_16 d)))"

datatype gate_kind = Interrupt_gate | Trap_gate | Other_gate

record gate =
  target :: u32
  selector :: u32
  kind :: gate_kind
  privilege :: u32
  valid :: bool

definition read_gate :: "u32 \<times> u32 \<Rightarrow> gate" where
  "read_gate w =
     (let (w0, w1) = w; t = drop_bit 8 w1 AND 0x1F in
      \<lparr>target = (w1 AND 0xFFFF0000) OR (w0 AND 0xFFFF), selector = drop_bit 16 w0,
       kind = (if t = 0xE then Interrupt_gate else if t = 0xF then Trap_gate else Other_gate),
       privilege = drop_bit 13 w1 AND 3, valid = bit w1 15\<rparr>)"

lemma bit_of_bool_mult: "bit (of_bool b * 2 ^ k :: u32) n \<longleftrightarrow> b \<and> n = k \<and> k < 32"
  by (cases b) (auto simp: bit_exp_iff)

lemma gate_bits:
  "bit (snd (gate_words d)) n \<longleftrightarrow> n < 32 \<and>
     (if n < 8 then bit (reserved4 d) n else if n = 8 then reserved3 d else if n = 9 then reserved2 d
      else if n = 10 then reserved1 d else if n = 11 then gate_size d else if n = 12 then reserved0 d
      else if n < 15 then bit (gate_dpl d) (n - 13) else if n = 15 then gate_present d
      else bit (offset_31_16 d) (n - 16))"
  "bit (fst (gate_words d)) n \<longleftrightarrow> n < 32 \<and>
     (if n < 16 then bit (offset_15_00 d) n else bit (seg_selector d) (n - 16))"
proof -
  have m: "(0x100 :: u32) = 2 ^ 8" "(0x200 :: u32) = 2 ^ 9" "(0x400 :: u32) = 2 ^ 10"
    "(0x800 :: u32) = 2 ^ 11" "(0x1000 :: u32) = 2 ^ 12" "(0x8000 :: u32) = 2 ^ 15"
    by simp_all
  show "bit (snd (gate_words d)) n \<longleftrightarrow> n < 32 \<and>
     (if n < 8 then bit (reserved4 d) n else if n = 8 then reserved3 d else if n = 9 then reserved2 d
      else if n = 10 then reserved1 d else if n = 11 then gate_size d else if n = 12 then reserved0 d
      else if n < 15 then bit (gate_dpl d) (n - 13) else if n = 15 then gate_present d
      else bit (offset_31_16 d) (n - 16))"
    unfolding gate_words_def snd_conv m
    by (simp only: bit_or_iff bit_of_bool_mult bit_push_bit_iff bit_unsigned_iff)
      (auto dest: bit_imp_le_length)
  show "bit (fst (gate_words d)) n \<longleftrightarrow> n < 32 \<and>
     (if n < 16 then bit (offset_15_00 d) n else bit (seg_selector d) (n - 16))"
    unfolding gate_words_def fst_conv
    by (simp only: bit_or_iff bit_push_bit_iff bit_unsigned_iff) (auto dest: bit_imp_le_length)
qed

lemma hi_mask: "(0xFFFF0000 :: u32) = NOT (mask 16)" and lo_mask: "(0xFFFF :: u32) = mask 16"
  by (simp_all add: mask_eq_exp_minus_1)

lemma gate_target:
  "target (read_gate (gate_words (SET_IDT_ENTRY h d))) = h"
proof (rule bit_word_eqI)
  fix n assume n: "n < LENGTH(32)"
  have "bit (target (read_gate (gate_words (SET_IDT_ENTRY h d)))) n \<longleftrightarrow>
      (if n < 16 then bit (fst (gate_words (SET_IDT_ENTRY h d))) n
       else bit (snd (gate_words (SET_IDT_ENTRY h d))) n)"
    using n by (simp add: read_gate_def split_beta Let_def hi_mask lo_mask bit_simps)
  also have "\<dots> = bit h n"
    using n by (auto simp: gate_bits SET_IDT_ENTRY_def hi_mask lo_mask bit_simps)
  finally show "bit (target (read_gate (gate_words (SET_IDT_ENTRY h d)))) n = bit h n" .
qed

lemma bit_gate_type:
  "bit (drop_bit 8 (snd (gate_words d)) AND 0x1F) n \<longleftrightarrow>
    (n = 0 \<and> reserved3 d) \<or> (n = 1 \<and> reserved2 d) \<or> (n = 2 \<and> reserved1 d) \<or>
    (n = 3 \<and> gate_size d) \<or> (n = 4 \<and> reserved0 d)"
proof -
  have m: "(0x1F :: u32) = mask 5" by (simp add: mask_eq_exp_minus_1)
  have "n < 5 \<Longrightarrow> n = 0 \<or> n = 1 \<or> n = 2 \<or> n = 3 \<or> n = 4" by linarith
  then show ?thesis unfolding m by (auto simp: bit_simps gate_bits)
qed

lemma bit_small_words:
  "bit (0xF :: u32) n \<longleftrightarrow> n = 0 \<or> n = 1 \<or> n = 2 \<or> n = 3"
  "bit (0xE :: u32) n \<longleftrightarrow> n = 1 \<or> n = 2 \<or> n = 3"
proof -
  have "(0xF :: u32) = mask 4" by (simp add: mask_eq_exp_minus_1)
  then show F: "bit (0xF :: u32) n \<longleftrightarrow> n = 0 \<or> n = 1 \<or> n = 2 \<or> n = 3"
    by (simp only: bit_mask_iff) auto
  have "(0xE :: u32) = mask 4 AND NOT (mask 1)" by (simp add: mask_eq_exp_minus_1)
  then show "bit (0xE :: u32) n \<longleftrightarrow> n = 1 \<or> n = 2 \<or> n = 3"
    by (simp only: bit_and_iff bit_not_iff bit_mask_iff) auto
qed

lemma gate_kind_bits:
  assumes "reserved2 d" "reserved1 d" "gate_size d" "\<not> reserved0 d"
  shows "drop_bit 8 (snd (gate_words d)) AND 0x1F = (if reserved3 d then 0xF else 0xE)"
  by (rule bit_word_eqI, cases "reserved3 d"; simp only: bit_gate_type bit_small_words if_True if_False assms) blast+

lemma gate_selector: "selector (read_gate (gate_words d)) = ucast (seg_selector d)"
  by (rule bit_word_eqI) (auto simp: read_gate_def split_beta Let_def bit_simps gate_bits dest: bit_imp_le_length)

lemma gate_privilege: "privilege (read_gate (gate_words d)) = ucast (gate_dpl d)"
proof (rule bit_word_eqI)
  fix n assume "n < LENGTH(32)"
  have m: "(3 :: u32) = mask 2" by (simp add: mask_eq_exp_minus_1)
  show "bit (privilege (read_gate (gate_words d))) n = bit (ucast (gate_dpl d) :: u32) n"
    unfolding read_gate_def split_beta Let_def m
    by (auto simp: bit_simps gate_bits dest: bit_imp_le_length)
qed

definition plain_gate :: "idt_desc \<Rightarrow> bool" where
  "plain_gate d \<longleftrightarrow> reserved2 d \<and> reserved1 d \<and> gate_size d \<and> \<not> reserved0 d \<and> gate_present d \<and>
     seg_selector d = 0x10"

lemma read_gate_entry:
  assumes "plain_gate d"
  shows "read_gate (gate_words (SET_IDT_ENTRY h d)) =
    \<lparr>target = h, selector = 0x10, kind = (if reserved3 d then Trap_gate else Interrupt_gate),
     privilege = ucast (gate_dpl d), valid = True\<rparr>"
proof -
  let ?d = "SET_IDT_ENTRY h d"
  have f: "reserved2 ?d" "reserved1 ?d" "gate_size ?d" "\<not> reserved0 ?d" "reserved3 ?d = reserved3 d"
    "gate_present ?d" "seg_selector ?d = 0x10" "gate_dpl ?d = gate_dpl d"
    using assms by (simp_all add: plain_gate_def SET_IDT_ENTRY_def)
  have "kind (read_gate (gate_words ?d)) = (if reserved3 d then Trap_gate else Interrupt_gate)"
    using gate_kind_bits [OF f(1-4)] f(5) by (simp add: read_gate_def split_beta Let_def)
  moreover have "valid (read_gate (gate_words ?d))"
    using f(6) by (simp add: read_gate_def split_beta Let_def gate_bits)
  ultimately show ?thesis
    using gate_target [of h d] gate_selector [of ?d] gate_privilege [of ?d] f(7,8)
    by (intro gate.equality) simp_all
qed

section \<open>The table after init_idt\<close>

lemma upd_gate_loop:
  "for_loop n (\<lambda>i. upd_gate (k + i) (f i)) t j = (if k \<le> j \<and> j < k + n then f (j - k) (t j) else t j)"
  by (induction n) (auto simp: upd_gate_def less_Suc_eq)

lemma init_idt_entry:
  assumes "i < 256"
  shows "init_idt addr t i =
    (if i < 20 then SET_IDT_ENTRY (addr (Exception i)) (blank_gate (t i))
     else if i < 32 then SET_IDT_ENTRY (addr (Exception 15)) (blank_gate (t i))
     else if i = 0x20 then SET_IDT_ENTRY (addr Pit_wrapper) ((blank_gate (t i))\<lparr>reserved3 := False\<rparr>)
     else if i = 0x21 then SET_IDT_ENTRY (addr Keyb_wrapper) ((blank_gate (t i))\<lparr>reserved3 := False\<rparr>)
     else if i = 0x28 then SET_IDT_ENTRY (addr Rtc_wrapper) ((blank_gate (t i))\<lparr>reserved3 := False\<rparr>)
     else if i = 0x80 then SET_IDT_ENTRY (addr Syscall_linkage) ((blank_gate (t i))\<lparr>gate_dpl := 3\<rparr>)
     else blank_gate (t i))"
proof -
  note loops = upd_gate_loop [where k = 0, simplified] upd_gate_loop
  show ?thesis using assms unfolding init_idt_def Let_def by (simp add: loops upd_gate_def del: for_loop.simps)
qed

definition gate_to :: "u32 \<Rightarrow> gate_kind \<Rightarrow> u32 \<Rightarrow> gate" where
  "gate_to h k p = \<lparr>target = h, selector = 0x10, kind = k, privilege = p, valid = True\<rparr>"

lemma only_syscall_is_callable:
  "i < 256 \<Longrightarrow> privilege (read_gate (gate_words (init_idt addr t i))) = (if i = 0x80 then 3 else 0)"
  by (simp add: gate_privilege init_idt_entry SET_IDT_ENTRY_def blank_gate_def)

text \<open>
  C31: after \<open>init_idt\<close> the processor finds the handler of each of the 20 exceptions at its vector
  and \<open>PRESERVED_HANDLER\<close> at the other twelve, the three device wrappers behind interrupt gates
  (interrupts stay off while they run) at 0x20, 0x21 and 0x28, and the system call linkage at
  0x80.  Of all the 256 vectors this is the only one whose gate has privilege level 3, so the only
  one that a user program may call.
\<close>

theorem init_idt_gates:
  "map (\<lambda>i. read_gate (gate_words (init_idt addr t i))) ([0..<33] @ [0x21, 0x28, 0x80]) =
    map (\<lambda>i. gate_to (addr (Exception i)) Trap_gate 0) [0..<20] @
    map (\<lambda>_. gate_to (addr (Exception 15)) Trap_gate 0) [20..<32] @
    [gate_to (addr Pit_wrapper) Interrupt_gate 0, gate_to (addr Keyb_wrapper) Interrupt_gate 0,
     gate_to (addr Rtc_wrapper) Interrupt_gate 0, gate_to (addr Syscall_linkage) Trap_gate 3] \<and>
   map (\<lambda>i. privilege (read_gate (gate_words (init_idt addr t i)))) [0..<256] =
    map (\<lambda>i. if i = 0x80 then 3 else 0) [0..<256]"
proof -
  have p: "plain_gate (blank_gate d)" "plain_gate ((blank_gate d)\<lparr>reserved3 := b\<rparr>)"
    "plain_gate ((blank_gate d)\<lparr>gate_dpl := v\<rparr>)" for d b v
    by (simp_all add: plain_gate_def blank_gate_def)
  have f: "reserved3 (blank_gate d)" "gate_dpl (blank_gate d) = 0" for d by (simp_all add: blank_gate_def)
  note read = init_idt_entry read_gate_entry [OF p(1)] read_gate_entry [OF p(2)] read_gate_entry [OF p(3)] f gate_to_def
  have "map (\<lambda>i. read_gate (gate_words (init_idt addr t i))) [0..<20] =
      map (\<lambda>i. gate_to (addr (Exception i)) Trap_gate 0) [0..<20]"
    by (rule map_cong [OF refl]) (simp add: read)
  moreover have "map (\<lambda>i. read_gate (gate_words (init_idt addr t i))) [20..<32] =
      map (\<lambda>_. gate_to (addr (Exception 15)) Trap_gate 0) [20..<32]"
    by (rule map_cong [OF refl]) (auto simp: read)
  moreover have "[0..<33] = [0..<20] @ [20..<32] @ [32]"
    by (simp add: upt_conv_Cons)
  moreover have "map (\<lambda>i. privilege (read_gate (gate_words (init_idt addr t i)))) [0..<256] =
      map (\<lambda>i. if i = 0x80 then 3 else 0) [0..<256]"
    by (rule map_cong [OF refl]) (simp only: set_upt atLeastLessThan_iff only_syscall_is_callable)
  ultimately show ?thesis by (simp only: map_append list.map) (simp add: read)
qed

end
