(* ===== verification/Kernel_Steps.thy ===== *)
theory Kernel_Steps
  imports Process_Stacks Syscall Idt
begin

text \<open>
  The kernel as a state machine.  A step is one entry into the kernel carried out to its end:
  a system call, an exception, a timer tick, a key, a tick of the real time clock, or the first
  \<open>execute\<close> after booting.  Only the reads that wait are cut in two, so that everything else can
  happen while they wait.  Every state of an orderly history represents stacks of processes.
\<close>

section \<open>The timer interrupt (pit.c)\<close>

definition pit_intr_handler :: "u32 \<Rightarrow> u32 \<Rightarrow> kernel \<Rightarrow> (outcome \<times> kernel) option" where
  "pit_intr_handler esp ebp s = scheduler esp ebp (memory_switch (send_eoi 0 s))"

section \<open>What the handlers and calls leave alone\<close>

definition control :: "kernel \<Rightarrow> (u32 \<Rightarrow> u32 \<times> u32 \<times> nat \<times> u32 \<times> u32) \<times>
    (u32 \<times> nat \<times> (nat \<Rightarrow> nat \<times> u32 \<times> u32 \<times> nat option)) \<times> int" where
  "control s = ((\<lambda>a. let p = pcb_at s a in (pid p, parent_id p, pcb_tid p, esp0 p, active p)), links s, pid_var s)"

lemma control_same:
  assumes "control s = control t"
  shows "same_control s t" "pid_var s = pid_var t"
proof -
  have "fst (control s) (pcb_addr (int i)) = fst (control t) (pcb_addr (int i))" for i
    using assms by simp
  then show "same_control s t"
    using assms by (simp add: control_def same_control_def pcb_of_def Let_def)
  show "pid_var s = pid_var t" using assms by (simp add: control_def)
qed

lemma control_represents: "represents s st \<Longrightarrow> control s = control t \<Longrightarrow> represents t st"
  using represents_control control_same by metis

lemma control_beside: "beside_screen s = beside_screen t \<Longrightarrow> control s = control t"
proof -
  assume b: "beside_screen s = beside_screen t"
  show ?thesis using links_beside [OF b] beside_eqD(13,14) [OF b] by (simp add: control_def)
qed

lemma control_putc [simp]: "control (putc c s) = control s" "control (fold putc cs s) = control s"
  "control (say m s) = control s" "control (clear s) = control s"
  by (rule control_beside, simp)+

lemma control_fields [simp]:
  "control (s\<lparr>con := c\<rparr>) = control s" "control (s\<lparr>kb := k\<rparr>) = control s" "control (s\<lparr>mem := m\<rparr>) = control s"
  "control (s\<lparr>pg := p\<rparr>) = control s" "control (s\<lparr>tlb := l\<rparr>) = control s" "control (s\<lparr>fs := f\<rparr>) = control s"
  "control (s\<lparr>curr_terminal_num := n\<rparr>) = control s" "control (s\<lparr>irqs := q\<rparr>) = control s"
  "control (s\<lparr>terminal_read_enable_signal := b\<rparr>) = control s" "control (s\<lparr>outs := os\<rparr>) = control s"
  "control (s\<lparr>intr_flag := b\<rparr>) = control s" "control (s\<lparr>line_rows := rows\<rparr>) = control s" "control (s\<lparr>rtc_interrupt_occurred := x\<rparr>) = control s"
  "control (s\<lparr>rtc_interrupt_counter := x\<rparr>) = control s"
  by (simp_all add: control_def links_def)

lemma control_term [simp]:
  "(\<And>x. tid (f x) = tid x \<and> pcb_ptr (f x) = pcb_ptr x \<and> count_pcb (f x) = count_pcb x \<and>
     next_terminal (f x) = next_terminal x) \<Longrightarrow> control (upd_term i f s) = control s"
  by (simp add: control_def links_def Let_def fun_eq_iff)

lemma control_pcb [simp]:
  "(\<And>p. pid (f p) = pid p \<and> parent_id (f p) = parent_id p \<and> pcb_tid (f p) = pcb_tid p \<and>
     esp0 (f p) = esp0 p \<and> active (f p) = active p) \<Longrightarrow> control (upd_pcb a f s) = control s"
  by (simp add: control_def links_def Let_def fun_eq_iff)

lemma control_st8 [simp]: "control (st8 a v s) = control s"
  by (simp add: st8_def)

lemma control_io [simp]:
  "control (cli s) = control s" "control (sti s) = control s" "control (outb d p s) = control s"
  "control (send_eoi n s) = control s" "control (store_bytes a bs s) = control s"
  "control (flush_tlb s) = control s" "control (set_up_paging i s) = control s"
  "control (set_vid_map v pr s) = control s" "control (set_user_video_map s) = control s"
proof -
  show "control (store_bytes a bs s) = control s" by (induction bs arbitrary: a s) simp_all
qed (simp_all add: kernel_simps send_eoi_def flush_tlb_def set_up_paging_def set_vid_map_def
  set_user_video_map_def Let_def)

lemma control_terminal [simp]:
  "control (memory_switch s) = control s" "control (update_video_mem a s) = control s"
  "control (update_screen_x_y x y s) = control s" "control (swap_video n s) = control s"
  "control (clean_keyb_buffer s) = control s" "control (update_keyb_buf b i s) = control s"
  "control (swap_keyboard n s) = control s" "control (set_keyb_pressed s) = control s"
  "control (set_signal_enable s) = control s"
  by (simp_all add: memory_switch_def update_video_mem_def update_screen_x_y_def swap_video_def
      clean_keyb_buffer_def update_keyb_buf_def swap_keyboard_def set_keyb_pressed_def
      set_signal_enable_def Let_def split: option.split)

lemma control_switch [simp]: "control (terminal_switch n s) = control s"
  by (simp add: terminal_switch_def Let_def)

lemma control_keyboard [simp]: "control (keyb_intr_handler s) = control s"
proof -
  have "control (type_char c s) = control s" for c s by (simp add: type_char_def Let_def)
  then have plain: "control (plain_key code s) = control s" for code s by (simp add: plain_key_def Let_def)
  have "control (keyb_end s) = control s" for s by (simp add: keyb_end_def Let_def)
  then show ?thesis using plain by (simp add: keyb_intr_handler_def Let_def split: option.split)
qed

lemma tick_from_control:
  "pid (tick_from i k p) = pid p \<and> parent_id (tick_from i k p) = parent_id p \<and>
   pcb_tid (tick_from i k p) = pcb_tid p \<and> esp0 (tick_from i k p) = esp0 p \<and> active (tick_from i k p) = active p"
  by (induction k arbitrary: i) simp_all

lemma control_rtc [simp]: "control (rtc_intr_handler s) = control s"
proof -
  have "control (rtc_tick i s) = control s" for i s by (simp add: rtc_tick_def Let_def tick_from_control)
  then have "control (for_loop 6 rtc_tick s) = control s" for s by (intro for_loop_frame) simp
  then show ?thesis by (simp add: rtc_intr_handler_def Let_def)
qed

section \<open>The calls that return\<close>

text \<open>
  What may happen to the kernel within a \<open>read\<close> that is one step: handlers that return to it.  (A
  \<open>read\<close> whose process is suspended while it waits is the subject of two steps of their own.)
\<close>

definition interrupts_only :: "(nat \<Rightarrow> kernel \<Rightarrow> kernel) \<Rightarrow> bool" where
  "interrupts_only env \<longleftrightarrow> (\<forall>k s. env k s \<in> {s, keyb_intr_handler s, rtc_intr_handler s})"

lemma control_env: "interrupts_only env \<Longrightarrow> control (env k s) = control s"
proof -
  assume "interrupts_only env"
  then have "env k s \<in> {s, keyb_intr_handler s, rtc_intr_handler s}" by (simp add: interrupts_only_def)
  then show ?thesis by auto
qed

lemma control_read_wait:
  assumes "interrupts_only env" and "read_wait env k s = Some t"
  shows "control t = control s"
proof -
  have "interrupts_only env \<longrightarrow> control t = control s"
    using _ assms(2)
  proof (rule read_wait.raw_induct [where P = "\<lambda>e k s t. interrupts_only e \<longrightarrow> control t = control s"])
    fix f e k s t
    assume IH: "\<And>e k s t. f e k s = Some t \<Longrightarrow> interrupts_only e \<longrightarrow> control t = control s"
    and body: "(if \<not> read_allowed s then f e (k + 1) (e k s) else Some s) = Some t"
    then show "interrupts_only e \<longrightarrow> control t = control s"
      using control_env by (auto split: if_splits)
  qed
  then show ?thesis using assms(1) by simp
qed

lemma control_rtc_wait:
  assumes "interrupts_only env" and "rtc_wait env k p fd s = Some t"
  shows "control t = control s"
proof -
  have "interrupts_only env \<longrightarrow> control t = control s"
    using _ assms(2)
  proof (rule rtc_wait.raw_induct [where P = "\<lambda>e k p fd s t. interrupts_only e \<longrightarrow> control t = control s"])
    fix f e k p fd s t
    assume IH: "\<And>e k p fd s t. f e k p fd s = Some t \<Longrightarrow> interrupts_only e \<longrightarrow> control t = control s"
    and body: "(if file_position (file_descriptor (pcb_at s p) fd) = 0 then f e (k + 1) p fd (e k s)
      else Some s) = Some t"
    then show "interrupts_only e \<longrightarrow> control t = control s"
      using control_env by (auto split: if_splits)
  qed
  then show ?thesis using assms(1) by simp
qed

lemma control_fd [simp]: "control (upd_pcb a (upd_fd i g) s) = control s"
  by simp

lemma control_take_line: "control (snd (take_line b u)) = control u"
  by (simp add: take_line_def Let_def)

lemma control_read:
  assumes e: "interrupts_only env" and r: "read_fd env fd buf n s = Some (v, t)"
  shows "control t = control s"
proof -
  have "call_read env f fd' buf n s = Some (v, t) \<Longrightarrow> control t = control s" for f fd'
  proof (cases f)
    case Fn_terminal_read
    assume "call_read env f fd' buf n s = Some (v, t)"
    then obtain u where "read_wait env 0 s = Some u" "take_line buf u = (v, t)"
      using Fn_terminal_read by (auto simp: terminal_read_def split: option.splits)
    then show ?thesis using control_read_wait [OF e, of 0 s u] control_take_line [of buf u] by simp
  next
    case Fn_rtc_read
    assume "call_read env f fd' buf n s = Some (v, t)"
    then obtain u where u: "rtc_wait env 0 (curr_pcb s) fd' s = Some u"
      "t = upd_pcb (curr_pcb s) (upd_fd fd' (\<lambda>f. f\<lparr>file_position := 0\<rparr>)) u"
      using Fn_rtc_read by (auto simp: rtc_read_def Let_def split: option.splits)
    show ?thesis unfolding u(2) by (simp add: control_rtc_wait [OF e u(1)])
  qed (auto simp: terminal_bad_read_def dir_read_def file_read_def fail1_def split: prod.splits)
  then show ?thesis using r by (auto simp: read_fd_def Let_def split: if_splits)
qed

lemma control_write:
  assumes "write_fd fd buf n s = Some (v, t)"
  shows "control t = control s"
proof -
  have w: "control (for_loop k (\<lambda>i t. putc (ld8 t (buf + of_nat i)) t) u) = control u" for k u
    by (rule for_loop_frame) simp
  have "call_write f fd' buf n s = Some (v, t) \<Longrightarrow> control t = control s" for f fd'
    by (cases f) (auto simp: terminal_write_def terminal_bad_write_def rtc_write_def dir_write_def
        file_write_def fail1_def Let_def w split: if_splits)
  then show ?thesis using assms by (auto simp: write_fd_def Let_def split: if_splits)
qed

lemma control_call_open:
  "call_open f name s = Some (r, t) \<Longrightarrow> control t = control s"
  by (cases f) (auto simp: terminal_open_def rtc_open_def dir_open_def file_open_def fail1_def
      split: option.splits)

lemma control_open:
  assumes "open_fd name s = Some (v, t)"
  shows "control t = control s"
  using assms
  by (auto simp: open_fd_def Let_def dest!: control_call_open split: option.splits if_splits prod.splits)

lemma control_close: "control (snd (close_fd fd s)) = control s"
  by (simp add: close_fd_def Let_def)

lemma control_getargs: "control (snd (getargs buf n s)) = control s"
  by (simp add: getargs_def Let_def)

lemma control_vidmap: "control (snd (vidmap p s)) = control s"
  by (simp add: vidmap_def Let_def)

text \<open>All the calls but \<open>halt\<close> and \<open>execute\<close>.\<close>

lemma control_call:
  assumes "call_syscall env esp ebp c ebx ecx edx s = Some (out, t)" and "interrupts_only env"
    and "c \<noteq> Sys_halt" "c \<noteq> Sys_execute"
  shows "control t = control s"
proof -
  have snd: "p = (v, u) \<Longrightarrow> control (snd p) = control s \<Longrightarrow> control u = control s" for p v u by simp
  show ?thesis
    using assms(1,3,4)
    by (cases c) (auto simp: set_handler_def sigreturn_def dest: control_read [OF assms(2)] control_write
        control_open snd [OF _ control_close] snd [OF _ control_getargs] snd [OF _ control_vidmap] split: prod.splits)
qed

section \<open>The step relation\<close>

definition program_runs :: "kernel \<Rightarrow> bool" where
  "program_runs s \<longleftrightarrow> count_pcb (terminal_list s (scheduled_terminal s)) \<noteq> 0"

text \<open>
  The end of a base shell starts another one; it has to be in the directory.  The same for the
  shell of a terminal that is scheduled for the first time.  \<open>entered\<close> says that it was.
\<close>

fun entered :: "outcome \<Rightarrow> bool" where
  "entered (Entered eip usp) \<longleftrightarrow> True"
| "entered out \<longleftrightarrow> False"

text \<open>
  The loop at the start of a \<open>terminal_read\<close> or \<open>rtc_read\<close> only looks at the state.  A process may
  be suspended in it by a timer tick, and other programs and handlers run before it comes to be
  scheduled again, so the rest of the call is a step of its own: \<open>line_read\<close>, when a line is ready
  for the scheduled terminal, and \<open>clock_read\<close>, when the clock has ticked for the descriptor.
  \<open>rows_reused\<close> is the use of the stack that the rows of the saved lines lie on.

  \<open>execute\<close>, \<open>halt\<close> and the scheduler are one step each.  In the code a timer tick can still come
  into them, since \<open>set_up_paging\<close> ends with \<open>sti\<close>, and system calls come through a trap gate: those
  histories are not among the ones described here.  The flag of the relation tells two kinds of
  steps apart.  With \<open>True\<close>, the orderly ones, each base shell that is asked for is started; with
  \<open>False\<close> also those in which it is not, after which the process table does not match the terminals.
\<close>

inductive kernel_step :: "bool \<Rightarrow> kernel \<Rightarrow> kernel \<Rightarrow> bool" for ord :: bool where
  boot: "execute esp ebp (Some shell) s = Some (out, t) \<Longrightarrow> kernel_step ord s t"
| call: "program_runs s \<Longrightarrow> interrupts_only env \<Longrightarrow>
    syscall_linkage env esp ebp eax ebx ecx edx s = Some (out, t) \<Longrightarrow>
    ord \<and> eax = 1 \<and> parent_id (current s) = -1 \<longrightarrow> entered out \<Longrightarrow> kernel_step ord s t"
| fault: "program_runs s \<Longrightarrow> i < 20 \<Longrightarrow>
    (exception_handler_table ! i) esp ebp s = Some (out, t) \<Longrightarrow>
    ord \<and> parent_id (current s) = -1 \<longrightarrow> entered out \<Longrightarrow> kernel_step ord s t"
| timer: "pit_intr_handler esp ebp s = Some (out, t) \<Longrightarrow> ord \<longrightarrow> out \<noteq> Returned 0 \<Longrightarrow> kernel_step ord s t"
| key: "kernel_step ord s (keyb_intr_handler s)"
| clock: "kernel_step ord s (rtc_intr_handler s)"
| line_read: "read_allowed s \<Longrightarrow> kernel_step ord s (snd (take_line buf s))"
| clock_read: "file_position (file_descriptor (pcb_at s p) fd) \<noteq> 0 \<Longrightarrow>
    kernel_step ord s (upd_pcb p (upd_fd fd (\<lambda>f. f\<lparr>file_position := 0\<rparr>)) s)"
| rows_reused: "kernel_step ord s (s\<lparr>line_rows := rows\<rparr>)"

inductive_cases kernel_stepE: "kernel_step ord s t"

text \<open>A kernel that has initialised itself and runs nothing yet.\<close>

definition booted :: "kernel \<Rightarrow> bool" where
  "booted s \<longleftrightarrow> scheduled_terminal s = 0 \<and> ring s \<and> pid_var s = -1 \<and>
     (\<forall>t < 3. count_pcb (terminal_list s t) = 0) \<and> (\<forall>i < 6. active (pcb_of s i) = 0)"

inductive history :: "bool \<Rightarrow> kernel \<Rightarrow> bool" for ord :: bool where
  start: "booted s \<Longrightarrow> history ord s"
| step: "history ord s \<Longrightarrow> kernel_step ord s t \<Longrightarrow> history ord t"

text \<open>The states at the end of an orderly history.\<close>

abbreviation orderly :: "kernel \<Rightarrow> bool" where
  "orderly \<equiv> history True"

lemma orderly_step: "kernel_step True s t \<Longrightarrow> kernel_step False s t"
  by (elim kernel_stepE) (auto intro: kernel_step.intros)

section \<open>Every step keeps the stacks\<close>

lemma booted_represents: "booted s \<Longrightarrow> represents s (\<lambda>_. [])"
  by (auto simp: booted_def represents_def table_matches_def processes_def process_active_def terminal_matches_def)

lemma execute_represents:
  assumes "represents s st" and "execute esp ebp cmd s = Some (out, t)"
  shows "\<exists>st'. represents t st'"
proof (cases cmd)
  case None
  then have "t = cli s" using assms(2) by (simp add: execute_def Let_def)
  then show ?thesis using control_represents [OF assms(1), of t] by auto
next
  case (Some c)
  consider "same_table t s" "pid_var t \<noteq> -1"
    | i u arg entry where "(out, t) = start_process (int i) esp ebp arg entry u"
    using execute_outcome [OF assms(2) [unfolded Some]] by metis
  then show ?thesis
  proof cases
    case 1
    then show ?thesis using represents_cli_etc [OF assms(1)] by blast
  next
    case 2
    then obtain eip usp where "out = Entered eip usp"
      using start_process_memory(1) [of "int i" esp ebp arg entry u out t] by metis
    then have "execute esp ebp (Some c) s = Some (Entered eip usp, t)" using assms(2) Some by simp
    then show ?thesis using execute_pushes_aux [OF assms(1)] by metis
  qed
qed

lemma runs_top:
  assumes "represents s st" and "program_runs s"
  obtains i rest where "front_of s st = i # rest"
  using count_zero [OF assms(1) representsD(1) [OF assms(1)]] assms(2)
  by (cases "front_of s st") (auto simp: program_runs_def)

text \<open>The base shell ends: its terminal is empty when the next one is executed.\<close>

definition vacated :: "kernel \<Rightarrow> kernel" where
  "vacated s = (let s2 = say (''we can'' @ [CHR 0x27] @ ''t exit base!'' @ [CHR 0x0A]) (leave_terminal s)
     in upd_pcb (curr_pcb s2) (\<lambda>p. p\<lparr>active := 0\<rparr>) s2)"

lemma vacated_frame [simp]:
  "scheduled_terminal (vacated s) = scheduled_terminal s" "pid_var (vacated s) = pid_var s"
  "curr_pcb (vacated s) = curr_pcb s"
  "pcb_at (vacated s) = (pcb_at s)(curr_pcb s := (current s)\<lparr>active := 0\<rparr>)"
  "tid (terminal_list (vacated s) k) = tid (terminal_list s k)"
  "next_terminal (terminal_list (vacated s) k) = next_terminal (terminal_list s k)"
  "pcb_ptr (terminal_list (vacated s) k) = pcb_ptr (terminal_list s k)"
  "count_pcb (terminal_list (vacated s) k) =
     (if k = scheduled_terminal s then count_pcb (terminal_list s k) - 1 else count_pcb (terminal_list s k))"
  by (simp_all add: vacated_def Let_def current_def)

lemma vacated_represents:
  assumes r: "represents s st" and top: "front_of s st = [i]"
  shows "represents (vacated s) (pop (scheduled_terminal s) st)"
proof -
  note tp = top_process [OF r top]
  have p: "pcb_of (vacated s) k = (if k = i then (pcb_of s i)\<lparr>active := 0\<rparr> else pcb_of s k)" if "k < 6" for k
    using that tp(1,3) by (simp add: pcb_of_def tp(2) pcb_addr_inj)
  show ?thesis by (rule pop_represents [OF r top]) (use p tp(1) in simp_all)
qed

lemma halt_base:
  assumes r: "represents s st" and top: "front_of s st = [i]"
    and h: "halt esp ebp status s = Some (out, t)" and e: "entered out"
  shows "execute esp ebp (Some shell) (vacated s) = Some (out, t)"
proof -
  have "parent_id (current s) = -1" using top_process(4) [OF r top] by simp
  then have "Option.bind (execute esp ebp (Some shell) (vacated s)) (\<lambda>(out, s4).
      case out of Returned _ \<Rightarrow> Some (return_to_parent status s4) | _ \<Rightarrow> Some (out, s4)) = Some (out, t)"
    using h by (simp add: halt_def leave_terminal_def vacated_def Let_def current_def)
  then obtain o4 s4 where ex: "execute esp ebp (Some shell) (vacated s) = Some (o4, s4)"
    and rest: "(case o4 of Returned _ \<Rightarrow> Some (return_to_parent status s4) | _ \<Rightarrow> Some (o4, s4)) = Some (out, t)"
    by (auto simp: bind_eq_Some_conv)
  have "return_to_parent status u \<noteq> (out, t)" for u
    using e by (cases out) (auto simp: return_to_parent_def Let_def)
  then show ?thesis using ex rest by (cases o4) simp_all
qed

lemma halt_represents:
  assumes r: "represents s st" and run: "program_runs s" and h: "halt esp ebp status s = Some (out, t)"
    and b: "parent_id (current s) = -1 \<longrightarrow> entered out"
  shows "\<exists>st'. represents t st'"
proof -
  obtain i rest where top: "front_of s st = i # rest" by (rule runs_top [OF r run])
  show ?thesis
  proof (cases rest)
    case Nil
    then have "entered out" using b top_process(4) [OF r top] by simp
    then show ?thesis
      using execute_represents [OF vacated_represents [OF r] halt_base [OF r _ h]] top Nil by simp
  next
    case (Cons j rest')
    obtain out' t' where o: "return_to_parent status (leave_terminal s) = (out', t')" by (rule prod.exhaust)
    have t: "front_of s st = i # j # rest'" using top Cons by simp
    show ?thesis using halt_to_parent(1,3) [OF r t o] h by auto
  qed
qed

lemma exception_halts:
  assumes "i < 20"
  shows "\<exists>m. (exception_handler_table ! i) esp ebp s = halt esp ebp 0 (say m s)"
proof -
  have "list_all (\<lambda>h. \<exists>m. h esp ebp s = halt esp ebp 0 (say m s)) exception_handler_table"
    unfolding exception_handler_table_def list.pred_inject exception_handler_defs
    by (intro conjI exI) (rule refl | simp)+
  moreover have "length exception_handler_table = 20" by (simp add: exception_handler_table_def)
  ultimately show ?thesis using assms by (simp add: list_all_length)
qed

lemma tick_represents:
  assumes r: "represents s st" and h: "scheduler esp ebp s = Some (out, t)" and o: "out \<noteq> Returned 0"
  shows "\<exists>st'. represents t st'"
proof -
  let ?n = "(scheduled_terminal s + 1) mod 3"
  let ?u = "switched ?n (suspend esp ebp s)"
  note sch = scheduler_switch(1) [OF r, of esp ebp] scheduler_switch(2,3) [OF r]
  note sw = switch_represents(1) [OF r sch(2,3), of esp ebp] switch_represents(2) [OF r sch(2,3)]
  show ?thesis
  proof (cases "st ?n")
    case Nil
    then obtain o4 s4 where ex: "execute esp ebp (Some shell) ?u = Some (o4, s4)"
      and rest: "(case o4 of Returned _ \<Rightarrow> Some (Returned 0, s4) | _ \<Rightarrow> Some (o4, s4)) = Some (out, t)"
      using h sch(1) by (auto simp: bind_eq_Some_conv)
    then have "t = s4" by (cases o4) simp_all
    then show ?thesis using execute_represents [OF sw(1) ex] by simp
  next
    case (Cons j rest)
    then have p: "pcb_ptr (terminal_list s ?n) = pcb_addr (int j)" "j < 6" using sw(2) by simp_all
    have m: "resume (pcb_addr (int j)) ?u = (out, t)" using h sch(1) Cons p(1) by simp
    note rs = resume_state [OF m]
    have "curr_pcb ?u = pcb_addr (int j)" using p sch(3) pcb_addr_nonzero [OF p(2)] by simp
    then have "control t = control ?u" by (simp add: control_def links_def rs)
    then show ?thesis using control_represents [OF sw(1), of t] by auto
  qed
qed

lemma linkage_represents:
  assumes r: "represents s st" and run: "program_runs s" and e: "interrupts_only env"
    and k: "syscall_linkage env esp ebp eax ebx ecx edx s = Some (out, t)"
    and b: "eax = 1 \<and> parent_id (current s) = -1 \<longrightarrow> entered out"
  shows "\<exists>st'. represents t st'"
proof (cases "sint eax < 1 \<or> sint eax > 10")
  case True
  then have "t = s" using k by (simp add: syscall_linkage_def)
  then show ?thesis using r by blast
next
  case False
  let ?c = "syscall_table ! nat (sint eax - 1)"
  have c: "call_syscall env esp ebp ?c ebx ecx edx s = Some (out, t)"
    using k False by (simp add: syscall_linkage_def)
  consider "?c = Sys_halt" | "?c = Sys_execute" | "?c \<noteq> Sys_halt" "?c \<noteq> Sys_execute" by blast
  then show ?thesis
  proof cases
    case 1
    have "nat (sint eax - 1) < 10" using False by linarith
    then have "nat (sint eax - 1) = 0"
      using 1 by (auto simp: syscall_table_def nth_Cons' split: if_splits)
    then have "sint eax = sint (1 :: u32)" using False by simp
    then have "eax = 1" by (simp only: sint_eq_iff)
    then show ?thesis using halt_represents [OF r run] c 1 b by auto
  next
    case 2
    then show ?thesis using execute_represents [OF r] c by simp
  next
    case 3
    then show ?thesis using control_represents [OF r] control_call [OF c e] by metis
  qed
qed

lemma fault_represents:
  assumes r: "represents s st" and run: "program_runs s" and i: "i < 20"
    and h: "(exception_handler_table ! i) esp ebp s = Some (out, t)"
    and b: "parent_id (current s) = -1 \<longrightarrow> entered out"
  shows "\<exists>st'. represents t st'"
proof -
  obtain m where m: "(exception_handler_table ! i) esp ebp s = halt esp ebp 0 (say m s)"
    using exception_halts [OF i] by blast
  have "represents (say m s) st" using control_represents [OF r, of "say m s"] by simp
  moreover have "program_runs (say m s)" using run by (simp add: program_runs_def)
  moreover have "current (say m s) = current s" by (simp add: current_def)
  ultimately show ?thesis using halt_represents h b m by metis
qed

lemma timer_represents:
  assumes r: "represents s st" and "pit_intr_handler esp ebp s = Some (out, t)" "out \<noteq> Returned 0"
  shows "\<exists>st'. represents t st'"
proof -
  have "represents (memory_switch (send_eoi 0 s)) st" by (rule control_represents [OF r]) simp
  then show ?thesis using tick_represents assms by (simp add: pit_intr_handler_def)
qed

lemma handler_represents:
  assumes "represents s st"
  shows "\<exists>st'. represents (keyb_intr_handler s) st'" "\<exists>st'. represents (rtc_intr_handler s) st'"
    "\<exists>st'. represents (snd (take_line buf s)) st'" "\<exists>st'. represents (s\<lparr>line_rows := rows\<rparr>) st'"
    "\<exists>st'. represents (upd_pcb p (upd_fd fd (\<lambda>f. f\<lparr>file_position := 0\<rparr>)) s) st'"
  using control_represents [OF assms, of "keyb_intr_handler s"]
    control_represents [OF assms, of "rtc_intr_handler s"]
    control_represents [OF assms, of "snd (take_line buf s)"]
    control_represents [OF assms, of "s\<lparr>line_rows := rows\<rparr>"]
    control_represents [OF assms, of "upd_pcb p (upd_fd fd (\<lambda>f. f\<lparr>file_position := 0\<rparr>)) s"]
  by (auto simp: control_take_line)

lemma step_represents:
  assumes r: "represents s st" and k: "kernel_step True s t"
  shows "\<exists>st'. represents t st'"
  using k
  by (elim kernel_stepE; (simp only: handler_represents [OF r])?)
    (blast intro: execute_represents [OF r] linkage_represents [OF r] fault_represents [OF r]
      timer_represents [OF r])+

lemma orderly_represents: "orderly s \<Longrightarrow> \<exists>st. represents s st"
proof (induction rule: history.induct)
  case (start s)
  then show ?case using booted_represents by blast
next
  case (step s t)
  then show ?case using step_represents by blast
qed

end
