(* ===== verification/Timer.thy ===== *)
theory Timer
  imports I8259
begin

text \<open>
  \<open>student-distrib/cursor.c\<close> and the initialisation in \<open>student-distrib/pit.c\<close>: the hardware
  text cursor and the interval timer that drives the scheduler.
\<close>

definition disable_cursor :: "kernel \<Rightarrow> kernel" where
  "disable_cursor s = outb 0x20 0x3D5 (outb 0x0A 0x3D4 s)"

definition update_cursor :: "int \<Rightarrow> int \<Rightarrow> kernel \<Rightarrow> kernel" where
  "update_cursor x y s =
     (let pos = of_int (y * 80 + x) :: u16;
          s1 = outb (ucast (pos AND 0xFF)) 0x3D5 (outb 0x0F 0x3D4 s)
      in outb (ucast (drop_bit 8 pos AND 0xFF)) 0x3D5 (outb 0x0E 0x3D4 s1))"

text \<open>
  The low byte of the divisor goes through a logical and (\<open>&&\<close>) in the source, whose value
  is 1 for a non-zero byte.
\<close>

definition init_pit :: "kernel \<Rightarrow> kernel" where
  "init_pit s =
     (let s1 = outb 0x37 0x43 s;
          s2 = outb (if (of_nat 11932 :: u8) \<noteq> 0 \<and> (0xFF :: u32) \<noteq> 0 then 1 else 0) 0x40 s1;
          s3 = outb (of_nat (11932 div 256)) 0x40 s2
      in enable_irq 0 s3)"

text \<open>The divisor the timer gets from the two bytes, low byte first, is not the 11932 meant.\<close>

lemma init_pit_divisor:
  "outs (init_pit s) = outs s @ [(0x43, 0x37), (0x40, 1), (0x40, 46),
     (0x21, master_mask (irqs s) AND NOT 1)]"
  "(1 :: nat) + 256 * 46 \<noteq> 11932"
  by (simp_all add: init_pit_def enable_irq_def outb_def Let_def set_master_mask_def)

lemma unat_of_int_u16: "0 \<le> n \<Longrightarrow> n < 65536 \<Longrightarrow> unat (of_int n :: u16) = nat n"
  by (simp add: unat_eq_nat_uint uint_word_of_int take_bit_int_eq_self)

lemma low_byte_u16: "(ucast ((w :: u16) AND 0xFF) :: u8) = ucast w"
proof -
  have m: "(0xFF :: u16) = mask 8" by (simp add: mask_eq_exp_minus_1)
  show ?thesis unfolding m by (rule bit_word_eqI) (auto simp: bit_simps)
qed

lemma update_cursor_position:
  assumes "0 \<le> x" "x < 80" "0 \<le> y" "y < 25"
  shows "\<exists>lo hi. outs (update_cursor x y s) = outs s @ [(0x3D4, 0x0F), (0x3D5, lo), (0x3D4, 0x0E), (0x3D5, hi)]
    \<and> unat lo + 256 * unat hi = nat (80 * y + x)"
proof -
  let ?n = "80 * y + x"
  let ?pos = "of_int (y * 80 + x) :: u16"
  have n: "0 \<le> ?n" "?n < 2000" using assms by linarith+
  have "unat ?pos = nat (y * 80 + x)" by (rule unat_of_int_u16) (use n in linarith)+
  then have pos: "unat ?pos = nat ?n" by (simp only: mult.commute)
  have lo: "unat (ucast (?pos AND 0xFF) :: u8) = nat ?n mod 256"
    unfolding low_byte_u16 using pos by (simp add: unsigned_ucast_eq take_bit_eq_mod)
  have "nat ?n div 256 < 256" using n by linarith
  then have hi: "unat (ucast (drop_bit 8 ?pos AND 0xFF) :: u8) = nat ?n div 256"
    unfolding low_byte_u16 using pos by (simp add: unsigned_ucast_eq take_bit_eq_mod drop_bit_eq_div unat_div)
  show ?thesis
  proof (intro exI conjI)
    show "outs (update_cursor x y s) = outs s @ [(0x3D4, 0x0F), (0x3D5, ucast (?pos AND 0xFF)),
        (0x3D4, 0x0E), (0x3D5, ucast (drop_bit 8 ?pos AND 0xFF))]"
      by (simp add: update_cursor_def outb_def Let_def)
    show "unat (ucast (?pos AND 0xFF) :: u8) + 256 * unat (ucast (drop_bit 8 ?pos AND 0xFF) :: u8) = nat ?n"
      unfolding lo hi by simp
  qed
qed

end
