(* ===== verification/Boot.thy ===== *)
theory Boot
  imports Kernel_Steps Timer
begin

text \<open>
  \<open>student-distrib/kernel.c\<close>: what the kernel does from the boot loader's jump to its first
  program.  The structures of \<open>multiboot.h\<close> are read from memory where the code reads them, so a
  message printed in between is seen by the next read.  Addresses that the linker and
  \<open>x86_desc.S\<close> provide are arguments.
\<close>

section \<open>The structures of the boot loader (multiboot.h)\<close>

record elf_section_header_table =
  elf_num :: u32
  elf_size :: u32
  elf_addr :: u32
  elf_shndx :: u32

record multiboot_info =
  mbi_flags :: u32
  mem_lower :: u32
  mem_upper :: u32
  boot_device :: u32
  cmdline :: u32
  mods_count :: u32
  mods_addr :: u32
  elf_sec :: elf_section_header_table
  mmap_length :: u32
  mmap_addr :: u32

record module_t =
  mod_start :: u32
  mod_end :: u32
  mod_string :: u32
  mod_reserved :: u32

record memory_map =
  mmap_size :: u32
  base_addr_low :: u32
  base_addr_high :: u32
  length_low :: u32
  length_high :: u32
  mmap_type :: u32

definition word_in :: "kernel \<Rightarrow> u32 \<Rightarrow> u32" where
  "word_in s a = word_at (ld8 s) a"

definition multiboot_at :: "u32 \<Rightarrow> kernel \<Rightarrow> multiboot_info" where
  "multiboot_at a s = \<lparr>mbi_flags = word_in s a, mem_lower = word_in s (a + 4), mem_upper = word_in s (a + 8),
     boot_device = word_in s (a + 12), cmdline = word_in s (a + 16), mods_count = word_in s (a + 20),
     mods_addr = word_in s (a + 24),
     elf_sec = \<lparr>elf_num = word_in s (a + 28), elf_size = word_in s (a + 32),
       elf_addr = word_in s (a + 36), elf_shndx = word_in s (a + 40)\<rparr>,
     mmap_length = word_in s (a + 44), mmap_addr = word_in s (a + 48)\<rparr>"

definition module_at :: "u32 \<Rightarrow> kernel \<Rightarrow> module_t" where
  "module_at a s = \<lparr>mod_start = word_in s a, mod_end = word_in s (a + 4), mod_string = word_in s (a + 8),
     mod_reserved = word_in s (a + 12)\<rparr>"

definition memory_map_at :: "u32 \<Rightarrow> kernel \<Rightarrow> memory_map" where
  "memory_map_at a s = \<lparr>mmap_size = word_in s a, base_addr_low = word_in s (a + 4),
     base_addr_high = word_in s (a + 8), length_low = word_in s (a + 12),
     length_high = word_in s (a + 16), mmap_type = word_in s (a + 20)\<rparr>"

section \<open>The report of what the boot loader found\<close>

text \<open>A \<open>printf\<close> whose result the code does not use; lines end with a newline.\<close>

definition print :: "string \<Rightarrow> arg list \<Rightarrow> kernel \<Rightarrow> kernel option" where
  "print fmt args s = map_option snd (printf (array_of (lit fmt)) args s)"

abbreviation line :: "string \<Rightarrow> string" where
  "line fmt \<equiv> fmt @ [CHR 0x0A]"

definition CHECK_FLAG :: "u32 \<Rightarrow> nat \<Rightarrow> bool" where
  "CHECK_FLAG flags b \<longleftrightarrow> flags AND push_bit b 1 \<noteq> 0"

definition when_flag :: "u32 \<Rightarrow> nat \<Rightarrow> (multiboot_info \<Rightarrow> kernel \<Rightarrow> kernel option) \<Rightarrow> kernel \<Rightarrow> kernel option" where
  "when_flag a b f s = (if CHECK_FLAG (mbi_flags (multiboot_at a s)) b then f (multiboot_at a s) s else Some s)"

text \<open>The bytes are printed as \<open>char\<close>s: a byte above 127 comes out with its sign extended.\<close>

fun module_bytes :: "u32 \<Rightarrow> nat \<Rightarrow> nat \<Rightarrow> kernel \<Rightarrow> kernel option" where
  "module_bytes m i 0 s = Some s"
| "module_bytes m i (Suc k) s =
     Option.bind (print ''0x%x '' [Num (scast (ld8 s (mod_start (module_at m s) + of_nat i)))] s)
       (module_bytes m (i + 1) k)"

definition report_module :: "u32 \<Rightarrow> u32 \<Rightarrow> kernel \<Rightarrow> kernel option" where
  "report_module m k s =
     Option.bind (print (line ''Module %d loaded at address: 0x%#x'') [Num k, Num (mod_start (module_at m s))] s) (\<lambda>s1.
     Option.bind (print (line ''Module %d ends at address: 0x%#x'') [Num k, Num (mod_end (module_at m s1))] s1) (\<lambda>s2.
     Option.bind (print (line ''First few bytes of module:'') [] s2) (\<lambda>s3.
     Option.bind (module_bytes m 0 16 s3) (print (line []) []))))"

text \<open>The loop over the modules; \<open>start\<close> is \<open>file_system_start_address\<close>.\<close>

partial_function (option) report_modules :: "u32 \<Rightarrow> u32 \<Rightarrow> u32 \<Rightarrow> u32 \<Rightarrow> kernel \<Rightarrow> (u32 \<times> kernel) option" where
  "report_modules a m k start s =
     (if k < mods_count (multiboot_at a s)
      then Option.bind (report_module m k s) (\<lambda>s1.
        report_modules a (m + 16) (k + 1) (mod_start (module_at m s)) s1)
      else Some (start, s))"

definition report_memory :: "memory_map \<Rightarrow> kernel \<Rightarrow> kernel option" where
  "report_memory e s =
     print (line ''    size = 0x%x, base_addr = 0x%#x%#x'' @ line ''    type = 0x%x,  length    = 0x%#x%#x'')
       [Num (mmap_size e), Num (base_addr_high e), Num (base_addr_low e), Num (mmap_type e),
        Num (length_high e), Num (length_low e)] s"

partial_function (option) report_map :: "u32 \<Rightarrow> u32 \<Rightarrow> kernel \<Rightarrow> kernel option" where
  "report_map a e s =
     (let mbi = multiboot_at a s in
      if e < mmap_addr mbi + mmap_length mbi
      then Option.bind (report_memory (memory_map_at e s) s) (\<lambda>s1.
        report_map a (e + mmap_size (memory_map_at e s1) + 4) s1)
      else Some s)"

definition report_flags :: "u32 \<Rightarrow> kernel \<Rightarrow> kernel option" where
  "report_flags a s =
     Option.bind (print (line ''flags = 0x%#x'') [Num (mbi_flags (multiboot_at a s))] s) (\<lambda>s1.
     Option.bind (when_flag a 0 (\<lambda>mbi. print (line ''mem_lower = %uKB, mem_upper = %uKB'')
       [Num (mem_lower mbi), Num (mem_upper mbi)]) s1) (\<lambda>s2.
     Option.bind (when_flag a 1 (\<lambda>mbi. print (line ''boot_device = 0x%#x'') [Num (boot_device mbi)]) s2) (\<lambda>s3.
     when_flag a 2 (\<lambda>mbi t. print (line ''cmdline = %s'') [Str (view t (cmdline mbi))] t) s3)))"

definition report_tables :: "u32 \<Rightarrow> kernel \<Rightarrow> kernel option" where
  "report_tables a s =
     Option.bind (when_flag a 5 (\<lambda>mbi. print (line ''elf_sec: num = %u, size = 0x%#x, addr = 0x%#x, shndx = 0x%#x'')
       [Num (elf_num (elf_sec mbi)), Num (elf_size (elf_sec mbi)), Num (elf_addr (elf_sec mbi)),
        Num (elf_shndx (elf_sec mbi))]) s)
     (when_flag a 6 (\<lambda>mbi t.
       Option.bind (print (line ''mmap_addr = 0x%#x, mmap_length = 0x%x'') [Num (mmap_addr mbi), Num (mmap_length mbi)] t)
         (\<lambda>t1. report_map a (mmap_addr (multiboot_at a t1)) t1)))"

text \<open>
  \<open>entry\<close> up to the descriptors: \<open>False\<close> if bits 4 and 5 are both set, and the start of the
  last module (0 with none).
\<close>

definition boot_report :: "u32 \<Rightarrow> kernel \<Rightarrow> (bool \<times> u32 \<times> kernel) option" where
  "boot_report a s =
     Option.bind (report_flags a s) (\<lambda>s1.
     Option.bind (if CHECK_FLAG (mbi_flags (multiboot_at a s1)) 3
       then report_modules a (mods_addr (multiboot_at a s1)) 0 0 s1 else Some (0, s1)) (\<lambda>(start, s2).
     if CHECK_FLAG (mbi_flags (multiboot_at a s2)) 4 \<and> CHECK_FLAG (mbi_flags (multiboot_at a s2)) 5
     then map_option (\<lambda>t. (False, start, t)) (print (line ''Both bits 4 and 5 are set.'') [] s2)
     else map_option (\<lambda>t. (True, start, t)) (report_tables a s2)))"

section \<open>Segment descriptors (x86_desc.h)\<close>

record seg_desc =
  seg_lim_15_00 :: u16
  base_15_00 :: u16
  base_23_16 :: u8
  seg_type :: "4 word"
  seg_sys :: bool
  seg_dpl :: "2 word"
  seg_present :: bool
  seg_lim_19_16 :: "4 word"
  seg_avail :: bool
  seg_reserved :: bool
  seg_opsize :: bool
  seg_granularity :: bool
  base_31_24 :: u8

text \<open>\<open>SET_LDT_PARAMS\<close> and \<open>SET_TSS_PARAMS\<close> have the same text.\<close>

definition SET_LDT_PARAMS :: "u32 \<Rightarrow> u32 \<Rightarrow> seg_desc \<Rightarrow> seg_desc" where
  "SET_LDT_PARAMS addr lim d =
     d\<lparr>base_31_24 := ucast (drop_bit 24 (addr AND 0xFF000000)),
       base_23_16 := ucast (drop_bit 16 (addr AND 0x00FF0000)),
       base_15_00 := ucast (addr AND 0x0000FFFF),
       seg_lim_19_16 := ucast (drop_bit 16 (lim AND 0x000F0000)),
       seg_lim_15_00 := ucast (lim AND 0x0000FFFF)\<rparr>"

definition SET_TSS_PARAMS :: "u32 \<Rightarrow> u32 \<Rightarrow> seg_desc \<Rightarrow> seg_desc" where
  "SET_TSS_PARAMS addr lim d =
     d\<lparr>base_31_24 := ucast (drop_bit 24 (addr AND 0xFF000000)),
       base_23_16 := ucast (drop_bit 16 (addr AND 0x00FF0000)),
       base_15_00 := ucast (addr AND 0x0000FFFF),
       seg_lim_19_16 := ucast (drop_bit 16 (lim AND 0x000F0000)),
       seg_lim_15_00 := ucast (lim AND 0x0000FFFF)\<rparr>"

definition the_ldt_desc :: "u32 \<Rightarrow> u32 \<Rightarrow> seg_desc" where
  "the_ldt_desc ldt ldt_size = SET_LDT_PARAMS ldt ldt_size
     \<lparr>seg_lim_15_00 = 0, base_15_00 = 0, base_23_16 = 0, seg_type = 2, seg_sys = False, seg_dpl = 0,
      seg_present = True, seg_lim_19_16 = 0, seg_avail = False, seg_reserved = False,
      seg_opsize = True, seg_granularity = False, base_31_24 = 0\<rparr>"

definition the_tss_desc :: "u32 \<Rightarrow> u32 \<Rightarrow> seg_desc" where
  "the_tss_desc tss tss_size = SET_TSS_PARAMS tss tss_size
     \<lparr>seg_lim_15_00 = 104 AND 0xFFFF, base_15_00 = 0, base_23_16 = 0, seg_type = 9, seg_sys = False,
      seg_dpl = 0, seg_present = True, seg_lim_19_16 = ucast (104 AND 0x000F0000 :: u32), seg_avail = False,
      seg_reserved = False, seg_opsize = False, seg_granularity = False, base_31_24 = 0\<rparr>"

section \<open>entry\<close>

text \<open>
  What the linker and \<open>x86_desc.S\<close> fix: the addresses of the handlers, of the local descriptor
  table and of the task state segment, and the sizes the assembler computes.
\<close>

record linked =
  handler_address :: "handler \<Rightarrow> u32"
  ldt_address :: u32
  ldt_size :: u32
  tss_address :: u32
  tss_size :: u32

text \<open>The descriptor tables and the two registers that select from them.\<close>

record tables =
  idt_table :: idt
  ldt_desc_ptr :: seg_desc
  tss_desc_ptr :: seg_desc
  tss_ldt_selector :: u16
  ldt_register :: u16
  task_register :: u16

definition load_descriptors :: "linked \<Rightarrow> tables \<Rightarrow> tables" where
  "load_descriptors l t = t\<lparr>ldt_desc_ptr := the_ldt_desc (ldt_address l) (ldt_size l), ldt_register := 0x38,
     tss_desc_ptr := the_tss_desc (tss_address l) (tss_size l), tss_ldt_selector := 0x38,
     task_register := 0x30, idt_table := init_idt (handler_address l) (idt_table t)\<rparr>"

definition init_devices :: "u32 \<Rightarrow> kernel \<Rightarrow> kernel" where
  "init_devices start s =
     (let s1 = init_paging (i8259_init s);
          s2 = init_rtc (init_keyb (init_pit s1));
          s3 = terminal_init s2;
          s4 = s3\<lparr>fs := file_system_init (ld8 s3) start (fs s3)\<rparr>
      in sti (clear (disable_cursor s4)))"

text \<open>
  \<open>entry\<close> returns to the assembly, which stops, when the boot loader's data is refused;
  otherwise it executes the first shell, and halts in a loop should that come back.
\<close>

datatype boot_outcome = Refused | Idle | Started outcome

definition entry :: "linked \<Rightarrow> u32 \<Rightarrow> u32 \<Rightarrow> u32 \<Rightarrow> u32 \<Rightarrow> tables \<times> kernel
    \<Rightarrow> (boot_outcome \<times> tables \<times> kernel) option" where
  "entry l esp ebp magic addr ts =
     (let (t, s0) = ts; s = clear s0 in
      if magic \<noteq> 0x2BADB002
      then map_option (\<lambda>u. (Refused, t, u)) (print (line ''Invalid magic number: 0x%#x'') [Num magic] s)
      else Option.bind (boot_report addr s) (\<lambda>(valid, start, s1).
        if \<not> valid then Some (Refused, t, s1)
        else let s2 = s1\<lparr>tss_reg_ss0 := 0x18, tss_reg_esp0 := 0x800000\<rparr>;
                 s3 = init_devices start s2
          in map_option (\<lambda>(out, u). (case out of Returned _ \<Rightarrow> Idle | _ \<Rightarrow> Started out, load_descriptors l t, u))
               (execute esp ebp (Some shell) s3)))"

section \<open>The segment descriptors\<close>

text \<open>The base and the limit the processor puts together from the parts of a descriptor.\<close>

definition seg_base :: "seg_desc \<Rightarrow> u32" where
  "seg_base d = push_bit 24 (ucast (base_31_24 d)) OR push_bit 16 (ucast (base_23_16 d)) OR ucast (base_15_00 d)"

definition seg_limit :: "seg_desc \<Rightarrow> u32" where
  "seg_limit d = push_bit 16 (ucast (seg_lim_19_16 d)) OR ucast (seg_lim_15_00 d)"

lemma params_read_back:
  "seg_base (SET_LDT_PARAMS addr lim d) = addr" "seg_base (SET_TSS_PARAMS addr lim d) = addr"
  "seg_limit (SET_LDT_PARAMS addr lim d) = lim AND 0xFFFFF" "seg_limit (SET_TSS_PARAMS addr lim d) = lim AND 0xFFFFF"
proof -
  have m: "(0xFF000000 :: u32) = NOT (mask 24)" "(0x00FF0000 :: u32) = mask 24 AND NOT (mask 16)"
    "(0xFFFF :: u32) = mask 16" "(0x000F0000 :: u32) = mask 20 AND NOT (mask 16)" "(0xFFFFF :: u32) = mask 20"
    by (simp_all add: mask_eq_exp_minus_1)
  have same: "SET_TSS_PARAMS addr lim d = SET_LDT_PARAMS addr lim d"
    by (simp add: SET_LDT_PARAMS_def SET_TSS_PARAMS_def)
  have base: "bit (seg_base (SET_LDT_PARAMS addr lim d)) n = bit addr n" if "n < 32" for n
  proof -
    have "24 + (n - 24) = n" if "24 \<le> n" using that by simp
    then show ?thesis
      using that unfolding seg_base_def SET_LDT_PARAMS_def m
      by (cases "n < 16"; cases "n < 24") (auto simp: bit_simps)
  qed
  then show "seg_base (SET_LDT_PARAMS addr lim d) = addr" "seg_base (SET_TSS_PARAMS addr lim d) = addr"
    unfolding same by (intro bit_word_eqI; simp)+
  have "bit (seg_limit (SET_LDT_PARAMS addr lim d)) n = bit (lim AND 0xFFFFF) n" if "n < 32" for n
    using that unfolding seg_limit_def SET_LDT_PARAMS_def m by (cases "n < 16") (auto simp: bit_simps)
  then show "seg_limit (SET_LDT_PARAMS addr lim d) = lim AND 0xFFFFF" "seg_limit (SET_TSS_PARAMS addr lim d) = lim AND 0xFFFFF"
    unfolding same by (intro bit_word_eqI; simp)+
qed

section \<open>What the report leaves alone\<close>

lemma print_beside: "print fmt args s = Some t \<Longrightarrow> beside_screen t = beside_screen s"
  by (auto simp: print_def dest: printf_beside)

lemma when_flag_print:
  "when_flag a b (\<lambda>m u. print (fmt m u) (args m u) u) s = Some t \<Longrightarrow> beside_screen t = beside_screen s"
  by (auto simp: when_flag_def dest: print_beside split: if_splits)

lemma module_bytes_beside: "module_bytes m i k s = Some t \<Longrightarrow> beside_screen t = beside_screen s"
  by (induction k arbitrary: i s) (auto simp: bind_eq_Some_conv dest!: print_beside)

lemma report_module_beside: "report_module m k s = Some t \<Longrightarrow> beside_screen t = beside_screen s"
  by (auto simp: report_module_def bind_eq_Some_conv dest!: print_beside module_bytes_beside)

lemma bindE:
  assumes "Option.bind x f = Some r"
  obtains u where "x = Some u" "f u = Some r"
  using assms by (cases x) simp_all

lemma report_modules_beside:
  assumes "report_modules a m k start s = Some r"
  shows "beside_screen (snd r) = beside_screen s"
  using _ assms
proof (rule report_modules.raw_induct [where P = "\<lambda>a m k start s r. beside_screen (snd r) = beside_screen s"])
  fix f :: "u32 \<Rightarrow> u32 \<Rightarrow> u32 \<Rightarrow> u32 \<Rightarrow> kernel \<Rightarrow> (u32 \<times> kernel) option" and a m k start s r
  assume IH: "\<And>a m k start s r. f a m k start s = Some r \<Longrightarrow> beside_screen (snd r) = beside_screen s"
  assume body: "(if k < mods_count (multiboot_at a s)
      then Option.bind (report_module m k s) (\<lambda>s1. f a (m + 16) (k + 1) (mod_start (module_at m s)) s1)
      else Some (start, s)) = Some r"
  show "beside_screen (snd r) = beside_screen s"
  proof (cases "k < mods_count (multiboot_at a s)")
    case True
    then have "Option.bind (report_module m k s) (\<lambda>s1. f a (m + 16) (k + 1) (mod_start (module_at m s)) s1) = Some r"
      using body by simp
    then show ?thesis by (rule bindE) (use IH report_module_beside in metis)
  qed (use body in auto)
qed

lemma report_map_beside:
  assumes "report_map a e s = Some t"
  shows "beside_screen t = beside_screen s"
  using _ assms
proof (rule report_map.raw_induct [where P = "\<lambda>a e s t. beside_screen t = beside_screen s"])
  fix f :: "u32 \<Rightarrow> u32 \<Rightarrow> kernel \<Rightarrow> kernel option" and a e s t
  assume IH: "\<And>a e s t. f a e s = Some t \<Longrightarrow> beside_screen t = beside_screen s"
  assume body: "(let mbi = multiboot_at a s in
      if e < mmap_addr mbi + mmap_length mbi
      then Option.bind (report_memory (memory_map_at e s) s) (\<lambda>s1.
        f a (e + mmap_size (memory_map_at e s1) + 4) s1)
      else Some s) = Some t"
  have m: "report_memory x u = Some v \<Longrightarrow> beside_screen v = beside_screen u" for x u v
    unfolding report_memory_def by (rule print_beside)
  show "beside_screen t = beside_screen s"
  proof (cases "e < mmap_addr (multiboot_at a s) + mmap_length (multiboot_at a s)")
    case True
    then have "Option.bind (report_memory (memory_map_at e s) s) (\<lambda>s1.
        f a (e + mmap_size (memory_map_at e s1) + 4) s1) = Some t"
      using body by (simp add: Let_def)
    then show ?thesis by (rule bindE) (use IH m in metis)
  qed (use body in \<open>simp add: Let_def\<close>)
qed

lemma when_flag_map:
  "when_flag a b (\<lambda>m u. Option.bind (print (fmt m u) (args m u) u) (\<lambda>u1. report_map a (e u1) u1)) s = Some t \<Longrightarrow>
   beside_screen t = beside_screen s"
  by (auto simp: when_flag_def bind_eq_Some_conv dest!: print_beside report_map_beside split: if_splits)

lemma report_flags_beside: "report_flags a s = Some t \<Longrightarrow> beside_screen t = beside_screen s"
  unfolding report_flags_def
  by (elim bindE) (drule print_beside, (drule when_flag_print)+, simp only:)

lemma report_tables_beside: "report_tables a s = Some t \<Longrightarrow> beside_screen t = beside_screen s"
  unfolding report_tables_def
  by (elim bindE) (drule when_flag_print, drule when_flag_map, simp only:)

lemma if_modules:
  "(if c then report_modules a m 0 0 s else Some (0, s)) = Some p \<Longrightarrow> beside_screen (snd p) = beside_screen s"
  using report_modules_beside [of a m 0 0 s p] by (auto split: if_splits)

lemma boot_report_beside:
  assumes "boot_report a s = Some (ok, start, t)"
  shows "beside_screen t = beside_screen s"
proof -
  from assms obtain s1 p where f: "report_flags a s = Some s1"
    and m: "(if CHECK_FLAG (mbi_flags (multiboot_at a s1)) 3
       then report_modules a (mods_addr (multiboot_at a s1)) 0 0 s1 else Some (0, s1)) = Some p"
    and rest: "(case p of (start, s2) \<Rightarrow>
     if CHECK_FLAG (mbi_flags (multiboot_at a s2)) 4 \<and> CHECK_FLAG (mbi_flags (multiboot_at a s2)) 5
     then map_option (\<lambda>t. (False, start, t)) (print (line ''Both bits 4 and 5 are set.'') [] s2)
     else map_option (\<lambda>t. (True, start, t)) (report_tables a s2)) = Some (ok, start, t)"
    unfolding boot_report_def by (elim bindE) blast
  have "beside_screen t = beside_screen (snd p)"
    using rest print_beside report_tables_beside by (cases p) (force split: if_splits)
  then show ?thesis using report_flags_beside [OF f] if_modules [OF m] by simp
qed

section \<open>What the devices leave alone\<close>

definition boot_part :: "kernel \<Rightarrow> paging \<times> (u32 \<Rightarrow> pcb) \<times> int \<times> nat \<times> u32" where
  "boot_part s = (pg s, pcb_at s, pid_var s, scheduled_terminal s, tss_reg_esp0 s)"

lemma boot_part_beside: "beside_screen s = beside_screen t \<Longrightarrow> boot_part s = boot_part t"
proof -
  assume b: "beside_screen s = beside_screen t"
  show ?thesis using beside_eqD(2,10,13,14,16) [OF b] by (simp add: boot_part_def)
qed

lemma boot_part_simps [simp]:
  "boot_part (outb d p s) = boot_part s" "boot_part (cli s) = boot_part s" "boot_part (sti s) = boot_part s"
  "boot_part (say m s) = boot_part s" "boot_part (clear s) = boot_part s" "boot_part (s\<lparr>kb := k\<rparr>) = boot_part s"
  "boot_part (s\<lparr>intr_flag := b\<rparr>) = boot_part s" "boot_part (s\<lparr>irqs := q\<rparr>) = boot_part s"
  "boot_part (s\<lparr>rtc_interrupt_counter := c, rtc_interrupt_occurred := c\<rparr>) = boot_part s"
  "boot_part (s\<lparr>fs := f\<rparr>) = boot_part s"
  using boot_part_beside [OF beside_say [of m s]] boot_part_beside [OF beside_clear [of s]]
  by (simp_all add: boot_part_def io_defs)

lemma boot_part_irq [simp]:
  "boot_part (enable_irq n s) = boot_part s" "boot_part (disable_irq n s) = boot_part s"
  by (simp_all add: enable_irq_def disable_irq_def set_master_mask_def set_slave_mask_def Let_def)

lemma boot_part_devices [simp]:
  "boot_part (i8259_init s) = boot_part s" "boot_part (init_pit s) = boot_part s"
  "boot_part (init_keyb s) = boot_part s" "boot_part (init_rtc s) = boot_part s"
  "boot_part (disable_cursor s) = boot_part s"
proof -
  have "boot_part (mask_all_but_cascade s) = boot_part s" for s
    unfolding mask_all_but_cascade_def by (rule for_loop_frame) simp
  then show "boot_part (i8259_init s) = boot_part s" by (simp add: i8259_init_def init_words_def Let_def)
qed (simp_all add: init_pit_def init_keyb_def init_rtc_def disable_cursor_def Let_def)

lemma boot_partD:
  assumes "boot_part s = boot_part t"
  shows "pg s = pg t" "pcb_at s = pcb_at t" "pid_var s = pid_var t" "scheduled_terminal s = scheduled_terminal t"
    "tss_reg_esp0 s = tss_reg_esp0 t"
  using assms by (simp_all add: boot_part_def)

section \<open>The enabled lines\<close>

lemma agree_cong: "irqs t = irqs s \<Longrightarrow> outs t = outs s \<Longrightarrow> masks_agree t = masks_agree s"
  by (rule irq_state_cong(2))

lemma agree_simps [simp]:
  "masks_agree (cli s) = masks_agree s" "masks_agree (sti s) = masks_agree s" "masks_agree (say m s) = masks_agree s"
  "masks_agree (s\<lparr>kb := k\<rparr>) = masks_agree s" "masks_agree (init_paging s) = masks_agree s"
  "masks_agree (s\<lparr>rtc_interrupt_counter := c, rtc_interrupt_occurred := c\<rparr>) = masks_agree s"
  "p \<noteq> 0x21 \<Longrightarrow> p \<noteq> 0xA1 \<Longrightarrow> masks_agree (outb d p s) = masks_agree s"
proof -
  show "masks_agree (say m s) = masks_agree s" by (rule agree_cong) (use beside_eqD(4,5) [OF beside_say] in simp_all)
  show "p \<noteq> 0x21 \<Longrightarrow> p \<noteq> 0xA1 \<Longrightarrow> masks_agree (outb d p s) = masks_agree s"
    by (simp add: masks_agree_def master_agrees_def slave_agrees_def port_last_outb)
qed (rule agree_cong; simp add: io_defs init_paging_def flush_tlb_def)+

lemma enabled_simps [simp]:
  "enabled_irqs (outb d p s) = enabled_irqs s" "enabled_irqs (cli s) = enabled_irqs s" "enabled_irqs (sti s) = enabled_irqs s"
  "enabled_irqs (say m s) = enabled_irqs s" "enabled_irqs (s\<lparr>kb := k\<rparr>) = enabled_irqs s"
  "enabled_irqs (s\<lparr>rtc_interrupt_counter := c, rtc_interrupt_occurred := c\<rparr>) = enabled_irqs s"
  "enabled_irqs (init_paging s) = enabled_irqs s"
  by (simp_all add: enabled_irqs_def irq_masked_def io_defs init_paging_def flush_tlb_def
      beside_eqD(4) [OF beside_say])

lemma init_terminal_keeps [simp]:
  "pcb_at (init_terminal i s) = pcb_at s" "pid_var (init_terminal i s) = pid_var s"
  "scheduled_terminal (init_terminal i s) = scheduled_terminal s" "outs (init_terminal i s) = outs s"
  "tss_reg_esp0 (init_terminal i s) = tss_reg_esp0 s"
  by (simp_all add: init_terminal_def map_video_page_def flush_tlb_def wipe_display_buf_def wipe_behind_def
      wipe_variables_def Let_def)

lemma terminal_init_keeps [simp]:
  "pcb_at (terminal_init s) = pcb_at s" "pid_var (terminal_init s) = pid_var s"
  "scheduled_terminal (terminal_init s) = scheduled_terminal s" "outs (terminal_init s) = outs s"
  "tss_reg_esp0 (terminal_init s) = tss_reg_esp0 s"
  by (simp_all add: terminal_init_def for_loop_numeral)

text \<open>
  The lines are set at the controllers before \<open>terminal_init\<close> clears the kernel's copy of the
  masks, so they stay as they are; the next \<open>enable_irq\<close> would open every line of its controller.
\<close>

lemma devices_enabled: "lines_open (init_devices start s) = {0, 1, 2, 8}"
proof -
  let ?t = "init_rtc (init_keyb (init_pit (init_paging (i8259_init s))))"
  note i = i8259_init_enables [of s]
  have "enabled_irqs ?t = {8, 1, 0, 2}"
    using i by (simp add: init_rtc_def init_keyb_def init_pit_def Let_def pic.enabled_enable)
  moreover have "masks_agree ?t"
    using i by (simp add: init_rtc_def init_keyb_def init_pit_def Let_def pic.programmed_enable)
  ultimately have t: "lines_open ?t = {8, 1, 0, 2}" by (simp add: lines_open_masks)
  let ?u = "(terminal_init ?t)\<lparr>fs := file_system_init (ld8 (terminal_init ?t)) start (fs (terminal_init ?t))\<rparr>"
  have "lines_open (init_devices start s) = lines_open (disable_cursor ?u)"
    by (rule lines_open_cong) (simp add: init_devices_def Let_def io_defs)
  also have "\<dots> = lines_open ?u" by (simp add: disable_cursor_def lines_open_outb)
  also have "\<dots> = lines_open ?t" by (rule lines_open_cong) simp
  finally show ?thesis by (simp add: t insert_commute)
qed

lemma wiped_masks: "irqs (init_devices start s) = \<lparr>master_mask = 0, slave_mask = 0\<rparr>"
proof -
  have "irqs (init_terminal i t) = \<lparr>master_mask = 0, slave_mask = 0\<rparr>" for i t
    by (simp add: init_terminal_def map_video_page_def flush_tlb_def wipe_display_buf_def wipe_behind_def
        wipe_variables_def Let_def)
  then show ?thesis
    by (simp add: init_devices_def Let_def disable_cursor_def io_defs terminal_init_def for_loop_numeral)
qed

section \<open>The kernel that entry leaves to the first shell\<close>

lemma terminal_init_steps:
  "terminal_init s = (init_terminal 2 (init_terminal 1 (init_terminal 0 s)))\<lparr>curr_terminal_num := 0\<rparr>"
  by (simp add: terminal_init_def for_loop_numeral)

lemma terminal_init_video:
  assumes "pg s = init_tables p" and "page_table_addr p AND 0xFFF = 0"
  shows "video_mapped (terminal_init s)"
proof -
  let ?t = "boot_terminals (s\<lparr>pg := p\<rparr>)"
  have pg: "page_dir (pg (terminal_init s)) = page_dir (pg ?t)" "page_table (pg (terminal_init s)) = page_table (pg ?t)"
    "page_table_addr (pg (terminal_init s)) = page_table_addr (pg ?t)"
    by (simp_all add: terminal_init_steps boot_terminals_steps init_terminal_pg assms(1) init_paging_def flush_tlb_def)
  have "video_tables_ok (pg ?t)" by (rule boot_video_tables) (simp add: assms(2))
  then have "video_tables_ok (pg (terminal_init s))" by (simp add: video_tables_ok_def pg)
  moreover have "tlb_current (terminal_init s)"
    using tlb_current_init_terminal [of 2] by (simp add: terminal_init_steps tlb_current_def)
  ultimately show ?thesis by (simp add: video_mapped_def)
qed

lemma terminal_init_links:
  assumes "t < 3"
  shows "tid (terminal_list (terminal_init s) t) = t" "count_pcb (terminal_list (terminal_init s) t) = 0"
    "next_terminal (terminal_list (terminal_init s) t) = Some ((t + 1) mod 3)"
proof -
  have "terminal_ready t (terminal_list (terminal_init s) t) \<and> terminal_empty (terminal_list (terminal_init s) t)"
    using three_cases [OF assms] by (auto simp: terminal_init_steps init_terminal_list)
  then show "tid (terminal_list (terminal_init s) t) = t" "count_pcb (terminal_list (terminal_init s) t) = 0"
    "next_terminal (terminal_list (terminal_init s) t) = Some ((t + 1) mod 3)"
    by (simp_all add: terminal_ready_def terminal_empty_def)
qed

lemma devices_boot:
  fixes start :: u32 and s :: kernel
  defines "u \<equiv> init_devices start s"
  assumes a: "page_table_addr (pg s) AND 0xFFF = 0"
  shows "pcb_at u = pcb_at s" "pid_var u = pid_var s" "scheduled_terminal u = scheduled_terminal s"
    "tss_reg_esp0 u = tss_reg_esp0 s" "ring u" "t < 3 \<Longrightarrow> count_pcb (terminal_list u t) = 0"
    "video_mapped u" "boot_block (fs u) = start" "inodes (fs u) = start + 4096"
proof -
  let ?s1 = "init_paging (i8259_init s)"
  let ?s2 = "init_rtc (init_keyb (init_pit ?s1))"
  let ?s3 = "terminal_init ?s2"
  note p1 = boot_partD [OF boot_part_devices(1) [of s]]
  have "boot_part ?s2 = boot_part ?s1" by simp
  note p2 = boot_partD [OF this]
  have pg2: "pg ?s2 = init_tables (pg s)" using p1(1) p2(1) by (simp add: init_paging_def flush_tlb_def)
  have keep: "pcb_at ?s1 = pcb_at s" "pid_var ?s1 = pid_var s" "scheduled_terminal ?s1 = scheduled_terminal s"
    "tss_reg_esp0 ?s1 = tss_reg_esp0 s"
    using p1 by (simp_all add: init_paging_def flush_tlb_def)
  define s4 where "s4 = disable_cursor (?s3\<lparr>fs := file_system_init (ld8 ?s3) start (fs ?s3)\<rparr>)"
  have u: "u = sti (clear s4)" by (simp add: u_def init_devices_def Let_def s4_def)
  have s4: "pcb_at s4 = pcb_at ?s3" "pid_var s4 = pid_var ?s3" "scheduled_terminal s4 = scheduled_terminal ?s3"
    "tss_reg_esp0 s4 = tss_reg_esp0 ?s3" "terminal_list s4 = terminal_list ?s3" "pg s4 = pg ?s3" "tlb s4 = tlb ?s3"
    "fs s4 = file_system_init (ld8 ?s3) start (fs ?s3)"
    by (simp_all add: s4_def disable_cursor_def io_defs)
  show "pcb_at u = pcb_at s" "pid_var u = pid_var s" "scheduled_terminal u = scheduled_terminal s"
    "tss_reg_esp0 u = tss_reg_esp0 s"
    using keep p2 s4 by (simp_all add: u io_defs)
  have l: "tid (terminal_list u k) = tid (terminal_list ?s3 k)"
    "count_pcb (terminal_list u k) = count_pcb (terminal_list ?s3 k)"
    "next_terminal (terminal_list u k) = next_terminal (terminal_list ?s3 k)" for k
    using s4(5) by (simp_all add: u io_defs)
  show "ring u" "t < 3 \<Longrightarrow> count_pcb (terminal_list u t) = 0"
    using terminal_init_links [of _ ?s2] by (simp_all add: ring_def l)
  have "video_mapped ?s3" by (rule terminal_init_video [OF pg2 a])
  then show "video_mapped u" using s4(6,7) by (simp add: video_mapped_def tlb_current_def u io_defs)
  show "boot_block (fs u) = start" "inodes (fs u) = start + 4096"
    using s4(8) by (simp_all add: u io_defs file_system_init_def Let_def)
qed

text \<open>
  When the boot loader's data is in order and the process slots in memory are zero,
  \<open>entry\<close> comes to the \<open>execute\<close> of the first shell with a kernel that has booted: terminals
  empty and in a ring, no process, the video pages mapped, exactly the timer, keyboard, cascade
  and clock lines enabled.
\<close>

lemma entry_boots:
  assumes "pid_var s = -1" "scheduled_terminal s = 0" "\<forall>i < 6. active (pcb_of s i) = 0"
    and "page_table_addr (pg s) AND 0xFFF = 0"
    and "boot_report addr (clear s) = Some (True, start, s1)"
  defines "u \<equiv> init_devices start (s1\<lparr>tss_reg_ss0 := 0x18, tss_reg_esp0 := 0x800000\<rparr>)"
  shows "entry l esp ebp 0x2BADB002 addr (t, s) =
      map_option (\<lambda>(out, v). (case out of Returned _ \<Rightarrow> Idle | _ \<Rightarrow> Started out, load_descriptors l t, v))
        (execute esp ebp (Some shell) u)"
    and "booted u" "orderly u" "video_mapped u" "lines_open u = {0, 1, 2, 8}" "tss_reg_esp0 u = 0x800000"
proof -
  let ?s2 = "s1\<lparr>tss_reg_ss0 := 0x18, tss_reg_esp0 := 0x800000\<rparr>"
  let ?u = "init_devices start ?s2"
  note b = beside_eqD [OF boot_report_beside [OF assms(5)]]
  have a: "page_table_addr (pg ?s2) AND 0xFFF = 0" using b(2) assms(4) by simp
  note d = devices_boot [OF a, where start = start]
  have "active (pcb_of ?u i) = 0" if "i < 6" for i
    using d(1) b(13) assms(3) that by (simp add: pcb_of_def)
  then have boot: "booted ?u"
    using d(2,3,5,6) b(10,14) assms(1,2) by (simp add: booted_def)
  show "entry l esp ebp 0x2BADB002 addr (t, s) =
      map_option (\<lambda>(out, v). (case out of Returned _ \<Rightarrow> Idle | _ \<Rightarrow> Started out, load_descriptors l t, v))
        (execute esp ebp (Some shell) u)"
    using assms(5) by (simp add: entry_def u_def Let_def)
  show "booted u" "orderly u" "video_mapped u" "lines_open u = {0, 1, 2, 8}" "tss_reg_esp0 u = 0x800000"
    using boot history.start [OF boot] d(4,7) devices_enabled [of start ?s2] by (simp_all add: u_def)
qed

end
