(* ===== verification/Program_Loading.thy ===== *)
theory Program_Loading
  imports Process_Stacks
begin

text \<open>
  What \<open>execute\<close> does when it succeeds, from the command line to the memory of the new
  program: the composition of the console, \<open>parse_cmd\<close>, the file system and paging.
\<close>

section \<open>The announcement\<close>

definition announcement :: "u8 list \<Rightarrow> nat \<Rightarrow> u8 list" where
  "announcement cs i = lit ''command is '' @ cs @ [0x20, 0x0A] @
     (if take 5 cs = lit ''shell''
      then lit ''in terminal '' @ signed_decimal (of_nat i + 1) @ lit '' now'' @ [0x0A] else [])"

lemma text_directives:
  "concat (map template (map Text cs)) = cs" "concat (map rendered (map Text cs)) = cs"
  "concat (map arguments (map Text cs)) = []"
  by (induction cs) simp_all

lemma well_formed_text: "plain cs \<Longrightarrow> list_all well_formed (map Text cs)"
  by (simp add: plain_def list_all_iff)

lemma printf_around:
  assumes "plain before" "plain after" and "well_formed d" "template d = [0x25, c]" "c \<noteq> 0"
  shows "printf (array_of (before @ [0x25, c] @ after)) (arguments d) s =
    Some (length before + 2 + length after, fold putc (before @ rendered d @ after) s)"
proof -
  let ?ds = "map Text before @ [d] @ map Text after"
  have wf: "list_all well_formed ?ds" using assms(1-3) by (simp add: well_formed_text)
  have "0 \<notin> set (before @ [0x25, c] @ after)"
    using assms(1,2,5) by (auto simp: plain_def list_all_iff)
  then have "cstr (array_of (before @ [0x25, c] @ after)) (concat (map template ?ds))"
    using cstr_array_of [of "before @ [0x25, c] @ after"] assms(4) text_directives(1) by simp
  then have "printf_loop (array_of (before @ [0x25, c] @ after)) 0 (concat (map arguments ?ds)) s =
      Some (length (concat (map template ?ds)), fold putc (concat (map rendered ?ds)) s)"
    using printf_loop_directives [OF wf, of "array_of (before @ [0x25, c] @ after)" 0 s] by simp
  then show ?thesis
    using assms(4) by (simp add: printf_def text_directives del: fold_append map_map)
qed

lemma announce_prints:
  assumes "cstr cmd cs"
  shows "announce cmd s = Some (fold putc (announcement cs (get_scheduled_tid s)) s)"
proof -
  let ?s1 = "fold putc (lit ''command is '' @ cs @ [0x20, 0x0A]) s"
  have p1: "printf (array_of (lit (''command is %s '' @ [CHR 0x0A]))) [Str cmd] s = Some (15, ?s1)"
    using printf_around [of "lit ''command is ''" "[0x20, 0x0A]" "String_at cmd cs" "0x73" s] assms
    by (simp add: plain_def)
  have tid: "get_scheduled_tid ?s1 = get_scheduled_tid s" by (simp add: get_scheduled_tid_def)
  have p2: "printf (array_of (lit (''in terminal %d now'' @ [CHR 0x0A]))) [Num v] t =
      Some (19, fold putc (lit ''in terminal '' @ signed_decimal v @ lit '' now'' @ [0x0A]) t)" for v t
    using printf_around [of "lit ''in terminal ''" "lit '' now'' @ [0x0A]" "Signed v" "0x64" t]
    by (simp add: plain_def)
  have "cstr shell (lit ''shell'')" unfolding shell_def by (rule cstr_array_of) simp
  then have "strncmp cmd shell 5 = 0 \<longleftrightarrow> take 5 cs = lit ''shell''"
    using string_in_take [OF assms, of 5] string_in_take [of shell "lit ''shell''" 5]
    by (simp add: strncmp_def strncmp_from_zero string_in_def)
  note shell = this
  show ?thesis
    unfolding announce_def p1 Option.bind.simps prod.case p2 tid shell announcement_def
    by (simp del: lit_Cons)
qed

section \<open>The file through the new translation\<close>

text \<open>
  \<open>set_up_paging\<close> changes the program window only: the image, which the kernel keeps outside
  of it, reads the same before and after.
\<close>

definition outside_window :: "u32 \<Rightarrow> bool" where
  "outside_window a \<longleftrightarrow> unat (drop_bit 22 a) \<noteq> 32"

lemma ld8_outside: "tlb_current u \<Longrightarrow> outside_window a \<Longrightarrow> ld8 (set_up_paging i u) a = ld8 u a"
  using tlb_outside_user_window [of a i u]
  by (simp add: ld8_def rd_def outside_window_def tlb_current_def)

abbreviation file_outside :: "image \<Rightarrow> filesys \<Rightarrow> u32 \<Rightarrow> bool" where
  "file_outside \<equiv> file_within outside_window"

lemma same_file_window:
  assumes "tlb_current u" and "file_outside (ld8 u) f ino"
  shows "same_file (ld8 u) (ld8 (set_up_paging i u)) f ino"
  by (rule same_file_within [OF assms(2)]) (rule ld8_outside [OF assms(1)])

section \<open>execute, when it succeeds\<close>

lemma window_inj_at:
  fixes b :: u32
  assumes "0 \<le> i" "i \<le> 5" and b: "0x8000000 \<le> unat b" "unat b + n \<le> 0x8400000"
  shows "inj_on (\<lambda>k. tlb (set_up_paging i u) (b + of_nat k)) {..<n}"
proof (rule inj_onI)
  fix j k assume jk: "j \<in> {..<n}" "k \<in> {..<n}"
    and eq: "tlb (set_up_paging i u) (b + of_nat j) = tlb (set_up_paging i u) (b + of_nat k)"
  have in_window: "unat (drop_bit 22 (b + of_nat m)) = 32 \<and> unat (b + of_nat m) = unat b + m" if "m < n" for m
  proof -
    have u: "unat (b + of_nat m) = unat b + m" by (rule unat_add_of_nat) (use that b(2) in simp)
    have "(unat b + m) div 2 ^ 22 = 32" using that b by (simp add: div_eq_range)
    then show ?thesis using u by (simp add: dir_index)
  qed
  have "take_bit 22 (b + of_nat j) = take_bit 22 (b + of_nat k)"
    using eq in_window [of j] in_window [of k] jk large_page_parts(2)
    by (simp add: tlb_user_window) (metis large_page_parts(2))
  moreover have "drop_bit 22 (b + of_nat j) = drop_bit 22 (b + of_nat k)"
    using in_window [of j] in_window [of k] jk by (simp add: word_unat_eq_iff)
  ultimately have "b + of_nat j = b + of_nat k" by (metis bits_ident)
  then have "unat (b + of_nat j) = unat (b + of_nat k)" by simp
  then show "j = k" using in_window [of j] in_window [of k] jk by simp
qed

lemma window_inj:
  assumes "0 \<le> i" "i \<le> 5" and "n \<le> 0x3B8000"
  shows "inj_on (\<lambda>k. tlb (set_up_paging i u) (0x8048000 + of_nat k)) {..<n}"
  using window_inj_at [OF assms(1,2), of "0x8048000" n u] assms(3) by simp

definition elf_magic :: "u8 list" where
  "elf_magic = [0x7F, 0x45, 0x4C, 0x46]"

lemma magic_test:
  assumes "4 \<le> length buf" and "take 4 buf = elf_magic"
  shows "strncmp (array_of buf) exe_magic_table 4 = 0"
proof -
  have t: "map (array_of buf) [0..<4] = take 4 buf"
    by (rule nth_equalityI) (use assms(1) in simp_all)
  have "map exe_magic_table [0..<4] = elf_magic"
    by (simp add: exe_magic_table_def elf_magic_def upt_conv_Cons)
  then show ?thesis using t assms(2) by (simp add: strncmp_def strncmp_from_zero)
qed

lemma check_executable_ok:
  assumes "read_dentry_by_name g f fname = Some d" and "inode_id d \<le> num_inodes g f - 1"
    and "unat (inode_length g f (inode_id d)) < 2 ^ 31" "40 \<le> unat (inode_length g f (inode_id d))"
    and "take 4 (file_content g f (inode_id d)) = elf_magic"
  shows "check_executable g f fname = Some (d, take 4 (drop 24 (file_content g f (inode_id d))))"
proof -
  let ?c = "file_content g f (inode_id d)"
  have r: "read_data g f (inode_id d) off on_stack n = (int (unat n), take (unat n) (drop (unat off) ?c))"
    if "unat off + unat n \<le> 40" for off n
    using read_data_spec [OF assms(2) _ assms(3), of on_stack n off] that assms(4) by (simp add: Let_def)
  have "read_data g f (inode_id d) 0 on_stack 40 = (40, take 40 ?c)"
    "read_data g f (inode_id d) 24 on_stack 4 = (4, take 4 (drop 24 ?c))"
    using r [of 0 40] r [of 24 4] by simp_all
  moreover have "strncmp (array_of (take 40 ?c)) exe_magic_table 4 = 0"
    by (rule magic_test) (use assms(4,5) in simp_all)
  ultimately show ?thesis using assms(1) by (simp add: check_executable_def)
qed

lemma load_program_ok:
  assumes "inode_id d \<le> num_inodes (ld8 s) (fs s) - 1"
    and "unat (inode_length (ld8 s) (fs s) (inode_id d)) < 2 ^ 31"
  shows "load_program d s = (int (unat (inode_length (ld8 s) (fs s) (inode_id d))),
    store_bytes 0x8048000 (file_content (ld8 s) (fs s) (inode_id d)) s)"
  using read_data_spec [OF assms(1) _ assms(2,2), of "0x8048000" 0]
  by (simp add: load_program_def Let_def)

lemma overruns_not:
  assumes "cstr f ws" "cstr a xs" "length ws < 32" "length xs < 128"
  shows "\<not> overruns r f a"
  using assms by (auto simp: overruns_def cstr_def list_all_iff)

text \<open>The state in which \<open>execute\<close> looks for the program: process chosen, command announced.\<close>

definition announced :: "u8 list \<Rightarrow> nat \<Rightarrow> kernel \<Rightarrow> kernel" where
  "announced cs i s = fold putc (announcement cs (get_scheduled_tid s)) ((cli s)\<lparr>pid_var := int i\<rparr>)"

lemma announced_frame [simp]:
  "pid_var (announced cs i s) = int i" "fs (announced cs i s) = fs s" "pg (announced cs i s) = pg s"
  "pcb_at (announced cs i s) = pcb_at s"
  by (simp_all add: announced_def io_defs)

text \<open>The new process \<open>t\<close>: its program loaded after \<open>v\<close>, its table of files fresh.\<close>

definition program_started :: "nat \<Rightarrow> u8 list \<Rightarrow> kernel \<Rightarrow> kernel \<Rightarrow> bool" where
  "program_started i content v t \<longleftrightarrow>
     mem t = mem (store_bytes 0x8048000 content (set_up_paging (int i) v)) \<and>
     tlb t = tlb (set_up_paging (int i) v) \<and> con t = con v \<and>
     (\<exists>f. file_descriptor (pcb_at t (pcb_addr (int i))) = fresh_files f)"

lemma execute_loads_aux:
  fixes s :: kernel and i :: nat and cs :: "u8 list" and d :: dentry
  defines "u \<equiv> announced cs i s"
  defines "content \<equiv> file_content (ld8 u) (fs s) (inode_id d)"
  assumes free: "find_pcb s 0 6 = Some i" and cmd: "cstr cmd cs" "length (first_word cs) < 32" "length (second_word cs) < 128"
    and lookup: "map_of (directory (ld8 u) (fs s)) (first_word cs) = Some d"
    and ino: "inode_id d \<le> num_inodes (ld8 u) (fs s) - 1"
    and size: "40 \<le> length content" "length content \<le> 0x3B8000" and magic: "take 4 content = elf_magic"
    and kernel: "tlb_current u" "file_outside (ld8 u) (fs s) (inode_id d)"
  shows "\<exists>t. execute esp ebp (Some cmd) s =
      Some (Entered (word_at (\<lambda>a. array_of (take 4 (drop 24 content)) (unat a)) 0) 0x83FFFFC, t) \<and>
    curr_pcb t = pcb_addr (int i) \<and> cstr (argument (pcb_at t (pcb_addr (int i)))) (second_word cs) \<and>
    load_bytes (tlb t) (mem t) 0x8048000 (length content) = content \<and> outs t = outs s \<and> fs t = fs s \<and>
    program_started i content u t"
proof -
  let ?v = "set_up_paging (int i) u"
  have i6: "i < 6" using procs.search_free [OF TrueI free] by simp
  have fs: "fs u = fs s" "fs ?v = fs s" and pv: "pid_var u = int i" by (simp_all add: u_def)
  have len: "length content = unat (inode_length (ld8 u) (fs s) (inode_id d))" by (simp add: content_def)
  have same: "same_file (ld8 u) (ld8 ?v) (fs s) (inode_id d)" by (rule same_file_window [OF kernel])
  obtain f a where p: "parse_cmd cmd (\<lambda>_. 0) (Some (\<lambda>_. 0)) = Some (0, f, Some a)"
      "cstr f (first_word cs)" "cstr a (second_word cs)"
    using parse_cmd_words [OF cmd(1), of "\<lambda>_. 0" "\<lambda>_. 0"] cmd(3) by auto
  have fits: "\<not> overruns 0 f a" by (rule overruns_not [OF p(2,3) cmd(2,3)])
  have "read_dentry_by_name (ld8 u) (fs u) f = Some d"
    using lookup string_in_take [OF p(2), of 32] cmd(2)
    by (simp add: read_dentry_by_name_def find_dentry_map_of directory_def fs)
  then have check: "check_executable (ld8 u) (fs s) f = Some (d, take 4 (drop 24 content))"
    using ino size magic len by (simp add: check_executable_ok fs content_def)
  have load: "load_program d ?v = (int (length content), store_bytes 0x8048000 content ?v)"
    using load_program_ok [of d ?v] same ino size(2) len by (simp add: same_file_def fs content_def)
  have find: "determine_which_pcb_empty (cli s) = (int i, cli s)"
    using free find_pcb_cong [of "cli s" s] by (simp add: determine_which_pcb_empty_def io_defs)
  have tid: "get_scheduled_tid ((cli s)\<lparr>pid_var := int i\<rparr>) = get_scheduled_tid s"
    by (simp add: get_scheduled_tid_def io_defs)
  have ann: "announce cmd ((cli s)\<lparr>pid_var := int i\<rparr>) = Some u"
    using announce_prints [OF cmd(1)] by (simp add: u_def announced_def tid)
  have lens: "inode_length (ld8 ?v) (fs s) (inode_id d) = of_nat (length content)"
    using same len by (simp add: same_file_def)
  obtain out t where st: "start_process (int i) esp ebp a (take 4 (drop 24 content))
      (store_bytes 0x8048000 content ?v) = (out, t)"
    by (rule prod.exhaust)
  note sp = start_process_memory [OF st]
  have dev: "outs (store_bytes 0x8048000 content ?v) = outs s" "fs (store_bytes 0x8048000 content ?v) = fs s"
    by (simp_all add: u_def announced_def io_defs)
  have pvs: "pid_var (store_bytes 0x8048000 content ?v) = int i" by (simp add: pv)
  have "execute esp ebp (Some cmd) s = Some (out, t)"
    using st by (simp add: execute_def find ann p(1) fits check pv load lens fs pvs Let_def)
  moreover have "load_bytes (tlb t) (mem t) 0x8048000 (length content) = content"
  proof -
    have "inj_on (\<lambda>k. tlb ?v (0x8048000 + of_nat k)) {..<length content}"
      by (rule window_inj) (use i6 size(2) in simp_all)
    from store_bytes_load [OF this] show ?thesis by (simp add: sp)
  qed
  moreover have "con (store_bytes 0x8048000 content ?v) = con u" by (simp add: set_up_paging_def Let_def flush_tlb_def io_defs)
  then have "program_started i content u t" using sp by (auto simp: program_started_def)
  ultimately show ?thesis using sp dev p(3) by auto
qed

text \<open>
  The same in terms of an earlier content \<open>g\<close> of memory, when the image lies in bytes \<open>P\<close> outside the
  program windows that have not changed since.
\<close>

lemma execute_loads_within:
  fixes s :: kernel and i :: nat and cs :: "u8 list" and d :: dentry and g :: image
  defines "v \<equiv> announced cs i s" and "content \<equiv> file_content g (fs s) (inode_id d)"
  assumes free: "find_pcb s 0 6 = Some i" and cmd: "cstr cmd cs" "length (first_word cs) < 32" "length (second_word cs) < 128"
    and same: "\<And>a. P a \<Longrightarrow> outside_window a" "\<And>a. P a \<Longrightarrow> ld8 v a = g a"
    and image: "directory_within P g (fs s)" "file_within P g (fs s) (inode_id d)"
    and lookup: "map_of (directory g (fs s)) (first_word cs) = Some d"
    and program: "inode_id d \<le> num_inodes g (fs s) - 1" "40 \<le> length content" "length content \<le> 0x3B8000"
      "take 4 content = elf_magic"
    and current: "tlb_current v"
  shows "\<exists>t. execute esp ebp (Some cmd) s =
      Some (Entered (word_at (\<lambda>a. array_of (take 4 (drop 24 content)) (unat a)) 0) 0x83FFFFC, t) \<and>
    curr_pcb t = pcb_addr (int i) \<and> cstr (argument (pcb_at t (pcb_addr (int i)))) (second_word cs) \<and>
    load_bytes (tlb t) (mem t) 0x8048000 (length content) = content \<and> outs t = outs s \<and> fs t = fs s \<and>
    program_started i content v t"
proof -
  have dir: "directory (ld8 v) (fs s) = directory g (fs s)" by (rule same_directory_within [OF image(1) same(2)])
  have held: "num_inodes (ld8 v) (fs s) = num_inodes g (fs s)" "file_content (ld8 v) (fs s) (inode_id d) = content"
    using same_file_within [OF image(2) same(2)] by (simp_all add: same_file_def content_def)
  have "file_outside (ld8 v) (fs s) (inode_id d)"
    by (rule file_within_mono [OF file_within_same [OF image(2) same(2)] same(1)])
  from execute_loads_aux [OF free cmd, of d esp ebp, folded v_def, unfolded dir held,
      OF lookup program current this] show ?thesis .
qed

end
