(* ===== verification/Boot_Report.thy ===== *)
theory Boot_Report
  imports Boot Program_Loading
begin

text \<open>
  The report of \<open>kernel.c\<close> on what the boot loader found: for data that a boot loader following
  the Multiboot document leaves, it comes to its end, prints to the screen only, and returns the
  start of the last module.
\<close>

section \<open>Printing that stays on the screen\<close>

text \<open>The conversions whose text is made of digits, and the words between them.\<close>

fun quiet :: "directive \<Rightarrow> bool" where
  "quiet (Text c) \<longleftrightarrow> not_backspace c"
| "quiet (String_at b cs) \<longleftrightarrow> list_all not_backspace cs"
| "quiet (Character v) \<longleftrightarrow> not_backspace (ucast v)"
| "quiet d \<longleftrightarrow> True"

lemma quiet_rendered: "quiet d \<Longrightarrow> list_all not_backspace (rendered d)"
proof (cases d)
  case (Hex8 v)
  then show ?thesis using digits_not_backspace [of 16 "unat v"]
    by (auto simp: hex8_def Let_def list_all_iff not_backspace_def)
next
  case (Signed v)
  then show ?thesis using digits_not_backspace [of 10]
    by (simp add: signed_decimal_def) (simp add: not_backspace_def)
qed (simp_all add: digits_not_backspace, simp_all add: not_backspace_def)

lemma quiet_all: "list_all quiet ds \<Longrightarrow> list_all not_backspace (concat (map rendered ds))"
  using quiet_rendered by (induction ds) simp_all

definition words :: "string \<Rightarrow> directive list" where
  "words m = map Text (lit m)"

lemma words_simps [simp]:
  "concat (map template (words m)) = lit m" "concat (map arguments (words m)) = []"
  by (simp_all only: words_def text_directives)

definition printed :: "kernel \<Rightarrow> kernel \<Rightarrow> bool" where
  "printed s t \<longleftrightarrow> (\<exists>cs. list_all not_backspace cs \<and> t = fold putc cs s)"

definition prints :: "kernel \<Rightarrow> kernel option \<Rightarrow> bool" where
  "prints s r \<longleftrightarrow> (\<exists>t. r = Some t \<and> printed s t)"

lemma printed_refl: "printed s s"
  unfolding printed_def by (intro exI [of _ "[]"]) simp

lemma printed_trans: "printed s t \<Longrightarrow> printed t u \<Longrightarrow> printed s u"
proof -
  assume "printed s t" and "printed t u"
  then obtain cs ds where "list_all not_backspace (cs @ ds)" "u = fold putc (cs @ ds) s"
    by (auto simp: printed_def)
  then show "printed s u" unfolding printed_def by blast
qed

lemma printed_fold: "list_all not_backspace cs \<Longrightarrow> printed s (fold putc cs s)"
  unfolding printed_def by blast

lemma printedD:
  assumes "printed s t"
  shows "beside_screen t = beside_screen s" "screen_bytes t = screen_bytes s" "tlb t = tlb s"
    "video_mem (con t) = video_mem (con s)"
    "console_ok s \<Longrightarrow> console_ok t" "console_ok s \<Longrightarrow> off_screen t = off_screen s"
  using assms fold_putc_sink by (auto simp: printed_def)

lemma prints_Some: "printed s t \<Longrightarrow> prints s (Some t)"
  by (simp add: prints_def)

lemma prints_bind:
  "prints s r \<Longrightarrow> (\<And>t. printed s t \<Longrightarrow> prints t (g t)) \<Longrightarrow> prints s (Option.bind r g)"
  unfolding prints_def using printed_trans by fastforce

lemma prints_text:
  assumes "list_all well_formed ds" "list_all quiet ds"
    and "concat (map template ds) = lit fmt" "concat (map arguments ds) = args"
  shows "prints s (print fmt args s)"
proof -
  have "0 \<notin> set (template d)" if "well_formed d" for d
    using that by (cases d) auto
  with assms(1) have "\<forall>d \<in> set ds. 0 \<notin> set (template d)" by (simp add: list_all_iff)
  then have "0 \<notin> set (lit fmt)" unfolding assms(3) [symmetric] by auto
  then have "cstr (\<lambda>k. array_of (lit fmt) (0 + k)) (concat (map template ds))"
    using cstr_array_of [of "lit fmt"] assms(3) by simp
  from printf_loop_directives [OF assms(1) this, of s]
  have "print fmt args s = Some (fold putc (concat (map rendered ds)) s)"
    by (simp add: print_def printf_def assms(4))
  then show ?thesis using prints_Some [OF printed_fold [OF quiet_all [OF assms(2)]]] by simp
qed

section \<open>Reading memory that is not on the screen\<close>

text \<open>The two states differ on the screen only.\<close>

definition unseen :: "kernel \<Rightarrow> kernel \<Rightarrow> bool" where
  "unseen s t \<longleftrightarrow> tlb t = tlb s \<and> screen_bytes t = screen_bytes s \<and> off_screen t = off_screen s"

lemma printed_unseen: "console_ok s \<Longrightarrow> printed s t \<Longrightarrow> unseen s t"
  by (simp add: unseen_def printedD)

lemma clear_unseen: "unseen s (clear s)"
  by (simp add: unseen_def off_screen_clear screen_bytes_def con_clear)

lemma unseen_byte:
  assumes "unseen s t" "off_screen_buffer s a n" "k < n"
  shows "ld8 t (a + of_nat k) = ld8 s (a + of_nat k)"
  using off_screen_byte [of t s] assms by (simp add: unseen_def ld8_def rd_def off_screen_buffer_def)

lemma unseen_buffer: "unseen s t \<Longrightarrow> off_screen_buffer t a n = off_screen_buffer s a n"
  by (simp add: off_screen_buffer_def unseen_def)

lemma unseen_word:
  assumes "unseen s t" "off_screen_buffer s a n" "k + 4 \<le> n"
  shows "word_in t (a + of_nat k) = word_in s (a + of_nat k)"
  unfolding word_in_def
proof (rule word_at_same)
  fix j :: nat assume "j < 4"
  then show "ld8 t (a + of_nat k + of_nat j) = ld8 s (a + of_nat k + of_nat j)"
    using unseen_byte [OF assms(1,2), of "k + j"] assms(3) by (simp add: add.assoc)
qed

lemma unseen_multiboot:
  assumes "unseen s t" "off_screen_buffer s a 52"
  shows "multiboot_at a t = multiboot_at a s"
  using unseen_word [OF assms, of 0] unseen_word [OF assms, of 4] unseen_word [OF assms, of 8]
    unseen_word [OF assms, of 12] unseen_word [OF assms, of 16] unseen_word [OF assms, of 20]
    unseen_word [OF assms, of 24] unseen_word [OF assms, of 28] unseen_word [OF assms, of 32]
    unseen_word [OF assms, of 36] unseen_word [OF assms, of 40] unseen_word [OF assms, of 44]
    unseen_word [OF assms, of 48]
  by (simp add: multiboot_at_def)

lemma unseen_module:
  assumes "unseen s t" "off_screen_buffer s m 16"
  shows "module_at m t = module_at m s"
  using unseen_word [OF assms, of 0] unseen_word [OF assms, of 4] unseen_word [OF assms, of 8]
    unseen_word [OF assms, of 12]
  by (simp add: module_at_def)

lemma unseen_memory_map:
  assumes "unseen s t" "off_screen_buffer s e 24"
  shows "memory_map_at e t = memory_map_at e s"
  using unseen_word [OF assms, of 0] unseen_word [OF assms, of 4] unseen_word [OF assms, of 8]
    unseen_word [OF assms, of 12] unseen_word [OF assms, of 16] unseen_word [OF assms, of 20]
  by (simp add: memory_map_at_def)

lemmas printed_byte = unseen_byte [OF printed_unseen]
lemmas printed_multiboot = unseen_multiboot [OF printed_unseen]
lemmas printed_module = unseen_module [OF printed_unseen]
lemmas printed_memory_map = unseen_memory_map [OF printed_unseen]

section \<open>Data that a boot loader leaves\<close>

text \<open>
  The entries of the memory map, each with its size in front of it: \<open>es\<close> are the addresses that
  the loop visits from \<open>e\<close> until it comes to the end of the map.
\<close>

fun memory_map_chain :: "kernel \<Rightarrow> u32 \<Rightarrow> u32 list \<Rightarrow> u32 \<Rightarrow> bool" where
  "memory_map_chain s limit [] e \<longleftrightarrow> \<not> e < limit"
| "memory_map_chain s limit (x # es) e \<longleftrightarrow> x = e \<and> e < limit \<and> off_screen_buffer s e 24 \<and>
     memory_map_chain s limit es (e + mmap_size (memory_map_at e s) + 4)"

definition command_line_ok :: "kernel \<Rightarrow> u32 \<Rightarrow> bool" where
  "command_line_ok s p \<longleftrightarrow> (\<exists>cs. cstr (view s p) cs \<and> list_all not_backspace cs \<and>
     off_screen_buffer s p (length cs + 1))"

definition boot_data_ok :: "u32 \<Rightarrow> kernel \<Rightarrow> bool" where
  "boot_data_ok a s \<longleftrightarrow> (let m = multiboot_at a s in
     off_screen_buffer s a 52 \<and>
     \<not> (CHECK_FLAG (mbi_flags m) 4 \<and> CHECK_FLAG (mbi_flags m) 5) \<and>
     (CHECK_FLAG (mbi_flags m) 2 \<longrightarrow> command_line_ok s (cmdline m)) \<and>
     (CHECK_FLAG (mbi_flags m) 3 \<longrightarrow>
        (\<forall>k < unat (mods_count m). off_screen_buffer s (mods_addr m + 16 * of_nat k) 16)) \<and>
     (CHECK_FLAG (mbi_flags m) 6 \<longrightarrow>
        (\<exists>es. memory_map_chain s (mmap_addr m + mmap_length m) es (mmap_addr m))))"

text \<open>The start of the last module.\<close>

definition image_start :: "u32 \<Rightarrow> kernel \<Rightarrow> u32" where
  "image_start a s = (let m = multiboot_at a s in
     if CHECK_FLAG (mbi_flags m) 3 \<and> 0 < mods_count m
     then mod_start (module_at (mods_addr m + 16 * (mods_count m - 1)) s) else 0)"

text \<open>Neither depends on what is on the screen.\<close>

lemma unseen_string:
  assumes "unseen s t" "cstr (view s p) cs" "off_screen_buffer s p (length cs + 1)"
  shows "cstr (view t p) cs"
proof -
  have "view t p k = view s p k" if "k < length cs + 1" for k
    using unseen_byte [OF assms(1,3) that] by (simp add: view_def)
  then show ?thesis using assms(2) by (simp add: cstr_def)
qed

lemma unseen_chain: "unseen s t \<Longrightarrow> memory_map_chain s limit es e \<Longrightarrow> memory_map_chain t limit es e"
  by (induction es arbitrary: e) (simp_all add: unseen_buffer unseen_memory_map)

lemma unseen_boot_data:
  assumes u: "unseen s t" and d: "boot_data_ok a s"
  shows "boot_data_ok a t" "image_start a t = image_start a s"
proof -
  let ?m = "multiboot_at a s"
  have m: "multiboot_at a t = ?m" using d by (intro unseen_multiboot [OF u]) (simp add: boot_data_ok_def Let_def)
  have c: "command_line_ok s p \<Longrightarrow> command_line_ok t p" for p
    using unseen_string [OF u] unseen_buffer [OF u] unfolding command_line_ok_def by blast
  show "boot_data_ok a t"
    using d c unseen_chain [OF u] unseen_buffer [OF u] unfolding boot_data_ok_def Let_def m by blast
  have "module_at (mods_addr ?m + 16 * (mods_count ?m - 1)) t = module_at (mods_addr ?m + 16 * (mods_count ?m - 1)) s"
    if "CHECK_FLAG (mbi_flags ?m) 3" "0 < mods_count ?m"
  proof (rule unseen_module [OF u])
    have "unat (mods_count ?m - 1) < unat (mods_count ?m)" using that(2) by (simp add: word_less_nat_alt unat_sub [of 1] word_le_nat_alt)
    then have "off_screen_buffer s (mods_addr ?m + 16 * of_nat (unat (mods_count ?m - 1))) 16"
      using d that(1) unfolding boot_data_ok_def Let_def by blast
    then show "off_screen_buffer s (mods_addr ?m + 16 * (mods_count ?m - 1)) 16" by simp
  qed
  then show "image_start a t = image_start a s" by (simp add: image_start_def Let_def m)
qed

section \<open>The report comes to its end\<close>

lemma prints_flag:
  assumes "CHECK_FLAG (mbi_flags (multiboot_at a s)) b \<Longrightarrow> prints s (f (multiboot_at a s) s)"
  shows "prints s (when_flag a b f s)"
  using assms prints_Some [OF printed_refl] by (simp add: when_flag_def)

lemma prints_flags:
  "prints s (print (line ''flags = 0x%#x'') [Num v] s)"
  "prints s (print (line ''mem_lower = %uKB, mem_upper = %uKB'') [Num v, Num w] s)"
  "prints s (print (line ''boot_device = 0x%#x'') [Num v] s)"
proof -
  let ?ds = "words ''flags = 0x'' @ [Hex8 v] @ words [CHR 0x0A]"
  show "prints s (print (line ''flags = 0x%#x'') [Num v] s)"
    by (rule prints_text [of ?ds]) (simp_all add: words_def not_backspace_def)
  let ?ds = "words ''mem_lower = '' @ [Unsigned v] @ words ''KB, mem_upper = '' @ [Unsigned w] @ words (line ''KB'')"
  show "prints s (print (line ''mem_lower = %uKB, mem_upper = %uKB'') [Num v, Num w] s)"
    by (rule prints_text [of ?ds]) (simp_all add: words_def not_backspace_def)
  let ?ds = "words ''boot_device = 0x'' @ [Hex8 v] @ words [CHR 0x0A]"
  show "prints s (print (line ''boot_device = 0x%#x'') [Num v] s)"
    by (rule prints_text [of ?ds]) (simp_all add: words_def not_backspace_def)
qed

lemma prints_modules:
  "prints s (print (line ''Module %d loaded at address: 0x%#x'') [Num v, Num w] s)"
  "prints s (print (line ''Module %d ends at address: 0x%#x'') [Num v, Num w] s)"
  "prints s (print (line ''First few bytes of module:'') [] s)"
  "prints s (print ''0x%x '' [Num v] s)" "prints s (print (line []) [] s)"
proof -
  let ?ds = "words ''Module '' @ [Signed v] @ words '' loaded at address: 0x'' @ [Hex8 w] @ words [CHR 0x0A]"
  show "prints s (print (line ''Module %d loaded at address: 0x%#x'') [Num v, Num w] s)"
    by (rule prints_text [of ?ds]) (simp_all add: words_def not_backspace_def)
  let ?ds = "words ''Module '' @ [Signed v] @ words '' ends at address: 0x'' @ [Hex8 w] @ words [CHR 0x0A]"
  show "prints s (print (line ''Module %d ends at address: 0x%#x'') [Num v, Num w] s)"
    by (rule prints_text [of ?ds]) (simp_all add: words_def not_backspace_def)
  show "prints s (print (line ''First few bytes of module:'') [] s)"
    by (rule prints_text [of "words (line ''First few bytes of module:'')"]) (simp_all add: words_def not_backspace_def)
  show "prints s (print ''0x%x '' [Num v] s)"
    by (rule prints_text [of "words ''0x'' @ [Hex v] @ words '' ''"]) (simp_all add: words_def not_backspace_def)
  show "prints s (print (line []) [] s)"
    by (rule prints_text [of "words (line [])"]) (simp_all add: words_def not_backspace_def)
qed

lemma prints_tables:
  "prints s (print (line ''elf_sec: num = %u, size = 0x%#x, addr = 0x%#x, shndx = 0x%#x'')
     [Num v, Num w, Num x, Num y] s)"
  "prints s (print (line ''mmap_addr = 0x%#x, mmap_length = 0x%x'') [Num v, Num w] s)"
proof -
  let ?ds = "words ''elf_sec: num = '' @ [Unsigned v] @ words '', size = 0x'' @ [Hex8 w] @ words '', addr = 0x'' @
    [Hex8 x] @ words '', shndx = 0x'' @ [Hex8 y] @ words [CHR 0x0A]"
  show "prints s (print (line ''elf_sec: num = %u, size = 0x%#x, addr = 0x%#x, shndx = 0x%#x'')
     [Num v, Num w, Num x, Num y] s)"
    by (rule prints_text [of ?ds]) (simp_all add: words_def not_backspace_def)
  let ?ds = "words ''mmap_addr = 0x'' @ [Hex8 v] @ words '', mmap_length = 0x'' @ [Hex w] @ words [CHR 0x0A]"
  show "prints s (print (line ''mmap_addr = 0x%#x, mmap_length = 0x%x'') [Num v, Num w] s)"
    by (rule prints_text [of ?ds]) (simp_all add: words_def not_backspace_def)
qed

lemma prints_memory: "prints s (report_memory e s)"
  unfolding report_memory_def
  by (rule prints_text [of "words ''    size = 0x'' @ [Hex (mmap_size e)] @ words '', base_addr = 0x'' @
        [Hex8 (base_addr_high e), Hex8 (base_addr_low e)] @ words (line []) @ words ''    type = 0x'' @
        [Hex (mmap_type e)] @ words '',  length    = 0x'' @ [Hex8 (length_high e), Hex8 (length_low e)] @
        words (line [])"])
    (simp_all add: words_def not_backspace_def)

lemma prints_command_line:
  assumes "console_ok s" "printed s t" "command_line_ok s p"
  shows "prints t (print (line ''cmdline = %s'') [Str (view t p)] t)"
proof -
  obtain cs where cs: "cstr (view s p) cs" "list_all not_backspace cs" "off_screen_buffer s p (length cs + 1)"
    using assms(3) by (auto simp: command_line_ok_def)
  have "cstr (view t p) cs" by (rule unseen_string [OF printed_unseen [OF assms(1,2)] cs(1,3)])
  then show ?thesis
    by (intro prints_text [of "words ''cmdline = '' @ [String_at (view t p) cs] @ words (line [])"])
      (use cs(2) in \<open>simp_all add: words_def not_backspace_def\<close>)
qed

lemma prints_report_flags:
  assumes ok: "console_ok s" and m: "off_screen_buffer s a 52"
    and c: "CHECK_FLAG (mbi_flags (multiboot_at a s)) 2 \<Longrightarrow> command_line_ok s (cmdline (multiboot_at a s))"
  shows "prints s (report_flags a s)"
  unfolding report_flags_def
proof (intro prints_bind prints_flags prints_flag)
  fix t t1 t2 t3
  assume "printed s t" "printed t t1" "printed t1 t2" "CHECK_FLAG (mbi_flags (multiboot_at a t2)) 2"
  moreover from this have "printed s t2" using printed_trans by blast
  ultimately show "prints t2 (print (line ''cmdline = %s'') [Str (view t2 (cmdline (multiboot_at a t2)))] t2)"
    using prints_command_line [OF ok _ c] printed_multiboot [OF ok _ m] by simp
qed

lemma prints_module_bytes: "prints s (module_bytes m i k s)"
  by (induction k arbitrary: i s) (simp_all add: prints_Some printed_refl prints_bind prints_modules)

lemma prints_report_module: "prints s (report_module m k s)"
  unfolding report_module_def by (intro prints_bind prints_modules prints_module_bytes)

lemma report_modules_total:
  assumes ok: "console_ok s" and m: "off_screen_buffer s a 52"
    and table: "\<forall>k < unat (mods_count (multiboot_at a s)).
      off_screen_buffer s (mods_addr (multiboot_at a s) + 16 * of_nat k) 16"
  defines "at \<equiv> \<lambda>k. mods_addr (multiboot_at a s) + 16 * of_nat k"
    and "n \<equiv> unat (mods_count (multiboot_at a s))"
  shows "\<lbrakk> printed s t; k \<le> n; 0 < k \<longrightarrow> start = mod_start (module_at (at (k - 1)) s) \<rbrakk> \<Longrightarrow>
    \<exists>u. report_modules a (at k) (of_nat k) start t = Some (if 0 < n then mod_start (module_at (at (n - 1)) s) else start, u) \<and>
      printed s u"
proof (induction "n - k" arbitrary: k start t)
  case 0
  have "mods_count (multiboot_at a t) = of_nat n"
    using printed_multiboot [OF ok "0.prems"(1) m] by (simp add: n_def)
  moreover have "k = n" using 0 by simp
  ultimately show ?case using 0 by (subst report_modules.simps) auto
next
  case (Suc j)
  have lt: "k < n" using Suc.hyps(2) by simp
  have count: "mods_count (multiboot_at a t) = mods_count (multiboot_at a s)"
    using printed_multiboot [OF ok Suc.prems(1) m] by simp
  have less: "of_nat k < mods_count (multiboot_at a t)"
    using lt unat_bound_u32 [of "mods_count (multiboot_at a s)"] unat_of_nat_u32 [of k]
    unfolding count n_def by (simp add: word_less_nat_alt)
  obtain t1 where t1: "report_module (at k) (of_nat k) t = Some t1" "printed t t1"
    using prints_report_module unfolding prints_def by blast
  have p1: "printed s t1" using printed_trans [OF Suc.prems(1) t1(2)] .
  have next_at: "at k + 16 = at (k + 1)" by (simp add: at_def algebra_simps)
  have start: "mod_start (module_at (at k) t) = mod_start (module_at (at k) s)"
    using printed_module [OF ok Suc.prems(1)] table lt unfolding at_def n_def by simp
  obtain u where "report_modules a (at (k + 1)) (of_nat (k + 1)) (mod_start (module_at (at k) s)) t1 =
      Some (if 0 < n then mod_start (module_at (at (n - 1)) s) else mod_start (module_at (at k) s), u)" "printed s u"
    using Suc.hyps(1) [of "k + 1" t1 "mod_start (module_at (at k) s)"] Suc.hyps(2) p1 lt by fastforce
  then show ?case
    using lt less t1(1) start by (subst report_modules.simps) (simp add: next_at add.commute)
qed

lemma report_map_total:
  assumes ok: "console_ok s" and m: "off_screen_buffer s a 52"
  shows "\<lbrakk> printed s t; memory_map_chain s (mmap_addr (multiboot_at a s) + mmap_length (multiboot_at a s)) es e \<rbrakk> \<Longrightarrow>
    prints t (report_map a e t)"
proof (induction es arbitrary: e t)
  case Nil
  then show ?case using printed_multiboot [OF ok Nil.prems(1) m]
    by (subst report_map.simps) (simp add: Let_def prints_Some printed_refl)
next
  case (Cons x es)
  have e: "off_screen_buffer s e 24" using Cons.prems(2) by simp
  have "prints t1 (report_map a (e + mmap_size (memory_map_at e t1) + 4) t1)" if "printed t t1" for t1
  proof -
    have p: "printed s t1" using printed_trans [OF Cons.prems(1) that] .
    show ?thesis using Cons.IH [OF p] Cons.prems(2) printed_memory_map [OF ok p e] by simp
  qed
  then show ?case using Cons.prems(2) printed_multiboot [OF ok Cons.prems(1) m]
    by (subst report_map.simps) (simp add: Let_def prints_bind prints_memory)
qed

lemma prints_report_tables:
  assumes ok: "console_ok s" and m: "off_screen_buffer s a 52" and p: "printed s t"
    and c: "CHECK_FLAG (mbi_flags (multiboot_at a s)) 6 \<Longrightarrow>
      \<exists>es. memory_map_chain s (mmap_addr (multiboot_at a s) + mmap_length (multiboot_at a s)) es
        (mmap_addr (multiboot_at a s))"
  shows "prints t (report_tables a t)"
  unfolding report_tables_def
proof (intro prints_bind prints_tables prints_flag)
  fix t1 t2
  assume t: "printed t t1" "CHECK_FLAG (mbi_flags (multiboot_at a t1)) 6" "printed t1 t2"
  then have p12: "printed s t1" "printed s t2" using p printed_trans by blast+
  have eq: "multiboot_at a t1 = multiboot_at a s" "multiboot_at a t2 = multiboot_at a s"
    using printed_multiboot [OF ok _ m] p12 by simp_all
  then obtain es where "memory_map_chain s (mmap_addr (multiboot_at a s) + mmap_length (multiboot_at a s)) es
        (mmap_addr (multiboot_at a s))" using c t(2) by auto
  then show "prints t2 (report_map a (mmap_addr (multiboot_at a t2)) t2)"
    using report_map_total [OF ok m p12(2)] eq by simp
qed

text \<open>The report of data in order, and what it leaves.\<close>

lemma boot_report_total:
  assumes ok: "console_ok s" and data: "boot_data_ok a s"
  shows "\<exists>t. boot_report a s = Some (True, image_start a s, t) \<and> printed s t"
proof -
  let ?m = "multiboot_at a s"
  have m: "off_screen_buffer s a 52" using data by (simp add: boot_data_ok_def Let_def)
  obtain s1 where s1: "report_flags a s = Some s1" "printed s s1"
    using prints_report_flags [OF ok m] data unfolding prints_def boot_data_ok_def Let_def by blast
  have eq1: "multiboot_at a s1 = ?m" using printed_multiboot [OF ok s1(2) m] .
  have "\<exists>s2. (if CHECK_FLAG (mbi_flags ?m) 3 then report_modules a (mods_addr ?m) 0 0 s1 else Some (0, s1)) =
      Some (image_start a s, s2) \<and> printed s s2"
  proof (cases "CHECK_FLAG (mbi_flags ?m) 3")
    case True
    then have table: "\<forall>k < unat (mods_count ?m). off_screen_buffer s (mods_addr ?m + 16 * of_nat k) 16"
      using data by (simp add: boot_data_ok_def Let_def)
    have "(0 :: nat) < unat (mods_count ?m) \<longleftrightarrow> 0 < mods_count ?m" by (simp add: word_less_nat_alt)
    moreover have "of_nat (unat (mods_count ?m) - 1) = mods_count ?m - 1" if "0 < mods_count ?m"
      using that by (simp add: of_nat_diff word_less_nat_alt)
    ultimately show ?thesis
      using report_modules_total [OF ok m table s1(2), of 0 0] True by (auto simp: image_start_def Let_def)
  next
    case False
    then show ?thesis using s1(2) by (simp add: image_start_def Let_def)
  qed
  then obtain s2 where s2: "(if CHECK_FLAG (mbi_flags ?m) 3 then report_modules a (mods_addr ?m) 0 0 s1 else Some (0, s1)) =
      Some (image_start a s, s2)" "printed s s2" by blast
  have eq2: "multiboot_at a s2 = ?m" using printed_multiboot [OF ok s2(2) m] .
  obtain t where t: "report_tables a s2 = Some t" "printed s2 t"
    using prints_report_tables [OF ok m s2(2)] data unfolding prints_def boot_data_ok_def Let_def by blast
  have "\<not> (CHECK_FLAG (mbi_flags ?m) 4 \<and> CHECK_FLAG (mbi_flags ?m) 5)"
    using data by (simp add: boot_data_ok_def Let_def)
  then have "boot_report a s = Some (True, image_start a s, t)"
    unfolding boot_report_def s1(1) bind.bind_lunit eq1 s2(1) prod.case eq2 t(1) by simp
  then show ?thesis using printed_trans [OF s2(2) t(2)] by blast
qed

end
