(* ===== verification/Sample_Kernel.thy ===== *)
theory Sample_Kernel
  imports Program_Loading
begin

text \<open>
  Concrete kernels to which the process theorems are applied: one that has just booted and one
  with four processes in three terminals.  Both have an image above 4 MB whose directory holds one
  executable of 40 bytes, \<open>shell\<close>.
\<close>

definition shell_image :: image where
  "shell_image = (\<lambda>a. if a = 0x410000 then 1 else if a = 0x410004 then 1
     else if a = 0x410040 then 0x73 else if a = 0x410041 then 0x68 else if a = 0x410042 then 0x65
     else if a = 0x410043 then 0x6C else if a = 0x410044 then 0x6C else if a = 0x410060 then 2
     else if a = 0x411000 then 40
     else if a = 0x412000 then 0x7F else if a = 0x412001 then 0x45 else if a = 0x412002 then 0x4C
     else if a = 0x412003 then 0x46 else if a = 0x412019 then 0x80 else if a = 0x41201A then 0x04
     else if a = 0x41201B then 0x08 else 0)"

definition shell_fs :: filesys where
  "shell_fs = \<lparr>boot_block = 0x410000, inodes = 0x411000, data_block = 0x412000,
     global_dentry = \<lparr>file_name = (\<lambda>_. 0), file_type = 0, inode_id = 0\<rparr>\<rparr>"

definition ring_terminals :: "nat \<Rightarrow> terminal" where
  "ring_terminals = (\<lambda>i. null_terminal\<lparr>tid := i, next_terminal := Some ((i + 1) mod 3)\<rparr>)"

definition shell_kernel :: kernel where
  "shell_kernel = static_kernel\<lparr>mem := shell_image, fs := shell_fs, terminal_list := ring_terminals\<rparr>"

definition process :: "nat \<Rightarrow> u32 \<Rightarrow> nat \<Rightarrow> u32 \<Rightarrow> pcb" where
  "process i parent t esp = null_pcb\<lparr>pid := of_nat i, parent_id := parent, pcb_tid := t,
     esp0 := 0x800000 - 0x2000 * of_nat i - 4, active := 1, saved_esp := esp, saved_ebp := esp + 8\<rparr>"

definition busy_kernel :: kernel where
  "busy_kernel = shell_kernel\<lparr>
     pcb_at := (\<lambda>_. null_pcb)(pcb_addr 0 := process 0 (-1) 0 0x7FFE00, pcb_addr 1 := process 1 0 0 0x7FDE00,
       pcb_addr 2 := process 2 (-1) 1 0x7FBE00, pcb_addr 3 := process 3 (-1) 2 0x7F9E00),
     curr_pcb := pcb_addr 1, pid_var := 3,
     terminal_list := ring_terminals(
       0 := (ring_terminals 0)\<lparr>count_pcb := 2\<rparr>,
       1 := (ring_terminals 1)\<lparr>count_pcb := 1, pcb_ptr := pcb_addr 2\<rparr>,
       2 := (ring_terminals 2)\<lparr>count_pcb := 1, pcb_ptr := pcb_addr 3\<rparr>)\<rparr>"

definition busy_stacks :: stacks where
  "busy_stacks = (\<lambda>t. if t = 0 then [1, 0] else if t = 1 then [2] else if t = 2 then [3] else [])"

lemma addrs [simp]: "pcb_addr (int i) = pcb_addr (int j) \<longleftrightarrow> i = j" if "i < 6" "j < 6" for i j
  by (rule pcb_addr_inj [OF that])

lemma addr_values: "pcb_addr 0 = 0x7FE000" "pcb_addr 1 = 0x7FC000" "pcb_addr 2 = 0x7FA000"
  "pcb_addr 3 = 0x7F8000" "pcb_addr 4 = 0x7F6000" "pcb_addr 5 = 0x7F4000"
  by (simp_all add: pcb_addr_def)

lemma busy_pcbs: "pcb_of busy_kernel 0 = process 0 (-1) 0 0x7FFE00" "pcb_of busy_kernel 1 = process 1 0 0 0x7FDE00"
  "pcb_of busy_kernel 2 = process 2 (-1) 1 0x7FBE00" "pcb_of busy_kernel 3 = process 3 (-1) 2 0x7F9E00"
  "pcb_of busy_kernel 4 = null_pcb" "pcb_of busy_kernel 5 = null_pcb"
  by (simp_all add: pcb_of_def busy_kernel_def addr_values)

lemma busy_active: "process_active busy_kernel i \<longleftrightarrow> i < 4"
proof (cases "i < 6")
  case True
  then have "i = 0 \<or> i = 1 \<or> i = 2 \<or> i = 3 \<or> i = 4 \<or> i = 5" by linarith
  then show ?thesis
    unfolding process_active_def
    by (elim disjE; simp add: busy_pcbs [simplified] busy_pcbs process_def null_pcb_def)
next
  case False
  then show ?thesis by (simp add: process_active_def)
qed

lemma busy_represents: "represents busy_kernel busy_stacks"
proof -
  have s: "scheduled_terminal busy_kernel = 0" "curr_pcb busy_kernel = pcb_addr 1" "pid_var busy_kernel = 3"
    by (simp_all add: busy_kernel_def shell_kernel_def static_kernel_def)
  have t: "tid (terminal_list busy_kernel k) = k" "next_terminal (terminal_list busy_kernel k) = Some ((k + 1) mod 3)" for k
    by (simp_all add: busy_kernel_def ring_terminals_def)
  have c: "count_pcb (terminal_list busy_kernel 0) = 2" "count_pcb (terminal_list busy_kernel 1) = 1"
    "count_pcb (terminal_list busy_kernel 2) = 1" "pcb_ptr (terminal_list busy_kernel 1) = pcb_addr 2"
    "pcb_ptr (terminal_list busy_kernel 2) = pcb_addr 3"
    by (simp_all add: busy_kernel_def)
  have "ring busy_kernel" by (simp add: ring_def t)
  moreover have "table_matches busy_kernel busy_stacks"
    by (auto simp: table_matches_def busy_active processes_def busy_stacks_def)
  moreover have "terminal_matches busy_kernel busy_stacks k" if "k < 3" for k
    using three_cases [OF that]
    by (elim disjE) (simp_all add: terminal_matches_def busy_stacks_def front_def s c [simplified] c
        busy_pcbs [simplified] busy_pcbs process_def)
  ultimately show ?thesis by (simp add: represents_def s)
qed

section \<open>The program image\<close>


lemma shell_image_facts:
  assumes "\<And>a. 0x410000 \<le> a \<Longrightarrow> a < 0x413000 \<Longrightarrow> h a = shell_image a"
  shows "num_dir_entries h shell_fs = 1" "num_inodes h shell_fs = 1"
    "dir_name h shell_fs 0 = lit ''shell''" "inode_id (dentry_at h (dir_entry_addr shell_fs 0)) = 0"
    "inode_length h shell_fs 0 = 40" "inode_block h shell_fs 0 0 = 0"
  by (simp_all add: num_dir_entries_def num_inodes_def shell_fs_def word_at_def assms shell_image_def
    dir_name_def string_in_def upt_conv_Cons dir_entry_addr_def dentry_at_def inode_length_def inode_block_def)

lemma shell_image_content:
  assumes "\<And>a. 0x410000 \<le> a \<Longrightarrow> a < 0x413000 \<Longrightarrow> h a = shell_image a"
  shows "length (file_content h shell_fs 0) = 40" "take 4 (file_content h shell_fs 0) = elf_magic"
    "take 4 (drop 24 (file_content h shell_fs 0)) = [0, 0x80, 4, 8]"
proof -
  have "file_byte h shell_fs 0 k = shell_image (0x412000 + of_nat k)" if "k < 40" for k
  proof -
    have "unat (0x412000 + of_nat k :: u32) = 0x412000 + k"
      using that unat_of_nat_u32 [of "0x412000 + k"] by simp
    then have "0x410000 \<le> (0x412000 + of_nat k :: u32)" "(0x412000 + of_nat k :: u32) < 0x413000"
      using that by (simp_all add: word_le_nat_alt word_less_nat_alt)
    then show ?thesis
      using that shell_image_facts(6) [of h, OF assms] assms by (simp add: file_byte_def block_addr_def shell_fs_def)
  qed
  then have c: "file_content h shell_fs 0 = map (\<lambda>k. shell_image (0x412000 + of_nat k)) [0..<40]"
    using shell_image_facts(5) [of h, OF assms] by (simp add: file_content_def)
  show "length (file_content h shell_fs 0) = 40" by (simp add: c)
  show "take 4 (file_content h shell_fs 0) = elf_magic"
    by (simp add: c take_map upt_conv_Cons shell_image_def elf_magic_def)
  show "take 4 (drop 24 (file_content h shell_fs 0)) = [0, 0x80, 4, 8]"
    by (simp add: c take_map drop_map upt_conv_Cons shell_image_def)
qed

lemma shell_words: "cstr shell (lit ''shell'')" "first_word (lit ''shell'') = lit ''shell''"
    "second_word (lit ''shell'') = []"
  unfolding shell_def by (rule cstr_array_of, simp)
    (simp_all add: second_word_def first_word_def after_word_def)

lemma shell_no_argument: "length (first_word (lit ''shell'')) < 32" "length (second_word (lit ''shell'')) < 128"
  unfolding shell_words(2,3) by simp_all

text \<open>The states with this image, no paging yet and the console in order.\<close>

definition shell_ready :: "kernel \<Rightarrow> bool" where
  "shell_ready s \<longleftrightarrow> mem s = shell_image \<and> fs s = shell_fs \<and> tlb s = (\<lambda>a. a) \<and>
     (\<forall>i. page_dir (pg s) i = 0) \<and> con s = con static_kernel \<and> get_scheduled_tid s < 3"

lemma announcement_prints: "n < 3 \<Longrightarrow> list_all not_backspace (announcement (lit ''shell'') n)"
proof -
  assume "n < 3"
  then have "n = 0 \<or> n = 1 \<or> n = 2" by linarith
  then show ?thesis
    by (elim disjE) (simp_all add: announcement_def signed_decimal_def digit_string_def lookup_def not_backspace_def
      lsd_digits.simps [of 10 "Suc 0"] lsd_digits.simps [of 10 2] lsd_digits.simps [of 10 3] lsd_digits.simps [of 10 0])
qed

lemma shell_announced:
  fixes s :: kernel and i :: nat
  assumes r: "shell_ready s"
  defines "u \<equiv> announced (lit ''shell'') i s"
  shows "tlb u = (\<lambda>a. a)" "tlb_current u" "0x410000 \<le> a \<Longrightarrow> a < 0x413000 \<Longrightarrow> ld8 u a = shell_image a"
proof -
  let ?s = "(cli s)\<lparr>pid_var := int i\<rparr>"
  have ok: "console_ok ?s"
    using static_console_ok r
    by (simp add: console_ok_def screen_mapped_def io_defs shell_ready_def) (simp add: static_kernel_def)
  have np: "list_all not_backspace (announcement (lit ''shell'') (get_scheduled_tid s))"
    by (rule announcement_prints) (use r in \<open>simp add: shell_ready_def\<close>)
  have u: "u = fold putc (announcement (lit ''shell'') (get_scheduled_tid s)) ?s" by (simp add: u_def announced_def)
  note sink = fold_putc_sink [OF ok np, folded u]
  show t: "tlb u = (\<lambda>a. a)" using r by (simp add: u io_defs shell_ready_def)
  have p: "page_dir (pg u) k = 0" for k using r by (simp add: u io_defs shell_ready_def)
  show "tlb_current u" by (simp add: tlb_current_def t walk_def p)
  show "ld8 u a = shell_image a" if a: "0x410000 \<le> a" "a < 0x413000"
  proof -
    have sb: "a \<notin> screen_bytes x" if id: "tlb x = (\<lambda>a. a)" "video_mem (con x) = 0xB8000" for x
    proof
      assume "a \<in> screen_bytes x"
      then obtain k :: nat where k: "k < 4000" "a = 0xB8000 + of_nat k"
        unfolding screen_bytes_def id by auto
      then have "unat a = 0xB8000 + k" using unat_of_nat_u32 [of "0xB8000 + k"] by simp
      then show False using a(1) k(1) by (simp add: word_le_nat_alt)
    qed
    have vs: "video_mem (con ?s) = 0xB8000" "tlb ?s = (\<lambda>a. a)" "mem ?s = shell_image"
      using r by (simp_all add: io_defs shell_ready_def static_kernel_def)
    have vu: "video_mem (con u) = 0xB8000"
      using r by (simp add: u io_defs shell_ready_def static_kernel_def)
    have "off_screen u a = off_screen ?s a" using sink(3) by simp
    then show ?thesis using sb [OF t vu] sb [OF vs(2,1)] vs(3) t by (simp add: off_screen_def ld8_def rd_def)
  qed
qed

lemma fold_outside: "outside_window a" if "0x400000 \<le> a" "a < 0x800000"
proof -
  have "unat a div 2 ^ 22 < 32" using that by (simp add: word_less_nat_alt)
  then show ?thesis by (simp add: outside_window_def dir_index)
qed

lemma shell_file_within:
  assumes "\<And>a. 0x410000 \<le> a \<Longrightarrow> a < 0x413000 \<Longrightarrow> h a = shell_image a"
    and P: "\<And>a. 0x410000 \<le> a \<Longrightarrow> a < 0x800000 \<Longrightarrow> P a"
  shows "file_within P h shell_fs 0"
proof -
  have out: "P (b + of_nat k)" if "0x410000 \<le> unat b" "unat b + k < 0x800000" for b :: u32 and k
  proof (rule P)
    have "unat (b + of_nat k) = unat b + k"
      using that unat_of_nat_u32 [of k] by (simp add: unat_word_ariths)
    then show "0x410000 \<le> b + of_nat k" "b + of_nat k < 0x800000"
      using that by (simp_all add: word_le_nat_alt word_less_nat_alt)
  qed
  have f: "boot_block shell_fs = 0x410000" "inodes shell_fs = 0x411000" "data_block shell_fs = 0x412000"
    by (simp_all add: shell_fs_def)
  have len: "inode_length h shell_fs 0 = 40" by (rule shell_image_facts(5)) (rule assms(1))
  have blk: "inode_block h shell_fs 0 0 = 0" by (rule shell_image_facts(6)) (rule assms(1))
  show ?thesis unfolding file_within_def len block_addr_def f using out by (auto simp: blk)
qed

lemma above_image: "0x410000 \<le> a \<Longrightarrow> 0x400000 \<le> (a :: u32)"
  by (simp add: word_le_nat_alt)

lemmas shell_file_outside = shell_file_within [where P = outside_window, OF _ fold_outside [OF above_image]]

lemma shell_entry: "word_at (\<lambda>a. array_of [0, 0x80, 4, 8] (unat a)) 0 = 0x8048000"
  by (simp add: word_at_def)

text \<open>The hypotheses of \<open>execute_loads\<close> hold for the command \<open>shell\<close>.\<close>

lemma shell_loads_hyps:
  fixes s :: kernel and i :: nat
  assumes r: "shell_ready s"
  defines "u \<equiv> announced (lit ''shell'') i s" and "d \<equiv> dentry_at shell_image 0x410040"
  shows "map_of (directory (ld8 u) (fs s)) (first_word (lit ''shell'')) = Some d"
    "inode_id d = 0" "num_inodes (ld8 u) (fs s) = 1" "tlb_current u"
    "length (file_content (ld8 u) (fs s) 0) = 40" "take 4 (file_content (ld8 u) (fs s) 0) = elf_magic"
    "take 4 (drop 24 (file_content (ld8 u) (fs s) 0)) = [0, 0x80, 4, 8]" "file_outside (ld8 u) (fs s) 0"
proof -
  have f: "fs s = shell_fs" using r by (simp add: shell_ready_def)
  note im = shell_announced(3) [OF r, of _ i, folded u_def]
  note facts = shell_image_facts(1) [of "ld8 u", OF im] shell_image_facts(2) [of "ld8 u", OF im]
    shell_image_facts(3) [of "ld8 u", OF im]
  have "fetch (ld8 u) 0x410040 32 = fetch shell_image 0x410040 32"
    by (simp add: load_bytes_def rd_def upt_conv_Cons im)
  then have "dentry_at (ld8 u) 0x410040 = d" by (simp add: dentry_at_def d_def word_at_def im)
  then show "map_of (directory (ld8 u) (fs s)) (first_word (lit ''shell'')) = Some d"
    unfolding shell_words(2) using facts(1,3) by (simp add: directory_def f dir_entry_addr_def shell_fs_def)
  show "inode_id d = 0" by (simp add: d_def dentry_at_def word_at_def shell_image_def)
  show "num_inodes (ld8 u) (fs s) = 1" using facts(2) f by simp
  show "tlb_current u" using shell_announced(2) [OF r] by (simp add: u_def)
  show "length (file_content (ld8 u) (fs s) 0) = 40" "take 4 (file_content (ld8 u) (fs s) 0) = elf_magic"
    "take 4 (drop 24 (file_content (ld8 u) (fs s) 0)) = [0, 0x80, 4, 8]" "file_outside (ld8 u) (fs s) 0"
    using shell_image_content [of "ld8 u", OF im] shell_file_outside [of "ld8 u", OF im] f by simp_all
qed

lemma shell_executes:
  assumes r: "shell_ready s" and "find_pcb s 0 6 = Some i"
  shows "\<exists>t. execute esp ebp (Some shell) s = Some (Entered 0x8048000 0x83FFFFC, t)"
proof -
  note hyps = shell_loads_hyps(1) [OF r, of i] shell_loads_hyps(2) [OF r] shell_loads_hyps(3) [OF r, of i]
    shell_loads_hyps(4) [OF r, of i] shell_loads_hyps(5) [OF r, of i] shell_loads_hyps(6) [OF r, of i]
    shell_loads_hyps(7) [OF r, of i] shell_loads_hyps(8) [OF r, of i]
  show ?thesis
    using execute_loads_aux [OF assms(2) shell_words(1) shell_no_argument hyps(1), of esp ebp] hyps
    by (auto simp: shell_entry)
qed

section \<open>The two kernels\<close>

lemma busy_values: "scheduled_terminal busy_kernel = 0" "curr_pcb busy_kernel = pcb_addr 1"
  by (simp_all add: busy_kernel_def shell_kernel_def static_kernel_def)

lemma sample_ready: "shell_ready shell_kernel" "shell_ready busy_kernel"
  by (simp_all add: shell_ready_def shell_kernel_def busy_kernel_def get_scheduled_tid_def static_kernel_def
      ring_terminals_def)

lemma sample_find: "find_pcb shell_kernel 0 6 = Some 0" "find_pcb busy_kernel 0 6 = Some 4"
proof -
  have "active (pcb_at shell_kernel (pcb_addr (int 0))) = 0"
    by (simp add: shell_kernel_def static_kernel_def null_pcb_def)
  then have "find_pcb shell_kernel 0 (Suc 5) = Some 0" unfolding find_pcb.simps by simp
  then show "find_pcb shell_kernel 0 6 = Some 0" by (simp only: numeral_nat)
  have a: "active (pcb_at busy_kernel (pcb_addr (int i))) = (if i < 4 then 1 else 0)" if "i < 6" for i
  proof -
    have "i = 0 \<or> i = 1 \<or> i = 2 \<or> i = 3 \<or> i = 4 \<or> i = 5" using that by linarith
    then show ?thesis
      by (elim disjE) (simp_all add: busy_kernel_def addr_values process_def null_pcb_def)
  qed
  have "find_pcb busy_kernel 0 (Suc (Suc (Suc (Suc (Suc 1))))) = Some 4"
    unfolding find_pcb.simps using a [of 0] a [of 1] a [of 2] a [of 3] a [of 4] by simp
  then show "find_pcb busy_kernel 0 6 = Some 4" by (simp add: numeral_eq_Suc)
qed

end
