(* ===== verification/Boot_Shell.thy ===== *)
theory Boot_Shell
  imports Boot_Report Sample_Kernel
begin

text \<open>
  From the boot loader's jump to the first instruction of the first shell: \<open>entry\<close> of
  \<open>kernel.c\<close>, the initialisation of the devices and \<open>execute\<close> taken together.  The image of the
  file system that the boot loader put into the kernel's page is the one that \<open>execute\<close> reads,
  for nothing before it writes to memory outside the screen.
\<close>

section \<open>What the initialisation writes to\<close>

text \<open>
  The kernel's page behind the last byte that \<open>terminal_init\<close> clears, the byte 5895 behind its list
  of terminals.  The boot loader puts the modules behind the kernel, at page boundaries.
\<close>

definition kernel_page :: "u32 \<Rightarrow> bool" where
  "kernel_page a \<longleftrightarrow> 0x40D460 \<le> a \<and> a < 0x800000"

lemma kernel_page_whole: "kernel_page a \<Longrightarrow> 0x400000 \<le> a \<and> a < 0x800000"
  by (simp add: kernel_page_def word_le_nat_alt)

text \<open>The console is in order and its screen is at its physical place.\<close>

definition calm :: "kernel \<Rightarrow> bool" where
  "calm s \<longleftrightarrow> position_ok (con s) \<and> video_mem (con s) = 0xB8000 \<and>
     (\<forall>k < 4000. tlb s (0xB8000 + of_nat k) = 0xB8000 + of_nat k)"

definition image_kept :: "kernel \<Rightarrow> kernel \<Rightarrow> bool" where
  "image_kept s t \<longleftrightarrow> calm t \<and> (\<forall>a. kernel_page a \<longrightarrow> mem t a = mem s a)"

lemma calm_console:
  assumes "calm s"
  shows "console_ok s"
proof -
  have "inj_on (\<lambda>k. tlb s (0xB8000 + of_nat k)) {..<4000}"
  proof (rule inj_onI)
    fix j k assume jk: "j \<in> {..<4000}" "k \<in> {..<4000}" "tlb s (0xB8000 + of_nat j) = tlb s (0xB8000 + of_nat k)"
    then have "0xB8000 + of_nat j = (0xB8000 + of_nat k :: u32)" using assms by (simp add: calm_def)
    then have "unat (0xB8000 + of_nat j :: u32) = unat (0xB8000 + of_nat k :: u32)" by (rule arg_cong)
    then show "j = k" using jk(1,2) by (simp add: unat_page_byte)
  qed
  then show ?thesis using assms by (simp add: console_ok_def screen_mapped_def calm_def)
qed

lemma calm_off_screen:
  assumes "calm s" and "kernel_page a"
  shows "a \<notin> screen_bytes s"
proof
  assume "a \<in> screen_bytes s"
  then obtain k where k: "k < 4000" "a = 0xB8000 + of_nat k"
    using assms(1) by (auto simp: screen_bytes_def calm_def)
  then show False using unat_page_byte [of k] assms(2) by (simp add: kernel_page_def word_le_nat_alt)
qed

lemma kept_refl: "calm s \<Longrightarrow> image_kept s s"
  by (simp add: image_kept_def)

lemma kept_trans: "image_kept s t \<Longrightarrow> image_kept t u \<Longrightarrow> image_kept s u"
  by (simp add: image_kept_def)

lemma kept_calm: "image_kept s t \<Longrightarrow> calm t"
  by (simp add: image_kept_def)

lemma kept_unseen:
  assumes "calm s" "unseen s t" "position_ok (con t)" "video_mem (con t) = video_mem (con s)"
  shows "image_kept s t"
proof -
  have t: "tlb t = tlb s" "screen_bytes t = screen_bytes s" "off_screen t = off_screen s"
    using assms(2) by (simp_all add: unseen_def)
  have "mem t a = mem s a" if "kernel_page a" for a
    by (rule off_screen_byte [OF t(3,2) calm_off_screen [OF assms(1) that]])
  then show ?thesis using assms t(1) by (simp add: image_kept_def calm_def)
qed

lemma kept_printed: "calm s \<Longrightarrow> printed s t \<Longrightarrow> image_kept s t"
  using kept_unseen [OF _ printed_unseen] printedD(4,5) calm_console by (simp add: console_ok_def)

lemma kept_clear: "calm s \<Longrightarrow> image_kept s (clear s)"
  by (rule kept_unseen [OF _ clear_unseen]) (simp_all add: con_clear calm_def position_ok_def)

lemma kept_say:
  assumes "calm s" and "plain (lit m)" and "list_all not_backspace (lit m)"
  shows "image_kept s (say m s)"
  unfolding say_text [OF assms(2)] by (rule kept_printed [OF assms(1) printed_fold [OF assms(3)]])

text \<open>What the devices' registers have no part in.\<close>

definition memory_part :: "kernel \<Rightarrow> console \<times> memory \<times> (u32 \<Rightarrow> u32)" where
  "memory_part s = (con s, mem s, tlb s)"

lemma kept_same: "calm s \<Longrightarrow> memory_part t = memory_part s \<Longrightarrow> image_kept s t"
  by (simp add: image_kept_def calm_def memory_part_def)

lemma kept_then_same: "image_kept s t \<Longrightarrow> memory_part u = memory_part t \<Longrightarrow> image_kept s u"
  using kept_trans kept_same kept_calm by blast

lemma memory_part_simps [simp]:
  "memory_part (outb d p s) = memory_part s" "memory_part (cli s) = memory_part s" "memory_part (sti s) = memory_part s"
  "memory_part (s\<lparr>kb := k\<rparr>) = memory_part s" "memory_part (s\<lparr>intr_flag := b\<rparr>) = memory_part s"
  "memory_part (s\<lparr>irqs := q\<rparr>) = memory_part s" "memory_part (s\<lparr>fs := f\<rparr>) = memory_part s"
  "memory_part (s\<lparr>rtc_interrupt_counter := c, rtc_interrupt_occurred := c\<rparr>) = memory_part s"
  "memory_part (s\<lparr>pid_var := i\<rparr>) = memory_part s"
  "memory_part (s\<lparr>tss_reg_ss0 := v, tss_reg_esp0 := w\<rparr>) = memory_part s"
  by (simp_all add: memory_part_def io_defs)

lemma memory_part_irq [simp]:
  "memory_part (enable_irq n s) = memory_part s" "memory_part (disable_irq n s) = memory_part s"
  by (simp_all add: enable_irq_def disable_irq_def set_master_mask_def set_slave_mask_def Let_def)

lemma memory_part_words: "memory_part (mask_all_but_cascade (init_words s)) = memory_part s"
proof -
  have "memory_part (mask_all_but_cascade s) = memory_part s" for s
    unfolding mask_all_but_cascade_def by (rule for_loop_frame) simp
  then show ?thesis by (simp add: init_words_def Let_def)
qed

section \<open>The steps of the initialisation\<close>

lemma kept_i8259: "calm s \<Longrightarrow> image_kept s (i8259_init s)"
  unfolding i8259_init_def Let_def
  by (rule kept_trans [OF kept_same kept_say [OF kept_calm [OF kept_same]]])
    (simp_all add: memory_part_words plain_def not_backspace_def)

lemma kept_keyb: "calm s \<Longrightarrow> image_kept s (init_keyb s)"
  unfolding init_keyb_def Let_def
  by (rule kept_trans [OF kept_same kept_say [OF kept_calm [OF kept_same]]])
    (simp_all add: plain_def not_backspace_def)

lemma kept_rtc: "calm s \<Longrightarrow> image_kept s (init_rtc s)"
  unfolding init_rtc_def Let_def
  by (rule kept_then_same [OF kept_trans [OF kept_same kept_say [OF kept_calm [OF kept_same]]]])
    (simp_all add: plain_def not_backspace_def)

lemma kept_paging:
  assumes "calm s" and "page_table_addr (pg s) AND 0xFFF = 0"
  shows "image_kept s (init_paging s)"
proof -
  have m: "con (init_paging s) = con s" "mem (init_paging s) = mem s"
    by (simp_all add: init_paging_def flush_tlb_def)
  have "tlb (init_paging s) (0xB8000 + of_nat k) = 0xB8000 + of_nat k" if "k < 4000" for k
  proof -
    have "tlb (init_paging s) a = (case walk (pg (init_paging s)) a of Some q \<Rightarrow> q | None \<Rightarrow> a)" for a
      by (simp add: init_paging_def flush_tlb_def)
    then show ?thesis by (simp add: init_paging_walk [OF assms(2)])
  qed
  then show ?thesis using assms(1) m by (simp add: image_kept_def calm_def)
qed

lemma kernel_page_identity:
  assumes "tlb_current s" "page_dir (pg s) 1 = 0x400083" "0x400000 \<le> a \<and> a < 0x800000"
  shows "tlb s a = a"
proof -
  have d: "unat a div 2 ^ 22 = 1" using in_large assms(3) by simp
  then have "walk (pg s) a = Some ((0x400083 AND 0xFFC00000) OR (a AND 0x3FFFFF))"
    using assms(2) by (subst walk_large) (simp_all add: dir_index bit_numeral_rec)
  then show ?thesis using assms(1) large_identity [OF d] by (simp add: tlb_current_def)
qed

text \<open>What the third \<open>memset\<close> of \<open>terminal_init\<close> writes behind the kernel ends before the kept part.\<close>

lemma memset_elsewhere:
  assumes "\<And>i. i < n \<Longrightarrow> p \<noteq> tr (d + of_nat i)"
  shows "memset tr m d c n p = m p"
proof -
  have "filled tr m (memset tr m d c n) d (ucast c) n"
    unfolding memset_def Let_def by (rule filled_memset_top) (rule memset_pattern)
  then show ?thesis using assms by (simp add: filled_def)
qed

lemma init_terminal_memory:
  assumes "i < 3" "\<And>a. 0x400000 \<le> a \<and> a < 0x800000 \<Longrightarrow> tlb s a = a" and p: "kernel_page p"
  shows "mem (init_terminal i s) p = mem s p"
proof -
  let ?n = "1400 + 2248 * i - 3004"
  have "p \<noteq> tlb s (0x40C914 + of_nat k)" if k: "k < ?n" for k
  proof -
    have k': "k < 2892" using k three_cases [OF assms(1)] by auto
    then have u: "unat (0x40C914 + of_nat k :: u32) = 0x40C914 + k"
      using unat_of_nat_u32 [of "0x40C914 + k"] by simp
    have "tlb s (0x40C914 + of_nat k) = 0x40C914 + of_nat k"
      by (rule assms(2)) (use u k' in \<open>simp add: word_le_nat_alt word_less_nat_alt\<close>)
    then show ?thesis using p u k' by (auto simp: kernel_page_def word_le_nat_alt)
  qed
  then have "memset (tlb s) (mem s) 0x40C914 0 ?n p = mem s p" by (rule memset_elsewhere)
  then show ?thesis
    by (simp add: init_terminal_def Let_def wipe_display_buf_def wipe_behind_def wipe_variables_def)
qed

lemma init_terminal_console:
  "position_ok (con s) \<Longrightarrow> position_ok (con (init_terminal i s)) \<and> video_mem (con (init_terminal i s)) = video_mem (con s)"
  by (auto simp: init_terminal_def Let_def wipe_display_buf_def wipe_behind_def wipe_variables_def position_ok_def
      int_fill_loop_apply)

lemma terminal_init_dir: "page_dir (pg (terminal_init s)) = page_dir (pg s)"
  by (simp add: terminal_init_steps init_terminal_pg)

lemma terminal_init_memory:
  assumes "tlb_current s" "page_dir (pg s) 1 = 0x400083" "kernel_page p"
  shows "mem (terminal_init s) p = mem s p"
proof -
  have k: "page_dir (pg (init_terminal 0 s)) 1 = 0x400083"
    "page_dir (pg (init_terminal 1 (init_terminal 0 s))) 1 = 0x400083"
    using assms(2) by (simp_all add: init_terminal_pg)
  show ?thesis
    using init_terminal_memory [of 0, OF _ kernel_page_identity [OF assms(1,2)] assms(3)]
      init_terminal_memory [of 1, OF _ kernel_page_identity [OF tlb_current_init_terminal k(1)] assms(3)]
      init_terminal_memory [of 2, OF _ kernel_page_identity [OF tlb_current_init_terminal k(2)] assms(3)]
    by (simp add: terminal_init_steps)
qed

lemma kept_terminals:
  assumes c: "calm s" and v: "video_mapped (terminal_init s)" and "tlb_current s" "page_dir (pg s) 1 = 0x400083"
  shows "image_kept s (terminal_init s)"
proof -
  have "position_ok (con (terminal_init s)) \<and> video_mem (con (terminal_init s)) = video_mem (con s)"
    using init_terminal_console [of s 0] init_terminal_console [of _ 1] init_terminal_console [of _ 2] c
    by (simp add: terminal_init_steps calm_def)
  then show ?thesis
    using c tlb_video [OF v] terminal_init_memory [OF assms(3,4)] by (simp add: image_kept_def calm_def)
qed

lemma fs_irq [simp]: "fs (enable_irq n s) = fs s" "fs (disable_irq n s) = fs s"
  by (simp_all add: enable_irq_def disable_irq_def set_master_mask_def set_slave_mask_def Let_def io_defs)

lemma fs_devices [simp]:
  "fs (i8259_init s) = fs s" "fs (init_pit s) = fs s" "fs (init_keyb s) = fs s" "fs (init_rtc s) = fs s"
  "fs (terminal_init s) = wiped_fs (fs s)" "fs (init_paging s) = fs s"
proof -
  have "fs (mask_all_but_cascade s) = fs s" for s
    unfolding mask_all_but_cascade_def by (rule for_loop_frame) simp
  then show "fs (i8259_init s) = fs s" by (simp add: i8259_init_def init_words_def Let_def io_defs)
  have "fs (init_terminal i s) = wiped_fs (fs s)" for i s
    by (simp add: init_terminal_def map_video_page_def flush_tlb_def wipe_display_buf_def wipe_behind_def
        wipe_variables_def Let_def)
  then show "fs (terminal_init s) = wiped_fs (fs s)"
    by (simp add: terminal_init_steps wiped_fs_def fun_eq_iff fill_loop_apply)
qed (simp_all add: init_pit_def init_keyb_def init_rtc_def init_paging_def flush_tlb_def Let_def io_defs)

lemma tlb_devices [simp]: "tlb (init_pit s) = tlb s" "tlb (init_keyb s) = tlb s" "tlb (init_rtc s) = tlb s"
proof -
  have "tlb (enable_irq n s) = tlb s" for n s
    by (simp add: enable_irq_def set_master_mask_def set_slave_mask_def Let_def io_defs)
  then show "tlb (init_pit s) = tlb s" "tlb (init_keyb s) = tlb s" "tlb (init_rtc s) = tlb s"
    by (simp_all add: init_pit_def init_keyb_def init_rtc_def Let_def io_defs beside_eqD(1) [OF beside_say])
qed

lemma image_init:
  assumes "\<And>k. k < 8 \<Longrightarrow> kernel_page (start + of_nat k)" and "\<And>a. kernel_page a \<Longrightarrow> g a = h a"
  shows "file_system_init g start f = file_system_init h start f"
proof -
  have "g (start + 4 + of_nat k) = h (start + 4 + of_nat k)" if "k < 4" for k
    using assms(2) [OF assms(1), of "4 + k"] that by (simp add: add.assoc)
  then have "word_at g (start + 4) = word_at h (start + 4)" by (rule word_at_same)
  then show ?thesis by (simp add: file_system_init_def num_inodes_def)
qed

lemma init_devices_kept:
  fixes s :: kernel and start :: u32
  assumes c: "calm s" and a: "page_table_addr (pg s) AND 0xFFF = 0"
  defines "u \<equiv> init_devices start s"
  shows "image_kept s u" "kernel_page a \<Longrightarrow> tlb u a = a"
    "(\<And>k. k < 8 \<Longrightarrow> kernel_page (start + of_nat k)) \<Longrightarrow> fs u = file_system_init (mem s) start (wiped_fs (fs s))"
proof -
  let ?s1 = "init_paging (i8259_init s)"
  let ?s2 = "init_rtc (init_keyb (init_pit ?s1))"
  let ?s3 = "terminal_init ?s2"
  note p1 = boot_partD [OF boot_part_devices(1) [of s]]
  have "boot_part ?s2 = boot_part ?s1" by simp
  note p2 = boot_partD [OF this]
  have pg2: "pg ?s2 = init_tables (pg s)" using p1(1) p2(1) by (simp add: init_paging_def flush_tlb_def)
  have v: "video_mapped ?s3" by (rule terminal_init_video [OF pg2 a])
  have d: "page_dir (pg ?s3) 1 = 0x400083" by (simp add: terminal_init_dir pg2 init_dir)
  have f: "fs ?s3 = wiped_fs (fs s)" by simp
  have c1: "tlb_current ?s1" by (simp add: init_paging_def)
  have "pg ?s2 = pg ?s1" by (simp add: p2(1))
  then have c2: "tlb_current ?s2" using c1 by (simp add: tlb_current_def)
  have d2: "page_dir (pg ?s2) 1 = 0x400083" by (simp add: pg2 init_dir)
  have k0: "image_kept s (i8259_init s)" by (rule kept_i8259 [OF c])
  have k1: "image_kept s ?s1"
    using kept_trans [OF k0 kept_paging [OF kept_calm [OF k0]]] a p1(1) by simp
  have k1': "image_kept s (init_pit ?s1)"
    by (rule kept_then_same [OF k1]) (simp add: init_pit_def Let_def)
  have k2': "image_kept s (init_keyb (init_pit ?s1))" by (rule kept_trans [OF k1' kept_keyb [OF kept_calm [OF k1']]])
  have k2: "image_kept s ?s2" by (rule kept_trans [OF k2' kept_rtc [OF kept_calm [OF k2']]])
  have k3: "image_kept s ?s3" by (rule kept_trans [OF k2 kept_terminals [OF kept_calm [OF k2] v c2 d2]])
  define s4 where "s4 = disable_cursor (?s3\<lparr>fs := file_system_init (ld8 ?s3) start (fs ?s3)\<rparr>)"
  have u: "u = sti (clear s4)" by (simp add: u_def init_devices_def Let_def s4_def)
  have k4: "image_kept s s4" by (rule kept_then_same [OF k3]) (simp add: s4_def disable_cursor_def)
  show "image_kept s u"
    unfolding u by (rule kept_then_same [OF kept_trans [OF k4 kept_clear [OF kept_calm [OF k4]]]]) simp
  have id3: "tlb ?s3 a = a" if "kernel_page a" for a
    by (rule kernel_page_identity [OF _ d kernel_page_whole [OF that]]) (use v in \<open>simp add: video_mapped_def\<close>)
  have s4: "tlb s4 = tlb ?s3" "fs s4 = file_system_init (ld8 ?s3) start (fs ?s3)"
    by (simp_all add: s4_def disable_cursor_def io_defs)
  show "kernel_page a \<Longrightarrow> tlb u a = a" using id3 s4(1) by (simp add: u io_defs)
  have "ld8 ?s3 a = mem s a" if "kernel_page a" for a
    using k3 id3 that by (simp add: ld8_def rd_def image_kept_def)
  then show "fs u = file_system_init (mem s) start (wiped_fs (fs s))" if "\<And>k. k < 8 \<Longrightarrow> kernel_page (start + of_nat k)"
    using image_init [OF that, of "ld8 ?s3" "mem s"] s4(2) by (simp add: u io_defs f)
qed

section \<open>From the boot loader to the first shell\<close>

text \<open>
  The machine as the boot loader leaves it: no paging, the console where the static initialisers
  put it, no process yet, and the page table at an aligned address.
\<close>

definition power_on :: "kernel \<Rightarrow> bool" where
  "power_on s \<longleftrightarrow> tlb s = (\<lambda>a. a) \<and> position_ok (con s) \<and> video_mem (con s) = 0xB8000 \<and>
     page_table_addr (pg s) AND 0xFFF = 0 \<and> pid_var s = -1 \<and> scheduled_terminal s = 0 \<and>
     (\<forall>i < 6. active (pcb_of s i) = 0)"

lemma kernel_page_outside: "kernel_page a \<Longrightarrow> outside_window a"
  using fold_outside kernel_page_whole by blast

lemma find_first:
  assumes "booted u"
  shows "find_pcb u 0 6 = Some 0"
proof -
  have "active (pcb_at u (pcb_addr (int 0))) = 0"
    using assms booted_def [of u] pcb_of_def [of u 0] by force
  then have "find_pcb u 0 (Suc 5) = Some 0" unfolding find_pcb.simps by simp
  then show ?thesis by (simp only: numeral_nat)
qed

lemma announced_first:
  assumes "booted u" "image_kept s u" "video_mapped u"
  defines "v \<equiv> announced (lit ''shell'') 0 u"
  shows "image_kept s v" "tlb v = tlb u" "tlb_current v"
proof -
  let ?u = "(cli u)\<lparr>pid_var := int 0\<rparr>"
  let ?cs = "announcement (lit ''shell'') (get_scheduled_tid u)"
  have "get_scheduled_tid u < 3"
    using assms(1) by (simp add: booted_def ring_def get_scheduled_tid_def)
  then have p: "printed ?u v" unfolding v_def announced_def by (intro printed_fold announcement_prints)
  have k: "image_kept s ?u" by (rule kept_then_same [OF assms(2)]) simp
  show "image_kept s v" by (rule kept_trans [OF k kept_printed [OF kept_calm [OF k] p]])
  note b = beside_eqD [OF printedD(1) [OF p]]
  show "tlb v = tlb u" using b(1) by (simp add: io_defs)
  then show "tlb_current v" using b(2) assms(3) by (simp add: tlb_current_def video_mapped_def io_defs)
qed

text \<open>
  C10: the kernel boots.  With the boot loader's data in order and an image of the file system as
  the last module, in the kernel's page behind everything that \<open>terminal_init\<close> clears, whose
  directory has an executable \<open>shell\<close>, \<open>entry\<close> comes to the first instruction of that shell: it is
  process 0, the bytes of its file are at 0x08048000, the file system is the image of the boot
  loader, the state is one that the kernel's invariants hold in, and exactly the timer, keyboard,
  cascade and clock lines are open at the interrupt controllers (the kernel's own copy of their
  masks has been cleared by \<open>terminal_init\<close>).
\<close>

theorem entry_runs_shell:
  fixes s :: kernel and d :: dentry and addr :: u32
  defines "f \<equiv> file_system_init (ld8 s) (image_start addr s) (wiped_fs (fs s))"
  defines "content \<equiv> file_content (ld8 s) f (inode_id d)"
  assumes on: "power_on s" and data: "boot_data_ok addr s"
    and image: "directory_within kernel_page (ld8 s) f" "file_within kernel_page (ld8 s) f (inode_id d)"
    and shell: "map_of (directory (ld8 s) f) (lit ''shell'') = Some d" "inode_id d \<le> num_inodes (ld8 s) f - 1"
      "40 \<le> length content" "length content \<le> 0x3B8000" "take 4 content = elf_magic"
  shows "\<exists>u. entry l esp ebp 0x2BADB002 addr (t, s) =
      Some (Started (Entered (word_at (\<lambda>a. array_of (take 4 (drop 24 content)) (unat a)) 0) 0x83FFFFC),
        load_descriptors l t, u) \<and>
    orderly u \<and> curr_pcb u = pcb_addr 0 \<and> fs u = f \<and> lines_open u = {0, 1, 2, 8} \<and>
    load_bytes (tlb u) (mem u) 0x8048000 (length content) = content"
proof -
  have tlb: "tlb s = (\<lambda>a. a)" and ld: "ld8 s = mem s"
    using on by (simp_all add: power_on_def ld8_def rd_def fun_eq_iff)
  have calm: "calm s" using on by (simp add: power_on_def calm_def)
  have kc: "image_kept s (clear s)" by (rule kept_clear [OF calm])
  obtain s1 where s1: "boot_report addr (clear s) = Some (True, image_start addr s, s1)" "printed (clear s) s1"
    using boot_report_total [OF calm_console [OF kept_calm [OF kc]]] unseen_boot_data [OF clear_unseen data] by metis
  let ?s2 = "s1\<lparr>tss_reg_ss0 := 0x18, tss_reg_esp0 := 0x800000\<rparr>"
  define u where "u = init_devices (image_start addr s) ?s2"
  have boot: "entry l esp ebp 0x2BADB002 addr (t, s) =
      map_option (\<lambda>(out, v). (case out of Returned _ \<Rightarrow> Idle | _ \<Rightarrow> Started out, load_descriptors l t, v))
        (execute esp ebp (Some shell) u)"
    "booted u" "video_mapped u" "lines_open u = {0, 1, 2, 8}"
    unfolding u_def by (rule entry_boots [OF _ _ _ _ s1(1)]; use on in \<open>simp add: power_on_def\<close>)+
  have k2: "image_kept s ?s2"
    by (rule kept_then_same [OF kept_trans [OF kc kept_printed [OF kept_calm [OF kc] s1(2)]]]) simp
  have same2: "pg ?s2 = pg s" "fs ?s2 = fs s"
    using beside_eqD(2,18) [OF printedD(1) [OF s1(2)]] by simp_all
  have a: "page_table_addr (pg ?s2) AND 0xFFF = 0" using on same2 by (simp add: power_on_def)
  note dev = init_devices_kept [OF kept_calm [OF k2] a, where start = "image_start addr s", folded u_def]
  have start: "kernel_page (image_start addr s + of_nat k)" if "k < 8" for k
    using image(1) that by (simp add: directory_within_def f_def file_system_init_def Let_def)
  have fs: "fs u = f"
    using dev(3) [OF start] image_init [OF start, of "mem ?s2" "mem s"] k2 same2(2)
    by (simp add: f_def ld image_kept_def)
  let ?v = "announced (lit ''shell'') 0 u"
  note v = announced_first [OF boot(2) kept_trans [OF k2 dev(1)] boot(3)]
  have out: "ld8 ?v a = ld8 s a" if "kernel_page a" for a
    using v(1,2) dev(2) [OF that] that tlb by (simp add: ld8_def rd_def image_kept_def)
  have shell_dir: "map_of (directory (ld8 s) f) (first_word (lit ''shell'')) = Some d"
    unfolding shell_words(2) using shell(1) by simp
  obtain w where w: "execute esp ebp (Some shell) u =
      Some (Entered (word_at (\<lambda>a. array_of (take 4 (drop 24 content)) (unat a)) 0) 0x83FFFFC, w)"
    "curr_pcb w = pcb_addr 0" "load_bytes (tlb w) (mem w) 0x8048000 (length content) = content"
    "outs w = outs u" "fs w = f"
    using execute_loads_within [where d = d, OF find_first [OF boot(2)] shell_words(1) shell_no_argument kernel_page_outside out,
        unfolded fs, OF _ _ image shell_dir shell(2-5) [unfolded content_def] v(3)]
    by (auto simp: content_def)
  have "orderly w" by (rule history.step [OF history.start [OF boot(2)] kernel_step.boot [OF w(1)]])
  moreover have "lines_open w = {0, 1, 2, 8}" using lines_open_cong [OF w(4)] boot(4) by simp
  ultimately show ?thesis using boot(1) w by auto
qed

text \<open>
  A boot loader that put its information at 64 KB, a table of one module at 68 KB, and the
  image with the one executable behind the kernel.
\<close>

definition loaded_memory :: memory where
  "loaded_memory = (\<lambda>a. if a = 0x10000 then 8 else if a = 0x10014 then 1 else if a = 0x10019 then 0x10
     else if a = 0x1001A then 1 else if a = 0x11002 then 0x41 else shell_image a)"

definition loaded_kernel :: kernel where
  "loaded_kernel = static_kernel\<lparr>mem := loaded_memory\<rparr>"

lemma loaded_simps [simp]: "ld8 loaded_kernel = loaded_memory" "tlb loaded_kernel = (\<lambda>a. a)"
  by (simp_all add: loaded_kernel_def static_kernel_def ld8_def rd_def fun_eq_iff)

lemma loaded_image: "0x410000 \<le> a \<Longrightarrow> a < 0x413000 \<Longrightarrow> loaded_memory a = shell_image a"
  by (auto simp: loaded_memory_def)

lemma loaded_multiboot:
  "mbi_flags (multiboot_at 0x10000 loaded_kernel) = 8" "mods_count (multiboot_at 0x10000 loaded_kernel) = 1"
  "mods_addr (multiboot_at 0x10000 loaded_kernel) = 0x11000"
  "mod_start (module_at 0x11000 loaded_kernel) = 0x410000"
  by (simp_all add: multiboot_at_def module_at_def word_in_def word_at_def loaded_memory_def shell_image_def)

lemma loaded_off_screen: "unat a + n \<le> 0xB8000 \<Longrightarrow> off_screen_buffer loaded_kernel a n"
proof -
  assume a: "unat a + n \<le> 0xB8000"
  have "a + of_nat i \<noteq> 0xB8000 + of_nat k" if "i < n" "k < 4000" for i k
  proof
    assume "a + of_nat i = 0xB8000 + of_nat k"
    then have "unat (a + of_nat i) = 0xB8000 + k" using unat_page_byte [of k] that(2) by simp
    moreover have "unat (a + of_nat i) = unat a + i" by (rule unat_add_of_nat) (use a that(1) in simp)
    ultimately show False using a that(1) by simp
  qed
  then show ?thesis by (auto simp: off_screen_buffer_def screen_bytes_def loaded_kernel_def static_kernel_def)
qed

lemma loaded_ok: "power_on loaded_kernel" "boot_data_ok 0x10000 loaded_kernel" "image_start 0x10000 loaded_kernel = 0x410000"
proof -
  show "power_on loaded_kernel"
    using static_console_ok
    by (simp add: power_on_def console_ok_def loaded_kernel_def pcb_of_def) (simp add: static_kernel_def null_pcb_def)
  show "boot_data_ok 0x10000 loaded_kernel"
    using loaded_off_screen [of "0x10000" 52] loaded_off_screen [of "0x11000" 16]
    by (simp add: boot_data_ok_def Let_def loaded_multiboot CHECK_FLAG_def)
  show "image_start 0x10000 loaded_kernel = 0x410000"
    by (simp add: image_start_def Let_def loaded_multiboot CHECK_FLAG_def)
qed

lemma loaded_fs: "file_system_init (ld8 loaded_kernel) 0x410000 (wiped_fs (fs loaded_kernel)) = shell_fs"
proof -
  have fs: "wiped_fs (fs loaded_kernel) = fs static_kernel"
    by (simp add: loaded_kernel_def static_kernel_def wiped_fs_def fun_eq_iff fill_loop_apply)
  show ?thesis
    unfolding fs loaded_simps(1)
    by (simp add: file_system_init_def num_inodes_def word_at_def loaded_memory_def shell_image_def Let_def
        shell_fs_def static_kernel_def)
qed

theorem entry_runs_shell_witness:
  "\<forall>l t. \<exists>u. entry l 0 0 0x2BADB002 0x10000 (t, loaded_kernel) =
      Some (Started (Entered 0x8048000 0x83FFFFC), load_descriptors l t, u) \<and>
    orderly u \<and> curr_pcb u = pcb_addr 0 \<and> fs u = shell_fs \<and> lines_open u = {0, 1, 2, 8}"
proof -
  let ?d = "dentry_at shell_image 0x410040"
  note facts = shell_image_facts [of loaded_memory, OF loaded_image]
  note content = shell_image_content [of loaded_memory, OF loaded_image]
  have d0: "inode_id ?d = 0" by (simp add: dentry_at_def word_at_def shell_image_def)
  have "dentry_at loaded_memory 0x410040 = ?d"
    by (simp add: dentry_at_def word_at_def loaded_memory_def load_bytes_def rd_def upt_conv_Cons)
  then have dir: "map_of (directory loaded_memory shell_fs) (lit ''shell'') = Some ?d"
    using facts(1,3) by (simp add: directory_def dir_entry_addr_def shell_fs_def)
  have "kernel_page (0x410000 + of_nat k)" if "k < 4096" for k
  proof -
    have "unat (0x410000 + of_nat k :: u32) = 0x410000 + k"
      using that unat_of_nat_u32 [of "0x410000 + k"] by simp
    then show ?thesis using that by (simp add: kernel_page_def word_le_nat_alt word_less_nat_alt)
  qed
  moreover have "kernel_page a" if "0x410000 \<le> a" "a < 0x800000" for a
    using that by (simp add: kernel_page_def word_le_nat_alt)
  ultimately have within: "directory_within kernel_page loaded_memory shell_fs" "file_within kernel_page loaded_memory shell_fs 0"
    using shell_file_within [of loaded_memory kernel_page, OF loaded_image] facts(1)
    by (simp_all add: directory_within_def shell_fs_def)
  have "\<exists>u. entry l 0 0 0x2BADB002 0x10000 (t, loaded_kernel) =
      Some (Started (Entered 0x8048000 0x83FFFFC), load_descriptors l t, u) \<and>
    orderly u \<and> curr_pcb u = pcb_addr 0 \<and> fs u = shell_fs \<and> lines_open u = {0, 1, 2, 8}" for l t
    using entry_runs_shell [OF loaded_ok(1,2), unfolded loaded_ok(3) loaded_fs, of ?d l 0 0 t]
      within dir facts(2) content d0 by (auto simp: shell_entry)
  then show ?thesis by blast
qed

end
