(* ===== verification/Process_Theorems.thy ===== *)
theory Process_Theorems
  imports Sample_Kernel Kernel_Steps
begin

text \<open>
  The properties of processes: what \<open>execute\<close>, \<open>halt\<close> and the scheduler do to the stacks of
  the terminals, and the invariant of every orderly history of the kernel, each applied to a concrete
  kernel.
\<close>

section \<open>execute and halt\<close>

text \<open>
  C1: \<open>execute\<close> of a command whose first word names an executable file of the directory, with words
  that fit its local arrays (less than 32 and 128 bytes, for the NUL), enters the file: the lowest
  free process becomes the current one, its argument is the second word, the file's bytes are at
  0x08048000 in its memory, and it starts at the address in bytes 24 to 27 of the file on the stack
  at the top of its 4 MB.
\<close>

theorem execute_loads:
  fixes s :: kernel and i :: nat and cs :: "u8 list" and d :: dentry
  defines "u \<equiv> announced cs i s"
  defines "content \<equiv> file_content (ld8 u) (fs s) (inode_id d)"
  assumes "find_pcb s 0 6 = Some i" and "cstr cmd cs" 
    and "length (first_word cs) < 32" "length (second_word cs) < 128"
    and "map_of (directory (ld8 u) (fs s)) (first_word cs) = Some d"
    and "inode_id d \<le> num_inodes (ld8 u) (fs s) - 1"
    and "40 \<le> length content" "length content \<le> 0x3B8000" "take 4 content = elf_magic"
    and "tlb_current u" "file_outside (ld8 u) (fs s) (inode_id d)"
  shows "\<exists>t. execute esp ebp (Some cmd) s =
      Some (Entered (word_at (\<lambda>a. array_of (take 4 (drop 24 content)) (unat a)) 0) 0x83FFFFC, t) \<and>
    curr_pcb t = pcb_addr (int i) \<and> cstr (argument (pcb_at t (pcb_addr (int i)))) (second_word cs) \<and>
    load_bytes (tlb t) (mem t) 0x8048000 (length content) = content"
  unfolding content_def u_def
  using execute_loads_aux [of s i cmd cs d esp ebp] assms(3-) unfolding content_def u_def by blast

theorem execute_loads_witness:
  "\<exists>t. execute 0 0 (Some shell) shell_kernel = Some (Entered 0x8048000 0x83FFFFC, t) \<and>
    curr_pcb t = pcb_addr 0 \<and> cstr (argument (pcb_at t (pcb_addr 0))) [] \<and>
    load_bytes (tlb t) (mem t) 0x8048000 40 = file_content (ld8 (announced (lit ''shell'') 0 shell_kernel)) shell_fs 0"
proof -
  have fs: "fs shell_kernel = shell_fs" by (simp add: shell_kernel_def)
  note r = sample_ready(1)
  note hyps = shell_loads_hyps(1) [OF r, of 0] shell_loads_hyps(2) [OF r] shell_loads_hyps(3) [OF r, of 0]
    shell_loads_hyps(4) [OF r, of 0] shell_loads_hyps(5) [OF r, of 0] shell_loads_hyps(6) [OF r, of 0]
    shell_loads_hyps(7) [OF r, of 0] shell_loads_hyps(8) [OF r, of 0]
  show ?thesis
    using execute_loads [OF sample_find(1) shell_words(1) shell_no_argument hyps(1), of 0 0] hyps
    unfolding shell_words(3) by (simp add: shell_entry fs)
qed

text \<open>
  C2: an \<open>execute\<close> that enters a program pushes it on the stack of its terminal: the process is
  the lowest free one, its parent is the process that was on top, whose frame is saved, the
  kernel stack of the new process is its own, and no other process changes.
\<close>

theorem execute_pushes:
  assumes "represents s st" and "execute esp ebp (Some cmd) s = Some (Entered eip usp, t)"
  shows "\<exists>i < 6. i \<notin> set (processes st) \<and> (\<forall>j < i. j \<in> set (processes st)) \<and>
    represents t (push (scheduled_terminal s) i st) \<and> scheduled_terminal t = scheduled_terminal s \<and>
    usp = 0x83FFFFC \<and> tss_reg_esp0 t = esp0 (pcb_of t i) \<and>
    (\<forall>j < 6. j \<noteq> i \<longrightarrow> pcb_of t j =
      (if st (scheduled_terminal s) \<noteq> [] \<and> j = hd (st (scheduled_terminal s))
       then (pcb_of s j)\<lparr>saved_esp := esp, saved_ebp := ebp\<rparr> else pcb_of s j))"
  by (rule execute_pushes_aux [OF assms]) blast

theorem execute_pushes_witness:
  "\<exists>t i. execute 0 0 (Some shell) busy_kernel = Some (Entered 0x8048000 0x83FFFFC, t) \<and>
    i \<notin> {0, 1, 2, 3} \<and> represents t (push 0 i busy_stacks) \<and> tss_reg_esp0 t = esp0 (pcb_of t i)"
proof -
  obtain t where t: "execute 0 0 (Some shell) busy_kernel = Some (Entered 0x8048000 0x83FFFFC, t)"
    using shell_executes [OF sample_ready(2) sample_find(2)] by blast
  show ?thesis
    using execute_pushes [OF busy_represents t] t by (auto simp: busy_values busy_stacks_def processes_def)
qed

text \<open>
  C3: \<open>halt\<close> in a program with a parent pops the stack of its terminal.  It always returns: it
  continues the parent in the \<open>execute\<close> it is waiting in, with the status as its value (256
  for the status 15), on the parent's kernel stack and with the parent's memory mapped; the
  ended process is free, its descriptors are inert, and every other process is untouched.
\<close>

theorem halt_pops:
  assumes "represents s st" and "front_of s st = i # j # rest" and "flags_ok (pcb_of s i)"
  shows "\<exists>t. halt esp ebp status s =
      Some (Resumed (saved_esp (pcb_of s j)) (saved_ebp (pcb_of s j)) (Some (exit_value status)), t) \<and>
    represents t (pop (scheduled_terminal s) st) \<and> scheduled_terminal t = scheduled_terminal s \<and>
    (\<forall>k < 8. \<not> fd_in_use (pcb_of t i) k) \<and> (\<forall>k < 6. k \<noteq> i \<longrightarrow> pcb_of t k = pcb_of s k) \<and>
    curr_pcb t = pcb_addr (int j) \<and> tss_reg_esp0 t = esp0 (pcb_of s j) \<and>
    tlb t = tlb (set_up_paging (int j) s)"
proof -
  obtain out t where o: "return_to_parent status (leave_terminal s) = (out, t)" by (rule prod.exhaust)
  note h = halt_to_parent [OF assms(1,2) o]
  show ?thesis
    using h(1) [of esp ebp] h(2-9) ended_inert [OF assms(3)] by (intro exI [of _ t]) simp
qed

theorem halt_pops_witness:
  "\<exists>t. halt 0 0 7 busy_kernel = Some (Resumed 0x7FFE00 0x7FFE08 (Some 7), t) \<and>
    represents t (pop 0 busy_stacks) \<and> curr_pcb t = pcb_addr 0 \<and> \<not> fd_in_use (pcb_of t 1) 0"
  using halt_pops [OF busy_represents, of 1 0 "[]" 0 0 7] busy_pcbs
  by (auto simp: busy_values busy_stacks_def process_def flags_ok_def exit_value_def null_pcb_def null_file_def)

text \<open>
  C4: an \<open>execute\<close> by the running program, the program it starts, and the \<open>halt\<close> of that: the
  \<open>execute\<close> returns to its frame with the exit value, the stacks are as before the call, and
  the parent's and every other process's control block is, but for the saved frame.
\<close>

theorem execute_halt_returns:
  assumes r: "represents s st" and top: "front_of s st = j # rest"
    and e: "execute esp ebp (Some cmd) s = Some (Entered eip usp, t)"
  shows "\<exists>i u. halt esp' ebp' status t = Some (Resumed esp ebp (Some (exit_value status)), u) \<and>
    represents u st \<and> curr_pcb u = curr_pcb s \<and> i \<notin> set (processes st) \<and> \<not> process_active u i \<and>
    pcb_of u j = (pcb_of s j)\<lparr>saved_esp := esp, saved_ebp := ebp\<rparr> \<and>
    (\<forall>k < 6. k \<noteq> i \<and> k \<noteq> j \<longrightarrow> pcb_of u k = pcb_of s k)"
proof -
  let ?r = "scheduled_terminal s"
  obtain i where i: "i < 6" "i \<notin> set (processes st)" "represents t (push ?r i st)"
      "scheduled_terminal t = ?r" and pcbs: "\<And>k. k < 6 \<Longrightarrow> k \<noteq> i \<Longrightarrow> pcb_of t k =
      (if front_of s st \<noteq> [] \<and> k = hd (front_of s st)
       then (pcb_of s k)\<lparr>saved_esp := esp, saved_ebp := ebp\<rparr> else pcb_of s k)"
    by (rule execute_pushes_aux [OF r e]) blast
  note tj = top_process [OF r top]
  have j: "j \<noteq> i" using stack_processes [OF representsD(1) [OF r], of st] top i(2) by auto
  have top2: "front_of t (push ?r i st) = i # j # rest" using top i(4) by (simp add: push_def)
  obtain out u where o: "return_to_parent status (leave_terminal t) = (out, u)" by (rule prod.exhaust)
  note h = halt_to_parent [OF i(3) top2 o]
  have "pop (scheduled_terminal t) (push ?r i st) = st" using i(4) by (simp add: pop_def push_def)
  then have "represents u st" using h(3) by simp
  moreover have "\<not> process_active u i" using h(5) by (simp add: process_active_def ended_def)
  ultimately show ?thesis
    using h(1,2) h(6) [of j] h(6) h(7) i(2) j tj(1,2) pcbs [of j] pcbs top by (intro exI [of _ i] exI [of _ u]) simp
qed

theorem execute_halt_returns_witness:
  "\<exists>t u. execute 0x7FDD00 0x7FDD10 (Some shell) busy_kernel = Some (Entered 0x8048000 0x83FFFFC, t) \<and>
    halt 0 0 15 t = Some (Resumed 0x7FDD00 0x7FDD10 (Some 256), u) \<and>
    represents u busy_stacks \<and> curr_pcb u = pcb_addr 1"
proof -
  obtain t where t: "execute 0x7FDD00 0x7FDD10 (Some shell) busy_kernel = Some (Entered 0x8048000 0x83FFFFC, t)"
    using shell_executes [OF sample_ready(2) sample_find(2)] by blast
  show ?thesis
    using execute_halt_returns [OF busy_represents _ t, of 1 "[0]" 0 0 15] t
    by (auto simp: busy_values busy_stacks_def exit_value_def)
qed

section \<open>The scheduler\<close>

text \<open>
  C5: a timer tick between two running terminals suspends the running process and resumes the
  front process of the next terminal where it was suspended: its saved stack pointers, its kernel
  stack, its memory.  Nothing else of any process changes.
\<close>

theorem scheduler_resumes_next:
  assumes "represents s st" and "front_of s st = i # rest"
    and "st ((scheduled_terminal s + 1) mod 3) = j # rest'"
  shows "\<exists>t. scheduler esp ebp s =
      Some (Resumed (saved_esp (pcb_of s j)) (saved_ebp (pcb_of s j)) None, t) \<and>
    represents t st \<and> scheduled_terminal t = (scheduled_terminal s + 1) mod 3 \<and>
    pcb_of t i = (pcb_of s i)\<lparr>saved_esp := esp, saved_ebp := ebp, tss_esp0 := tss_reg_esp0 s\<rparr> \<and>
    (\<forall>k < 6. k \<noteq> i \<longrightarrow> pcb_of t k = pcb_of s k) \<and> curr_pcb t = pcb_addr (int j) \<and>
    tss_reg_esp0 t = tss_esp0 (pcb_of s j) \<and>
    (\<forall>a. unat (drop_bit 22 a) = 32 \<longrightarrow> tlb t a = tlb (set_up_paging (int j) s) a)"
  by (rule tick_resumes [OF assms]) blast

theorem scheduler_resumes_next_witness:
  "\<exists>t. scheduler 0x7FDD00 0x7FDD10 busy_kernel = Some (Resumed 0x7FBE00 0x7FBE08 None, t) \<and>
    represents t busy_stacks \<and> scheduled_terminal t = 1 \<and> curr_pcb t = pcb_addr 2 \<and>
    saved_esp (pcb_of t 1) = 0x7FDD00"
  using scheduler_resumes_next [OF busy_represents, of 1 "[0]" 2 "[]" "0x7FDD00" "0x7FDD10"] busy_pcbs
  by (auto simp: busy_values busy_stacks_def process_def)

text \<open>
  C6: fairness of the round robin.  When the three terminals run, the third tick resumes the
  process the first one suspended, with the stack pointers and the kernel stack it had, whatever
  was stored for the others in between.
\<close>

theorem scheduler_round:
  assumes "represents s st" and "st 0 \<noteq> []" "st 1 \<noteq> []" "st 2 \<noteq> []"
  shows "\<exists>o1 t1 o2 t2 t3. scheduler esp ebp s = Some (o1, t1) \<and>
    scheduler esp1 ebp1 t1 = Some (o2, t2) \<and>
    scheduler esp2 ebp2 t2 = Some (Resumed esp ebp None, t3) \<and>
    represents t3 st \<and> scheduled_terminal t3 = scheduled_terminal s \<and>
    curr_pcb t3 = curr_pcb s \<and> tss_reg_esp0 t3 = tss_reg_esp0 s"
proof -
  let ?a = "scheduled_terminal s"
  let ?b = "(?a + 1) mod 3" let ?c = "(?b + 1) mod 3"
  have a3: "?a < 3" by (rule representsD(1) [OF assms(1)])
  then have abc: "?b < 3" "?c < 3" "?a \<noteq> ?b" "?b \<noteq> ?c" "?a \<noteq> ?c" "(?c + 1) mod 3 = ?a"
    using three_cases [OF a3] by auto
  have ne: "st k \<noteq> []" if "k < 3" for k using three_cases [OF that] assms(2-4) by auto
  obtain i ri where i: "st ?a = i # ri" using ne [OF a3] by (cases "st ?a") auto
  obtain j rj where j: "st ?b = j # rj" using ne [OF abc(1)] by (cases "st ?b") auto
  obtain k rk where k: "st ?c = k # rk" using ne [OF abc(2)] by (cases "st ?c") auto
  have d: "distinct (processes st)" using representsD(3) [OF assms(1)] by (simp add: table_matches_def)
  have ij: "i \<noteq> j" "i \<noteq> k"
    using stacks_disjoint [OF d a3 abc(1,3)] stacks_disjoint [OF d a3 abc(2,5)] i j k by auto
  have i6: "i < 6" using top_process(1) [OF assms(1) i] .
  obtain t1 where t1: "scheduler esp ebp s = Some (Resumed (saved_esp (pcb_of s j)) (saved_ebp (pcb_of s j)) None, t1)"
    "represents t1 st" "scheduled_terminal t1 = ?b"
    "pcb_of t1 i = (pcb_of s i)\<lparr>saved_esp := esp, saved_ebp := ebp, tss_esp0 := tss_reg_esp0 s\<rparr>"
    by (rule tick_resumes [OF assms(1) i j, of esp ebp]) blast
  have f1: "front_of t1 st = j # rj" "st ((scheduled_terminal t1 + 1) mod 3) = k # rk" using t1(3) j k by simp_all
  obtain t2 where t2: "scheduler esp1 ebp1 t1 = Some (Resumed (saved_esp (pcb_of t1 k)) (saved_ebp (pcb_of t1 k)) None, t2)"
    "represents t2 st" "scheduled_terminal t2 = ?c" "pcb_of t2 i = pcb_of t1 i"
    using t1(3) i6 ij by (auto intro: tick_resumes [OF t1(2) f1, of esp1 ebp1])
  have f2: "front_of t2 st = k # rk" "st ((scheduled_terminal t2 + 1) mod 3) = i # ri"
    using t2(3) i k abc(6) by simp_all
  obtain t3 where t3: "scheduler esp2 ebp2 t2 = Some (Resumed (saved_esp (pcb_of t2 i)) (saved_ebp (pcb_of t2 i)) None, t3)"
    "represents t3 st" "scheduled_terminal t3 = ?a" "curr_pcb t3 = pcb_addr (int i)"
    "tss_reg_esp0 t3 = tss_esp0 (pcb_of t2 i)"
    using t2(3) abc(6) by (auto intro: tick_resumes [OF t2(2) f2, of esp2 ebp2])
  show ?thesis
    using t1(1) t2(1) t3 top_process(2) [OF assms(1) i] by (simp add: t2(4) t1(4))
qed

theorem scheduler_round_witness:
  "\<exists>o1 t1 o2 t2 t3. scheduler 0x7FDD00 0x7FDD10 busy_kernel = Some (o1, t1) \<and>
    scheduler 0x7FBD00 0x7FBD10 t1 = Some (o2, t2) \<and>
    scheduler 0x7F9D00 0x7F9D10 t2 = Some (Resumed 0x7FDD00 0x7FDD10 None, t3) \<and>
    represents t3 busy_stacks \<and> scheduled_terminal t3 = 0 \<and> curr_pcb t3 = pcb_addr 1 \<and>
    tss_reg_esp0 t3 = tss_reg_esp0 busy_kernel"
  using scheduler_round [OF busy_represents, of "0x7FDD00" "0x7FDD10" "0x7FBD00" "0x7FBD10" "0x7F9D00" "0x7F9D10"]
  by (simp add: busy_values) (simp add: busy_stacks_def)

section \<open>The invariant of the orderly histories\<close>

lemma represented_counts:
  assumes "represents s st"
  shows "(\<Sum>t < 3. unat (count_pcb (terminal_list s t))) = card {i. process_active s i}"
proof -
  have m: "distinct (processes st)" "{i. process_active s i} = set (processes st)"
    using representsD(3) [OF assms] by (auto simp: table_matches_def)
  have "unat (count_pcb (terminal_list s t)) = length (st t)" if "t < 3" for t
    using representsD(4) [OF assms that] stack_length [OF representsD(3) [OF assms] that]
      unat_of_nat_u32 [of "length (st t)"] by (simp add: terminal_matches_def)
  then have "(\<Sum>t < 3. unat (count_pcb (terminal_list s t))) = length (processes st)"
    by (simp add: numeral_3_eq_3 numeral_2_eq_2 processes_def)
  then show ?thesis using distinct_card [OF m(1)] m(2) by simp
qed

text \<open>The process that runs, and the one that waits for it, if any.\<close>

lemma represented_running:
  assumes r: "represents s st" and run: "program_runs s"
  shows "\<exists>i < 6. curr_pcb s = pcb_addr (int i) \<and> process_active s i \<and> pid (current s) = of_nat i \<and>
    pcb_tid (current s) = scheduled_terminal s \<and> esp0 (current s) = 0x800000 - 0x2000 * of_nat i - 4 \<and>
    (parent_id (current s) = -1 \<or> (\<exists>j < 6. j \<noteq> i \<and> parent_id (current s) = of_nat j \<and>
       process_active s j \<and> pcb_tid (pcb_of s j) = scheduled_terminal s))"
proof -
  obtain i rest where top: "front_of s st = i # rest" by (rule runs_top [OF r run])
  note r3 = representsD(1) [OF r]
  note tp = top_process [OF r top]
  have m: "linked s (scheduled_terminal s) (i # rest)"
    using representsD(4) [OF r r3] top by (simp add: terminal_matches_def)
  have a: "process_active s k" if "k \<in> set (i # rest)" for k
    using representsD(3) [OF r] stack_processes [OF r3, of st] top that by (auto simp: table_matches_def)
  show ?thesis
    using tp(1-3,6) m a tp(4,5) by (cases rest) auto
qed



text \<open>The first shell runs, after a history of one step.\<close>

lemma booted_shell: "booted shell_kernel"
proof -
  have "active (pcb_of shell_kernel i) = 0" "tid (terminal_list shell_kernel i) = i"
    "next_terminal (terminal_list shell_kernel i) = Some ((i + 1) mod 3)"
    "count_pcb (terminal_list shell_kernel i) = 0" for i
    by (simp_all add: pcb_of_def shell_kernel_def static_kernel_def null_pcb_def ring_terminals_def null_terminal_def)
  then show ?thesis by (simp add: booted_def ring_def) (simp add: shell_kernel_def static_kernel_def)
qed

lemma first_shell:
  obtains t where "execute 0 0 (Some shell) shell_kernel = Some (Entered 0x8048000 0x83FFFFC, t)"
    "orderly t" "program_runs t"
proof -
  obtain t where t: "execute 0 0 (Some shell) shell_kernel = Some (Entered 0x8048000 0x83FFFFC, t)"
    using shell_executes [OF sample_ready(1) sample_find(1)] by blast
  have "orderly t" by (rule history.step [OF history.start [OF booted_shell] kernel_step.boot [OF t]])
  moreover have "program_runs t"
  proof -
    obtain i where r: "represents t (push (scheduled_terminal shell_kernel) i (\<lambda>_. []))"
      "scheduled_terminal t = scheduled_terminal shell_kernel"
      by (rule execute_pushes_aux [OF booted_represents [OF booted_shell] t]) blast
    have "scheduled_terminal t < 3" by (rule representsD(1) [OF r(1)])
    from count_zero [OF r(1) this] show ?thesis by (simp add: program_runs_def r(2) push_def)
  qed
  ultimately show thesis using t that by blast
qed



end
