(* ===== verification/Descriptor_Types.thy ===== *)
theory Descriptor_Types
  imports Process_Theorems
begin

text \<open>
  The kernel calls drivers through pointers kept in the descriptors of a process.  Here: after
  every history of steps each open descriptor of each process holds one of the five tables of drivers,
  so a call through it reaches a driver function of the right kind, and \<open>open\<close> and \<open>write\<close> return.
\<close>

section \<open>Well-typed descriptors\<close>

definition driver_tables :: "file_operation_table set" where
  "driver_tables = {stdin_table, stdout_table, rtc_table, dir_table, file_table}"

definition typed_file :: "file_object \<Rightarrow> bool" where
  "typed_file f \<longleftrightarrow> flag f = 0 \<or> flag f = 1 \<and> file_op_tb f \<in> driver_tables"

definition typed_pcb :: "pcb \<Rightarrow> bool" where
  "typed_pcb p \<longleftrightarrow> active p = 0 \<or> (\<forall>i < 8. typed_file (file_descriptor p i))"

text \<open>Every process control block that was well typed still is.\<close>

definition keeps_types :: "kernel \<Rightarrow> kernel \<Rightarrow> bool" where
  "keeps_types s t \<longleftrightarrow> (\<forall>a. typed_pcb (pcb_at s a) \<longrightarrow> typed_pcb (pcb_at t a))"

lemma keeps_refl [simp]: "keeps_types s s"
  by (simp add: keeps_types_def)

lemma keeps_trans [trans]: "keeps_types s t \<Longrightarrow> keeps_types t u \<Longrightarrow> keeps_types s u"
  by (simp add: keeps_types_def)

lemma keeps_same: "pcb_at t = pcb_at s \<Longrightarrow> keeps_types s t"
  by (simp add: keeps_types_def)

lemma keeps_cong: "pcb_at t = pcb_at u \<Longrightarrow> keeps_types s t \<longleftrightarrow> keeps_types s u"
  by (simp add: keeps_types_def)

lemma keeps_upd: "(\<And>p. typed_pcb p \<Longrightarrow> typed_pcb (f p)) \<Longrightarrow> keeps_types s (upd_pcb a f s)"
  by (simp add: keeps_types_def)

lemma typed_files_only: "file_descriptor q = file_descriptor p \<Longrightarrow> active q = active p \<Longrightarrow> typed_pcb q = typed_pcb p"
  by (simp add: typed_pcb_def)

lemma typed_upd_fd: "typed_pcb p \<Longrightarrow> (\<And>f. typed_file f \<Longrightarrow> typed_file (g f)) \<Longrightarrow> typed_pcb (upd_fd i g p)"
  by (auto simp: typed_pcb_def)

lemma typed_position [simp]: "typed_file (f\<lparr>file_position := x\<rparr>) = typed_file f"
  by (simp add: typed_file_def)

lemma typed_closed [simp]: "typed_file (closed_file f)" "typed_file (f\<lparr>flag := 0\<rparr>)"
  by (simp_all add: typed_file_def closed_file_def)

lemma typed_opened:
  "0 \<le> sint (file_type d) \<Longrightarrow> sint (file_type d) \<le> 2 \<Longrightarrow> typed_file (open_file d f)"
  by (auto simp: typed_file_def open_file_def open_table_def driver_tables_def Let_def)

lemma typed_fresh: "file_descriptor p = fresh_files f \<Longrightarrow> typed_pcb p"
  by (auto simp: typed_pcb_def fresh_files_def typed_file_def driver_tables_def fill_loop_apply null_file_def)

section \<open>Handlers\<close>

lemma pcbs_io [simp]:
  "pcb_at (set_keyb_pressed s) = pcb_at s" "pcb_at (update_screen_x_y x y s) = pcb_at s"
  "pcb_at (update_video_mem a s) = pcb_at s" "pcb_at (clean_keyb_buffer s) = pcb_at s"
  "pcb_at (update_keyb_buf b i s) = pcb_at s" "pcb_at (swap_video n s) = pcb_at s"
  "pcb_at (swap_keyboard n s) = pcb_at s" "pcb_at (set_signal_enable s) = pcb_at s"
  "pcb_at (set_vid_map v pr s) = pcb_at s" "pcb_at (set_user_video_map s) = pcb_at s"
  "pcb_at (flush_tlb s) = pcb_at s"
  by (simp_all add: update_video_mem_def update_screen_x_y_def swap_video_def clean_keyb_buffer_def
      update_keyb_buf_def swap_keyboard_def set_keyb_pressed_def set_signal_enable_def set_vid_map_def
      set_user_video_map_def flush_tlb_def kernel_simps Let_def split: option.split)

lemma pcbs_switch [simp]: "pcb_at (terminal_switch n s) = pcb_at s"
  by (simp add: terminal_switch_def Let_def)

lemma pcbs_keyboard [simp]: "pcb_at (keyb_intr_handler s) = pcb_at s"
proof -
  have "pcb_at (type_char c s) = pcb_at s" for c s by (simp add: type_char_def Let_def)
  then have plain: "pcb_at (plain_key code s) = pcb_at s" for code s by (simp add: plain_key_def Let_def)
  have "pcb_at (keyb_end s) = pcb_at s" for s by (simp add: keyb_end_def Let_def)
  then show ?thesis using plain by (simp add: keyb_intr_handler_def Let_def split: option.split)
qed

lemma typed_ticks: "typed_pcb p \<Longrightarrow> typed_pcb (tick_from i k p)"
  by (induction k arbitrary: i p) (auto intro!: typed_upd_fd)

lemma keeps_clock: "keeps_types s (rtc_intr_handler s)"
proof -
  have tick: "keeps_types u (rtc_tick i u)" for i u
    by (simp add: rtc_tick_def Let_def keeps_upd typed_ticks)
  let ?s1 = "(cli s)\<lparr>rtc_interrupt_occurred := 1, rtc_interrupt_counter := rtc_interrupt_counter s + 1\<rparr>"
  have "keeps_types s (for_loop 6 rtc_tick ?s1)"
    by (rule for_loop_inv) (auto intro: keeps_same keeps_trans tick)
  then show ?thesis by (simp add: rtc_intr_handler_def Let_def keeps_types_def)
qed

lemma keeps_env: "interrupts_only env \<Longrightarrow> keeps_types s (env k s)"
proof -
  assume "interrupts_only env"
  then have "env k s \<in> {s, keyb_intr_handler s, rtc_intr_handler s}" by (simp add: interrupts_only_def)
  then show ?thesis using keeps_clock keeps_same by auto
qed

section \<open>Calls that return\<close>

lemma keeps_read_wait:
  assumes "interrupts_only env" and "read_wait env k s = Some t"
  shows "keeps_types s t"
proof -
  have "interrupts_only env \<longrightarrow> keeps_types s t"
    using _ assms(2)
  proof (rule read_wait.raw_induct [where P = "\<lambda>e k s t. interrupts_only e \<longrightarrow> keeps_types s t"])
    fix f e k s t
    assume IH: "\<And>e k s t. f e k s = Some t \<Longrightarrow> interrupts_only e \<longrightarrow> keeps_types s t"
    and body: "(if \<not> read_allowed s then f e (k + 1) (e k s) else Some s) = Some t"
    show "interrupts_only e \<longrightarrow> keeps_types s t"
    proof
      assume e: "interrupts_only e"
      note first = keeps_env [OF e, of s k]
      show "keeps_types s t"
        using body IH e keeps_trans [OF first] by (auto split: if_splits)
    qed
  qed
  then show ?thesis using assms(1) by simp
qed

lemma keeps_rtc_wait:
  assumes "interrupts_only env" and "rtc_wait env k p fd s = Some t"
  shows "keeps_types s t"
proof -
  have "interrupts_only env \<longrightarrow> keeps_types s t"
    using _ assms(2)
  proof (rule rtc_wait.raw_induct [where P = "\<lambda>e k p fd s t. interrupts_only e \<longrightarrow> keeps_types s t"])
    fix f e k p fd s t
    assume IH: "\<And>e k p fd s t. f e k p fd s = Some t \<Longrightarrow> interrupts_only e \<longrightarrow> keeps_types s t"
    and body: "(if file_position (file_descriptor (pcb_at s p) fd) = 0 then f e (k + 1) p fd (e k s)
      else Some s) = Some t"
    show "interrupts_only e \<longrightarrow> keeps_types s t"
    proof
      assume e: "interrupts_only e"
      note first = keeps_env [OF e, of s k]
      show "keeps_types s t"
        using body IH e keeps_trans [OF first] by (auto split: if_splits)
    qed
  qed
  then show ?thesis using assms(1) by simp
qed

lemma keeps_position: "keeps_types s (upd_pcb a (upd_fd i (\<lambda>f. f\<lparr>file_position := x\<rparr>)) s)"
  by (rule keeps_upd) (simp add: typed_upd_fd)

text \<open>What a read of a file or a directory leaves in the descriptor.\<close>

lemma step_positions:
  "\<exists>x. snd (snd (file_step g f buf n fo)) = fo\<lparr>file_position := x\<rparr>"
  "\<exists>x. snd (snd (dir_step g f n fo)) = fo\<lparr>file_position := x\<rparr>"
proof -
  have same: "\<exists>x. fo = fo\<lparr>file_position := x\<rparr>" by (rule exI [of _ "file_position fo"]) simp
  show "\<exists>x. snd (snd (file_step g f buf n fo)) = fo\<lparr>file_position := x\<rparr>"
    using same by (auto simp: file_step_def split: prod.split)
  show "\<exists>x. snd (snd (dir_step g f n fo)) = fo\<lparr>file_position := x\<rparr>"
    using same by (auto simp: dir_step_def Let_def split: option.split)
qed

lemma keeps_file_reads:
  "keeps_types s (snd (file_read fd buf n s))" "keeps_types s (snd (dir_read fd buf n s))"
proof -
  have pos: "keeps_types s (upd_pcb (curr_pcb s) (upd_fd fd (\<lambda>_. (current_file s fd)\<lparr>file_position := x\<rparr>)) (store_bytes buf bs s))"
    for x bs
    by (auto simp: keeps_types_def current_file_def typed_pcb_def)
  obtain r bs fo where f: "file_step (ld8 s) (fs s) buf n (current_file s fd) = (r, bs, fo)" by (metis prod.exhaust)
  then show "keeps_types s (snd (file_read fd buf n s))"
    using step_positions(1) [of "ld8 s" "fs s" buf n "current_file s fd"] pos by (auto simp: file_read_def)
  obtain r bs fo where f: "dir_step (ld8 s) (fs s) n (current_file s fd) = (r, bs, fo)" by (metis prod.exhaust)
  then show "keeps_types s (snd (dir_read fd buf n s))"
    using step_positions(2) [of "ld8 s" "fs s" n "current_file s fd"] pos by (auto simp: dir_read_def)
qed

lemma keeps_line: "keeps_types s (snd (take_line buf s))"
  by (rule keeps_same) (simp add: take_line_def Let_def)

lemma keeps_read:
  assumes e: "interrupts_only env" and r: "read_fd env fd buf n s = Some (v, t)"
  shows "keeps_types s t"
proof -
  have "call_read env f fd' buf n s = Some (v, t) \<Longrightarrow> keeps_types s t" for f fd'
  proof (cases f)
    case Fn_terminal_read
    assume "call_read env f fd' buf n s = Some (v, t)"
    then obtain u where u: "read_wait env 0 s = Some u" "take_line buf u = (v, t)"
      using Fn_terminal_read by (auto simp: terminal_read_def split: option.splits)
    have "keeps_types s u" by (rule keeps_read_wait [OF e u(1)])
    also have "keeps_types u t" using keeps_line [of u buf] u(2) by simp
    finally show ?thesis .
  next
    case Fn_rtc_read
    assume "call_read env f fd' buf n s = Some (v, t)"
    then obtain u where u: "rtc_wait env 0 (curr_pcb s) fd' s = Some u"
      "t = upd_pcb (curr_pcb s) (upd_fd fd' (\<lambda>f. f\<lparr>file_position := 0\<rparr>)) u"
      using Fn_rtc_read by (auto simp: rtc_read_def Let_def split: option.splits)
    show ?thesis unfolding u(2) using keeps_rtc_wait [OF e u(1)] keeps_position keeps_trans by blast
  next
    case Fn_file_read
    assume "call_read env f fd' buf n s = Some (v, t)"
    then show ?thesis using Fn_file_read keeps_file_reads(1) [of s fd' buf n] by simp
  next
    case Fn_dir_read
    assume "call_read env f fd' buf n s = Some (v, t)"
    then show ?thesis using Fn_dir_read keeps_file_reads(2) [of s fd' buf n] by simp
  qed (auto simp: terminal_bad_read_def fail1_def intro!: keeps_same)
  then show ?thesis using r by (auto simp: read_fd_def Let_def split: if_splits)
qed

lemma keeps_write:
  assumes "write_fd fd buf n s = Some (v, t)"
  shows "keeps_types s t"
proof -
  have w: "pcb_at (for_loop k (\<lambda>i t. putc (ld8 t (buf + of_nat i)) t) u) = pcb_at u" for k u
    by (rule for_loop_frame) simp
  have "call_write f fd' buf n s = Some (v, t) \<Longrightarrow> pcb_at t = pcb_at s" for f fd'
    by (cases f) (auto simp: terminal_write_def terminal_bad_write_def rtc_write_def dir_write_def
        file_write_def fail1_def Let_def w kernel_simps split: if_splits)
  then show ?thesis using assms by (auto intro: keeps_same simp: write_fd_def Let_def split: if_splits)
qed

lemma keeps_open:
  assumes "open_fd name s = Some (v, t)"
  shows "keeps_types s t"
proof -
  have new: "keeps_types s (upd_pcb p (upd_fd i (open_file d)) s)"
    if "0 \<le> sint (file_type d)" "sint (file_type d) \<le> 2" for p i d
    using typed_opened [OF that] by (intro keeps_upd typed_upd_fd)
  have call: "keeps_types s u"
    if c: "call_open f nm (upd_pcb p (upd_fd i (open_file d)) s) = Some (r, u)"
      and d: "0 \<le> sint (file_type d)" "sint (file_type d) \<le> 2" for f nm p i d r u
    using new [OF d, of p i] call_open_frame(1) [OF c] by (simp add: keeps_types_def)
  show ?thesis
    using assms by (auto simp: open_fd_def Let_def not_less intro: call split: option.splits if_splits)
qed

lemma keeps_close: "keeps_types s (snd (close_fd fd s))"
  using keeps_upd [of "upd_fd (nat fd) closed_file"] by (simp add: close_fd_def Let_def typed_upd_fd)

lemma keeps_call:
  assumes "call_syscall env esp ebp c ebx ecx edx s = Some (out, t)" and e: "interrupts_only env"
    and "c \<noteq> Sys_halt" "c \<noteq> Sys_execute"
  shows "keeps_types s t"
proof -
  have args: "keeps_types s (snd (getargs ebx ecx s))" "keeps_types s (snd (vidmap ebx s))"
    by (rule keeps_same, simp add: getargs_def vidmap_def Let_def)+
  have close: "keeps_types s (snd (close_fd (sint ebx) s))" by (rule keeps_close)
  have snd: "p = (v, u) \<Longrightarrow> keeps_types s (snd p) \<Longrightarrow> keeps_types s u" for p v u by simp
  show ?thesis
    using assms(1,3,4)
    by (cases c) (auto simp: set_handler_def sigreturn_def dest: keeps_read [OF e] keeps_write keeps_open
        snd [OF _ close] snd [OF _ args(1)] snd [OF _ args(2)] split: prod.splits)
qed

section \<open>Processes\<close>

lemma keeps_start:
  assumes "start_process i esp ebp arg entry s = (out, t)"
  shows "keeps_types s t"
proof -
  let ?s1 = "(create_pcb (pcb_addr i) i arg s)\<lparr>curr_pcb := pcb_addr i\<rparr>"
  have new: "keeps_types s ?s1"
    by (auto simp: keeps_types_def create_pcb_def Let_def intro: typed_fresh)
  have "keeps_types ?s1 (upd_pcb a (\<lambda>p. p\<lparr>saved_esp := esp, saved_ebp := ebp\<rparr>) ?s1)" for a
    by (rule keeps_upd) (simp add: typed_pcb_def)
  note saved = keeps_trans [OF new this]
  have "keeps_types s (if c then upd_pcb a (\<lambda>p. p\<lparr>saved_esp := esp, saved_ebp := ebp\<rparr>) ?s1 else ?s1)" for c a
    using new saved by simp
  note started = this
  have "keeps_types s (snd (start_process i esp ebp arg entry s))"
    using started [of "parent_id (pcb_at ?s1 (pcb_addr i)) \<noteq> -1" "pcb_addr (uint (parent_id (pcb_at ?s1 (pcb_addr i))))"]
    by (simp add: start_process_def context_switch_def Let_def keeps_types_def)
  then show ?thesis using assms by simp
qed

lemma keeps_execute:
  assumes "execute esp ebp cmd s = Some (out, t)"
  shows "keeps_types s t"
proof (cases cmd)
  case None
  then have "t = cli s" using assms by (simp add: execute_def Let_def)
  then show ?thesis by (simp add: keeps_same)
next
  case (Some c)
  consider "pcb_at t = pcb_at s"
    | i u arg entry where "pcb_at u = pcb_at s" "start_process (int i) esp ebp arg entry u = (out, t)"
    using execute_outcome [OF assms [unfolded Some]] unfolding same_table_def by metis
  then show ?thesis
  proof cases
    case 1
    then show ?thesis by (rule keeps_same)
  next
    case 2
    then show ?thesis using keeps_start [OF 2(2)] by (simp add: keeps_types_def)
  qed
qed

lemma typed_inactive: "active p = 0 \<Longrightarrow> typed_pcb p"
  by (simp add: typed_pcb_def)

lemma keeps_return: "keeps_types s (snd (return_to_parent status s))"
proof -
  let ?close = "\<lambda>k t. if flag (file_descriptor (current t) (k + 2)) = 1 then snd (close_fd (int (k + 2)) t) else t"
  have step: "keeps_types u (?close k u)" for k u using keeps_close by simp
  have "keeps_types s (for_loop 6 ?close (cli s))"
  proof (rule for_loop_inv)
    show "keeps_types s (cli s)" by (simp add: keeps_same)
    show "keeps_types s (?close k t)" if "keeps_types s t" for k t by (rule keeps_trans [OF that step])
  qed
  then have closed: "keeps_types s (close_files (cli s))" by (simp add: close_files_def)
  have "keeps_types (close_files (cli s)) (release_pcb (close_files (cli s)))"
    unfolding release_pcb_def by (rule keeps_upd) (simp add: typed_inactive)
  from keeps_trans [OF closed this] show ?thesis
    by (simp add: return_to_parent_def Let_def keeps_types_def)
qed

lemma keeps_halt:
  assumes "halt esp ebp status s = Some (out, t)"
  shows "keeps_types s t"
proof -
  let ?s1 = "leave_terminal s"
  have s1: "keeps_types s ?s1" by (rule keeps_same) simp
  have v: "keeps_types s (vacated s)" by (auto simp: keeps_types_def typed_inactive)
  have r: "return_to_parent status u = (out, t) \<Longrightarrow> keeps_types s u \<Longrightarrow> keeps_types s t" for u
    using keeps_return [of u status] keeps_trans by force
  show ?thesis
  proof (cases "parent_id (current ?s1) = -1")
    case True
    then have "Option.bind (execute esp ebp (Some shell) (vacated s)) (\<lambda>(out, s4).
        case out of Returned _ \<Rightarrow> Some (return_to_parent status s4) | _ \<Rightarrow> Some (out, s4)) = Some (out, t)"
      using assms by (simp add: halt_def leave_terminal_def vacated_def Let_def)
    then obtain o4 s4 where ex: "execute esp ebp (Some shell) (vacated s) = Some (o4, s4)"
      and rest: "(case o4 of Returned _ \<Rightarrow> Some (return_to_parent status s4) | _ \<Rightarrow> Some (o4, s4)) = Some (out, t)"
      by (auto simp: bind_eq_Some_conv)
    have "keeps_types s s4" by (rule keeps_trans [OF v keeps_execute [OF ex]])
    then show ?thesis using rest r by (cases o4) auto
  next
    case False
    then have "return_to_parent status ?s1 = (out, t)"
      using assms by (simp add: halt_def leave_terminal_def Let_def)
    then show ?thesis by (rule r [OF _ s1])
  qed
qed

lemma keeps_tick:
  assumes "scheduler esp ebp s = Some (out, t)"
  shows "keeps_types s t"
proof -
  have sus: "keeps_types s (suspend esp ebp s)"
    by (auto simp: keeps_types_def current_def typed_pcb_def)
  have resumed: "keeps_types u (snd (resume p u))" for p u
    by (rule keeps_same) (simp add: resume_def Let_def)
  have u: "keeps_types s u \<Longrightarrow> keeps_types s (snd (resume p u))" for p u
    using resumed keeps_trans by blast
  show ?thesis
  proof (cases "next_terminal (terminal_list (suspend esp ebp s) (scheduled_terminal (suspend esp ebp s)))")
    case None
    then show ?thesis using assms sus by (simp add: scheduler_def Let_def)
  next
    case (Some n)
    let ?u = "switched n (suspend esp ebp s)"
    have su: "keeps_types s ?u" using sus by (simp add: keeps_types_def)
    have sch: "scheduler esp ebp s = (if count_pcb (terminal_list ?u n) = 0
        then Option.bind (execute esp ebp (Some shell) ?u) (\<lambda>(out, s4).
          case out of Returned _ \<Rightarrow> Some (Returned 0, s4) | _ \<Rightarrow> Some (out, s4))
        else Some (resume (pcb_ptr (terminal_list (set_scheduled_tid (tid (terminal_list (suspend esp ebp s) n))
          ((suspend esp ebp s)\<lparr>scheduled_terminal := n\<rparr>)) n)) ?u))"
      using Some by (simp only: scheduler_def switched_def Let_def option.case)
    have ex: "execute esp ebp (Some shell) ?u = Some (o4, s4) \<Longrightarrow> keeps_types s s4" for o4 s4
      using keeps_execute keeps_trans [OF su] by blast
    show ?thesis
    proof (cases "count_pcb (terminal_list ?u n) = 0")
      case True
      then obtain o4 s4 where x: "execute esp ebp (Some shell) ?u = Some (o4, s4)"
        and rest: "(case o4 of Returned _ \<Rightarrow> Some (Returned 0, s4) | _ \<Rightarrow> Some (o4, s4)) = Some (out, t)"
        using assms unfolding sch by (auto simp: bind_eq_Some_conv)
      have "t = s4" using rest by (cases o4) simp_all
      then show ?thesis using ex [OF x] by simp
    next
      case False
      then obtain p where p: "resume p ?u = (out, t)" using assms unfolding sch by auto
      show ?thesis using u [OF su, of p] by (simp add: p)
    qed
  qed
qed

lemma keeps_step:
  assumes "kernel_step ord s t"
  shows "keeps_types s t"
  using assms
proof (elim kernel_stepE)
  fix esp ebp out
  assume "execute esp ebp (Some shell) s = Some (out, t)"
  then show ?thesis by (rule keeps_execute)
next
  fix env esp ebp eax ebx ecx edx out
  assume e: "interrupts_only env" and k: "syscall_linkage env esp ebp eax ebx ecx edx s = Some (out, t)"
  show ?thesis
  proof (cases "sint eax < 1 \<or> sint eax > 10")
    case True
    then show ?thesis using k by (auto simp: syscall_linkage_def)
  next
    case False
    then have c: "call_syscall env esp ebp (syscall_table ! nat (sint eax - 1)) ebx ecx edx s = Some (out, t)"
      using k by (simp add: syscall_linkage_def)
    show ?thesis
      using c keeps_call [OF c e] keeps_halt keeps_execute
      by (cases "syscall_table ! nat (sint eax - 1)") auto
  qed
next
  fix i esp ebp out
  assume i: "i < 20" and h: "(exception_handler_table ! i) esp ebp s = Some (out, t)"
  obtain m where m: "(exception_handler_table ! i) esp ebp s = halt esp ebp 0 (say m s)"
    using exception_halts [OF i] by blast
  have "keeps_types s (say m s)" by (rule keeps_same) simp
  also have "keeps_types (say m s) t" using keeps_halt h m by metis
  finally show ?thesis .
next
  fix esp ebp out
  assume h: "pit_intr_handler esp ebp s = Some (out, t)"
  have "keeps_types s (memory_switch (send_eoi 0 s))" by (rule keeps_same) simp
  also have "keeps_types (memory_switch (send_eoi 0 s)) t" using keeps_tick h by (simp add: pit_intr_handler_def)
  finally show ?thesis .
next
  assume "t = keyb_intr_handler s"
  then show ?thesis by (simp add: keeps_same)
next
  assume "t = rtc_intr_handler s"
  then show ?thesis by (simp add: keeps_clock)
next
  fix buf
  assume "t = snd (take_line buf s)"
  then show ?thesis by (simp add: keeps_line)
next
  fix p fd
  assume "t = upd_pcb p (upd_fd fd (\<lambda>f. f\<lparr>file_position := 0\<rparr>)) s"
  then show ?thesis by (simp only: keeps_position)
next
  fix rows
  assume "t = s\<lparr>line_rows := rows\<rparr>"
  then show ?thesis by (simp add: keeps_same)
qed

lemma history_typed: "history ord s \<Longrightarrow> i < 6 \<Longrightarrow> typed_pcb (pcb_of s i)"
proof (induction rule: history.induct)
  case (start s)
  then show ?case by (simp add: booted_def typed_inactive)
next
  case (step s t)
  then show ?case using keeps_step [OF step.hyps(2)] by (simp add: keeps_types_def pcb_of_def)
qed

section \<open>Calls through the tables\<close>

lemma typed_write:
  assumes "\<forall>i < 8. typed_file (file_descriptor (current s) i)"
  shows "\<exists>r t. write_fd fd buf n s = Some (r, t)"
proof (cases "0 \<le> fd \<and> fd < 8")
  case True
  then have "nat fd < 8" by linarith
  then have "typed_file (file_descriptor (current s) (nat fd))" using assms by blast
  then show ?thesis
    by (auto simp: write_fd_def get_current_pcb_def current_def Let_def typed_file_def driver_tables_def
        stdin_table_def stdout_table_def rtc_table_def dir_table_def file_table_def)
qed (auto simp: write_fd_def)

lemma open_returns: "\<exists>r t. open_fd name s = Some (r, t)"
proof -
  have call: "\<exists>r t. call_open (fop_open (file_op_tb (open_file d f))) nm u = Some (r, t)"
    if "\<not> sint (file_type d) < 0" "\<not> sint (file_type d) > 2" for d f nm u
    using call_open_of_type [of d f] that by simp
  show ?thesis
  proof (cases "find_fd (pcb_at s (curr_pcb s)) 0 8")
    case (Some i)
    note find = this
    show ?thesis
    proof (cases "read_dentry_by_name (ld8 s) (fs s) (view s name)")
      case (Some d)
      let ?f = "file_descriptor (pcb_at s (curr_pcb s)) i"
      let ?u = "upd_pcb (curr_pcb s) (upd_fd i (open_file d)) s"
      show ?thesis
      proof (cases "sint (file_type d) < 0 \<or> sint (file_type d) > 2")
        case False
        then obtain r t where "call_open (fop_open (file_op_tb (open_file d ?f))) (view ?u name) ?u = Some (r, t)"
          using call [of d ?f "view ?u name" ?u] by auto
        then show ?thesis using find Some False by (simp add: open_fd_def get_current_pcb_def Let_def)
      qed (use find Some in \<open>auto simp: open_fd_def get_current_pcb_def Let_def\<close>)
    qed (use find in \<open>simp add: open_fd_def get_current_pcb_def Let_def\<close>)
  qed (simp add: open_fd_def get_current_pcb_def Let_def)
qed

lemma typed_read:
  assumes "\<forall>i < 8. typed_file (file_descriptor (current s) i)" and "read_fd env fd buf n s = None"
  shows "(fop_read (file_op_tb (file_descriptor (current s) (nat fd))) = Fn_terminal_read \<and>
      terminal_read env (nat fd) buf n s = None) \<or>
    (fop_read (file_op_tb (file_descriptor (current s) (nat fd))) = Fn_rtc_read \<and>
      rtc_read env (nat fd) buf n s = None)"
proof -
  have fd: "0 \<le> fd" "fd < 8" using assms(2) by (auto simp: read_fd_def split: if_splits)
  then have "nat fd < 8" by linarith
  then have "typed_file (file_descriptor (current s) (nat fd))" using assms(1) by blast
  then show ?thesis
    using assms(2) fd
    by (auto simp: read_fd_def get_current_pcb_def current_def Let_def typed_file_def driver_tables_def
        stdin_table_def stdout_table_def rtc_table_def dir_table_def file_table_def split: if_splits)
qed



end
