(* ===== verification/User_Lib.thy ===== *)
theory User_Lib
  imports Syscall
begin

text \<open>
  What the user programs are built on: the system call stubs of \<open>src/syscalls/ece391syscall.S\<close>
  and the library \<open>src/syscalls/ece391support.c\<close>.  A program is a function on the kernel's
  state: its buffers are in memory at addresses it is given, its other variables are values.  It
  sees memory through the translation, as the kernel does when it serves a call.
\<close>

section \<open>The setting of a program\<close>

text \<open>
  What happens while a call waits, the kernel stack pointers of its calls, how a program it
  executes ends (the value \<open>execute\<close> returns with, and the state), and the addresses at which
  the compiler put its string literals.
\<close>

record setting =
  interrupts :: "nat \<Rightarrow> kernel \<Rightarrow> kernel"
  kernel_esp :: u32
  kernel_ebp :: u32
  child :: "u32 \<Rightarrow> u32 \<Rightarrow> kernel \<Rightarrow> (int \<times> kernel) option"
  literal :: "string \<Rightarrow> u32"

text \<open>A setting in which nothing happens during a call and no program is ever started.\<close>

definition idle_setting :: setting where
  "idle_setting = \<lparr>interrupts = (\<lambda>_ s. s), kernel_esp = 0, kernel_ebp = 0, child = (\<lambda>_ _ _. None),
     literal = (\<lambda>_. 0)\<rparr>"

section \<open>System calls\<close>

definition DO_CALL :: "setting \<Rightarrow> u32 \<Rightarrow> u32 \<Rightarrow> u32 \<Rightarrow> u32 \<Rightarrow> kernel \<Rightarrow> (int \<times> kernel) option" where
  "DO_CALL c number a b d s =
     Option.bind (syscall_linkage (interrupts c) (kernel_esp c) (kernel_ebp c) number a b d s) (\<lambda>(out, t).
       case out of Returned v \<Rightarrow> Some (v, t) | Entered eip esp \<Rightarrow> child c eip esp t | Resumed _ _ _ \<Rightarrow> None)"

abbreviation ece391_execute :: "setting \<Rightarrow> u32 \<Rightarrow> kernel \<Rightarrow> (int \<times> kernel) option" where
  "ece391_execute c command s \<equiv> DO_CALL c 2 command 0 0 s"

abbreviation ece391_read :: "setting \<Rightarrow> int \<Rightarrow> u32 \<Rightarrow> u32 \<Rightarrow> kernel \<Rightarrow> (int \<times> kernel) option" where
  "ece391_read c fd buf n s \<equiv> DO_CALL c 3 (of_int fd) buf n s"

abbreviation ece391_write :: "setting \<Rightarrow> int \<Rightarrow> u32 \<Rightarrow> u32 \<Rightarrow> kernel \<Rightarrow> (int \<times> kernel) option" where
  "ece391_write c fd buf n s \<equiv> DO_CALL c 4 (of_int fd) buf n s"

abbreviation ece391_open :: "setting \<Rightarrow> u32 \<Rightarrow> kernel \<Rightarrow> (int \<times> kernel) option" where
  "ece391_open c filename s \<equiv> DO_CALL c 5 filename 0 0 s"

abbreviation ece391_close :: "setting \<Rightarrow> int \<Rightarrow> kernel \<Rightarrow> (int \<times> kernel) option" where
  "ece391_close c fd s \<equiv> DO_CALL c 6 (of_int fd) 0 0 s"

abbreviation ece391_getargs :: "setting \<Rightarrow> u32 \<Rightarrow> u32 \<Rightarrow> kernel \<Rightarrow> (int \<times> kernel) option" where
  "ece391_getargs c buf n s \<equiv> DO_CALL c 7 buf n 0 s"

abbreviation ece391_vidmap :: "setting \<Rightarrow> u32 \<Rightarrow> kernel \<Rightarrow> (int \<times> kernel) option" where
  "ece391_vidmap c screen_start s \<equiv> DO_CALL c 8 screen_start 0 0 s"

abbreviation ece391_set_handler :: "setting \<Rightarrow> u32 \<Rightarrow> u32 \<Rightarrow> kernel \<Rightarrow> (int \<times> kernel) option" where
  "ece391_set_handler c signum handler s \<equiv> DO_CALL c 9 signum handler 0 s"

text \<open>A 32-bit variable.\<close>

definition st32 :: "u32 \<Rightarrow> u32 \<Rightarrow> kernel \<Rightarrow> kernel" where
  "st32 a w s = store_bytes a [ucast w, ucast (drop_bit 8 w), ucast (drop_bit 16 w), ucast (drop_bit 24 w)] s"

section \<open>Strings (ece391support.c)\<close>

partial_function (option) ece391_strlen_loop :: "bytes \<Rightarrow> nat \<Rightarrow> nat option" where
  "ece391_strlen_loop s len = (if s len \<noteq> 0 then ece391_strlen_loop s (len + 1) else Some len)"

definition ece391_strlen :: "bytes \<Rightarrow> nat option" where
  "ece391_strlen s = ece391_strlen_loop s 0"

text \<open>The strings may overlap: a byte is loaded after the ones before it were stored.\<close>

partial_function (option) ece391_strcpy :: "u32 \<Rightarrow> u32 \<Rightarrow> kernel \<Rightarrow> kernel option" where
  "ece391_strcpy dst src s =
     (let ch = ld8 s src; s1 = st8 dst ch s
      in if ch \<noteq> 0 then ece391_strcpy (dst + 1) (src + 1) s1 else Some s1)"

definition ece391_fdputs :: "setting \<Rightarrow> int \<Rightarrow> u32 \<Rightarrow> kernel \<Rightarrow> kernel option" where
  "ece391_fdputs c fd str s =
     Option.bind (ece391_strlen (view s str)) (\<lambda>n.
       map_option snd (ece391_write c fd str (of_nat n) s))"

partial_function (option) ece391_strcmp_from :: "bytes \<Rightarrow> bytes \<Rightarrow> nat \<Rightarrow> int option" where
  "ece391_strcmp_from s1 s2 i =
     (if s1 i = s2 i
      then if s1 i = 0 then Some 0 else ece391_strcmp_from s1 s2 (i + 1)
      else Some (uint (s1 i) - uint (s2 i)))"

definition ece391_strcmp :: "bytes \<Rightarrow> bytes \<Rightarrow> int option" where
  "ece391_strcmp s1 s2 = ece391_strcmp_from s1 s2 0"

fun ece391_strncmp_from :: "bytes \<Rightarrow> bytes \<Rightarrow> nat \<Rightarrow> nat \<Rightarrow> int" where
  "ece391_strncmp_from s1 s2 i 0 = 0"
| "ece391_strncmp_from s1 s2 i (Suc n) =
     (if s1 i = s2 i
      then if s1 i = 0 \<or> n = 0 then 0 else ece391_strncmp_from s1 s2 (i + 1) n
      else uint (s1 i) - uint (s2 i))"

definition ece391_strncmp :: "bytes \<Rightarrow> bytes \<Rightarrow> u32 \<Rightarrow> int" where
  "ece391_strncmp s1 s2 n = ece391_strncmp_from s1 s2 0 (unat n)"

section \<open>Numbers (ece391support.c)\<close>

partial_function (option) ece391_itoa_loop :: "u32 \<Rightarrow> u32 \<Rightarrow> u32 \<Rightarrow> kernel \<Rightarrow> (u32 \<times> kernel) option" where
  "ece391_itoa_loop newval newbuf radix s =
     (if newval > 0
      then (if radix = 0 then None
            else ece391_itoa_loop (newval div radix) (newbuf + 1) radix
                   (st8 newbuf (lookup (unat (newval mod radix))) s))
      else Some (newbuf, s))"

function ece391_strrev_loop :: "u32 \<Rightarrow> int \<Rightarrow> int \<Rightarrow> kernel \<Rightarrow> kernel" where
  "ece391_strrev_loop a b e s =
     (if b < e
      then let tmp = ld8 s (a + of_int e);
               s1 = st8 (a + of_int e) (ld8 s (a + of_int b)) s;
               s2 = st8 (a + of_int b) tmp s1
           in ece391_strrev_loop a (b + 1) (e - 1) s2
      else s)"
  by pat_completeness auto
termination
  by (relation "measure (\<lambda>(a, b, e, s). nat (e - b))") auto

declare ece391_strrev_loop.simps [simp del]

definition ece391_strrev :: "u32 \<Rightarrow> kernel \<Rightarrow> kernel option" where
  "ece391_strrev a s =
     Option.bind (ece391_strlen (view s a)) (\<lambda>n.
       if int n - 1 \<le> 0 then Some s else Some (ece391_strrev_loop a 0 (int n - 1) s))"

definition ece391_itoa :: "u32 \<Rightarrow> u32 \<Rightarrow> u32 \<Rightarrow> kernel \<Rightarrow> kernel option" where
  "ece391_itoa value buf radix s =
     (if value = 0 then Some (st8 (buf + 1) 0 (st8 buf 0x30 s))
      else Option.bind (ece391_itoa_loop value buf radix s) (\<lambda>(newbuf, s1).
        ece391_strrev buf (st8 newbuf 0 s1)))"

section \<open>What the stubs do\<close>

lemma stub_read: "ece391_read c fd buf n s = read_fd (interrupts c) (sint (of_int fd :: u32)) buf n s"
  and stub_write: "ece391_write c fd buf n s = write_fd (sint (of_int fd :: u32)) buf n s"
  and stub_open: "ece391_open c filename s = open_fd filename s"
  and stub_close: "ece391_close c fd s = Some (close_fd (sint (of_int fd :: u32)) s)"
  and stub_getargs: "ece391_getargs c buf n s = Some (getargs buf n s)"
proof -
  have ret: "DO_CALL c k a b d s = r" if "syscall_linkage (interrupts c) (kernel_esp c) (kernel_ebp c) k a b d s
      = map_option (\<lambda>(v, t). (Returned v, t)) r" for k a b d r
    by (cases r) (auto simp: DO_CALL_def that)
  show "ece391_read c fd buf n s = read_fd (interrupts c) (sint (of_int fd :: u32)) buf n s"
    "ece391_write c fd buf n s = write_fd (sint (of_int fd :: u32)) buf n s"
    "ece391_open c filename s = open_fd filename s"
    "ece391_close c fd s = Some (close_fd (sint (of_int fd :: u32)) s)"
    "ece391_getargs c buf n s = Some (getargs buf n s)"
    by (rule ret, simp add: syscall_numbers)+
qed

lemma ld8_upd_pcb [simp]: "ld8 (upd_pcb p f s) = ld8 s"
  by (simp add: ld8_def fun_eq_iff)

lemma directory_fs: "directory g (f\<lparr>global_dentry := d\<rparr>) = directory g f"
  "directory_within P g (f\<lparr>global_dentry := d\<rparr>) = directory_within P g f"
  by (simp_all add: directory_def directory_within_def num_dir_entries_def dir_name_def dir_entry_addr_def)

text \<open>A read of an open regular file.\<close>

lemma read_open_file:
  assumes "fop_read (file_op_tb (current_file s fd)) = Fn_file_read" "flag (current_file s fd) \<noteq> 0" "fd < 8"
    and r: "readable_file (ld8 s) (fs s) buf (current_file s fd)" and n: "unat n < 2 ^ 31"
  defines "bs \<equiv> take (unat n) (file_rest (ld8 s) (fs s) (current_file s fd))"
  shows "ece391_read c (int fd) buf n s = Some (int (length bs),
    upd_pcb (curr_pcb s) (upd_fd fd (\<lambda>_. (current_file s fd)
        \<lparr>file_position := file_position (current_file s fd) + of_nat (length bs)\<rparr>)) (store_bytes buf bs s))"
proof -
  have "unat (of_nat fd :: u32) = fd" using assms(3) by (simp add: unat_of_nat_u32)
  then have "sint (of_nat fd :: u32) = int fd" using sint_small [of "of_nat fd"] assms(3) by simp
  then have "ece391_read c (int fd) buf n s = read_fd (interrupts c) (int fd) buf n s" unfolding stub_read by simp
  also have "\<dots> = Some (file_read fd buf n s)"
    using assms(1-4) sint_small [OF n]
    by (simp add: readable_file_def read_fd_def get_current_pcb_def current_file_def)
  finally show ?thesis using file_step_valid [OF r n] by (simp add: file_read_def bs_def)
qed

text \<open>A write to the terminal shows the bytes and leaves the rest of the kernel as it is.\<close>

lemma write_terminal:
  assumes "flag (current_file s 1) \<noteq> 0" "fop_write (file_op_tb (current_file s 1)) = Fn_terminal_write"
    and "buf \<noteq> 0" "n < 2 ^ 31"
  shows "ece391_write c 1 buf (of_nat n) s = Some (terminal_write 1 buf (of_nat n) s)"
proof -
  have "unat (of_nat n :: u32) = n" using assms(4) by (simp add: unat_of_nat_u32)
  then have "\<not> sint (of_nat n :: u32) < 0" using sint_small [of "of_nat n"] assms(4) by simp
  then show ?thesis
    unfolding stub_write using assms by (simp add: write_fd_def get_current_pcb_def current_file_def)
qed

lemma write_shown:
  assumes "flag (current_file u 1) \<noteq> 0" "fop_write (file_op_tb (current_file u 1)) = Fn_terminal_write"
    and "buf \<noteq> 0" and n: "n < 2 ^ 31" and scr: "console_ok u" "off_screen_buffer u buf n"
    and bs: "list_all not_backspace (buffer_bytes u buf n)"
  shows "\<exists>t. ece391_write c 1 buf (of_nat n) u = Some (int n, t) \<and>
    screen_of t = fold emit (buffer_bytes u buf n) (screen_of u) \<and> off_screen t = off_screen u \<and> console_ok t \<and>
    tlb t = tlb u \<and> fs t = fs u \<and> curr_pcb t = curr_pcb u \<and> pcb_at t = pcb_at u \<and>
    video_mem (con t) = video_mem (con u)"
proof -
  let ?t = "snd (terminal_write 1 buf (of_nat n) u)"
  have un: "unat (of_nat n :: u32) = n" using n by (simp add: unat_of_nat_u32)
  note tw = terminal_write_prints [OF scr un n bs, of 1]
  have video: "video_mem (con (for_loop k (\<lambda>i t. putc (ld8 t (buf + of_nat i)) t) v)) = video_mem (con v)" for k v
    by (rule for_loop_frame [where f = "\<lambda>s. video_mem (con s)"]) (simp add: putc_con)
  have beside: "beside_screen (for_loop k (\<lambda>i t. putc (ld8 t (buf + of_nat i)) t) v) = beside_screen v" for k v
    by (rule for_loop_frame) simp
  have "tlb ?t = tlb u \<and> fs ?t = fs u \<and> curr_pcb ?t = curr_pcb u \<and> pcb_at ?t = pcb_at u \<and>
      video_mem (con ?t) = video_mem (con u)"
    by (simp add: terminal_write_def Let_def io_defs video beside_eqD [OF beside])
  moreover have "ece391_write c 1 buf (of_nat n) u = Some (int n, ?t)"
    unfolding write_terminal [OF assms(1-4)] using tw by (metis prod.collapse)
  ultimately show ?thesis using tw by blast
qed

section \<open>The strings are those of the kernel's library\<close>

lemma ece391_strlen_loop_cstr:
  assumes "cstr s cs"
  shows "i \<le> length cs \<Longrightarrow> ece391_strlen_loop s i = Some (length cs)"
proof (induction "length cs - i" arbitrary: i)
  case 0
  then show ?case using cstr_end [OF assms] by (simp add: ece391_strlen_loop.simps [of s i])
next
  case (Suc k)
  then show ?case
    using cstr_nonzero [OF assms, of i] by (simp add: ece391_strlen_loop.simps [of s i])
qed

lemma ece391_strlen_cstr: "cstr s cs \<Longrightarrow> ece391_strlen s = Some (length cs)"
  using ece391_strlen_loop_cstr [of s cs 0] by (simp add: ece391_strlen_def)

lemma ece391_strncmp_from_zero:
  "ece391_strncmp_from s1 s2 i n = 0 \<longleftrightarrow> strncmp_from s1 s2 i n = 0"
  by (induction n arbitrary: i) (auto simp: sint_eq_iff word_uint_eq_iff [symmetric])

end
