(* ===== verification/User_Programs.thy ===== *)
theory User_Programs
  imports User_Lib
begin

text \<open>
  The programs of \<open>src/syscalls\<close>: the shell, \<open>cat\<close>, \<open>ls\<close>, \<open>grep\<close>, \<open>hello\<close>, \<open>counter\<close>,
  \<open>testprint\<close> and \<open>pingpong\<close>.  Each \<open>main\<close> is a function of its setting and the addresses of its
  arrays and of the variables whose address it takes; the result is the status it halts with, \<open>None\<close>
  if it runs on.
\<close>

definition say_literal :: "setting \<Rightarrow> string \<Rightarrow> kernel \<Rightarrow> kernel option" where
  "say_literal c str s = ece391_fdputs c 1 (literal c str) s"

abbreviation nl :: "string \<Rightarrow> string" where
  "nl str \<equiv> str @ [CHR 0x0A]"

text \<open>Print a message and halt with a status.\<close>

definition give_up :: "setting \<Rightarrow> string \<Rightarrow> int \<Rightarrow> kernel \<Rightarrow> (int \<times> kernel) option" where
  "give_up c str status s = map_option (\<lambda>t. (status, t)) (say_literal c str s)"

section \<open>cat\<close>

partial_function (option) cat_loop :: "setting \<Rightarrow> u32 \<Rightarrow> int \<Rightarrow> kernel \<Rightarrow> (int \<times> kernel) option" where
  "cat_loop c buf fd s =
     Option.bind (ece391_read c fd buf 1024 s) (\<lambda>(cnt, s1).
       if cnt = 0 then Some (0, s1)
       else if cnt = -1 then give_up c (nl ''file read failed'') 3 s1
       else Option.bind (ece391_write c 1 buf (of_int cnt) s1) (\<lambda>(r, s2).
         if r = -1 then Some (3, s2) else cat_loop c buf fd s2))"

definition cat :: "setting \<Rightarrow> u32 \<Rightarrow> kernel \<Rightarrow> (int \<times> kernel) option" where
  "cat c buf s =
     Option.bind (ece391_getargs c buf 1024 s) (\<lambda>(r, s1).
       if r \<noteq> 0 then give_up c (nl ''could not read arguments'') 3 s1
       else Option.bind (ece391_open c buf s1) (\<lambda>(fd, s2).
         if fd = -1 then give_up c (nl ''file not found'') 2 s2
         else cat_loop c buf fd s2))"

section \<open>ls\<close>

partial_function (option) ls_loop :: "setting \<Rightarrow> u32 \<Rightarrow> int \<Rightarrow> kernel \<Rightarrow> (int \<times> kernel) option" where
  "ls_loop c buf fd s =
     Option.bind (ece391_read c fd buf 32 s) (\<lambda>(cnt, s1).
       if cnt = 0 then Some (0, s1)
       else if cnt = -1 then give_up c (nl ''directory entry read failed'') 3 s1
       else Option.bind (ece391_write c 1 buf (of_int (cnt + 1)) (st8 (buf + of_int cnt) 0x0A s1)) (\<lambda>(r, s2).
         if r = -1 then Some (3, s2) else ls_loop c buf fd s2))"

definition ls :: "setting \<Rightarrow> u32 \<Rightarrow> kernel \<Rightarrow> (int \<times> kernel) option" where
  "ls c buf s =
     Option.bind (ece391_open c (literal c ''.'') s) (\<lambda>(fd, s1).
       if fd = -1 then give_up c (nl ''directory open failed'') 2 s1 else ls_loop c buf fd s1)"

section \<open>hello and testprint\<close>

definition hello :: "setting \<Rightarrow> u32 \<Rightarrow> kernel \<Rightarrow> (int \<times> kernel) option" where
  "hello c buf s =
     Option.bind (say_literal c (''Hi, what'' @ [CHR 0x27] @ ''s your name? '') s) (\<lambda>s1.
     Option.bind (ece391_read c 0 buf 1023 s1) (\<lambda>(cnt, s2).
       if cnt = -1 then give_up c (nl (''Can'' @ [CHR 0x27] @ ''t read name from keyboard.'')) 3 s2
       else Option.bind (say_literal c ''Hello, '' (st8 (buf + of_int cnt) 0 s2)) (\<lambda>s3.
         map_option (\<lambda>t. (0, t)) (ece391_fdputs c 1 buf s3))))"

definition testprint :: "setting \<Rightarrow> kernel \<Rightarrow> (int \<times> kernel) option" where
  "testprint c s = give_up c (nl ''Hello, if this ran, the program was correct. Yay!'') 0 s"

section \<open>counter\<close>

fun count_up :: "setting \<Rightarrow> u32 \<Rightarrow> nat \<Rightarrow> nat \<Rightarrow> kernel \<Rightarrow> kernel option" where
  "count_up c buf i 0 s = Some s"
| "count_up c buf i (Suc k) s =
     Option.bind (ece391_itoa (of_nat i + 1) buf 10 s) (\<lambda>s1.
     Option.bind (ece391_fdputs c 1 buf s1) (\<lambda>s2.
     Option.bind (say_literal c (nl []) s2) (count_up c buf (i + 1) k)))"

definition chosen_max :: "u8 \<Rightarrow> nat" where
  "chosen_max ch = (if ch = 0x30 then 100 else if ch = 0x31 then 10000 else if ch = 0x32 then 100000 else 0)"

definition counter :: "setting \<Rightarrow> u32 \<Rightarrow> kernel \<Rightarrow> (int \<times> kernel) option" where
  "counter c buf s =
     Option.bind (say_literal c (nl ''Enter the Test Number: (0): 100, (1): 10000, (2): 100000'') s) (\<lambda>s1.
     Option.bind (ece391_read c 0 buf 1023 s1) (\<lambda>(cnt, s2).
       if cnt = -1 then give_up c (nl (''Can'' @ [CHR 0x27] @ ''t read the number from keyboard.'')) 3 s2
       else let s3 = st8 (buf + of_int cnt) 0 s2 in
         Option.bind (ece391_strlen (view s3 buf)) (\<lambda>n.
           if n > 2 \<or> (n = 2 \<and> (ld8 s3 buf < 0x30 \<or> ld8 s3 buf > 0x32))
           then give_up c (nl ''Wrong Choice!'') 0 s3
           else map_option (\<lambda>t. (0, t)) (count_up c buf 0 (chosen_max (ld8 s3 buf)) s3))))"

section \<open>The shell\<close>

definition report_status :: "setting \<Rightarrow> int \<Rightarrow> kernel \<Rightarrow> kernel option" where
  "report_status c rval s =
     (if rval = -1 then say_literal c (nl ''no such command'') s
      else if rval = 256 then say_literal c (nl ''program terminated by exception'') s
      else if rval \<noteq> 0 then say_literal c (nl ''program terminated abnormally'') s
      else Some s)"

partial_function (option) shell_loop :: "setting \<Rightarrow> u32 \<Rightarrow> kernel \<Rightarrow> (int \<times> kernel) option" where
  "shell_loop c buf s =
     Option.bind (say_literal c ''391OS> '' s) (\<lambda>s1.
     Option.bind (ece391_read c 0 buf 1023 s1) (\<lambda>(cnt0, s2).
       if cnt0 = -1 then give_up c (nl ''read from keyboard failed'') 3 s2
       else let cnt = (if cnt0 > 0 \<and> ld8 s2 (buf + of_int (cnt0 - 1)) = 0x0A then cnt0 - 1 else cnt0);
                s3 = st8 (buf + of_int cnt) 0 s2 in
         Option.bind (ece391_strcmp (view s3 buf) (view s3 (literal c ''exit''))) (\<lambda>d.
           if d = 0 then Some (0, s3)
           else if ld8 s3 buf = 0 then shell_loop c buf s3
           else Option.bind (ece391_execute c buf s3) (\<lambda>(rval, s4).
             Option.bind (report_status c rval s4) (shell_loop c buf)))))"

definition shell_main :: "setting \<Rightarrow> u32 \<Rightarrow> kernel \<Rightarrow> (int \<times> kernel) option" where
  "shell_main c buf s =
     Option.bind (say_literal c (nl ''Starting 391 Shell'') s) (shell_loop c buf)"

section \<open>grep\<close>

function line_end_from :: "u32 \<Rightarrow> int \<Rightarrow> int \<Rightarrow> kernel \<Rightarrow> int" where
  "line_end_from data lst e s =
     (if e < lst \<and> ld8 s (data + of_int e) \<noteq> 0x0A then line_end_from data lst (e + 1) s else e)"
  by pat_completeness auto
termination
  by (relation "measure (\<lambda>(d, l, e, s). nat (l - e))") auto

declare line_end_from.simps [simp del]

definition print_match :: "setting \<Rightarrow> u32 \<Rightarrow> u32 \<Rightarrow> kernel \<Rightarrow> kernel option" where
  "print_match c fname line s =
     Option.bind (ece391_fdputs c 1 fname s) (\<lambda>s1.
     Option.bind (say_literal c '':'' s1) (\<lambda>s2.
     Option.bind (ece391_fdputs c 1 line s2) (say_literal c (nl []))))"

function search_line :: "setting \<Rightarrow> u32 \<Rightarrow> u32 \<Rightarrow> u32 \<Rightarrow> u32 \<Rightarrow> int \<Rightarrow> int \<Rightarrow> int \<Rightarrow> kernel \<Rightarrow> kernel option" where
  "search_line c str slen fname data line_start check line_end s =
     (if check < line_end
      then if ld8 s str = ld8 s (data + of_int check) \<and>
             ece391_strncmp (view s (data + of_int check)) (view s str) slen = 0
           then print_match c fname (data + of_int line_start) s
           else search_line c str slen fname data line_start (check + 1) line_end s
      else Some s)"
  by pat_completeness auto
termination
  by (relation "measure (\<lambda>(c, str, n, f, d, ls, check, le, s). nat (le - check))") auto

declare search_line.simps [simp del]

text \<open>The loop over the lines of the buffer; the result is the new \<open>last\<close>.\<close>

partial_function (option) grep_lines ::
    "setting \<Rightarrow> u32 \<Rightarrow> u32 \<Rightarrow> u32 \<Rightarrow> u32 \<Rightarrow> int \<Rightarrow> int \<Rightarrow> int \<Rightarrow> kernel \<Rightarrow> (int \<times> kernel) option" where
  "grep_lines c str slen fname data cnt lst line_start s =
     (let line_end = line_end_from data lst line_start s in
      if ld8 s (data + of_int line_end) \<noteq> 0x0A \<and> cnt \<noteq> 0 \<and> line_start \<noteq> 0
      then map_option (\<lambda>t. (lst - line_start, t))
             (ece391_strcpy data (data + of_int line_start) (st8 (data + of_int line_end) 0 s))
      else Option.bind (search_line c str slen fname data line_start line_start line_end
             (st8 (data + of_int line_end) 0 s)) (\<lambda>s1.
        if line_end + 1 \<ge> lst then Some (0, s1)
        else grep_lines c str slen fname data cnt lst (line_end + 1) s1))"

text \<open>\<open>Inl\<close> is the failing return.\<close>

partial_function (option) grep_chunks ::
    "setting \<Rightarrow> u32 \<Rightarrow> u32 \<Rightarrow> u32 \<Rightarrow> u32 \<Rightarrow> int \<Rightarrow> int \<Rightarrow> kernel \<Rightarrow> ((int + unit) \<times> kernel) option" where
  "grep_chunks c str slen fname data fd lst s =
     Option.bind (ece391_read c fd (data + of_int lst) (of_int (1024 - lst)) s) (\<lambda>(cnt, s1).
       if cnt = -1 then map_option (\<lambda>t. (Inl (-1), t)) (say_literal c (nl ''file read failed'') s1)
       else Option.bind (grep_lines c str slen fname data cnt (lst + cnt) 0 s1) (\<lambda>(kept, s2).
         if cnt = 0 then Some (Inr (), s2) else grep_chunks c str slen fname data fd kept s2))"

definition do_one_file :: "setting \<Rightarrow> u32 \<Rightarrow> u32 \<Rightarrow> u32 \<Rightarrow> kernel \<Rightarrow> (int \<times> kernel) option" where
  "do_one_file c data str fname s =
     Option.bind (ece391_strlen (view s str)) (\<lambda>n.
     Option.bind (ece391_open c fname s) (\<lambda>(fd, s1).
       if fd = -1 then give_up c (nl ''file open failed'') (-1) s1
       else Option.bind (grep_chunks c str (of_nat n) fname data fd 0 s1) (\<lambda>(r, s2).
         case r of
           Inl v \<Rightarrow> Some (v, s2)
         | Inr _ \<Rightarrow> Option.bind (ece391_close c fd s2) (\<lambda>(r, s3).
             if r = -1 then give_up c (nl ''file close failed'') (-1) s3 else Some (0, s3)))))"

partial_function (option) grep_loop ::
    "setting \<Rightarrow> u32 \<Rightarrow> u32 \<Rightarrow> u32 \<Rightarrow> int \<Rightarrow> kernel \<Rightarrow> (int \<times> kernel) option" where
  "grep_loop c data search buf fd s =
     Option.bind (ece391_read c fd buf 32 s) (\<lambda>(cnt, s1).
       if cnt = 0 then Some (0, s1)
       else if cnt = -1 then give_up c (nl ''directory entry read failed'') 3 s1
       else if ld8 s1 buf = 0x2E then grep_loop c data search buf fd s1
       else Option.bind (do_one_file c data search buf (st8 (buf + of_int cnt) 0 s1)) (\<lambda>(r, s2).
         if r \<noteq> 0 then Some (3, s2) else grep_loop c data search buf fd s2))"

definition grep :: "setting \<Rightarrow> u32 \<Rightarrow> u32 \<Rightarrow> u32 \<Rightarrow> kernel \<Rightarrow> (int \<times> kernel) option" where
  "grep c data search buf s =
     Option.bind (ece391_getargs c search 1024 s) (\<lambda>(r, s1).
       if r \<noteq> 0 then give_up c (nl ''could not read argument'') 3 s1
       else Option.bind (ece391_open c (literal c ''.'') s1) (\<lambda>(fd, s2).
         if fd = -1 then give_up c (nl ''directory open failed'') 2 s2
         else grep_loop c data search buf fd s2))"

section \<open>pingpong\<close>

text \<open>\<open>BUFMAX\<close> is 81 and \<open>LOOPMAX\<close>, whose macros are not in parentheses, 78: the columns 2 to 77.\<close>

definition word_bytes :: "u32 \<Rightarrow> u8 list" where
  "word_bytes w = [ucast w, ucast (drop_bit 8 w), ucast (drop_bit 16 w), ucast (drop_bit 24 w)]"

definition ball_at :: "setting \<Rightarrow> u32 \<Rightarrow> u32 \<Rightarrow> int \<Rightarrow> u8 \<Rightarrow> nat \<Rightarrow> kernel \<Rightarrow> kernel option" where
  "ball_at c buf garbage rtc_fd curchar j s =
     (let s1 = for_loop 76 (\<lambda>i. st8 (buf + of_nat (2 + i)) 0x20) s in
      Option.bind (ece391_fdputs c 1 buf (st8 (buf + of_nat j) curchar s1)) (\<lambda>s2.
        map_option snd (ece391_read c rtc_fd garbage 4 s2)))"

fun sweep :: "setting \<Rightarrow> u32 \<Rightarrow> u32 \<Rightarrow> int \<Rightarrow> u8 \<Rightarrow> nat list \<Rightarrow> kernel \<Rightarrow> kernel option" where
  "sweep c buf garbage rtc_fd curchar [] s = Some s"
| "sweep c buf garbage rtc_fd curchar (j # js) s =
     Option.bind (ball_at c buf garbage rtc_fd curchar j s) (sweep c buf garbage rtc_fd curchar js)"

partial_function (option) pingpong_loop ::
    "setting \<Rightarrow> u32 \<Rightarrow> u32 \<Rightarrow> int \<Rightarrow> u8 \<Rightarrow> kernel \<Rightarrow> (int \<times> kernel) option" where
  "pingpong_loop c buf garbage rtc_fd curchar s =
     Option.bind (sweep c buf garbage rtc_fd curchar [2..<78] s) (\<lambda>s1.
     Option.bind (sweep c buf garbage rtc_fd curchar (rev [2..<78]) s1) (\<lambda>s2.
       pingpong_loop c buf garbage rtc_fd (if curchar = 0x5A then 0x41 else curchar + 1) s2))"

definition pingpong :: "setting \<Rightarrow> u32 \<Rightarrow> u32 \<Rightarrow> u32 \<Rightarrow> kernel \<Rightarrow> (int \<times> kernel) option" where
  "pingpong c buf ret_val garbage s =
     (let s0 = for_loop 81 (\<lambda>i. st8 (buf + of_nat i) 0x20) s;
          s1 = st8 (buf + 1) 0x7C (st8 (buf + 78) 0x7C (st8 (buf + 79) 0x0A (st8 (buf + 80) 0 s0))) in
      Option.bind (ece391_open c (literal c ''rtc'') s1) (\<lambda>(rtc_fd, s2).
      Option.bind (ece391_write c rtc_fd ret_val 4 (store_bytes ret_val (word_bytes 32) s2)) (\<lambda>(r, s3).
        pingpong_loop c buf garbage rtc_fd 0x41 (store_bytes ret_val (word_bytes (of_int r)) s3))))"

text \<open>The ball never stops.\<close>

lemma pingpong_loop_runs_on: "pingpong_loop c buf garbage rtc_fd curchar s = None"
proof -
  have "False" if "pingpong_loop c buf garbage rtc_fd curchar s = Some r" for r
    using that
  proof (rule pingpong_loop.raw_induct [rotated])
    fix loop c buf garbage rtc_fd curchar s y
    assume never: "\<And>c buf garbage rtc_fd curchar s y. loop c buf garbage rtc_fd curchar s = Some y \<Longrightarrow> False"
      and body: "Option.bind (sweep c buf garbage rtc_fd curchar [2..<78] s) (\<lambda>s1.
        Option.bind (sweep c buf garbage rtc_fd curchar (rev [2..<78]) s1)
          (loop c buf garbage rtc_fd (if curchar = 0x5A then 0x41 else curchar + 1))) = Some y"
    show False using body never unfolding bind_eq_Some_conv by blast
  qed
  then show ?thesis by (cases "pingpong_loop c buf garbage rtc_fd curchar s") auto
qed

lemma pingpong_runs_on: "pingpong c buf ret_val garbage s = None"
  by (simp add: pingpong_def Let_def pingpong_loop_runs_on split: Option.bind_splits prod.splits)

end
