(* ===== verification/User_Cat.thy ===== *)
theory User_Cat
  imports User_Programs
begin

text \<open>
  \<open>cat\<close> run on the kernel: the argument of the process, the lookup of the file, the loop of reads
  and writes, down to what the terminal shows.
\<close>

section \<open>Bytes that the program does not write\<close>

text \<open>The byte at \<open>a\<close> is neither on the screen nor in the \<open>n\<close> bytes at \<open>buf\<close>.\<close>

definition clear_of :: "kernel \<Rightarrow> u32 \<Rightarrow> nat \<Rightarrow> u32 \<Rightarrow> bool" where
  "clear_of s buf n a \<longleftrightarrow> tlb s a \<notin> screen_bytes s \<and> (\<forall>k < n. tlb s a \<noteq> tlb s (buf + of_nat k))"

lemma ld8_clear_store: "clear_of s buf n a \<Longrightarrow> length bs \<le> n \<Longrightarrow> ld8 (store_bytes buf bs s) a = ld8 s a"
  using store_bytes_other [of bs "tlb s a" s buf] by (simp add: clear_of_def ld8_def rd_def)

lemma screen_store:
  assumes "off_screen_buffer s buf n" and "length bs \<le> n"
  shows "screen_of (upd_pcb p f (store_bytes buf bs s)) = screen_of s"
    and "console_ok (upd_pcb p f (store_bytes buf bs s)) = console_ok s"
    and "screen_bytes (upd_pcb p f (store_bytes buf bs s)) = screen_bytes s"
proof -
  let ?t = "upd_pcb p f (store_bytes buf bs s)"
  have "vbyte ?t k = vbyte s k" if "k < 4000" for k
  proof -
    have on: "tlb s (video_mem (con s) + of_nat k) \<in> screen_bytes s" using that by (simp add: screen_bytes_def)
    have "mem (store_bytes buf bs s) (tlb s (video_mem (con s) + of_nat k)) = mem s (tlb s (video_mem (con s) + of_nat k))"
    proof (rule store_bytes_other)
      fix i assume "i < length bs"
      then have "tlb s (buf + of_nat i) \<notin> screen_bytes s" using assms by (simp add: off_screen_buffer_def)
      with on show "tlb s (video_mem (con s) + of_nat k) \<noteq> tlb s (buf + of_nat i)" by metis
    qed
    then show ?thesis by (simp add: vbyte_def ld8_def rd_def)
  qed
  then have "grid ?t r c = grid s r c" if "r < 25" "c < 80" for r c
    using that by (simp add: grid_def)
  then show "screen_of ?t = screen_of s" by (simp add: screen_of_def cong: if_cong)
  show "console_ok ?t = console_ok s" by (simp add: console_ok_def screen_mapped_def)
  show "screen_bytes ?t = screen_bytes s" by (simp add: screen_bytes_def)
qed

text \<open>
  What a turn of \<open>cat\<close> and \<open>ls\<close> has in common: bytes are in the buffer, the position of a
  descriptor has moved, and the buffer is written to the terminal.
\<close>

lemma buffer_shown:
  fixes fo :: file_object
  assumes off: "off_screen_buffer s buf n" and len: "length bs \<le> n" "n < 2 ^ 31" and buf: "buf \<noteq> 0"
    and inj: "inj_on (\<lambda>k. tlb s (buf + of_nat k)) {..<n}" and ok: "console_ok s" and plain: "list_all not_backspace bs"
    and one: "flag (current_file s 1) \<noteq> 0" "fop_write (file_op_tb (current_file s 1)) = Fn_terminal_write"
    and fd: "fd \<noteq> 1"
  defines "u \<equiv> upd_pcb (curr_pcb s) (upd_fd fd (\<lambda>_. fo)) (store_bytes buf bs s)"
  shows "\<exists>t. ece391_write c 1 buf (of_nat (length bs)) u = Some (int (length bs), t) \<and>
    screen_of t = fold emit bs (screen_of s) \<and> console_ok t \<and> tlb t = tlb s \<and> fs t = fs s \<and>
    video_mem (con t) = video_mem (con s) \<and> current_file t 1 = current_file s 1 \<and> current_file t fd = fo \<and>
    (\<forall>a. clear_of s buf n a \<longrightarrow> ld8 t a = ld8 s a)"
proof -
  note scr = screen_store [OF off len(1), of "curr_pcb s" "upd_fd fd (\<lambda>_. fo)", folded u_def]
  have files: "current_file u 1 = current_file s 1" "current_file u fd = fo"
    using fd by (simp_all add: u_def current_file_def)
  have bytes: "buffer_bytes u buf (length bs) = bs"
  proof -
    have "inj_on (\<lambda>k. tlb s (buf + of_nat k)) {..<length bs}"
      by (rule inj_on_subset [OF inj]) (use len in simp)
    from store_bytes_load [OF this] show ?thesis by (simp add: buffer_bytes_def u_def)
  qed
  have offu: "off_screen_buffer u buf (length bs)"
    using off len unfolding off_screen_buffer_def scr(3) by (simp add: u_def)
  have small: "length bs < 2 ^ 31" using len by simp
  have one': "flag (current_file u 1) \<noteq> 0" "fop_write (file_op_tb (current_file u 1)) = Fn_terminal_write"
    unfolding files by (rule one)+
  obtain t where t: "ece391_write c 1 buf (of_nat (length bs)) u = Some (int (length bs), t)"
    "screen_of t = fold emit bs (screen_of u)" "off_screen t = off_screen u" "console_ok t"
    "tlb t = tlb u" "fs t = fs u" "curr_pcb t = curr_pcb u" "pcb_at t = pcb_at u"
    "video_mem (con t) = video_mem (con u)"
    using write_shown [OF one' buf small _ offu, of c] unfolding bytes scr(2) using ok plain by blast
  have "ld8 t a = ld8 s a" if "clear_of s buf n a" for a
  proof -
    have "screen_bytes t = screen_bytes u" by (simp add: screen_bytes_def t(5,9))
    moreover have "tlb u = tlb s" by (simp add: u_def)
    ultimately have "ld8 t a = ld8 u a"
      using off_screen_byte [OF t(3), of "tlb s a"] that scr(3) by (simp add: clear_of_def ld8_def rd_def t(5))
    then show ?thesis using ld8_clear_store [OF that len(1)] by (simp add: u_def)
  qed
  moreover have "current_file t 1 = current_file s 1" "current_file t fd = fo"
    using files by (simp_all add: current_file_def t(7,8))
  moreover have "tlb t = tlb s" "fs t = fs s" "video_mem (con t) = video_mem (con s)"
    using t(5,6,9) by (simp_all add: u_def)
  ultimately show ?thesis using t(1,2,4) scr(1) by auto
qed

section \<open>The loop\<close>

definition cat_ready :: "u32 \<Rightarrow> nat \<Rightarrow> kernel \<Rightarrow> bool" where
  "cat_ready buf fd s \<longleftrightarrow> console_ok s \<and> fd < 8 \<and> fd \<noteq> 1 \<and>
     fop_read (file_op_tb (current_file s fd)) = Fn_file_read \<and> flag (current_file s fd) \<noteq> 0 \<and>
     fop_write (file_op_tb (current_file s 1)) = Fn_terminal_write \<and> flag (current_file s 1) \<noteq> 0 \<and>
     readable_file (ld8 s) (fs s) buf (current_file s fd) \<and>
     inj_on (\<lambda>k. tlb s (buf + of_nat k)) {..<1024} \<and> off_screen_buffer s buf 1024 \<and>
     file_within (clear_of s buf 1024) (ld8 s) (fs s) (inode (current_file s fd))"

abbreviation unread :: "nat \<Rightarrow> kernel \<Rightarrow> u8 list" where
  "unread fd s \<equiv> file_rest (ld8 s) (fs s) (current_file s fd)"

text \<open>A step that moves the position and leaves alone all that the next one depends on.\<close>

lemma cat_ready_step:
  assumes ready: "cat_ready buf fd s" and t: "tlb t = tlb s" "fs t = fs s" "video_mem (con t) = video_mem (con s)"
    and ok: "console_ok t" and one: "current_file t 1 = current_file s 1"
    and fd: "current_file t fd = (current_file s fd)\<lparr>file_position := p\<rparr>"
    and same: "\<And>a. clear_of s buf 1024 a \<Longrightarrow> ld8 t a = ld8 s a"
  shows "cat_ready buf fd t" "unread fd t = file_rest (ld8 s) (fs s) ((current_file s fd)\<lparr>file_position := p\<rparr>)"
proof -
  let ?ino = "inode (current_file s fd)"
  have w: "file_within (clear_of s buf 1024) (ld8 s) (fs s) ?ino" using ready by (simp add: cat_ready_def)
  have clear: "clear_of t buf 1024 = clear_of s buf 1024"
    by (simp add: fun_eq_iff clear_of_def screen_bytes_def t)
  have eq: "same_file (ld8 s) (ld8 t) (fs s) ?ino" by (rule same_file_within [OF w same])
  show "unread fd t = file_rest (ld8 s) (fs s) ((current_file s fd)\<lparr>file_position := p\<rparr>)"
    using eq by (simp add: fd t file_rest_def same_file_def)
  have "readable_file (ld8 t) (fs t) buf (current_file t fd)"
    using ready eq by (simp add: cat_ready_def readable_file_def fd t same_file_def)
  moreover have "file_within (clear_of t buf 1024) (ld8 t) (fs t) (inode (current_file t fd))"
    using file_within_same [OF w same] by (simp add: clear fd t)
  ultimately show "cat_ready buf fd t"
    using ready ok one by (simp add: cat_ready_def fd t off_screen_buffer_def screen_bytes_def)
qed

lemma read_regular:
  assumes "cat_ready buf fd s"
  defines "bs \<equiv> take 1024 (unread fd s)"
  shows "ece391_read c (int fd) buf 1024 s = Some (int (length bs),
    upd_pcb (curr_pcb s) (upd_fd fd (\<lambda>_. (current_file s fd)
        \<lparr>file_position := file_position (current_file s fd) + of_nat (length bs)\<rparr>)) (store_bytes buf bs s))"
  using read_open_file [where n = 1024 and fd = fd and s = s and buf = buf and c = c] assms(1)
  by (simp add: cat_ready_def bs_def)

text \<open>One turn of the loop.\<close>

lemma cat_piece:
  assumes ready: "cat_ready buf fd s" and "list_all not_backspace (unread fd s)"
  defines "bs \<equiv> take 1024 (unread fd s)"
  shows "\<exists>u t. ece391_read c (int fd) buf 1024 s = Some (int (length bs), u) \<and>
    ece391_write c 1 buf (of_nat (length bs)) u = Some (int (length bs), t) \<and>
    screen_of u = screen_of s \<and> screen_of t = fold emit bs (screen_of s) \<and>
    cat_ready buf fd t \<and> unread fd t = drop 1024 (unread fd s)"
proof -
  let ?p = "file_position (current_file s fd) + of_nat (length bs)"
  let ?f = "upd_fd fd (\<lambda>_. (current_file s fd)\<lparr>file_position := ?p\<rparr>)"
  let ?u = "upd_pcb (curr_pcb s) ?f (store_bytes buf bs s)"
  note rd = read_regular [OF ready, of c, folded bs_def]
  have len: "length bs \<le> 1024" by (simp add: bs_def)
  have r: "readable_file (ld8 s) (fs s) buf (current_file s fd)" and off: "off_screen_buffer s buf 1024"
    using ready by (simp_all add: cat_ready_def)
  have plain: "list_all not_backspace bs"
    using assms(2) by (auto simp: bs_def list_all_iff dest: in_set_takeD)
  have shown: "screen_of ?u = screen_of s" by (rule screen_store(1) [OF off len])
  obtain t where t: "ece391_write c 1 buf (of_nat (length bs)) ?u = Some (int (length bs), t)"
    "screen_of t = fold emit bs (screen_of s)" "console_ok t" and frame: "tlb t = tlb s" "fs t = fs s"
    "video_mem (con t) = video_mem (con s)" and tf: "current_file t 1 = current_file s 1"
    "current_file t fd = (current_file s fd)\<lparr>file_position := ?p\<rparr>"
    and same: "\<And>a. clear_of s buf 1024 a \<Longrightarrow> ld8 t a = ld8 s a"
    using buffer_shown [OF off len _ _ _ _ plain, where fd = fd and c = c and
        fo = "(current_file s fd)\<lparr>file_position := ?p\<rparr>"] ready
    unfolding cat_ready_def readable_file_def by auto
  have step: "cat_ready buf fd t" "unread fd t = file_rest (ld8 s) (fs s) ((current_file s fd)\<lparr>file_position := ?p\<rparr>)"
    by (rule cat_ready_step [OF ready frame t(3) tf], rule same, assumption)+
  have "unread fd t = drop (length bs) (unread fd s)"
    unfolding step(2) by (rule file_position_advance [OF r]) (simp add: bs_def)
  also have "\<dots> = drop 1024 (unread fd s)" by (simp add: bs_def min_def)
  finally show ?thesis using rd t(1,2) shown step(1) by auto
qed

lemma cat_loop_prints:
  "cat_ready buf fd s \<Longrightarrow> list_all not_backspace (unread fd s) \<Longrightarrow>
   \<exists>t. cat_loop c buf (int fd) s = Some (0, t) \<and> screen_of t = fold emit (unread fd s) (screen_of s)"
proof (induction "length (unread fd s)" arbitrary: s rule: less_induct)
  case less
  let ?bs = "take 1024 (unread fd s)"
  obtain u t where p: "ece391_read c (int fd) buf 1024 s = Some (int (length ?bs), u)"
    "ece391_write c 1 buf (of_nat (length ?bs)) u = Some (int (length ?bs), t)"
    "screen_of u = screen_of s" "screen_of t = fold emit ?bs (screen_of s)"
    "cat_ready buf fd t" "unread fd t = drop 1024 (unread fd s)"
    using cat_piece [OF less.prems, of c] by blast
  show ?case
  proof (cases "unread fd s = []")
    case True
    then show ?thesis using p(1,3) by (simp add: cat_loop.simps [of c buf])
  next
    case False
    have len: "length ?bs \<noteq> 0" using False by simp
    have "length (unread fd t) < length (unread fd s)" using False by (simp add: p(6))
    moreover have "list_all not_backspace (unread fd t)"
      using less.prems(2) by (auto simp: p(6) list_all_iff dest: in_set_dropD)
    ultimately obtain v where v: "cat_loop c buf (int fd) t = Some (0, v)"
      "screen_of v = fold emit (unread fd t) (screen_of t)"
      using less.hyps p(5) by blast
    have "cat_loop c buf (int fd) s = cat_loop c buf (int fd) t"
      using len p(1,2) by (simp add: cat_loop.simps [of c buf _ s] del: length_take)
    moreover have "fold emit (unread fd t) (screen_of t) = fold emit (unread fd s) (screen_of s)"
      unfolding p(4,6) by (metis append_take_drop_id fold_append comp_apply)
    ultimately show ?thesis using v by simp
  qed
qed

section \<open>The whole program\<close>

lemma cat_prints_aux:
  assumes flags: "flags_ok (current s)" and i: "1 < i" "i < 8" "\<not> fd_in_use (current s) i"
      "\<forall>j < i. fd_in_use (current s) j"
    and out: "fop_write (file_op_tb (file_descriptor (current s) 1)) = Fn_terminal_write"
    and arg: "cstr (argument (current s)) arg" "arg \<noteq> []" "length arg < 1024"
    and buf: "0x8000000 \<le> unat buf" "unat buf + 1024 \<le> 0x83FFFFC"
      "inj_on (\<lambda>k. tlb s (buf + of_nat k)) {..<1024}" "off_screen_buffer s buf 1024"
    and scr: "console_ok s"
    and entry: "map_of (directory (ld8 s) (fs s)) (take 32 arg) = Some d" "file_type d = 2"
    and regular: "inode_id d \<le> num_inodes (ld8 s) (fs s) - 1"
      "unat (inode_length (ld8 s) (fs s) (inode_id d)) < 2 ^ 31"
      "list_all not_backspace (file_content (ld8 s) (fs s) (inode_id d))"
    and image: "directory_within (clear_of s buf 1024) (ld8 s) (fs s)"
      "file_within (clear_of s buf 1024) (ld8 s) (fs s) (inode_id d)"
  shows "\<exists>t. cat c buf s = Some (0, t) \<and>
    screen_of t = fold emit (file_content (ld8 s) (fs s) (inode_id d)) (screen_of s)"
proof -
  let ?bs = "take 1024 (arg @ replicate 1024 0)"
  let ?s = "store_bytes buf ?bs s"
  have args: "ece391_getargs c buf 1024 s = Some (0, ?s)"
    using getargs_copies_aux [of buf 1024 s arg] buf arg by (simp add: stub_getargs)
  have len: "length ?bs \<le> 1024" by simp
  note scr1 = screen_store [OF buf(4) len, of "curr_pcb s" "\<lambda>p. p"]
  have u0: "upd_pcb p (\<lambda>x. x) t = t" for p t by (simp add: upd_pcb_def)
  have same: "ld8 ?s a = ld8 s a" if "clear_of s buf 1024 a" for a by (rule ld8_clear_store [OF that len])
  have cur: "current ?s = current s" by (simp add: current_def)
  have name: "cstr (view ?s buf) arg"
  proof -
    have "load_bytes (tlb s) (mem ?s) buf 1024 = ?bs"
    proof -
      have l: "length ?bs = 1024" by simp
      show ?thesis by (rule store_bytes_load [of s buf ?bs, unfolded l, OF buf(3)])
    qed
    then have "view ?s buf k = ?bs ! k" if "k < 1024" for k
      using that load_bytes_nth [of k 1024 "tlb s" "mem ?s" buf] by (simp add: view_def ld8_def rd_def)
    then show ?thesis using arg(1,3) by (auto simp: cstr_def nth_append)
  qed
  have "directory (ld8 ?s) (fs s) = directory (ld8 s) (fs s)"
    by (rule same_directory_within [OF image(1)]) (rule same)
  then have "map_of (directory (ld8 ?s) (fs ?s)) (string_in 32 (view ?s buf)) = Some d"
    unfolding string_in_take [OF name] using entry(1) by simp
  note lookup = this
  have nz: "buf \<noteq> 0" using buf(1) by auto
  have ft: "0 \<le> sint (file_type d)" "sint (file_type d) \<le> 2" using entry(2) by simp_all
  obtain t g where t: "open_fd buf ?s = Some (int i, t)"
    "pcb_at t = (pcb_at ?s)(curr_pcb ?s := upd_fd i (open_file d) (current s))"
    "curr_pcb t = curr_pcb ?s" "mem t = mem ?s" "tlb t = tlb ?s" "con t = con ?s"
    "fs t = (fs ?s)\<lparr>global_dentry := g\<rparr>"
    using open_fd_installs [of ?s i buf d, unfolded cur, OF flags i(2-4) nz lookup ft] by blast
  note t = t [simplified]
  let ?f = "open_file d (file_descriptor (current s) i)"
  have f: "inode ?f = inode_id d" "file_position ?f = 0" "fop_read (file_op_tb ?f) = Fn_file_read" "flag ?f = 1"
    using entry(2) by (simp_all add: open_file_def open_table_def file_table_def Let_def)
  have files: "current_file t i = ?f" "current_file t 1 = file_descriptor (current s) 1"
    using i(1) by (simp_all add: current_file_def t current_def)
  have ld: "ld8 t a = ld8 s a" if "clear_of s buf 1024 a" for a
    using same [OF that] by (simp add: ld8_def rd_def t)
  have keep: "same_file (ld8 s) (ld8 t) (fs s) (inode_id d)" by (rule same_file_within [OF image(2) ld])
  have rest: "unread i t = file_content (ld8 s) (fs s) (inode_id d)"
    using keep by (simp add: file_rest_def files f t file_content_fs same_file_def)
  have bytes: "screen_bytes t = screen_bytes s" by (simp add: screen_bytes_def t)
  have clear: "clear_of t buf 1024 = clear_of s buf 1024" by (simp add: fun_eq_iff clear_of_def bytes t)
  have "grid t = grid ?s" by (simp add: grid_def vbyte_def ld8_def rd_def t fun_eq_iff)
  then have show1: "screen_of t = screen_of s"
    using scr1(1) by (simp add: u0 screen_of_def t cong: if_cong)
  have "file_within (clear_of t buf 1024) (ld8 t) (fs t) (inode_id d)"
    using file_within_same [OF image(2) ld]
    by (simp add: clear t file_within_def inode_length_def inode_block_def block_addr_def)
  moreover have "readable_file (ld8 t) (fs t) buf ?f"
    using keep regular(1,2) nz by (simp add: t readable_file_fs) (simp add: readable_file_def f same_file_def)
  moreover have "console_ok t" using scr by (simp add: console_ok_def screen_mapped_def t)
  moreover have "flag (file_descriptor (current s) 1) \<noteq> 0" using i(1,4) by (simp add: fd_in_use_def)
  ultimately have "cat_ready buf i t"
    using i(1,2) out buf(3,4) by (simp add: cat_ready_def files [simplified] f off_screen_buffer_def bytes t)
  then obtain v where v: "cat_loop c buf (int i) t = Some (0, v)"
    "screen_of v = fold emit (unread i t) (screen_of t)"
    using cat_loop_prints [of buf i t c] regular(3) rest by auto
  have "cat c buf s = cat_loop c buf (int i) t" by (simp add: cat_def args stub_open t(1))
  then show ?thesis using v by (simp add: rest show1)
qed

text \<open>
  C14: \<open>cat\<close> of a regular file in the directory shows exactly the bytes of the file on the screen,
  whatever its length, and halts with 0.  The buffer is in the program's memory, and the image,
  the buffer and the screen are apart in physical memory.
\<close>

theorem cat_prints:
  assumes flags: "flags_ok (current s)" and i: "1 < i" "i < 8" "\<not> fd_in_use (current s) i"
      "\<forall>j < i. fd_in_use (current s) j"
    and out: "fop_write (file_op_tb (file_descriptor (current s) 1)) = Fn_terminal_write"
    and arg: "cstr (argument (current s)) arg" "arg \<noteq> []" "length arg < 1024"
    and buf: "0x8000000 \<le> unat buf" "unat buf + 1024 \<le> 0x83FFFFC"
      "inj_on (\<lambda>k. tlb s (buf + of_nat k)) {..<1024}" "off_screen_buffer s buf 1024"
    and scr: "console_ok s"
    and entry: "map_of (directory (ld8 s) (fs s)) (take 32 arg) = Some d" "file_type d = 2"
    and regular: "inode_id d \<le> num_inodes (ld8 s) (fs s) - 1"
      "unat (inode_length (ld8 s) (fs s) (inode_id d)) < 2 ^ 31"
      "list_all not_backspace (file_content (ld8 s) (fs s) (inode_id d))"
    and image: "directory_within (clear_of s buf 1024) (ld8 s) (fs s)"
      "file_within (clear_of s buf 1024) (ld8 s) (fs s) (inode_id d)"
  shows "\<exists>t. cat c buf s = Some (0, t) \<and>
    screen_of t = fold emit (file_content (ld8 s) (fs s) (inode_id d)) (screen_of s)"
  by (rule cat_prints_aux [OF assms])

text \<open>A process with the argument \<open>a\<close>, the name of the one file of the image.\<close>

definition cat_kernel :: kernel where
  "cat_kernel = upd_pcb (pcb_addr 0) (\<lambda>p. p\<lparr>argument := array_of [0x61]\<rparr>) sample_process"

lemma cat_kernel_simps:
  "current cat_kernel = (current sample_process)\<lparr>argument := array_of [0x61]\<rparr>"
  "ld8 cat_kernel = sample_image(0x8000000 := 0x61)" "fs cat_kernel = sample_fs"
  "tlb cat_kernel = (\<lambda>a. a)" "con cat_kernel = con static_kernel"
  by (simp_all add: cat_kernel_def current_def sample_process_simps) (simp add: sample_process_def)

lemma low_clear: "unat a < 0x3000 \<Longrightarrow> clear_of cat_kernel 0x8000000 1024 a"
proof -
  assume a: "unat a < 0x3000"
  have v: "video_mem (con cat_kernel) = 0xB8000" by (simp add: cat_kernel_simps static_kernel_def)
  have "a \<noteq> 0xB8000 + of_nat k" if "k < 4000" for k
    using that a unat_of_nat_u32 [of "0xB8000 + k"] by auto
  moreover have "a \<noteq> 0x8000000 + of_nat k" if "k < 1024" for k
    using that a unat_of_nat_u32 [of "0x8000000 + k"] by auto
  ultimately show ?thesis by (auto simp: clear_of_def screen_bytes_def cat_kernel_simps(4) v)
qed

lemma low_address: "n + k < 0x3000 \<Longrightarrow> clear_of cat_kernel 0x8000000 1024 (of_nat n + of_nat k)"
  using low_clear [of "of_nat (n + k)"] unat_of_nat_u32 [of "n + k"] by simp

lemma cat_kernel_fields:
  "num_dir_entries (ld8 cat_kernel) (fs cat_kernel) = 1" "num_inodes (ld8 cat_kernel) (fs cat_kernel) = 1"
  "inode_length (ld8 cat_kernel) (fs cat_kernel) 0 = 3" "inode_block (ld8 cat_kernel) (fs cat_kernel) 0 0 = 0"
  by (simp_all add: num_dir_entries_def num_inodes_def inode_length_def inode_block_def cat_kernel_simps word_at_def
      sample_image_def sample_fs_def)

lemma cat_kernel_content: "file_content (ld8 cat_kernel) (fs cat_kernel) 0 = lit ''abc''"
  unfolding file_content_def cat_kernel_fields
  by (simp add: upt_conv_Cons file_byte_def cat_kernel_fields [simplified] cat_kernel_fields block_addr_def)
    (simp add: cat_kernel_simps sample_image_def sample_fs_def)

lemma cat_kernel_image:
  "directory_within (clear_of cat_kernel 0x8000000 1024) (ld8 cat_kernel) (fs cat_kernel)"
  "file_within (clear_of cat_kernel 0x8000000 1024) (ld8 cat_kernel) (fs cat_kernel) 0"
proof -
  have f: "boot_block (fs cat_kernel) = of_nat 0" "inodes (fs cat_kernel) = of_nat 4096"
    "data_block (fs cat_kernel) = of_nat 8192"
    by (simp_all add: cat_kernel_simps sample_fs_def)
  show "directory_within (clear_of cat_kernel 0x8000000 1024) (ld8 cat_kernel) (fs cat_kernel)"
    unfolding directory_within_def f cat_kernel_fields using low_address [of 0] by simp
  show "file_within (clear_of cat_kernel 0x8000000 1024) (ld8 cat_kernel) (fs cat_kernel) 0"
    unfolding file_within_def block_addr_def f cat_kernel_fields
    using low_address [of 0] low_address [of 4096] low_address [of 8192]
    by (simp add: cat_kernel_fields [simplified] cat_kernel_fields)
qed

theorem cat_prints_witness:
  "\<exists>t. cat idle_setting 0x8000000 cat_kernel = Some (0, t) \<and>
    screen_of t = fold emit (file_content (ld8 cat_kernel) (fs cat_kernel) (inode_id sample_entry)) (screen_of cat_kernel)"
proof (rule cat_prints)
  show "flags_ok (current cat_kernel)" "\<not> fd_in_use (current cat_kernel) 2"
    "\<forall>j < 2. fd_in_use (current cat_kernel) j"
    using sample_flags by (simp_all add: cat_kernel_simps flags_ok_def fd_in_use_def)
  show "fop_write (file_op_tb (file_descriptor (current cat_kernel) 1)) = Fn_terminal_write"
    by (simp add: cat_kernel_simps sample_process_simps stdout_table_def)
  show "cstr (argument (current cat_kernel)) [0x61]"
    using cstr_array_of [of "[0x61]"] by (simp add: cat_kernel_simps)
  show "inj_on (\<lambda>k. tlb cat_kernel (0x8000000 + of_nat k)) {..<1024}"
    by (rule inj_onI) (simp add: cat_kernel_simps of_nat_inj_u32)
  have v: "video_mem (con cat_kernel) = 0xB8000" by (simp add: cat_kernel_simps static_kernel_def)
  have "(0x8000000 + of_nat k :: u32) \<noteq> 0xB8000 + of_nat j" if "k < 1024" "j < 4000" for k j
    using that of_nat_inj_u32 [of "0x8000000 + k" "0xB8000 + j"] by simp
  then show "off_screen_buffer cat_kernel 0x8000000 1024"
    by (auto simp: off_screen_buffer_def screen_bytes_def cat_kernel_simps(4) v)
  show "console_ok cat_kernel"
    using static_console_ok by (simp add: console_ok_def screen_mapped_def cat_kernel_simps)
      (simp add: static_kernel_def)
  show "map_of (directory (ld8 cat_kernel) (fs cat_kernel)) (take 32 [0x61]) = Some sample_entry"
    using sample_lookup by (simp add: cat_kernel_simps sample_process_simps sample_name)
  show "directory_within (clear_of cat_kernel 0x8000000 1024) (ld8 cat_kernel) (fs cat_kernel)"
    "file_within (clear_of cat_kernel 0x8000000 1024) (ld8 cat_kernel) (fs cat_kernel) (inode_id sample_entry)"
    using cat_kernel_image by (simp_all add: sample_entry_fields)
qed (simp_all add: sample_entry_fields cat_kernel_fields cat_kernel_content not_backspace_def)

end
