(* ===== verification/User_Tests.thy ===== *)
theory User_Tests
  imports User_Programs
begin

text \<open>
  \<open>ece391syserr.c\<close>, the program with which the authors test the error returns of the system
  calls, and the proof that all its tests pass on the model of the kernel.
\<close>

section \<open>The tests\<close>

text \<open>\<open>if (-1 != call) { print; fail = 2; }\<close>\<close>

definition expect_refused ::
    "setting \<Rightarrow> string \<Rightarrow> (kernel \<Rightarrow> (int \<times> kernel) option) \<Rightarrow> int \<Rightarrow> kernel \<Rightarrow> (int \<times> kernel) option" where
  "expect_refused c msg call fail s =
     Option.bind (call s) (\<lambda>(r, s1).
       if r \<noteq> -1 then map_option (\<lambda>t. (2, t)) (say_literal c msg s1) else Some (fail, s1))"

fun expect_all ::
    "setting \<Rightarrow> (string \<times> (kernel \<Rightarrow> (int \<times> kernel) option)) list \<Rightarrow> int \<Rightarrow> kernel \<Rightarrow> (int \<times> kernel) option" where
  "expect_all c [] fail s = Some (fail, s)"
| "expect_all c ((msg, call) # xs) fail s =
     Option.bind (expect_refused c msg call fail s) (\<lambda>(fail, s1). expect_all c xs fail s1)"

definition verdict :: "setting \<Rightarrow> string \<Rightarrow> int \<times> kernel \<Rightarrow> (int \<times> kernel) option" where
  "verdict c name r =
     (case r of (fail, s) \<Rightarrow> map_option (\<lambda>t. (fail, t))
        (say_literal c (nl (name @ (if fail \<noteq> 0 then '': FAIL'' else '': PASS''))) s))"

abbreviation NEG :: int where "NEG \<equiv> -1073741823"
abbreviation BIG :: int where "BIG \<equiv> 1073741823"

definition err_fd :: "setting \<Rightarrow> int \<Rightarrow> u32 \<Rightarrow> kernel \<Rightarrow> (int \<times> kernel) option" where
  "err_fd c fd buf =
     expect_all c [(nl ''read fail'', ece391_read c fd buf 31), (nl ''write fail'', ece391_write c fd buf 31),
       (nl ''close fail'', ece391_close c fd)] 0"

definition err_neg_fd :: "setting \<Rightarrow> u32 \<Rightarrow> kernel \<Rightarrow> (int \<times> kernel) option" where
  "err_neg_fd c buf s = Option.bind (err_fd c NEG buf s) (verdict c ''err_neg_fd'')"

definition err_big_fd :: "setting \<Rightarrow> u32 \<Rightarrow> kernel \<Rightarrow> (int \<times> kernel) option" where
  "err_big_fd c buf s = Option.bind (err_fd c BIG buf s) (verdict c ''err_big_fd'')"

text \<open>The number of calls that fail.\<close>

fun open_times :: "setting \<Rightarrow> nat \<Rightarrow> nat \<Rightarrow> kernel \<Rightarrow> (nat \<times> kernel) option" where
  "open_times c 0 cnt s = Some (cnt, s)"
| "open_times c (Suc k) cnt s =
     Option.bind (ece391_open c (literal c ''.'') s) (\<lambda>(r, s1).
       open_times c k (if r = -1 then cnt + 1 else cnt) s1)"

fun close_times :: "setting \<Rightarrow> nat \<Rightarrow> nat \<Rightarrow> kernel \<Rightarrow> kernel option" where
  "close_times c i 0 s = Some s"
| "close_times c i (Suc k) s =
     Option.bind (ece391_close c (int i) s) (\<lambda>(r, s1). close_times c (i + 1) k s1)"

definition err_open_lots :: "setting \<Rightarrow> kernel \<Rightarrow> (int \<times> kernel) option" where
  "err_open_lots c s =
     Option.bind (open_times c 7 0 s) (\<lambda>(cnt, s1).
     Option.bind (close_times c 2 6 s1) (\<lambda>s2.
       verdict c ''err_open_lots'' (if cnt = 1 then 0 else 2, s2)))"

definition err_open :: "setting \<Rightarrow> kernel \<Rightarrow> (int \<times> kernel) option" where
  "err_open c s =
     Option.bind (expect_all c
       [(nl ([CHR 0x27] @ ''helloo'' @ [CHR 0x27] @ '' fail''), \<lambda>s. ece391_open c (literal c ''helloo'') s),
        (nl ([CHR 0x27] @ ''shel'' @ [CHR 0x27] @ '' fail''), \<lambda>s. ece391_open c (literal c ''shel'') s),
        (nl ''empty string fail'', \<lambda>s. ece391_open c (literal c []) s)] 0 s)
       (verdict c ''err_open'')"

definition err_unopened :: "setting \<Rightarrow> u32 \<Rightarrow> kernel \<Rightarrow> (int \<times> kernel) option" where
  "err_unopened c buf s =
     Option.bind (expect_all c
       (map (\<lambda>i. (nl ''close unopened or invalid fd fail'', ece391_close c (int i))) [0..<8] @
        map (\<lambda>i. (nl ''read from unopened fd fail'', ece391_read c (int i) buf 31)) [2..<8] @
        map (\<lambda>i. (nl ''write to unopened fd fail'', ece391_write c (int i) buf 31)) [2..<8]) 0 s)
       (verdict c ''err_unopened'')"

definition err_vidmap :: "setting \<Rightarrow> kernel \<Rightarrow> (int \<times> kernel) option" where
  "err_vidmap c s =
     Option.bind (expect_all c [(nl ''Null pointer fail'', ece391_vidmap c 0),
       (nl ''Kernel pointer fail fail'', ece391_vidmap c 0x400000)] 0 s)
       (verdict c ''err_vidmap'')"

definition err_stdin_out :: "setting \<Rightarrow> u32 \<Rightarrow> kernel \<Rightarrow> (int \<times> kernel) option" where
  "err_stdin_out c buf s =
     Option.bind (expect_all c [(nl ''write to stdin fail'', ece391_write c 0 buf 31),
       (nl ''read from stdout fail'', ece391_read c 1 buf 31)] 0 s)
       (verdict c ''err_stdin_out'')"

text \<open>\<open>call_sys\<close> leaves the argument registers as they are: they are parameters.\<close>

definition call_sys :: "setting \<Rightarrow> (int \<Rightarrow> u32 \<times> u32 \<times> u32) \<Rightarrow> int \<Rightarrow> kernel \<Rightarrow> (int \<times> kernel) option" where
  "call_sys c regs num s = (case regs num of (ebx, ecx, edx) \<Rightarrow> DO_CALL c (of_int num) ebx ecx edx s)"

definition err_syscall_num :: "setting \<Rightarrow> (int \<Rightarrow> u32 \<times> u32 \<times> u32) \<Rightarrow> kernel \<Rightarrow> (int \<times> kernel) option" where
  "err_syscall_num c regs s =
     Option.bind (expect_all c [(nl ''syscall 0 fail'', call_sys c regs BIG),
       (nl ''big num syscall fail'', call_sys c regs NEG), (nl ''neg num syscall fail'', call_sys c regs 0)] 0 s)
       (verdict c ''err_syscall_num'')"

section \<open>The program\<close>

fun run_tests :: "(kernel \<Rightarrow> (int \<times> kernel) option) list \<Rightarrow> int \<Rightarrow> kernel \<Rightarrow> (int \<times> kernel) option" where
  "run_tests [] fail s = Some (fail, s)"
| "run_tests (t # ts) fail s = Option.bind (t s) (\<lambda>(r, s1). run_tests ts (fail + r) s1)"

text \<open>\<open>buf k\<close> is the local array of test \<open>k\<close>.\<close>

definition tests :: "setting \<Rightarrow> (nat \<Rightarrow> u32) \<Rightarrow> (int \<Rightarrow> u32 \<times> u32 \<times> u32) \<Rightarrow> (kernel \<Rightarrow> (int \<times> kernel) option) list" where
  "tests c buf regs = [err_neg_fd c (buf 1), err_big_fd c (buf 2), err_open_lots c, err_open c,
     err_unopened c (buf 5), err_vidmap c, err_stdin_out c (buf 7), err_syscall_num c regs]"

definition run_all :: "setting \<Rightarrow> (nat \<Rightarrow> u32) \<Rightarrow> (int \<Rightarrow> u32 \<times> u32 \<times> u32) \<Rightarrow> kernel \<Rightarrow> (int \<times> kernel) option" where
  "run_all c buf regs s =
     Option.bind (run_tests (tests c buf regs) 0 s) (\<lambda>(fail, s1).
       map_option (\<lambda>t. (fail, t)) (say_literal c (nl ([CHR 0x0A] @
         (if fail \<noteq> 0 then ''Overall Tests: FAIL'' else ''Overall Tests: PASS''))) s1))"

definition syserr :: "setting \<Rightarrow> (nat \<Rightarrow> u32) \<Rightarrow> (int \<Rightarrow> u32 \<times> u32 \<times> u32) \<Rightarrow> u32 \<Rightarrow> kernel \<Rightarrow> (int \<times> kernel) option" where
  "syserr c buf regs line s =
     Option.bind (say_literal c ''Choose from tests 1-8. 0 to run all: '' s) (\<lambda>s1.
     Option.bind (ece391_read c 0 line 127 s1) (\<lambda>(cnt, s2).
       if cnt = -1 then give_up c (nl (''Can'' @ [CHR 0x27] @ ''t read test #'')) 2 s2
       else let select = uint (ld8 s2 line) - 0x30 in
         if select = 0 then run_all c buf regs s2
         else if 1 \<le> select \<and> select \<le> 8 then (tests c buf regs ! nat (select - 1)) s2
         else give_up c ''Invalid test number. Choose from tests 1-8 or 0'' 0 s2))"

section \<open>The state the tests run in\<close>

definition pass_texts :: "string list" where
  "pass_texts = map (\<lambda>name. nl (name @ '': PASS'')) [''err_neg_fd'', ''err_big_fd'', ''err_open_lots'', ''err_open'',
     ''err_unopened'', ''err_vidmap'', ''err_stdin_out'', ''err_syscall_num'']
   @ [nl (CHR 0x0A # ''Overall Tests: PASS'')]"

definition test_texts :: "string list" where
  "test_texts = [''.'', ''helloo'', ''shel'', []] @ pass_texts"

text \<open>The string is in memory where the compiler put it, and not on the screen.\<close>

definition text_stored :: "setting \<Rightarrow> kernel \<Rightarrow> string \<Rightarrow> bool" where
  "text_stored c s str \<longleftrightarrow> literal c str \<noteq> 0 \<and> cstr (view s (literal c str)) (lit str) \<and>
     off_screen_buffer s (literal c str) (length str + 1)"

text \<open>The descriptors in \<open>A\<close> are in use, among them the two of the terminal.\<close>

definition files_open :: "nat set \<Rightarrow> pcb \<Rightarrow> bool" where
  "files_open A p \<longleftrightarrow> 0 \<in> A \<and> 1 \<in> A \<and> (\<forall>i < 8. flag (file_descriptor p i) = (if i \<in> A then 1 else 0)) \<and>
     file_op_tb (file_descriptor p 0) = stdin_table \<and> file_op_tb (file_descriptor p 1) = stdout_table"

definition test_directory :: "(u8 list \<times> dentry) list \<Rightarrow> bool" where
  "test_directory D \<longleftrightarrow> (\<exists>d. map_of D (lit ''.'') = Some d \<and> file_type d = 1) \<and>
     map_of D (lit ''helloo'') = None \<and> map_of D (lit ''shel'') = None \<and> map_of D [] = None"

definition not_shown :: "kernel \<Rightarrow> u32 \<Rightarrow> bool" where
  "not_shown s a \<longleftrightarrow> tlb s a \<notin> screen_bytes s"

definition test_ready :: "setting \<Rightarrow> nat set \<Rightarrow> kernel \<Rightarrow> bool" where
  "test_ready c A s \<longleftrightarrow> console_ok s \<and> files_open A (current s) \<and> (\<forall>str \<in> set test_texts. text_stored c s str) \<and>
     directory_within (not_shown s) (ld8 s) (fs s) \<and> test_directory (directory (ld8 s) (fs s))"

lemma pass_texts_plain: "str \<in> set pass_texts \<Longrightarrow> list_all not_backspace (lit str) \<and> length str < 100"
  by (auto simp: pass_texts_def not_backspace_def)

lemma test_ready_step:
  assumes ready: "test_ready c A s" and ok: "console_ok t" and files: "files_open B (current t)"
    and same: "tlb t = tlb s" "video_mem (con t) = video_mem (con s)" "off_screen t = off_screen s"
      "fs t = (fs s)\<lparr>global_dentry := g\<rparr>"
  shows "test_ready c B t"
proof -
  have bytes: "screen_bytes t = screen_bytes s" by (simp add: screen_bytes_def same)
  have ld: "ld8 t a = ld8 s a" if "not_shown s a" for a
    using off_screen_byte [OF same(3) bytes] that by (simp add: not_shown_def ld8_def rd_def same)
  have shown: "not_shown t = not_shown s" by (simp add: fun_eq_iff not_shown_def bytes same)
  have w: "directory_within (not_shown s) (ld8 s) (fs s)" using ready by (simp add: test_ready_def)
  have "text_stored c t str" if "str \<in> set test_texts" for str
  proof -
    have st: "text_stored c s str" using ready that by (simp add: test_ready_def)
    have "view t (literal c str) i = view s (literal c str) i" if "i < length str + 1" for i
      using st that ld by (simp add: view_def text_stored_def off_screen_buffer_def not_shown_def)
    then have "cstr (view t (literal c str)) (lit str)" using st by (simp add: text_stored_def cstr_def)
    then show ?thesis using st by (simp add: text_stored_def off_screen_buffer_def bytes same)
  qed
  moreover have "directory (ld8 t) (fs s) = directory (ld8 s) (fs s)"
    by (rule same_directory_within [OF w]) (rule ld)
  moreover have "directory_within (not_shown s) (ld8 t) (fs s)"
    by (rule directory_within_same [OF w]) (rule ld)
  ultimately show ?thesis
    using ready ok files unfolding test_ready_def same(4) shown directory_fs by simp
qed

section \<open>What the calls do\<close>

lemma say_pass:
  assumes ready: "test_ready c A s" and str: "str \<in> set pass_texts"
  shows "\<exists>t. say_literal c str s = Some t \<and> test_ready c A t"
proof -
  have st: "text_stored c s str" using ready str by (simp add: test_ready_def test_texts_def)
  have one: "flag (current_file s 1) \<noteq> 0" "fop_write (file_op_tb (current_file s 1)) = Fn_terminal_write"
    using ready by (simp_all add: test_ready_def files_open_def current_def current_file_def stdout_table_def)
  have len: "ece391_strlen (view s (literal c str)) = Some (length str)"
    using ece391_strlen_cstr [of "view s (literal c str)" "lit str"] st by (simp add: text_stored_def)
  have bytes: "buffer_bytes s (literal c str) (length str) = lit str"
    by (rule nth_equalityI) (use st in \<open>auto simp: buffer_bytes_def text_stored_def cstr_def view_def ld8_def rd_def\<close>)
  have off: "off_screen_buffer s (literal c str) (length str)"
    using st by (simp add: text_stored_def off_screen_buffer_def)
  have nz: "literal c str \<noteq> 0" and ok: "console_ok s" using st ready by (simp_all add: text_stored_def test_ready_def)
  have small: "length str < 2 ^ 31" using pass_texts_plain [OF str] by simp
  obtain t where t: "ece391_write c 1 (literal c str) (of_nat (length str)) s = Some (int (length str), t)"
    "off_screen t = off_screen s" "console_ok t" "tlb t = tlb s" "fs t = fs s" "curr_pcb t = curr_pcb s"
    "pcb_at t = pcb_at s" "video_mem (con t) = video_mem (con s)"
    using write_shown [OF one nz small ok off, of c] unfolding bytes using pass_texts_plain [OF str] by blast
  have "test_ready c A t"
    by (rule test_ready_step [OF ready t(3) _ t(4,8,2), of A "global_dentry (fs s)"])
      (use ready t in \<open>simp_all add: test_ready_def current_def\<close>)
  then show ?thesis using t(1) len by (simp add: say_literal_def ece391_fdputs_def)
qed

lemma verdict_pass:
  assumes "test_ready c A s" and "nl (name @ '': PASS'') \<in> set pass_texts"
  shows "\<exists>t. verdict c name (0, s) = Some (0, t) \<and> test_ready c A t"
  using say_pass [OF assms] by (auto simp: verdict_def)

text \<open>The call returns -1 and the tests can go on; \<open>P\<close> is the state they run in.\<close>

definition refuses :: "(kernel \<Rightarrow> bool) \<Rightarrow> (kernel \<Rightarrow> (int \<times> kernel) option) \<Rightarrow> bool" where
  "refuses P call \<longleftrightarrow> (\<forall>s. P s \<longrightarrow> (\<exists>t. call s = Some (-1, t) \<and> P t))"

lemma expect_all_refused:
  "\<forall>(msg, call) \<in> set xs. refuses P call \<Longrightarrow> P s \<Longrightarrow> \<exists>t. expect_all c xs fail s = Some (fail, t) \<and> P t"
proof (induction xs arbitrary: s)
  case Nil
  then show ?case by simp
next
  case (Cons x xs)
  obtain msg call where x: "x = (msg, call)" by (cases x)
  obtain t where t: "call s = Some (-1, t)" "P t"
    using Cons.prems by (auto simp: x refuses_def)
  obtain u where "expect_all c xs fail t = Some (fail, u)" "P u"
    using Cons.IH [of t] Cons.prems(1) t(2) by auto
  then show ?case by (simp add: x expect_refused_def t(1))
qed

lemma refusesI: "(\<And>s. P s \<Longrightarrow> call s = Some (-1, s)) \<Longrightarrow> refuses P call"
  by (simp add: refuses_def)

text \<open>A message of the kernel.\<close>

lemma say_ready:
  assumes ready: "test_ready c A s" and m: "plain (lit m)" "list_all not_backspace (lit m)"
  shows "test_ready c A (say m s)"
proof -
  have ok: "console_ok s" using ready by (simp add: test_ready_def)
  note sink = fold_putc_sink [OF ok m(2), folded say_text [OF m(1)]]
  show ?thesis
    by (rule test_ready_step [OF ready sink(1) _ _ _ sink(3), of A "global_dentry (fs s)"])
      (use ready in \<open>simp_all add: test_ready_def current_def say_text [OF m(1)]\<close>)
qed

lemma bad_fd:
  assumes "fd < 0 \<or> 8 \<le> fd" and "- (2 ^ 31) \<le> fd" and "fd < 2 ^ 31"
  shows "ece391_read c fd buf n s = Some (-1, s)" "ece391_write c fd buf n s = Some (-1, s)"
    "ece391_close c fd s = Some (-1, s)"
proof -
  have "sint (of_int fd :: u32) = fd" using assms(2,3) by (simp add: signed_of_int signed_take_bit_int_eq_self)
  then show "ece391_read c fd buf n s = Some (-1, s)" "ece391_write c fd buf n s = Some (-1, s)"
    "ece391_close c fd s = Some (-1, s)"
    unfolding stub_read stub_write stub_close using assms(1) by (auto simp: read_fd_def write_fd_def close_fd_def)
qed

lemma fd_word: "i < 8 \<Longrightarrow> sint (of_int (int i) :: u32) = int i"
  by (simp add: signed_of_nat signed_take_bit_int_eq_self)

lemma unopened_fd:
  assumes "files_open A (current s)" and "i < 8"
  shows "i \<notin> A \<Longrightarrow> ece391_read c (int i) buf n s = Some (-1, s)"
    "i \<notin> A \<Longrightarrow> ece391_write c (int i) buf n s = Some (-1, s)"
    "i \<in> {0, 1} \<or> i \<notin> A \<Longrightarrow> ece391_close c (int i) s = Some (-1, s)"
proof -
  have "flag (file_descriptor (pcb_at s (curr_pcb s)) i) = 0" if "i \<notin> A"
    using assms that by (simp add: files_open_def current_def)
  note flag = this
  show "i \<notin> A \<Longrightarrow> ece391_read c (int i) buf n s = Some (-1, s)"
    "i \<notin> A \<Longrightarrow> ece391_write c (int i) buf n s = Some (-1, s)"
    "i \<in> {0, 1} \<or> i \<notin> A \<Longrightarrow> ece391_close c (int i) s = Some (-1, s)"
    unfolding stub_read stub_write stub_close fd_word [OF assms(2)] using flag
    by (auto simp: read_fd_def write_fd_def close_fd_def get_current_pcb_def Let_def)
qed

lemma terminal_wrong_way:
  "refuses (test_ready c A) (ece391_write c 0 buf 31)" "refuses (test_ready c A) (ece391_read c 1 buf 31)"
proof -
  have msg: "plain (lit m) \<and> list_all not_backspace (lit m)"
    if "m = ''terminal bad read!!'' @ [CHR 0x0A] \<or> m = ''terminal bad write!!'' @ [CHR 0x0A]" for m
    using that by (auto simp: plain_def not_backspace_def)
  have "ece391_write c 0 buf 31 s = Some (-1, if buf = 0 then s else say (''terminal bad write!!'' @ [CHR 0x0A]) s) \<and>
      ece391_read c 1 buf 31 s = Some (-1, if buf = 0 then s else say (''terminal bad read!!'' @ [CHR 0x0A]) s)"
    if "test_ready c A s" for s
    unfolding stub_read stub_write using that
    by (simp add: test_ready_def files_open_def current_def read_fd_def write_fd_def get_current_pcb_def
        stdin_table_def stdout_table_def terminal_bad_read_def terminal_bad_write_def)
  then show "refuses (test_ready c A) (ece391_write c 0 buf 31)" "refuses (test_ready c A) (ece391_read c 1 buf 31)"
    unfolding refuses_def using say_ready msg by force+
qed

lemma vidmap_refused:
  "ece391_vidmap c 0 s = Some (-1, s)" "ece391_vidmap c 0x400000 s = Some (-1, s)"
  by (simp_all add: DO_CALL_def syscall_numbers vidmap_def)

lemma bad_number:
  "call_sys c regs BIG s = Some (-1, s)" "call_sys c regs NEG s = Some (-1, s)" "call_sys c regs 0 s = Some (-1, s)"
  by (simp_all add: call_sys_def DO_CALL_def syscall_linkage_def split: prod.split)

lemma text_name:
  assumes "test_ready c A s" and "str \<in> set test_texts" and "length str < 32"
  shows "string_in 32 (view s (literal c str)) = lit str" "literal c str \<noteq> 0"
  using assms string_in_cstr [of "view s (literal c str)" "lit str" 32]
  by (simp_all add: test_ready_def text_stored_def)

lemma open_missing:
  assumes ready: "test_ready c A s" and str: "str \<in> {''helloo'', ''shel'', []}"
  shows "ece391_open c (literal c str) s = Some (-1, s)"
proof -
  have "str \<in> set test_texts" "length str < 32" using str by (auto simp: test_texts_def)
  note name = text_name [OF ready this]
  have "map_of (directory (ld8 s) (fs s)) (lit str) = None"
    using ready str by (auto simp: test_ready_def test_directory_def)
  then have "read_dentry_by_name (ld8 s) (fs s) (view s (literal c str)) = None"
    by (simp add: read_dentry_by_name_def find_dentry_map_of directory_def name(1))
  then show ?thesis unfolding stub_open by (simp add: open_fd_def Let_def split: option.split)
qed

lemma files_open_flags: "files_open A p \<Longrightarrow> flags_ok p \<and> (\<forall>i < 8. fd_in_use p i \<longleftrightarrow> i \<in> A)"
  by (simp add: files_open_def flags_ok_def fd_in_use_def)

text \<open>A seventh descriptor is refused.\<close>

lemma open_full:
  assumes "test_ready c {..<8} s"
  shows "ece391_open c a s = Some (-1, s)"
proof -
  have "flags_ok (current s) \<and> (\<forall>i < 8. fd_in_use (current s) i)"
    using assms files_open_flags [of "{..<8}" "current s"] by (simp add: test_ready_def)
  then have "find_fd (current s) 0 8 = None" using fds.search_iff [of "current s"] by blast
  then show ?thesis unfolding stub_open by (simp add: open_fd_def get_current_pcb_def current_def)
qed

lemma open_next:
  assumes ready: "test_ready c {..<k} s" and k: "2 \<le> k" "k < 8"
  shows "\<exists>t. ece391_open c (literal c ''.'') s = Some (int k, t) \<and> test_ready c {..<Suc k} t"
proof -
  obtain d where d: "map_of (directory (ld8 s) (fs s)) (lit ''.'') = Some d" "file_type d = 1"
    using ready by (auto simp: test_ready_def test_directory_def)
  note name = text_name [OF ready, of "''.''", simplified test_texts_def, simplified]
  have files: "files_open {..<k} (current s)" using ready by (simp add: test_ready_def)
  have use: "flags_ok (current s)" "\<not> fd_in_use (current s) k" "\<forall>j < k. fd_in_use (current s) j"
    using files_open_flags [OF files] k by simp_all
  have ft: "0 \<le> sint (file_type d)" "sint (file_type d) \<le> 2" using d(2) by simp_all
  have lookup: "map_of (directory (ld8 s) (fs s)) (string_in 32 (view s (literal c ''.''))) = Some d"
    using d(1) name(1) by simp
  obtain t g where t: "open_fd (literal c ''.'') s = Some (int k, t)"
    "pcb_at t = (pcb_at s)(curr_pcb s := upd_fd k (open_file d) (current s))" "curr_pcb t = curr_pcb s"
    "mem t = mem s" "tlb t = tlb s" "con t = con s" "fs t = (fs s)\<lparr>global_dentry := g\<rparr>"
    using open_fd_installs [OF use(1) k(2) use(2,3) name(2) lookup ft] by blast
  have new: "files_open {..<Suc k} (current t)"
    using files k by (auto simp: files_open_def current_def t(2,3))
  have ok: "console_ok t" using ready by (simp add: test_ready_def console_ok_def screen_mapped_def t)
  have off: "off_screen t = off_screen s" by (simp add: fun_eq_iff off_screen_def screen_bytes_def t)
  have "test_ready c {..<Suc k} t"
    by (rule test_ready_step [OF ready ok new t(5) _ off t(7)]) (simp add: t)
  then show ?thesis using t(1) unfolding stub_open by blast
qed

lemma open_seven:
  "k + m = 8 \<Longrightarrow> 2 \<le> k \<Longrightarrow> test_ready c {..<k} s \<Longrightarrow>
   \<exists>t. open_times c (Suc m) cnt s = Some (cnt + 1, t) \<and> test_ready c {..<8} t"
proof (induction m arbitrary: k s)
  case 0
  then have "k = 8" by simp
  then show ?case using open_full [of c s] 0 by simp
next
  case (Suc m)
  then obtain t where t: "ece391_open c (literal c ''.'') s = Some (int k, t)" "test_ready c {..<Suc k} t"
    using open_next [of c k s] by auto
  have "\<exists>u. open_times c (Suc m) cnt t = Some (cnt + 1, u) \<and> test_ready c {..<8} u"
    by (rule Suc.IH [OF _ _ t(2)]) (use Suc.prems in simp_all)
  then show ?case by (simp add: t(1) del: open_times.simps(2)) (simp add: open_times.simps(2) [of c "Suc m"] t(1))
qed

lemma close_ready:
  assumes ready: "test_ready c A s" and i: "2 \<le> i" "i < 8" "i \<in> A"
  shows "\<exists>t. ece391_close c (int i) s = Some (0, t) \<and> test_ready c (A - {i}) t"
proof -
  let ?t = "upd_pcb (curr_pcb s) (upd_fd i closed_file) s"
  have files: "files_open A (current s)" using ready by (simp add: test_ready_def)
  then have "flag (file_descriptor (pcb_at s (curr_pcb s)) i) = 1"
    using i by (simp add: files_open_def current_def)
  then have "ece391_close c (int i) s = Some (0, ?t)"
    unfolding stub_close fd_word [OF i(2)] using i by (simp add: close_fd_def get_current_pcb_def)
  moreover have "test_ready c (A - {i}) ?t"
  proof (rule test_ready_step [OF ready])
    show "console_ok ?t" using ready by (simp add: test_ready_def console_ok_def screen_mapped_def)
    show "files_open (A - {i}) (current ?t)"
      using files i by (auto simp: files_open_def current_def closed_file_def)
    show "off_screen ?t = off_screen s" by (simp add: fun_eq_iff off_screen_def screen_bytes_def)
    show "fs ?t = (fs s)\<lparr>global_dentry := global_dentry (fs s)\<rparr>" by simp
  qed simp_all
  ultimately show ?thesis by blast
qed

lemma close_all:
  "i + k = 8 \<Longrightarrow> 2 \<le> i \<Longrightarrow> test_ready c ({..<2} \<union> {i..<8}) s \<Longrightarrow>
   \<exists>t. close_times c i k s = Some t \<and> test_ready c {..<2} t"
proof (induction k arbitrary: i s)
  case 0
  then show ?case by simp
next
  case (Suc k)
  obtain t where t: "ece391_close c (int i) s = Some (0, t)" "test_ready c ({..<2} \<union> {i..<8} - {i}) t"
    using close_ready [OF Suc.prems(3), of i] Suc.prems(1,2) by auto
  have "{..<2} \<union> {i..<8} - {i} = {..<2} \<union> {i + 1..<8}" using Suc.prems(2) by auto
  then show ?case using Suc.IH [of "i + 1" t] Suc.prems(1,2) t by simp
qed

section \<open>Every test passes\<close>

lemma test_passes:
  assumes "\<forall>(msg, call) \<in> set xs. refuses (test_ready c A) call" and "test_ready c A s"
    and "nl (name @ '': PASS'') \<in> set pass_texts"
  shows "\<exists>t. Option.bind (expect_all c xs 0 s) (verdict c name) = Some (0, t) \<and> test_ready c A t"
proof -
  obtain u where u: "expect_all c xs 0 s = Some (0, u)" "test_ready c A u"
    using expect_all_refused [OF assms(1,2), of c 0] by blast
  show ?thesis using verdict_pass [OF u(2) assms(3)] by (simp add: u(1))
qed

abbreviation passes :: "setting \<Rightarrow> (kernel \<Rightarrow> (int \<times> kernel) option) \<Rightarrow> bool" where
  "passes c test \<equiv> \<forall>s. test_ready c {..<2} s \<longrightarrow> (\<exists>t. test s = Some (0, t) \<and> test_ready c {..<2} t)"

lemma terminals_open: "test_ready c {..<2} s \<Longrightarrow> files_open {..<2} (current s)"
  by (simp add: test_ready_def)

lemma passesI:
  assumes "list_all (\<lambda>(msg, call). refuses (test_ready c {..<2}) call) xs" and "nl (name @ '': PASS'') \<in> set pass_texts"
  shows "passes c (\<lambda>s. Option.bind (expect_all c xs 0 s) (verdict c name))"
  using test_passes [OF _ _ assms(2)] assms(1) by (auto simp: list_all_iff)

lemma bad_fd_refused:
  assumes "fd \<in> {NEG, BIG}"
  shows "refuses P (ece391_read c fd buf n)" "refuses P (ece391_write c fd buf n)" "refuses P (ece391_close c fd)"
  using assms bad_fd [of fd] by (auto simp: refuses_def)

lemma err_fd_passes: "passes c (err_neg_fd c buf)" "passes c (err_big_fd c buf)"
  unfolding err_neg_fd_def err_big_fd_def err_fd_def
  by (rule passesI; simp add: bad_fd_refused [of NEG, simplified] bad_fd_refused [of BIG, simplified]
      pass_texts_def)+

lemma err_open_lots_passes: "passes c (err_open_lots c)"
proof (intro allI impI)
  fix s assume "test_ready c {..<2} s"
  then obtain t where t: "open_times c (Suc 6) 0 s = Some (1, t)" "test_ready c {..<8} t"
    using open_seven [of 2 6 c s 0] by auto
  have "{..<2} \<union> {2..<8} = {..<8 :: nat}" by auto
  then obtain u where u: "close_times c 2 6 t = Some u" "test_ready c {..<2} u"
    using close_all [of 2 6 c t] t(2) by auto
  have "\<exists>v. verdict c ''err_open_lots'' (0, u) = Some (0, v) \<and> test_ready c {..<2} v"
    by (rule verdict_pass [OF u(2)]) (simp add: pass_texts_def)
  then show "\<exists>t. err_open_lots c s = Some (0, t) \<and> test_ready c {..<2} t"
    using t(1) u(1) by (simp add: err_open_lots_def del: open_times.simps close_times.simps)
qed

lemma err_open_passes: "passes c (err_open c)"
  unfolding err_open_def by (rule passesI) (auto intro!: refusesI open_missing simp: pass_texts_def)

lemma close_refused: "test_ready c {..<2} s \<Longrightarrow> i < 8 \<Longrightarrow> ece391_close c (int i) s = Some (-1, s)"
  using unopened_fd(3) [OF terminals_open, of c s i] by (cases "i < 2") (auto simp: less_2_cases_iff)

lemma err_unopened_passes: "passes c (err_unopened c buf)"
  unfolding err_unopened_def
proof (rule passesI)
  show "list_all (\<lambda>(msg, call). refuses (test_ready c {..<2}) call)
     (map (\<lambda>i. (nl ''close unopened or invalid fd fail'', ece391_close c (int i))) [0..<8] @
      map (\<lambda>i. (nl ''read from unopened fd fail'', ece391_read c (int i) buf 31)) [2..<8] @
      map (\<lambda>i. (nl ''write to unopened fd fail'', ece391_write c (int i) buf 31)) [2..<8])"
    using unopened_fd(1,2) [OF terminals_open] close_refused
    by (auto simp: list_all_iff simp del: upt_rec_numeral intro!: refusesI)
  show "nl (''err_unopened'' @ '': PASS'') \<in> set pass_texts" by (simp add: pass_texts_def)
qed

lemma err_vidmap_passes: "passes c (err_vidmap c)"
  unfolding err_vidmap_def by (rule passesI) (auto intro!: refusesI vidmap_refused simp: pass_texts_def)

lemma err_stdin_out_passes: "passes c (err_stdin_out c buf)"
  unfolding err_stdin_out_def by (rule passesI) (auto intro!: terminal_wrong_way [simplified] simp: pass_texts_def)

lemma err_syscall_num_passes: "passes c (err_syscall_num c regs)"
  unfolding err_syscall_num_def by (rule passesI) (auto intro!: refusesI bad_number simp: pass_texts_def)

lemma all_tests_pass: "list_all (passes c) (tests c buf regs)"
  by (simp add: tests_def err_fd_passes err_open_lots_passes err_open_passes err_unopened_passes
      err_vidmap_passes err_stdin_out_passes err_syscall_num_passes)

lemma run_tests_pass:
  "list_all (passes c) ts \<Longrightarrow> test_ready c {..<2} s \<Longrightarrow>
   \<exists>t. run_tests ts 0 s = Some (0, t) \<and> test_ready c {..<2} t"
proof (induction ts arbitrary: s)
  case Nil
  then show ?case by simp
next
  case (Cons x ts)
  then obtain t where t: "x s = Some (0, t)" "test_ready c {..<2} t" by auto
  then show ?case using Cons.IH [of t] Cons.prems(1) by simp
qed

text \<open>
  C17: in a process with the two terminal descriptors only, and with a root directory that has the
  entry \<open>.\<close> and none of the three names that the tests misspell, all the tests of the authors'
  program for the error returns of the system calls pass: the run ends with \<open>Overall Tests: PASS\<close>
  and the failure count 0, the descriptors are as before, and the console is in order.
\<close>

theorem syserr_all_pass:
  assumes "test_ready c {..<2} s"
  shows "\<exists>t. run_all c buf regs s = Some (0, t) \<and> test_ready c {..<2} t"
proof -
  obtain u where u: "run_tests (tests c buf regs) 0 s = Some (0, u)" "test_ready c {..<2} u"
    using run_tests_pass [OF all_tests_pass assms] by blast
  have "nl (CHR 0x0A # ''Overall Tests: PASS'') \<in> set pass_texts" by (simp add: pass_texts_def)
  from say_pass [OF u(2) this] show ?thesis by (auto simp: run_all_def u(1))
qed

section \<open>A process to run them in\<close>

text \<open>The texts at 128 MB, 64 bytes apart, and a directory with the one entry \<open>.\<close>.\<close>

definition text_at :: "string \<Rightarrow> nat" where
  "text_at str = length (takeWhile (\<lambda>x. x \<noteq> str) test_texts)"

definition test_setting :: setting where
  "test_setting = idle_setting\<lparr>literal := (\<lambda>str. 0x8000000 + 64 * of_nat (text_at str))\<rparr>"

definition test_memory :: image where
  "test_memory = (\<lambda>a. if a = 0 then 1 else if a = 64 then 0x2E else if a = 96 then 1
     else if 0x8000000 \<le> unat a \<and> (unat a - 0x8000000) div 64 < length test_texts
     then array_of (lit (test_texts ! ((unat a - 0x8000000) div 64))) ((unat a - 0x8000000) mod 64) else 0)"

definition test_kernel :: kernel where
  "test_kernel = sample_process\<lparr>mem := test_memory\<rparr>"

lemma test_kernel_simps:
  "current test_kernel = current sample_process" "fs test_kernel = sample_fs" "ld8 test_kernel = test_memory"
  "tlb test_kernel = (\<lambda>a. a)" "con test_kernel = con static_kernel"
  by (simp_all add: test_kernel_def current_def sample_process_def static_kernel_def ld8_def rd_def fun_eq_iff)

lemma text_lengths: "length test_texts = 13" "str \<in> set test_texts \<Longrightarrow> length str < 40 \<and> 0 \<notin> set (lit str)"
  by (auto simp: test_texts_def pass_texts_def)

lemma text_at_nth: "str \<in> set test_texts \<Longrightarrow> text_at str < 13 \<and> test_texts ! text_at str = str"
proof -
  assume str: "str \<in> set test_texts"
  let ?P = "\<lambda>x. x \<noteq> str"
  have "takeWhile ?P test_texts \<noteq> test_texts" using str by (metis (full_types) takeWhile_eq_all_conv)
  then have "text_at str \<noteq> length test_texts" unfolding text_at_def by (metis takeWhile_eq_take take_all_iff order_refl)
  then have "text_at str < length test_texts"
    using length_takeWhile_le [of ?P test_texts] by (simp add: text_at_def)
  then show ?thesis
    using nth_length_takeWhile [of ?P test_texts] by (simp add: text_at_def text_lengths(1))
qed

lemma not_on_screen: "0x8000000 \<le> unat a \<or> unat a < 0x2000 \<Longrightarrow> tlb test_kernel a \<notin> screen_bytes test_kernel"
proof
  assume a: "0x8000000 \<le> unat a \<or> unat a < 0x2000" and "tlb test_kernel a \<in> screen_bytes test_kernel"
  then obtain k :: nat where "k < 4000" "a = 0xB8000 + of_nat k"
    by (auto simp: screen_bytes_def test_kernel_simps) (auto simp: static_kernel_def)
  then show False using a unat_of_nat_u32 [of "0xB8000 + k"] by simp
qed

lemma text_address:
  assumes "k < 13" "i < 64"
  shows "unat (0x8000000 + 64 * of_nat k + of_nat i :: u32) = 0x8000000 + (64 * k + i)"
  using unat_of_nat_u32 [of "0x8000000 + (64 * k + i)"] assms by (simp add: algebra_simps)

lemma test_kernel_texts: "str \<in> set test_texts \<Longrightarrow> text_stored test_setting test_kernel str"
proof -
  assume str: "str \<in> set test_texts"
  let ?k = "text_at str"
  note k = text_at_nth [OF str] and len = text_lengths(2) [OF str]
  have l: "literal test_setting str = 0x8000000 + 64 * of_nat ?k" by (simp add: test_setting_def)
  have v: "view test_kernel (literal test_setting str) i = array_of (lit str) i" if "i < 64" for i
  proof -
    note addr = text_address [of ?k i, OF _ that]
    have "(64 * ?k + i) div 64 = ?k" "(64 * ?k + i) mod 64 = i" using that by simp_all
    moreover have "0x8000000 + 64 * of_nat ?k + of_nat i \<noteq> (n :: u32)" if "unat n < 0x8000000" for n
      using addr k that by auto
    ultimately show ?thesis
      using addr k by (simp add: view_def l test_kernel_simps(3) test_memory_def text_lengths(1))
  qed
  have "cstr (view test_kernel (literal test_setting str)) (lit str)"
    using cstr_array_of [of "lit str"] len v by (simp add: cstr_def)
  moreover have "literal test_setting str \<noteq> 0" using text_address [of ?k 0] k by (auto simp: l)
  moreover have "off_screen_buffer test_kernel (literal test_setting str) (length str + 1)"
    unfolding off_screen_buffer_def l using not_on_screen text_address k len by simp
  ultimately show ?thesis by (simp add: text_stored_def)
qed

lemma test_memory_low: "unat a < 0x8000000 \<Longrightarrow>
   test_memory a = (if a = 0 then 1 else if a = 64 then 0x2E else if a = 96 then 1 else 0)"
  by (simp add: test_memory_def)

lemma test_kernel_ready: "test_ready test_setting {..<2} test_kernel"
proof -
  have n: "num_dir_entries test_memory sample_fs = 1"
    by (simp add: num_dir_entries_def word_at_def test_memory_low sample_fs_def)
  have a: "dir_entry_addr sample_fs 0 = 64" by (simp add: dir_entry_addr_def sample_fs_def)
  have name: "dir_name test_memory sample_fs 0 = lit ''.''"
    unfolding dir_name_def by (rule string_in_cstr) (simp_all add: cstr_def a test_memory_low)
  have type: "file_type (dentry_at test_memory 64) = 1" by (simp add: dentry_at_def word_at_def test_memory_low)
  have "directory test_memory sample_fs = [(lit ''.'', dentry_at test_memory 64)]"
    using name by (simp add: directory_def n a)
  then have "test_directory (directory (ld8 test_kernel) (fs test_kernel))"
    using type by (simp add: test_directory_def test_kernel_simps)
  moreover have "directory_within (not_shown test_kernel) (ld8 test_kernel) (fs test_kernel)"
    using not_on_screen unat_of_nat_u32 n
    by (simp add: directory_within_def not_shown_def test_kernel_simps sample_fs_def)
  moreover have "console_ok test_kernel"
    using static_console_ok by (simp add: console_ok_def screen_mapped_def test_kernel_simps)
      (simp add: static_kernel_def)
  moreover have "files_open {..<2} (current test_kernel)"
    by (auto simp: files_open_def test_kernel_simps sample_process_simps null_file_def)
  ultimately show ?thesis using test_kernel_texts by (simp add: test_ready_def)
qed

theorem syserr_all_pass_witness:
  "\<exists>t. run_all test_setting (\<lambda>_. 0x8001000) (\<lambda>_. (0, 0, 0)) test_kernel = Some (0, t) \<and> test_ready test_setting {..<2} t"
  by (rule syserr_all_pass [OF test_kernel_ready])

end
