(* ===== verification/User_Ls.thy ===== *)
theory User_Ls
  imports User_Cat User_Tests
begin

text \<open>
  \<open>ls\<close> run on the kernel: it opens the directory, reads it entry by entry and writes every name,
  padded to 32 bytes, with a line feed.
\<close>

section \<open>The directory in memory\<close>

lemma dir_names_within:
  assumes w: "directory_within P g f" and out: "\<And>a. P a \<Longrightarrow> h a = g a"
    and n: "num_dir_entries g f \<le> 63"
  shows "num_dir_entries h f = num_dir_entries g f" "dir_names h f = dir_names g f"
proof -
  have boot: "h (boot_block f + of_nat k) = g (boot_block f + of_nat k)" if "k < 4096" for k
    using w out that by (simp add: directory_within_def)
  show num: "num_dir_entries h f = num_dir_entries g f"
    unfolding num_dir_entries_def by (rule word_at_same) (use boot in simp)
  have entry: "fetch h (dir_entry_addr f (of_nat i)) 32 = fetch g (dir_entry_addr f (of_nat i)) 32" if "i < 63" for i
  proof (rule nth_equalityI)
    fix k assume "k < length (fetch h (dir_entry_addr f (of_nat i)) 32)"
    then have "k < 32" by simp
    then show "fetch h (dir_entry_addr f (of_nat i)) 32 ! k = fetch g (dir_entry_addr f (of_nat i)) 32 ! k"
      using boot [of "64 + 64 * i + k"] that by (simp add: dir_entry_addr_def add.assoc)
  qed simp
  have "unat (num_dir_entries g f) \<le> 63" using n by (simp add: word_le_nat_alt)
  then show "dir_names h f = dir_names g f"
    unfolding dir_names_def num by (intro map_cong refl entry) simp
qed

section \<open>One turn of the loop\<close>

definition ls_ready :: "u32 \<Rightarrow> nat \<Rightarrow> kernel \<Rightarrow> bool" where
  "ls_ready buf fd s \<longleftrightarrow> console_ok s \<and> fd < 8 \<and> fd \<noteq> 1 \<and> buf \<noteq> 0 \<and>
     fop_read (file_op_tb (current_file s fd)) = Fn_dir_read \<and> flag (current_file s fd) \<noteq> 0 \<and>
     fop_write (file_op_tb (current_file s 1)) = Fn_terminal_write \<and> flag (current_file s 1) \<noteq> 0 \<and>
     readable_dir (ld8 s) (fs s) 32 (current_file s fd) \<and>
     inj_on (\<lambda>k. tlb s (buf + of_nat k)) {..<33} \<and> off_screen_buffer s buf 33 \<and>
     directory_within (clear_of s buf 33) (ld8 s) (fs s)"

abbreviation unlisted :: "nat \<Rightarrow> kernel \<Rightarrow> u8 list list" where
  "unlisted fd s \<equiv> dir_rest (ld8 s) (fs s) (current_file s fd)"

lemma readable_dir_63: "readable_dir g f n fo \<Longrightarrow> num_dir_entries g f \<le> 63"
  by (auto simp: readable_dir_def word_le_nat_alt)

lemma ls_ready_step:
  assumes ready: "ls_ready buf fd s" and t: "tlb t = tlb s" "fs t = fs s" "video_mem (con t) = video_mem (con s)"
    and ok: "console_ok t" and one: "current_file t 1 = current_file s 1"
    and fd: "current_file t fd = (current_file s fd)\<lparr>file_position := p\<rparr>"
    and p: "p \<le> num_dir_entries (ld8 s) (fs s)"
    and same: "\<And>a. clear_of s buf 33 a \<Longrightarrow> ld8 t a = ld8 s a"
  shows "ls_ready buf fd t" "unlisted fd t = drop (unat p) (dir_names (ld8 s) (fs s))"
proof -
  have w: "directory_within (clear_of s buf 33) (ld8 s) (fs s)"
    and r: "readable_dir (ld8 s) (fs s) 32 (current_file s fd)" using ready by (simp_all add: ls_ready_def)
  have clear: "clear_of t buf 33 = clear_of s buf 33" by (simp add: fun_eq_iff clear_of_def screen_bytes_def t)
  note n = dir_names_within [OF w same readable_dir_63 [OF r]]
  show "unlisted fd t = drop (unat p) (dir_names (ld8 s) (fs s))" by (simp add: dir_rest_def fd t n(2))
  have "directory_within (clear_of s buf 33) (ld8 t) (fs s)" by (rule directory_within_same [OF w same])
  moreover have "readable_dir (ld8 t) (fs s) 32 (current_file t fd)"
    using r p by (simp add: readable_dir_def n(1) fd)
  ultimately show "ls_ready buf fd t"
    using ready ok one by (simp add: ls_ready_def clear fd t off_screen_buffer_def screen_bytes_def)
qed

lemma ls_reads:
  assumes ready: "ls_ready buf fd s"
  shows "ece391_read c (int fd) buf 32 s = Some (dir_read fd buf 32 s)"
proof -
  have fd: "fd < 8" using ready by (simp add: ls_ready_def)
  show ?thesis
    unfolding stub_read fd_word [OF fd] using ready
    by (simp add: ls_ready_def read_fd_def get_current_pcb_def current_file_def)
qed

lemma ls_at_end:
  assumes ready: "ls_ready buf fd s" and "unlisted fd s = []"
  shows "\<exists>t. ece391_read c (int fd) buf 32 s = Some (0, t) \<and> screen_of t = screen_of s"
proof -
  have r: "readable_dir (ld8 s) (fs s) 32 (current_file s fd)" using ready by (simp add: ls_ready_def)
  have "unat (num_dir_entries (ld8 s) (fs s)) \<le> unat (file_position (current_file s fd))"
    using assms(2) by (simp add: dir_rest_def dir_names_def)
  then have "file_position (current_file s fd) = num_dir_entries (ld8 s) (fs s)"
    using r by (simp add: readable_dir_def word_le_nat_alt word_unat_eq_iff)
  then have "dir_step (ld8 s) (fs s) 32 (current_file s fd) = (0, [], current_file s fd)"
    by (rule dir_step_end [OF r])
  then have "dir_read fd buf 32 s = (0, upd_pcb (curr_pcb s) (upd_fd fd (\<lambda>_. current_file s fd)) s)"
    by (simp add: dir_read_def)
  then show ?thesis
    using screen_store(1) [of s buf 0 "[]" "curr_pcb s" "upd_fd fd (\<lambda>_. current_file s fd)"]
    unfolding ls_reads [OF ready] by (simp add: off_screen_buffer_def)
qed

lemma ls_entry:
  assumes ready: "ls_ready buf fd s" and rest: "unlisted fd s = name # names" and plain: "list_all not_backspace name"
  shows "\<exists>u t. ece391_read c (int fd) buf 32 s = Some (32, u) \<and>
    ece391_write c 1 buf 33 (st8 (buf + 32) 0x0A u) = Some (33, t) \<and>
    screen_of t = fold emit (name @ [0x0A]) (screen_of s) \<and> ls_ready buf fd t \<and> unlisted fd t = names"
proof -
  let ?fo = "current_file s fd" and ?n = "num_dir_entries (ld8 s) (fs s)"
  let ?p = "file_position ?fo + 1"
  let ?f = "upd_fd fd (\<lambda>_. ?fo\<lparr>file_position := ?p\<rparr>)"
  have r: "readable_dir (ld8 s) (fs s) 32 ?fo" and off: "off_screen_buffer s buf 33" and buf: "buf \<noteq> 0"
    and inj: "inj_on (\<lambda>k. tlb s (buf + of_nat k)) {..<33}" and fd: "fd \<noteq> 1" and ok: "console_ok s"
    using ready by (simp_all add: ls_ready_def)
  have "file_position ?fo \<noteq> ?n" using rest by (auto simp: dir_rest_def dir_names_def)
  note nx = dir_step_next [OF r this] and bounds = dir_position_bounds [OF r this]
  have names: "name = fetch (ld8 s) (dir_entry_addr (fs s) (file_position ?fo)) 32"
    "names = drop (unat ?p) (dir_names (ld8 s) (fs s))"
  proof -
    have lt: "unat (file_position ?fo) < length (dir_names (ld8 s) (fs s))"
      using bounds(1) by (simp add: dir_names_def word_less_nat_alt)
    have "name # names = dir_names (ld8 s) (fs s) ! unat (file_position ?fo)
        # drop (Suc (unat (file_position ?fo))) (dir_names (ld8 s) (fs s))"
      using rest Cons_nth_drop_Suc [OF lt] by (simp add: dir_rest_def)
    then show "name = fetch (ld8 s) (dir_entry_addr (fs s) (file_position ?fo)) 32"
      "names = drop (unat ?p) (dir_names (ld8 s) (fs s))"
      using lt bounds(2) by (simp_all add: dir_names_def)
  qed
  have len: "length name = 32" by (simp add: names(1))
  let ?bs = "name @ [0x0A]"
  let ?u = "upd_pcb (curr_pcb s) ?f (store_bytes buf name s)"
  have read: "dir_read fd buf 32 s = (32, ?u)"
    using nx names(1) by (simp add: dir_read_def)
  have "st8 (buf + 32) 0x0A ?u = upd_pcb (curr_pcb s) ?f (st8 (buf + 32) 0x0A (store_bytes buf name s))"
    by (simp add: st8_def upd_pcb_def)
  then have full: "st8 (buf + 32) 0x0A ?u = upd_pcb (curr_pcb s) ?f (store_bytes buf ?bs s)"
    by (simp add: store_bytes_snoc len)
  have l33: "length ?bs = 33" "length ?bs \<le> 33" and bs: "list_all not_backspace ?bs"
    using plain len by (simp_all add: not_backspace_def)
  obtain t where t: "ece391_write c 1 buf (of_nat (length ?bs)) (upd_pcb (curr_pcb s) ?f (store_bytes buf ?bs s))
      = Some (int (length ?bs), t)"
    "screen_of t = fold emit ?bs (screen_of s)" "console_ok t" and frame: "tlb t = tlb s" "fs t = fs s"
    "video_mem (con t) = video_mem (con s)" and tf: "current_file t 1 = current_file s 1"
    "current_file t fd = ?fo\<lparr>file_position := ?p\<rparr>"
    and same: "\<And>a. clear_of s buf 33 a \<Longrightarrow> ld8 t a = ld8 s a"
    using buffer_shown [OF off l33(2) _ buf inj ok bs, where fd = fd and c = c and
        fo = "?fo\<lparr>file_position := ?p\<rparr>"] ready
    unfolding ls_ready_def by auto
  have "ls_ready buf fd t" "unlisted fd t = drop (unat ?p) (dir_names (ld8 s) (fs s))"
    by (rule ls_ready_step [OF ready frame t(3) tf bounds(4)], rule same, assumption)+
  then show ?thesis
    using t(1,2) unfolding ls_reads [OF ready] read l33(1) names(2) [symmetric] by (auto simp: full)
qed

section \<open>The whole program\<close>

abbreviation listing :: "u8 list list \<Rightarrow> u8 list" where
  "listing names \<equiv> concat (map (\<lambda>name. name @ [0x0A]) names)"

lemma ls_loop_prints:
  "ls_ready buf fd s \<Longrightarrow> unlisted fd s = names \<Longrightarrow> list_all (list_all not_backspace) names \<Longrightarrow>
   \<exists>t. ls_loop c buf (int fd) s = Some (0, t) \<and> screen_of t = fold emit (listing names) (screen_of s)"
proof (induction names arbitrary: s)
  case Nil
  obtain t where "ece391_read c (int fd) buf 32 s = Some (0, t)" "screen_of t = screen_of s"
    using ls_at_end [OF Nil(1,2), of c] by blast
  then show ?case by (simp add: ls_loop.simps [of c buf])
next
  case (Cons name names)
  have "list_all not_backspace name" using Cons.prems(3) by simp
  from ls_entry [OF Cons.prems(1,2) this, of c]
  obtain u t where p: "ece391_read c (int fd) buf 32 s = Some (32, u)"
    "ece391_write c 1 buf 33 (st8 (buf + 32) 0x0A u) = Some (33, t)"
    "screen_of t = fold emit (name @ [0x0A]) (screen_of s)" "ls_ready buf fd t" "unlisted fd t = names" by blast
  obtain v where v: "ls_loop c buf (int fd) t = Some (0, v)" "screen_of v = fold emit (listing names) (screen_of t)"
    using Cons.IH [OF p(4,5)] Cons.prems(3) by auto
  have "ls_loop c buf (int fd) s = ls_loop c buf (int fd) t"
    using p(1,2) by (simp add: ls_loop.simps [of c buf _ s])
  then show ?case using v p(3) by simp
qed

lemma ls_prints_aux:
  assumes flags: "flags_ok (current s)" and i: "1 < i" "i < 8" "\<not> fd_in_use (current s) i"
      "\<forall>j < i. fd_in_use (current s) j"
    and out: "fop_write (file_op_tb (file_descriptor (current s) 1)) = Fn_terminal_write"
    and name: "literal c ''.'' \<noteq> 0" "string_in 32 (view s (literal c ''.'')) = lit ''.''"
    and buf: "buf \<noteq> 0" "inj_on (\<lambda>k. tlb s (buf + of_nat k)) {..<33}" "off_screen_buffer s buf 33"
    and scr: "console_ok s"
    and entry: "map_of (directory (ld8 s) (fs s)) (lit ''.'') = Some d" "file_type d = 1"
    and dir: "num_dir_entries (ld8 s) (fs s) \<noteq> 0" "num_dir_entries (ld8 s) (fs s) \<le> 62"
      "list_all (list_all not_backspace) (dir_names (ld8 s) (fs s))"
    and image: "directory_within (clear_of s buf 33) (ld8 s) (fs s)"
  shows "\<exists>t. ls c buf s = Some (0, t) \<and>
    screen_of t = fold emit (listing (dir_names (ld8 s) (fs s))) (screen_of s)"
proof -
  have ft: "0 \<le> sint (file_type d)" "sint (file_type d) \<le> 2" using entry(2) by simp_all
  have lookup: "map_of (directory (ld8 s) (fs s)) (string_in 32 (view s (literal c ''.''))) = Some d"
    using entry(1) name(2) by simp
  obtain t g where t: "open_fd (literal c ''.'') s = Some (int i, t)"
    "pcb_at t = (pcb_at s)(curr_pcb s := upd_fd i (open_file d) (current s))"
    "curr_pcb t = curr_pcb s" "mem t = mem s" "tlb t = tlb s" "con t = con s"
    "fs t = (fs s)\<lparr>global_dentry := g\<rparr>"
    using open_fd_installs [OF flags i(2-4) name(1) lookup ft] by blast
  let ?f = "open_file d (file_descriptor (current s) i)"
  have f: "file_position ?f = 0" "fop_read (file_op_tb ?f) = Fn_dir_read" "flag ?f = 1"
    using entry(2) by (simp_all add: open_file_def open_table_def dir_table_def Let_def)
  have files: "current_file t i = ?f" "current_file t 1 = file_descriptor (current s) 1"
    using i(1) by (simp_all add: current_file_def t current_def)
  have ld: "ld8 t = ld8 s" by (simp add: fun_eq_iff ld8_def t)
  have same: "num_dir_entries (ld8 s) (fs t) = num_dir_entries (ld8 s) (fs s)"
    "dir_names (ld8 s) (fs t) = dir_names (ld8 s) (fs s)"
    by (simp_all add: t num_dir_entries_def dir_names_def dir_entry_addr_def)
  have rest: "unlisted i t = dir_names (ld8 s) (fs s)" by (simp add: dir_rest_def files f ld same)
  have bytes: "screen_bytes t = screen_bytes s" by (simp add: screen_bytes_def t)
  have clear: "clear_of t buf 33 = clear_of s buf 33" by (simp add: fun_eq_iff clear_of_def bytes t)
  have "grid t = grid s" by (simp add: grid_def vbyte_def ld8_def t fun_eq_iff)
  then have shown: "screen_of t = screen_of s" by (simp add: screen_of_def t cong: if_cong)
  have "readable_dir (ld8 t) (fs t) 32 (current_file t i)"
    using dir(1,2) by (simp add: readable_dir_def files f ld same)
  moreover have "directory_within (clear_of t buf 33) (ld8 t) (fs t)"
    using image by (simp add: clear ld t directory_fs)
  moreover have "console_ok t" using scr by (simp add: console_ok_def screen_mapped_def t)
  moreover have "flag (file_descriptor (current s) 1) \<noteq> 0" using i(1,4) by (simp add: fd_in_use_def)
  ultimately have "ls_ready buf i t"
    using i(1,2) out buf by (simp add: ls_ready_def files [simplified] f off_screen_buffer_def bytes t)
  then obtain v where v: "ls_loop c buf (int i) t = Some (0, v)"
    "screen_of v = fold emit (listing (unlisted i t)) (screen_of t)"
    using ls_loop_prints [of buf i t _ c] dir(3) rest by auto
  have "ls c buf s = ls_loop c buf (int i) t" unfolding ls_def stub_open by (simp add: t(1))
  then show ?thesis using v by (simp add: rest shown)
qed

text \<open>
  C15: \<open>ls\<close> shows the name of every entry of the directory, in order and each on a line of its own
  (with the zeros that pad it to 32 bytes), and halts with 0, for a directory of 1 to 62 entries.
\<close>

theorem ls_prints:
  assumes flags: "flags_ok (current s)" and i: "1 < i" "i < 8" "\<not> fd_in_use (current s) i"
      "\<forall>j < i. fd_in_use (current s) j"
    and out: "fop_write (file_op_tb (file_descriptor (current s) 1)) = Fn_terminal_write"
    and name: "literal c ''.'' \<noteq> 0" "string_in 32 (view s (literal c ''.'')) = lit ''.''"
    and buf: "buf \<noteq> 0" "inj_on (\<lambda>k. tlb s (buf + of_nat k)) {..<33}" "off_screen_buffer s buf 33"
    and scr: "console_ok s"
    and entry: "map_of (directory (ld8 s) (fs s)) (lit ''.'') = Some d" "file_type d = 1"
    and dir: "num_dir_entries (ld8 s) (fs s) \<noteq> 0" "num_dir_entries (ld8 s) (fs s) \<le> 62"
      "list_all (list_all not_backspace) (dir_names (ld8 s) (fs s))"
    and image: "directory_within (clear_of s buf 33) (ld8 s) (fs s)"
  shows "\<exists>t. ls c buf s = Some (0, t) \<and>
    screen_of t = fold emit (listing (dir_names (ld8 s) (fs s))) (screen_of s)"
  by (rule ls_prints_aux [OF assms])

lemma test_kernel_directory: "num_dir_entries (ld8 test_kernel) (fs test_kernel) = 1"
  "directory (ld8 test_kernel) (fs test_kernel) = [(lit ''.'', dentry_at test_memory 64)]"
  "dir_names (ld8 test_kernel) (fs test_kernel) = [0x2E # replicate 31 0]"
proof -
  have n: "num_dir_entries test_memory sample_fs = 1"
    by (simp add: num_dir_entries_def word_at_def test_memory_low sample_fs_def)
  have a: "dir_entry_addr sample_fs 0 = 64" by (simp add: dir_entry_addr_def sample_fs_def)
  have name: "dir_name test_memory sample_fs 0 = lit ''.''"
    unfolding dir_name_def by (rule string_in_cstr) (simp_all add: cstr_def a test_memory_low)
  show "num_dir_entries (ld8 test_kernel) (fs test_kernel) = 1" by (simp add: test_kernel_simps n)
  show "directory (ld8 test_kernel) (fs test_kernel) = [(lit ''.'', dentry_at test_memory 64)]"
    using name by (simp add: directory_def test_kernel_simps n a)
  have "fetch test_memory 64 32 = 0x2E # replicate 31 0"
  proof (rule nth_equalityI)
    fix k assume "k < length (fetch test_memory 64 32)"
    then have k: "k < 32" by simp
    then have u: "unat (64 + of_nat k :: u32) = 64 + k" using unat_of_nat_u32 [of "64 + k"] by simp
    then have "test_memory (64 + of_nat k) = (if k = 0 then 0x2E else 0)"
      using k by (subst test_memory_low) (auto simp: word_unat_eq_iff)
    then show "fetch test_memory 64 32 ! k = (0x2E # replicate 31 0) ! k" using k by (cases k) simp_all
  qed simp
  then show "dir_names (ld8 test_kernel) (fs test_kernel) = [0x2E # replicate 31 0]"
    by (simp add: dir_names_def test_kernel_simps n a)
qed

theorem ls_prints_witness:
  "\<exists>t. ls test_setting 0x8001000 test_kernel = Some (0, t) \<and>
    screen_of t = fold emit (listing (dir_names (ld8 test_kernel) (fs test_kernel))) (screen_of test_kernel)"
proof (rule ls_prints)
  have ready: "test_ready test_setting {..<2} test_kernel" by (rule test_kernel_ready)
  then have files: "files_open {..<2} (current test_kernel)" by (simp add: test_ready_def)
  show "flags_ok (current test_kernel)" "\<not> fd_in_use (current test_kernel) 2" "\<forall>j < 2. fd_in_use (current test_kernel) j"
    using files_open_flags [OF files] by simp_all
  show "fop_write (file_op_tb (file_descriptor (current test_kernel) 1)) = Fn_terminal_write"
    using files by (simp add: files_open_def stdout_table_def)
  show "literal test_setting ''.'' \<noteq> 0" "string_in 32 (view test_kernel (literal test_setting ''.'')) = lit ''.''"
    using text_name [OF ready, of "''.''"] by (simp_all add: test_texts_def)
  have u: "unat (0x8001000 + of_nat k :: u32) = 0x8001000 + k" if "k < 33" for k
    using that unat_of_nat_u32 [of "0x8001000 + k"] by simp
  show "inj_on (\<lambda>k. tlb test_kernel (0x8001000 + of_nat k)) {..<33}"
    by (rule inj_onI) (simp add: test_kernel_simps of_nat_inj_u32)
  show "off_screen_buffer test_kernel 0x8001000 33"
    using not_on_screen u by (simp add: off_screen_buffer_def)
  show "console_ok test_kernel" using ready by (simp add: test_ready_def)
  show "map_of (directory (ld8 test_kernel) (fs test_kernel)) (lit ''.'') = Some (dentry_at test_memory 64)"
    by (simp add: test_kernel_directory)
  show "file_type (dentry_at test_memory 64) = 1" by (simp add: dentry_at_def word_at_def test_memory_low)
  have low: "clear_of test_kernel 0x8001000 33 (of_nat k)" if "k < 4096" for k
  proof -
    have n: "unat (of_nat k :: u32) = k" using that by (simp add: unat_of_nat_u32)
    have "(of_nat k :: u32) \<noteq> 0x8001000 + of_nat j" if "j < 33" for j
      using u [OF that] n \<open>k < 4096\<close> by auto
    moreover have "tlb test_kernel (of_nat k) \<notin> screen_bytes test_kernel"
      by (rule not_on_screen) (use n that in simp)
    ultimately show ?thesis by (auto simp: clear_of_def test_kernel_simps(4))
  qed
  have b: "boot_block (fs test_kernel) = 0" by (simp add: test_kernel_simps sample_fs_def)
  show "directory_within (clear_of test_kernel 0x8001000 33) (ld8 test_kernel) (fs test_kernel)"
    unfolding directory_within_def test_kernel_directory(1) b using low by simp
qed (simp_all add: test_kernel_directory(1,3) not_backspace_def list_all_iff)

end
