(* ===== verification/User_Session.thy ===== *)
theory User_Session
  imports User_Cat
begin

text \<open>
  Programs that talk to the terminal: what \<open>say_literal\<close>, a \<open>fdputs\<close> of the program's own array and
  a read of a typed line do to the screen and to the array, and with that the shell and
  \<open>counter\<close> from the line that was typed to what is shown.
\<close>

section \<open>The setting of a session\<close>

definition text_kept :: "setting \<Rightarrow> u32 \<Rightarrow> nat \<Rightarrow> kernel \<Rightarrow> string \<Rightarrow> bool" where
  "text_kept c buf n s str \<longleftrightarrow> literal c str \<noteq> 0 \<and> cstr (view s (literal c str)) (lit str) \<and>
     (\<forall>k \<le> length str. clear_of s buf n (literal c str + of_nat k)) \<and>
     list_all not_backspace (lit str) \<and> length str < 2 ^ 31"

text \<open>The terminal is open, the array of \<open>n\<close> bytes is ordinary memory, and the strings lie elsewhere.\<close>

definition session_ready :: "setting \<Rightarrow> string list \<Rightarrow> u32 \<Rightarrow> nat \<Rightarrow> kernel \<Rightarrow> bool" where
  "session_ready c T buf n s \<longleftrightarrow> console_ok s \<and> buf \<noteq> 0 \<and> n < 2 ^ 31 \<and>
     inj_on (\<lambda>k. tlb s (buf + of_nat k)) {..<n} \<and> off_screen_buffer s buf n \<and>
     flag (current_file s 0) \<noteq> 0 \<and> fop_read (file_op_tb (current_file s 0)) = Fn_terminal_read \<and>
     flag (current_file s 1) \<noteq> 0 \<and> fop_write (file_op_tb (current_file s 1)) = Fn_terminal_write \<and>
     (\<forall>str \<in> set T. text_kept c buf n s str)"

text \<open>What is typed, and whether a read has to wait for it.\<close>

definition typing :: "kernel \<Rightarrow> keyboard \<times> bool" where
  "typing s = (kb s, read_allowed s)"

text \<open>
  The session goes on from \<open>s\<close> to \<open>t\<close>: paging, processes and files are as they were, and memory but
  for the screen and the array.
\<close>

definition around :: "kernel \<Rightarrow> (paging \<times> (u32 \<Rightarrow> u32)) \<times> (u32 \<Rightarrow> pcb) \<times> u32 \<times> filesys \<times> u32" where
  "around s = ((pg s, tlb s), pcb_at s, curr_pcb s, fs s, video_mem (con s))"

definition goes_on :: "u32 \<Rightarrow> nat \<Rightarrow> kernel \<Rightarrow> kernel \<Rightarrow> bool" where
  "goes_on buf n s t \<longleftrightarrow> around t = around s \<and> (\<forall>a. clear_of s buf n a \<longrightarrow> ld8 t a = ld8 s a)"

lemma clear_of_cong: "tlb t = tlb s \<Longrightarrow> video_mem (con t) = video_mem (con s) \<Longrightarrow> clear_of t buf n = clear_of s buf n"
  by (simp add: fun_eq_iff clear_of_def screen_bytes_def)

lemma goes_onD:
  assumes "goes_on buf n s t"
  shows "pg t = pg s" "tlb t = tlb s" "pcb_at t = pcb_at s" "curr_pcb t = curr_pcb s" "fs t = fs s"
    "video_mem (con t) = video_mem (con s)" "clear_of t buf n = clear_of s buf n"
    "\<And>a. clear_of s buf n a \<Longrightarrow> ld8 t a = ld8 s a"
  using assms clear_of_cong [of t s buf n] by (simp_all add: goes_on_def around_def)

lemma goes_on_trans: "goes_on buf n s t \<Longrightarrow> goes_on buf n t u \<Longrightarrow> goes_on buf n s u"
  using goes_onD(7) [of buf n s t] by (simp add: goes_on_def)

lemma session_step:
  assumes ready: "session_ready c T buf n s" and ok: "console_ok t"
    and t: "tlb t = tlb s" "video_mem (con t) = video_mem (con s)"
    and files: "current_file t 0 = current_file s 0" "current_file t 1 = current_file s 1"
    and same: "\<And>a. clear_of s buf n a \<Longrightarrow> ld8 t a = ld8 s a"
  shows "session_ready c T buf n t"
proof -
  have "text_kept c buf n t str" if "str \<in> set T" for str
  proof -
    have s: "text_kept c buf n s str" using ready that by (simp add: session_ready_def)
    then have "view t (literal c str) k = view s (literal c str) k" if "k \<le> length str" for k
      using same that by (simp add: text_kept_def view_def)
    then have "cstr (view t (literal c str)) (lit str)" using s by (simp add: text_kept_def cstr_def)
    then show ?thesis using s by (simp add: text_kept_def clear_of_cong [OF t])
  qed
  then show ?thesis
    using ready ok by (simp add: session_ready_def t files files [unfolded One_nat_def] off_screen_buffer_def screen_bytes_def)
qed

section \<open>What a program does to the terminal\<close>

lemma write_typing:
  assumes "flag (current_file s 1) \<noteq> 0" "fop_write (file_op_tb (current_file s 1)) = Fn_terminal_write"
    and "a \<noteq> 0" "m < 2 ^ 31" and w: "ece391_write c 1 a (of_nat m) s = Some (r, t)"
  shows "typing t = typing s" "pg t = pg s"
proof -
  have beside: "beside_screen (for_loop k (\<lambda>i t. putc (ld8 t (a + of_nat i)) t) v) = beside_screen v" for k v
    by (rule for_loop_frame) simp
  have "t = snd (terminal_write 1 a (of_nat m) s)" using w write_terminal [OF assms(1-4), of c] by (metis option.inject snd_conv)
  then show "typing t = typing s" "pg t = pg s"
    using beside_eqD(2,3,8,9,11) [OF beside]
    by (simp_all add: typing_def read_allowed_def get_display_tid_def terminal_write_def Let_def io_defs)
qed

text \<open>A string outside the array is shown; the array stays.\<close>

lemma puts_shown:
  assumes ready: "session_ready c T buf n s" and a: "a \<noteq> 0" "cstr (view s a) xs"
    and off: "off_screen_buffer s a (length xs)" and xs: "list_all not_backspace xs" "length xs < 2 ^ 31"
  shows "\<exists>t. ece391_fdputs c 1 a s = Some t \<and> session_ready c T buf n t \<and> typing t = typing s \<and>
    screen_of t = fold emit xs (screen_of s) \<and> goes_on buf n s t \<and> (\<forall>b. tlb s b \<notin> screen_bytes s \<longrightarrow> ld8 t b = ld8 s b)"
proof -
  have ok: "console_ok s" "flag (current_file s 1) \<noteq> 0" "fop_write (file_op_tb (current_file s 1)) = Fn_terminal_write"
    using ready by (simp_all add: session_ready_def)
  have bytes: "buffer_bytes s a (length xs) = xs"
    by (rule nth_equalityI) (use a(2) in \<open>auto simp: buffer_bytes_def cstr_def view_def ld8_def rd_def\<close>)
  obtain t where t: "ece391_write c 1 a (of_nat (length xs)) s = Some (int (length xs), t)"
    "screen_of t = fold emit xs (screen_of s)" "off_screen t = off_screen s" "console_ok t" "tlb t = tlb s"
    "curr_pcb t = curr_pcb s" "pcb_at t = pcb_at s" "video_mem (con t) = video_mem (con s)" "fs t = fs s"
    using write_shown [OF ok(2,3) a(1) xs(2) ok(1) off, of c] unfolding bytes using xs(1) by blast
  have ld: "ld8 t b = ld8 s b" if "tlb s b \<notin> screen_bytes s" for b
    using off_screen_byte [OF t(3) _ that] by (simp add: ld8_def rd_def t(5,8) screen_bytes_def)
  have "session_ready c T buf n t"
    by (rule session_step [OF ready t(4,5,8)]) (simp_all add: current_file_def t(6,7) ld clear_of_def)
  moreover have "ece391_fdputs c 1 a s = Some t"
    using t(1) ece391_strlen_cstr [OF a(2)] by (simp add: ece391_fdputs_def)
  moreover note w = write_typing [OF ok(2,3) a(1) xs(2) t(1)]
  moreover have "goes_on buf n s t" using t(5-9) w(2) ld by (simp add: goes_on_def around_def clear_of_def)
  ultimately show ?thesis using t(2) ld by blast
qed

lemma array_off_screen: "session_ready c T buf n s \<Longrightarrow> k < n \<Longrightarrow> tlb s (buf + of_nat k) \<notin> screen_bytes s"
  by (simp add: session_ready_def off_screen_buffer_def)

lemma say_shown:
  assumes ready: "session_ready c T buf n s" and str: "str \<in> set T"
  shows "\<exists>t. say_literal c str s = Some t \<and> session_ready c T buf n t \<and> typing t = typing s \<and>
    screen_of t = fold emit (lit str) (screen_of s) \<and> goes_on buf n s t \<and>
    (\<forall>k < n. ld8 t (buf + of_nat k) = ld8 s (buf + of_nat k))"
proof -
  have k: "text_kept c buf n s str" using ready str by (simp add: session_ready_def)
  have "off_screen_buffer s (literal c str) (length (lit str))"
    using k by (simp add: text_kept_def off_screen_buffer_def clear_of_def)
  then show ?thesis
    using puts_shown [OF ready, of "literal c str" "lit str"] k array_off_screen [OF ready]
    unfolding say_literal_def text_kept_def by fastforce
qed

text \<open>Bytes go into the array.\<close>

lemma session_store:
  assumes ready: "session_ready c T buf n s" and len: "length bs \<le> n"
  shows "session_ready c T buf n (store_bytes buf bs s)" "screen_of (store_bytes buf bs s) = screen_of s"
    "typing (store_bytes buf bs s) = typing s" "goes_on buf n s (store_bytes buf bs s)"
proof -
  have off: "off_screen_buffer s buf n" using ready by (simp add: session_ready_def)
  have id: "upd_pcb p (\<lambda>q. q) u = u" for p u by (simp add: upd_pcb_def)
  note scr = screen_store [OF off len, of 0 "\<lambda>q. q", unfolded id]
  show "screen_of (store_bytes buf bs s) = screen_of s" by (rule scr(1))
  show "session_ready c T buf n (store_bytes buf bs s)"
    by (rule session_step [OF ready])
      (use ready scr(2) ld8_clear_store [OF _ len] in \<open>simp_all add: session_ready_def current_file_def\<close>)
  show "goes_on buf n s (store_bytes buf bs s)"
    using scr(2) ld8_clear_store [OF _ len] by (simp add: goes_on_def around_def)
  show "typing (store_bytes buf bs s) = typing s"
    using store_bytes_mem_only [of buf bs s] by (auto simp: typing_def read_allowed_def get_display_tid_def)
qed

lemma store_loaded:
  assumes "session_ready c T buf n s" "length bs \<le> n"
  shows "load_bytes (tlb s) (mem (store_bytes buf bs s)) buf (length bs) = bs"
  by (rule store_bytes_load)
    (rule inj_on_subset [of _ "{..<n}"], use assms in \<open>auto simp: session_ready_def\<close>)

lemma store_string:
  assumes "session_ready c T buf n s" "length xs < n" "0 \<notin> set xs"
  shows "cstr (view (store_bytes buf (xs @ [0]) s) buf) xs"
proof -
  have l: "load_bytes (tlb s) (mem (store_bytes buf (xs @ [0]) s)) buf (length xs + 1) = xs @ [0]"
    using store_loaded [OF assms(1), of "xs @ [0]"] assms(2) by simp
  have "view (store_bytes buf (xs @ [0]) s) buf k = (xs @ [0]) ! k" if "k < length xs + 1" for k
  proof -
    have "load_bytes (tlb s) (mem (store_bytes buf (xs @ [0]) s)) buf (length xs + 1) ! k =
        rd (tlb s) (mem (store_bytes buf (xs @ [0]) s)) (buf + of_nat k)"
      using that by (simp add: load_bytes_def del: upt_Suc)
    then show ?thesis unfolding l by (simp add: view_def ld8_def)
  qed
  then show ?thesis using assms(3) by (simp add: cstr_def nth_append)
qed

text \<open>The string in the array is shown.\<close>

lemma array_shown:
  assumes ready: "session_ready c T buf n s" and xs: "cstr (view s buf) xs" "length xs \<le> n" "list_all not_backspace xs"
  shows "\<exists>t. ece391_fdputs c 1 buf s = Some t \<and> session_ready c T buf n t \<and> typing t = typing s \<and>
    screen_of t = fold emit xs (screen_of s) \<and> goes_on buf n s t"
proof -
  have "buf \<noteq> 0" "n < 2 ^ 31" "off_screen_buffer s buf n" using ready by (simp_all add: session_ready_def)
  then have "off_screen_buffer s buf (length xs)" "length xs < 2 ^ 31" using xs(2) by (simp_all add: off_screen_buffer_def)
  then show ?thesis using puts_shown [OF ready \<open>buf \<noteq> 0\<close> xs(1) _ xs(3)] by blast
qed

section \<open>Reading what was typed\<close>

lemma session_fields:
  "session_ready c T buf n (s\<lparr>terminal_read_enable_signal := b\<rparr>) = session_ready c T buf n s"
  "screen_of (s\<lparr>terminal_read_enable_signal := b\<rparr>) = screen_of s"
  "session_ready c T buf n (clean_keyb_buffer s) = session_ready c T buf n s"
  "screen_of (clean_keyb_buffer s) = screen_of s"
proof -
  have v: "view u = (\<lambda>a i. ld8 u (a + of_nat i))" for u by (simp add: view_def fun_eq_iff)
  have g: "grid (u\<lparr>terminal_read_enable_signal := b\<rparr>) = grid u" "grid (u\<lparr>kb := k\<rparr>) = grid u" for u k
    by (simp_all add: grid_def vbyte_def ld8_def fun_eq_iff)
  show "session_ready c T buf n (s\<lparr>terminal_read_enable_signal := b\<rparr>) = session_ready c T buf n s"
    "session_ready c T buf n (clean_keyb_buffer s) = session_ready c T buf n s"
    by (simp_all add: session_ready_def text_kept_def clear_of_def [abs_def] off_screen_buffer_def screen_bytes_def
        console_ok_def screen_mapped_def current_file_def v ld8_def clean_keyb_buffer_def)
  show "screen_of (s\<lparr>terminal_read_enable_signal := b\<rparr>) = screen_of s" "screen_of (clean_keyb_buffer s) = screen_of s"
    by (simp_all add: screen_of_def g clean_keyb_buffer_def cong: if_cong)
qed

lemma take_line_stored:
  assumes "0 \<le> keyb_index (kb s)" "keyb_index (kb s) < 128"
  shows "take_line buf s = (int (length (typed_line s)),
    clean_keyb_buffer (store_bytes buf (typed_line s @ [0]) (s\<lparr>terminal_read_enable_signal := False\<rparr>)))"
proof -
  have "of_int (keyb_index (kb s)) = (of_nat (length (typed_line s)) :: u32)" using assms(1) by (simp add: typed_line_def)
  moreover have "length (typed_line s) = nat (keyb_index (kb s))" by (simp add: typed_line_def)
  ultimately show ?thesis
    using assms(2) unfolding store_bytes_snoc
    by (simp add: take_line_def Let_def get_keyb_buffer_index_def get_keyb_buffer_def typed_line_def)
qed

text \<open>A line that was ended with Enter is there at once.\<close>

lemma line_read:
  assumes ready: "session_ready c T buf n s" and now: "read_allowed s"
    and i: "0 \<le> keyb_index (kb s)" "keyb_index (kb s) < 128" and len: "length (typed_line s) < n"
    and m: "unat m < 2 ^ 31"
  shows "\<exists>t. ece391_read c 0 buf m s = Some (int (length (typed_line s)), t) \<and> session_ready c T buf n t \<and>
    screen_of t = screen_of s \<and> goes_on buf n s t \<and>
    load_bytes (tlb t) (mem t) buf (length (typed_line s) + 1) = typed_line s @ [0]"
proof -
  let ?l = "typed_line s" and ?s1 = "s\<lparr>terminal_read_enable_signal := False\<rparr>"
  let ?t = "clean_keyb_buffer (store_bytes buf (?l @ [0]) ?s1)"
  have r1: "session_ready c T buf n ?s1" using ready by (simp add: session_fields)
  have l1: "length (?l @ [0]) \<le> n" using len by simp
  have "read_wait (interrupts c) 0 s = Some s" using now by (simp add: read_wait.simps [of _ _ s])
  then have "terminal_read (interrupts c) 0 buf m s = Some (int (length ?l), ?t)"
    using take_line_stored [OF i] by (simp add: terminal_read_def)
  moreover have "ece391_read c 0 buf m s = terminal_read (interrupts c) 0 buf m s"
    using ready sint_small [of m] m unfolding stub_read
    by (simp add: read_fd_def get_current_pcb_def session_ready_def current_file_def)
  moreover have "session_ready c T buf n ?t" "screen_of ?t = screen_of s"
    using session_store(1,2) [OF r1 l1] by (simp_all add: session_fields)
  moreover have "goes_on buf n s ?t"
    using session_store(4) [OF r1 l1]
    by (simp add: goes_on_def around_def clean_keyb_buffer_def ld8_def clear_of_def screen_bytes_def)
  moreover have "load_bytes (tlb ?t) (mem ?t) buf (length (?l @ [0])) = ?l @ [0]"
    using store_loaded [OF r1 l1] by (simp add: clean_keyb_buffer_def)
  ultimately show ?thesis by auto
qed

section \<open>Comparing strings\<close>

lemma strcmp_from_equal:
  "cstr (\<lambda>k. s1 (i + k)) xs \<Longrightarrow> cstr (\<lambda>k. s2 (i + k)) ys \<Longrightarrow> \<exists>d. ece391_strcmp_from s1 s2 i = Some d \<and> (d = 0 \<longleftrightarrow> xs = ys)"
proof (induction xs arbitrary: i ys)
  case Nil
  then have "s1 i = 0" by (simp add: cstr_def)
  moreover have "s2 i = 0 \<longleftrightarrow> ys = []" using Nil(2) by (cases ys) (auto simp: cstr_def nth_Cons')
  ultimately show ?case by (auto simp: ece391_strcmp_from.simps [of s1 s2 i] word_uint_eq_iff)
next
  case (Cons x xs)
  have x: "s1 i = x" "x \<noteq> 0" "cstr (\<lambda>k. s1 (i + 1 + k)) xs"
    using Cons.prems(1) by (auto simp: cstr_def nth_Cons' elim: allE [where x = "Suc _"])
  show ?case
  proof (cases "s2 i = x")
    case True
    then obtain y zs where ys: "ys = y # zs" using Cons.prems(2) x(2) by (cases ys) (auto simp: cstr_def)
    then have y: "y = x" "cstr (\<lambda>k. s2 (i + 1 + k)) zs"
      using Cons.prems(2) True by (auto simp: cstr_def nth_Cons' elim: allE [where x = "Suc _"])
    then show ?thesis
      using Cons.IH [OF x(3) y(2)] True x(1,2) ys by (auto simp: ece391_strcmp_from.simps [of s1 s2 i])
  next
    case False
    then have "ys \<noteq> x # xs" using Cons.prems(2) by (auto simp: cstr_def)
    moreover have "uint x \<noteq> uint (s2 i)" using False by (auto simp: word_uint_eq_iff)
    ultimately show ?thesis using False x(1) by (auto simp: ece391_strcmp_from.simps [of s1 s2 i])
  qed
qed

lemma strcmp_equal:
  "cstr s1 xs \<Longrightarrow> cstr s2 ys \<Longrightarrow> \<exists>d. ece391_strcmp s1 s2 = Some d \<and> (d = 0 \<longleftrightarrow> xs = ys)"
  using strcmp_from_equal [of s1 0 xs s2 ys] by (simp add: ece391_strcmp_def)

section \<open>The shell\<close>

lemma store_same: "load_bytes (tlb s) (mem s) a (length xs) = xs \<Longrightarrow> store_bytes a xs s = s"
proof (induction xs arbitrary: a)
  case (Cons x xs)
  have at: "(x # xs) ! k = rd (tlb s) (mem s) (a + of_nat k)" if "k < length (x # xs)" for k
  proof -
    have "load_bytes (tlb s) (mem s) a (length (x # xs)) ! k = rd (tlb s) (mem s) (a + of_nat k)"
      using that by (simp add: load_bytes_def del: upt_Suc)
    then show ?thesis unfolding Cons.prems .
  qed
  have "rd (tlb s) (mem s) a = x" using at [of 0] by simp
  then have "st8 a x s = s" by (simp add: st8_def wr_def rd_def fun_upd_idem)
  moreover have "load_bytes (tlb s) (mem s) (a + 1) (length xs) = xs"
  proof (rule nth_equalityI)
    fix k assume "k < length (load_bytes (tlb s) (mem s) (a + 1) (length xs))"
    then have k: "Suc k < length (x # xs)" by simp
    then show "load_bytes (tlb s) (mem s) (a + 1) (length xs) ! k = xs ! k"
      using at [OF k] by (simp add: load_bytes_def add.assoc del: upt_Suc)
  qed simp
  ultimately show ?case using Cons.IH [of "a + 1"] by simp
qed simp

text \<open>A NUL in place of a byte of the string cuts it off.\<close>

lemma cut_line:
  assumes ready: "session_ready c T buf n s" and l: "load_bytes (tlb s) (mem s) buf (length xs + m) = xs @ ys"
    and len: "length xs < n" and nul: "0 \<notin> set xs"
  defines "t \<equiv> st8 (buf + of_nat (length xs)) 0 s"
  shows "session_ready c T buf n t" "screen_of t = screen_of s" "cstr (view t buf) xs" "goes_on buf n s t"
proof -
  have "load_bytes (tlb s) (mem s) buf (length xs) = xs"
  proof (rule nth_equalityI)
    fix k assume "k < length (load_bytes (tlb s) (mem s) buf (length xs))"
    then have k: "k < length xs" by simp
    have "load_bytes (tlb s) (mem s) buf (length xs + m) ! k = rd (tlb s) (mem s) (buf + of_nat k)"
      using k by (simp add: load_bytes_def del: upt_Suc)
    then show "load_bytes (tlb s) (mem s) buf (length xs) ! k = xs ! k"
      using k unfolding l by (simp add: load_bytes_def nth_append del: upt_Suc)
  qed simp
  then have t: "t = store_bytes buf (xs @ [0]) s" by (simp add: t_def store_bytes_snoc store_same)
  show "session_ready c T buf n t" "screen_of t = screen_of s" "goes_on buf n s t"
    unfolding t using session_store(1,2,4) [OF ready, of "xs @ [0]"] len by simp_all
  show "cstr (view t buf) xs" unfolding t by (rule store_string [OF ready len nul])
qed

definition shell_texts :: "string list" where
  "shell_texts = [nl ''Starting 391 Shell'', ''391OS> '', ''exit'']"

lemma shell_turn:
  assumes ready: "session_ready c shell_texts buf n s" and now: "read_allowed s"
    and i: "0 \<le> keyb_index (kb s)" and line: "typed_line s = cmd @ [10]" "0 \<notin> set cmd"
    and len: "length cmd < 127" "length cmd + 1 < n"
  shows "\<exists>u. session_ready c shell_texts buf n u \<and> screen_of u = fold emit (lit ''391OS> '') (screen_of s) \<and>
    cstr (view u buf) cmd \<and> goes_on buf n s u \<and>
    shell_loop c buf s = (if cmd = lit ''exit'' then Some (0, u)
      else if cmd = [] then shell_loop c buf u
      else Option.bind (ece391_execute c buf u) (\<lambda>(rval, v). Option.bind (report_status c rval v) (shell_loop c buf)))"
proof -
  obtain s1 where s1: "say_literal c ''391OS> '' s = Some s1" "session_ready c shell_texts buf n s1"
    "typing s1 = typing s" "screen_of s1 = fold emit (lit ''391OS> '') (screen_of s)" "goes_on buf n s s1"
    using say_shown [OF ready, of "''391OS> ''"] by (auto simp: shell_texts_def)
  have t1: "typed_line s1 = cmd @ [10]" "read_allowed s1" "0 \<le> keyb_index (kb s1)"
    using s1(3) line now i by (simp_all add: typing_def typed_line_def)
  have "nat (keyb_index (kb s1)) = length (typed_line s1)" by (simp add: typed_line_def)
  then have i1: "keyb_index (kb s1) < 128" using t1 len(1) by simp
  obtain s2 where s2: "ece391_read c 0 buf 1023 s1 = Some (int (length cmd + 1), s2)" "session_ready c shell_texts buf n s2"
    "screen_of s2 = screen_of s1" "load_bytes (tlb s2) (mem s2) buf (length cmd + 2) = cmd @ [10, 0]"
    "goes_on buf n s1 s2"
    using line_read [OF s1(2) t1(2,3) i1, where m = 1023] t1(1) len(2) by auto
  have nl: "ld8 s2 (buf + of_nat (length cmd)) = 10"
  proof -
    have "load_bytes (tlb s2) (mem s2) buf (length cmd + 2) ! length cmd = ld8 s2 (buf + of_nat (length cmd))"
      by (simp add: load_bytes_def ld8_def del: upt_Suc)
    then show ?thesis unfolding s2(4) by simp
  qed
  let ?u = "st8 (buf + of_nat (length cmd)) 0 s2"
  note u = cut_line [OF s2(2,4) _ line(2)]
  have u1: "session_ready c shell_texts buf n ?u" "screen_of ?u = screen_of s2" "cstr (view ?u buf) cmd" "goes_on buf n s ?u"
    using u len(2) goes_on_trans [OF goes_on_trans [OF s1(5) s2(5)]] by simp_all
  have "cstr (view ?u (literal c ''exit'')) (lit ''exit'')"
    using u1(1) by (simp add: session_ready_def shell_texts_def text_kept_def)
  from strcmp_equal [OF u1(3) this] obtain d where d:
    "ece391_strcmp (view ?u buf) (view ?u (literal c ''exit'')) = Some d" "d = 0 \<longleftrightarrow> cmd = lit ''exit''" by blast
  have cnt: "(if int (length cmd + 1) > 0 \<and> ld8 s2 (buf + of_int (int (length cmd + 1) - 1)) = 0x0A
      then int (length cmd + 1) - 1 else int (length cmd + 1)) = int (length cmd)"
    using nl by simp
  have ok: "(int (length cmd + 1) = -1) = False" by simp
  have z: "ld8 ?u buf = 0 \<longleftrightarrow> cmd = []"
    using u1(3) by (cases cmd) (auto simp: cstr_def view_def)
  have "shell_loop c buf s = (if cmd = lit ''exit'' then Some (0, ?u)
      else if cmd = [] then shell_loop c buf ?u
      else Option.bind (ece391_execute c buf ?u) (\<lambda>(rval, v). Option.bind (report_status c rval v) (shell_loop c buf)))"
    by (simp only: shell_loop.simps [of c buf s] s1(1) s2(1) bind.bind_lunit prod.case Let_def cnt ok if_False
        of_int_of_nat_eq d z)
  then show ?thesis using u1 s1(4) s2(3) by (intro exI [of _ ?u]) simp
qed

text \<open>
  C13: the shell obeys a typed line: it greets, prompts, takes the line without its line feed,
  halts with 0 on \<open>exit\<close>, asks again on an empty line, and otherwise executes exactly what was
  typed, reports how that ended and goes on.
\<close>

theorem shell_obeys:
  assumes "session_ready c shell_texts buf n s" "read_allowed s" "0 \<le> keyb_index (kb s)"
    and "typed_line s = cmd @ [10]" "0 \<notin> set cmd" "length cmd < 127" "length cmd + 1 < n"
  shows "\<exists>u. session_ready c shell_texts buf n u \<and> cstr (view u buf) cmd \<and>
    screen_of u = fold emit (lit (nl ''Starting 391 Shell'') @ lit ''391OS> '') (screen_of s) \<and>
    shell_main c buf s = (if cmd = lit ''exit'' then Some (0, u)
      else if cmd = [] then shell_loop c buf u
      else Option.bind (ece391_execute c buf u) (\<lambda>(rval, v). Option.bind (report_status c rval v) (shell_loop c buf)))"
proof -
  obtain s1 where s1: "say_literal c (nl ''Starting 391 Shell'') s = Some s1" "session_ready c shell_texts buf n s1"
    "typing s1 = typing s" "screen_of s1 = fold emit (lit (nl ''Starting 391 Shell'')) (screen_of s)"
    using say_shown [OF assms(1), of "nl ''Starting 391 Shell''"] by (auto simp: shell_texts_def)
  have t1: "typed_line s1 = cmd @ [10]" "read_allowed s1" "0 \<le> keyb_index (kb s1)"
    using s1(3) assms by (simp_all add: typing_def typed_line_def)
  show ?thesis
    using shell_turn [OF s1(2) t1(2,3,1) assms(5-7)] s1(1,4) unfolding shell_main_def by auto
qed

section \<open>Numbers in the program's memory\<close>

lemma store_bytes_at:
  assumes "inj_on (\<lambda>k. tlb s (a + of_nat k)) {..<length xs}" "j < length xs"
  shows "mem (store_bytes a xs s) (tlb s (a + of_nat j)) = xs ! j"
proof -
  have "load_bytes (tlb s) (mem (store_bytes a xs s)) a (length xs) ! j = mem (store_bytes a xs s) (tlb s (a + of_nat j))"
    using assms(2) by (simp add: load_bytes_def rd_def del: upt_Suc)
  then show ?thesis unfolding store_bytes_load [OF assms(1)] by simp
qed

lemma st8_in_array:
  assumes inj: "inj_on (\<lambda>k. tlb s (a + of_nat k)) {..<length xs}" and k: "k < length xs"
  shows "st8 (a + of_nat k) v (store_bytes a xs s) = store_bytes a (xs[k := v]) s"
proof -
  let ?t = "store_bytes a xs s" and ?u = "store_bytes a (xs[k := v]) s"
  have eq: "?t = s\<lparr>mem := mem ?t\<rparr>" "?u = s\<lparr>mem := mem ?u\<rparr>"
    using store_bytes_mem_only [of a xs s] store_bytes_mem_only [of a "xs[k := v]" s] by auto
  have "((mem ?t)(tlb s (a + of_nat k) := v)) p = mem ?u p" for p
  proof (cases "\<exists>j < length xs. p = tlb s (a + of_nat j)")
    case True
    then obtain j where j: "j < length xs" "p = tlb s (a + of_nat j)" by blast
    have "p = tlb s (a + of_nat k) \<longleftrightarrow> j = k" using inj_on_eq_iff [OF inj, of j k] j k by simp
    moreover have "mem ?t p = xs ! j" "mem ?u p = xs[k := v] ! j"
      unfolding j(2) using store_bytes_at [OF inj j(1)] store_bytes_at [of s a "xs[k := v]" j] inj j(1) by simp_all
    ultimately show ?thesis using j(1) by (simp add: nth_list_update)
  next
    case False
    then have "mem ?t p = mem s p" "mem ?u p = mem s p"
      by (auto intro!: store_bytes_other)
    then show ?thesis using False k by auto
  qed
  then have "(mem ?t)(tlb s (a + of_nat k) := v) = mem ?u" by (rule ext)
  then have "st8 (a + of_nat k) v ?t = s\<lparr>mem := mem ?u\<rparr>"
    by (subst eq(1)) (simp add: st8_def wr_def)
  then show ?thesis using eq(2) by simp
qed

lemma ld8_in_array:
  assumes "inj_on (\<lambda>k. tlb s (a + of_nat k)) {..<length xs}" "k < length xs"
  shows "ld8 (store_bytes a xs s) (a + of_nat k) = xs ! k"
  using store_bytes_at [OF assms] by (simp add: ld8_def rd_def)

lemma strrev_loop_reverses:
  fixes xs :: "u8 list"
  assumes "inj_on (\<lambda>k. tlb s (a + of_nat k)) {..<m}"
  shows "length xs = m \<Longrightarrow> i + j < m \<Longrightarrow> \<exists>ys. length ys = m \<and>
    (\<forall>k < m. ys ! k = (if i \<le> k \<and> k \<le> i + j then xs ! (i + i + j - k) else xs ! k)) \<and>
    ece391_strrev_loop a (int i) (int (i + j)) (store_bytes a xs s) = store_bytes a ys s"
proof (induction j arbitrary: i xs rule: less_induct)
  case (less j)
  show ?case
  proof (cases "j = 0")
    case True
    then show ?thesis using less.prems
      by (intro exI [of _ xs]) (auto simp: ece391_strrev_loop.simps [of a "int i"])
  next
    case False
    let ?ys = "xs[i + j := xs ! i, i := xs ! (i + j)]"
    have inj: "inj_on (\<lambda>k. tlb s (a + of_nat k)) {..<length xs}" "inj_on (\<lambda>k. tlb s (a + of_nat k)) {..<length (xs[i + j := xs ! i])}"
      using assms less.prems by simp_all
    have b: "i + j < length xs" "i < length xs" using less.prems by simp_all
    have st: "st8 (a + of_nat i) (xs ! (i + j)) (st8 (a + of_nat (i + j)) (xs ! i) (store_bytes a xs s)) = store_bytes a ?ys s"
      using st8_in_array [OF inj(1) b(1)] st8_in_array [OF inj(2), of i] b by simp
    have "ece391_strrev_loop a (int i) (int (i + j)) (store_bytes a xs s) =
        ece391_strrev_loop a (int i + 1) (int (i + j) - 1) (store_bytes a ?ys s)"
      using False st ld8_in_array [OF inj(1) b(1)] ld8_in_array [OF inj(1) b(2)]
      by (subst ece391_strrev_loop.simps) (simp add: Let_def)
    moreover have "\<exists>zs. length zs = m \<and>
        (\<forall>k < m. zs ! k = (if i \<le> k \<and> k \<le> i + j then xs ! (i + i + j - k) else xs ! k)) \<and>
        ece391_strrev_loop a (int i + 1) (int (i + j) - 1) (store_bytes a ?ys s) = store_bytes a zs s"
    proof (cases "j = 1")
      case True
      have "k = i \<or> k = Suc i" if "i \<le> k" "k \<le> Suc i" for k using that by auto
      then show ?thesis using b less.prems True
        by (intro exI [of _ ?ys]) (auto simp: ece391_strrev_loop.simps [of a "int i + 1"] nth_list_update)
    next
      case False
      then have j: "j - 2 < j" "length ?ys = m" "(i + 1) + (j - 2) < m"
        using \<open>j \<noteq> 0\<close> less.prems by simp_all
      obtain zs where z: "length zs = m"
        "\<forall>k < m. zs ! k = (if i + 1 \<le> k \<and> k \<le> i + 1 + (j - 2) then ?ys ! (i + 1 + (i + 1) + (j - 2) - k) else ?ys ! k)"
        "ece391_strrev_loop a (int (i + 1)) (int (i + 1 + (j - 2))) (store_bytes a ?ys s) = store_bytes a zs s"
        using less.IH [OF j] by blast
      have ends: "int (i + 1) = int i + 1" "int (i + 1 + (j - 2)) = int (i + j) - 1" using \<open>j \<noteq> 0\<close> False by simp_all
      have idx: "i + 1 + (i + 1) + (j - 2) = i + i + j" "i + 1 + (j - 2) = i + j - 1" using \<open>j \<noteq> 0\<close> False by simp_all
      note z2 = z(2) [unfolded idx]
      have "zs ! k = (if i \<le> k \<and> k \<le> i + j then xs ! (i + i + j - k) else xs ! k)" if "k < m" for k
      proof -
        consider "k < i" | "k = i" | "i + 1 \<le> k \<and> k \<le> i + j - 1" | "k = i + j" | "i + j < k"
          using \<open>j \<noteq> 0\<close> False by linarith
        then show ?thesis
          using z2 that b \<open>j \<noteq> 0\<close> False by cases (auto simp: nth_list_update)
      qed
      then show ?thesis using z(1,3) unfolding ends by blast
    qed
    ultimately show ?thesis by simp
  qed
qed

lemma itoa_loop_stores:
  assumes "2 \<le> r"
  shows "ece391_itoa_loop v a r s = Some (a + of_nat (length (lsd_digits (unat r) (unat v))),
    store_bytes a (map lookup (lsd_digits (unat r) (unat v))) s)"
proof (induction "unat v" arbitrary: v a s rule: less_induct)
  case less
  have r: "2 \<le> unat r" "r \<noteq> 0" using assms by (auto simp: word_le_nat_alt)
  show ?case
  proof (cases "v = 0")
    case True
    then show ?thesis by (simp add: ece391_itoa_loop.simps [of 0] lsd_digits.simps [of _ 0])
  next
    case False
    then have v: "0 < unat v" "v > 0" by (simp_all add: unat_gt_0 word_greater_zero_iff)
    have "unat (v div r) < unat v" using v r by (simp add: unat_div)
    from less [OF this, of "a + 1" "st8 a (lookup (unat (v mod r))) s"] show ?thesis
      using v r by (simp add: ece391_itoa_loop.simps [of v] lsd_digits.simps [of "unat r" "unat v"] unat_div unat_mod
          add.commute add.left_commute)
  qed
qed

lemma strrev_stored:
  assumes inj: "inj_on (\<lambda>k. tlb s (a + of_nat k)) {..length xs}" and nul: "0 \<notin> set xs"
  shows "ece391_strrev a (store_bytes a (xs @ [0]) s) = Some (store_bytes a (rev xs @ [0]) s)"
proof -
  let ?ys = "xs @ [0]" and ?n = "length xs"
  have inj': "inj_on (\<lambda>k. tlb s (a + of_nat k)) {..<length ?ys}"
    using inj by (simp add: lessThan_Suc_atMost)
  have view: "view (store_bytes a ?ys s) a k = ?ys ! k" if "k < length ?ys" for k
    using ld8_in_array [OF inj' that] by (simp add: view_def)
  have "cstr (view (store_bytes a ?ys s) a) xs"
    using view nul by (simp add: cstr_def nth_append)
  then have len: "ece391_strlen (view (store_bytes a ?ys s) a) = Some ?n" by (rule ece391_strlen_cstr)
  show ?thesis
  proof (cases "?n \<le> 1")
    case True
    then have "rev xs = xs" by (cases xs) (auto simp: length_Suc_conv)
    then show ?thesis using len True by (simp add: ece391_strrev_def)
  next
    case False
    then have pre: "length ?ys = ?n + 1" "0 + (?n - 1) < ?n + 1" by simp_all
    have inj1: "inj_on (\<lambda>k. tlb s (a + of_nat k)) {..<?n + 1}" using inj' by simp
    from strrev_loop_reverses [OF inj1 pre] obtain zs where z: "length zs = ?n + 1"
      "\<forall>k < ?n + 1. zs ! k = (if 0 \<le> k \<and> k \<le> 0 + (?n - 1) then ?ys ! (0 + 0 + (?n - 1) - k) else ?ys ! k)"
      "ece391_strrev_loop a (int 0) (int (0 + (?n - 1))) (store_bytes a ?ys s) = store_bytes a zs s"
      by blast
    have "zs = rev xs @ [0]"
    proof (rule nth_equalityI)
      show "length zs = length (rev xs @ [0])" using z(1) by simp
      fix k assume "k < length zs"
      then have k: "k < ?n + 1" using z(1) by simp
      show "zs ! k = (rev xs @ [0]) ! k"
        using z(2) [rule_format, OF k] k False by (cases "k < ?n") (auto simp: nth_append rev_nth less_Suc_eq)
    qed
    moreover have "int (0 + (?n - 1)) = int ?n - 1" "\<not> int ?n - 1 \<le> 0" using False by simp_all
    ultimately show ?thesis using len z(3) by (simp add: ece391_strrev_def)
  qed
qed

lemma user_itoa_stores:
  assumes r: "2 \<le> r" "r \<le> 36"
    and inj: "inj_on (\<lambda>k. tlb s (a + of_nat k)) {..length (digit_string (unat r) (unat v))}"
  shows "ece391_itoa v a r s = Some (store_bytes a (digit_string (unat r) (unat v) @ [0]) s)"
proof (cases "v = 0")
  case True
  have "lookup 0 = 0x30" by (simp add: lookup_def)
  then show ?thesis using True by (simp add: ece391_itoa_def digit_string_def)
next
  case False
  let ?ds = "map lookup (lsd_digits (unat r) (unat v))"
  have r36: "unat r \<le> 36" using r(2) by (simp add: word_le_nat_alt)
  have d: "digit_string (unat r) (unat v) = rev ?ds" using False by (simp add: digit_string_def unat_eq_zero)
  have "lookup i \<noteq> 0" if "i \<in> set (lsd_digits (unat r) (unat v))" for i
    by (rule lookup_nonzero) (use lsd_digits_less [OF that] r36 in simp)
  then have "\<forall>x \<in> set ?ds. x \<noteq> 0" by simp
  then have nul: "0 \<notin> set ?ds" by blast
  have inj': "inj_on (\<lambda>k. tlb s (a + of_nat k)) {..length ?ds}" using inj unfolding d by simp
  have "ece391_strrev a (st8 (a + of_nat (length ?ds)) 0 (store_bytes a ?ds s)) = Some (store_bytes a (rev ?ds @ [0]) s)"
    unfolding store_bytes_snoc [symmetric] by (rule strrev_stored [OF inj' nul])
  moreover have "ece391_itoa_loop v a r s = Some (a + of_nat (length ?ds), store_bytes a ?ds s)"
    using itoa_loop_stores [OF r(1), of v a s] by (simp only: length_map)
  ultimately show ?thesis
    unfolding ece391_itoa_def d using False by (simp only: if_False bind.bind_lunit prod.case)
qed

text \<open>
  C38: \<open>ece391_itoa\<close> of the programs' library is the kernel's \<open>itoa\<close>: in every radix from 2 to 36 it
  writes to the program's memory the string that \<open>itoa\<close> writes to the kernel's array, the digits
  of the number, with its NUL, and touches nothing else.
\<close>

theorem user_itoa_agrees:
  assumes "2 \<le> r" "r \<le> 36" and "inj_on (\<lambda>k. tlb s (a + of_nat k)) {..length (digit_string (unat r) (unat v))}"
  shows "\<exists>b. itoa v buf r = Some b \<and> cstr b (digit_string (unat r) (unat v)) \<and>
    ece391_itoa v a r s = Some (store_bytes a (digit_string (unat r) (unat v) @ [0]) s)"
  using itoa_digit_string [of r v buf] user_itoa_stores [OF assms] assms(1,2) by (simp add: word_le_nat_alt)

theorem user_itoa_agrees_witness:
  "\<exists>b. itoa 42 (\<lambda>_. 0) 10 = Some b \<and> cstr b (lit ''42'') \<and>
    ece391_itoa 42 0x8000000 10 static_kernel = Some (store_bytes 0x8000000 (lit ''42'' @ [0]) static_kernel)"
proof -
  have d: "digit_string (unat (10 :: u32)) (unat (42 :: u32)) = lit ''42''"
    by (simp add: digit_string_def lookup_def lsd_digits.simps [of 10 42] lsd_digits.simps [of 10 4] lsd_digits.simps [of 10 0])
  have "inj_on (\<lambda>k. tlb static_kernel (0x8000000 + of_nat k)) {..length (digit_string (unat (10 :: u32)) (unat (42 :: u32)))}"
    unfolding d by (simp add: static_kernel_def inj_on_def atMost_Suc)
  from user_itoa_agrees [OF _ _ this, of "\<lambda>_. 0"] show ?thesis unfolding d by simp
qed

section \<open>counter\<close>

definition counter_prompt :: string where
  "counter_prompt = nl ''Enter the Test Number: (0): 100, (1): 10000, (2): 100000''"

definition counter_texts :: "string list" where
  "counter_texts = [counter_prompt, nl []]"

definition numbers_from :: "nat \<Rightarrow> nat \<Rightarrow> u8 list" where
  "numbers_from i k = concat (map (\<lambda>j. digit_string 10 (j + 1) @ [10]) [i..<i + k])"

lemma numbers_from_Suc: "numbers_from i (Suc k) = (digit_string 10 (i + 1) @ [10]) @ numbers_from (i + 1) k"
  by (simp add: numbers_from_def upt_conv_Cons del: upt_Suc)

lemma decimal_length: "n < 10 ^ 10 \<Longrightarrow> length (digit_string 10 n) \<le> 10"
  using lsd_digits_length [of n 10 10] by (simp add: digit_string_def)

lemma decimal_nul: "0 \<notin> set (digit_string 10 n)"
proof -
  have "\<forall>i \<in> set (lsd_digits 10 n). lookup i \<noteq> 0"
    using lookup_nonzero lsd_digits_less [of _ 10 n] by force
  moreover have "lookup 0 \<noteq> 0" by (rule lookup_nonzero) simp
  ultimately have "\<forall>x \<in> set (digit_string 10 n). x \<noteq> 0" by (simp add: digit_string_def)
  then show ?thesis by blast
qed

lemma count_up_shows:
  assumes "12 \<le> n"
  shows "session_ready c counter_texts buf n s \<Longrightarrow> i + k \<le> 100000 \<Longrightarrow>
    \<exists>t. count_up c buf i k s = Some t \<and> session_ready c counter_texts buf n t \<and>
      screen_of t = fold emit (numbers_from i k) (screen_of s)"
proof (induction k arbitrary: i s)
  case 0
  then show ?case by (simp add: numbers_from_def)
next
  case (Suc k)
  let ?ds = "digit_string 10 (i + 1)" and ?v = "of_nat i + 1 :: u32"
  have v: "unat ?v = i + 1" using unat_of_nat_u32 [of "i + 1"] Suc.prems(2) by (simp add: add.commute)
  have len: "length ?ds \<le> 10" by (rule decimal_length) (use Suc.prems(2) in simp)
  have "inj_on (\<lambda>j. tlb s (buf + of_nat j)) {..<n}" using Suc.prems(1) by (simp add: session_ready_def)
  then have "inj_on (\<lambda>j. tlb s (buf + of_nat j)) {..length ?ds}"
    by (rule inj_on_subset) (use len assms in auto)
  then have itoa: "ece391_itoa ?v buf 10 s = Some (store_bytes buf (?ds @ [0]) s)"
    using user_itoa_stores [of 10 s buf ?v] unfolding v by simp
  let ?s1 = "store_bytes buf (?ds @ [0]) s"
  have r1: "session_ready c counter_texts buf n ?s1" "screen_of ?s1 = screen_of s"
    using session_store(1,2) [OF Suc.prems(1), of "?ds @ [0]"] len assms by simp_all
  have c1: "cstr (view ?s1 buf) ?ds"
    by (rule store_string [OF Suc.prems(1) _ decimal_nul]) (use len assms in simp)
  obtain s2 where s2: "ece391_fdputs c 1 buf ?s1 = Some s2" "session_ready c counter_texts buf n s2"
    "screen_of s2 = fold emit ?ds (screen_of s)"
    using array_shown [OF r1(1) c1 _ digits_not_backspace] len assms r1(2) by auto
  obtain s3 where s3: "say_literal c (nl []) s2 = Some s3" "session_ready c counter_texts buf n s3"
    "screen_of s3 = fold emit [10] (screen_of s2)"
    using say_shown [OF s2(2), of "nl []"] by (auto simp: counter_texts_def)
  obtain t where t: "count_up c buf (i + 1) k s3 = Some t" "session_ready c counter_texts buf n t"
    "screen_of t = fold emit (numbers_from (i + 1) k) (screen_of s3)"
    using Suc.IH [OF s3(2), of "i + 1"] Suc.prems(2) by auto
  have "count_up c buf i (Suc k) s = Some t" using itoa s2(1) s3(1) t(1) by simp
  moreover have "screen_of t = fold emit (numbers_from i (Suc k)) (screen_of s)"
    unfolding numbers_from_Suc by (simp add: t(3) s3(3) s2(3))
  ultimately show ?case using t(2) by blast
qed

text \<open>
  C16: \<open>counter\<close> counts: when 0, 1 or 2 was typed, it asks, reads the choice and shows the decimal
  numbers from 1 to 100, 10000 or 100000, each on a line of its own, and halts with 0.
\<close>

theorem counter_counts:
  assumes ready: "session_ready c counter_texts buf n s" and "12 \<le> n" and now: "read_allowed s"
    and i: "0 \<le> keyb_index (kb s)" and line: "typed_line s = [ch, 10]" and ch: "ch \<in> {0x30, 0x31, 0x32}"
  shows "\<exists>t. counter c buf s = Some (0, t) \<and>
    screen_of t = fold emit (lit counter_prompt @ numbers_from 0 (chosen_max ch)) (screen_of s)"
proof -
  obtain s1 where s1: "say_literal c counter_prompt s = Some s1" "session_ready c counter_texts buf n s1"
    "typing s1 = typing s" "screen_of s1 = fold emit (lit counter_prompt) (screen_of s)"
    using say_shown [OF ready, of counter_prompt] by (auto simp: counter_texts_def)
  have t1: "typed_line s1 = [ch, 10]" "read_allowed s1" "0 \<le> keyb_index (kb s1)"
    using s1(3) line now i by (simp_all add: typing_def typed_line_def)
  have "nat (keyb_index (kb s1)) = length (typed_line s1)" by (simp add: typed_line_def)
  then have i1: "keyb_index (kb s1) < 128" using t1 by simp
  have small: "length (typed_line s1) < n" "unat (1023 :: u32) < 2 ^ 31" using t1(1) assms(2) by simp_all
  obtain s2 where s2: "ece391_read c 0 buf 1023 s1 = Some (int (length [ch, 10]), s2)"
    "session_ready c counter_texts buf n s2" "screen_of s2 = screen_of s1"
    "load_bytes (tlb s2) (mem s2) buf (length [ch, 10] + 1) = [ch, 10] @ [0]"
    using line_read [OF s1(2) t1(2,3) i1 small] unfolding t1(1) by blast
  have nul: "0 \<notin> set [ch, 10]" using ch by auto
  let ?s3 = "st8 (buf + 2) 0 s2"
  have s3: "session_ready c counter_texts buf n ?s3" "screen_of ?s3 = screen_of s2" "cstr (view ?s3 buf) [ch, 10]"
    using cut_line [OF s2(2,4) _ nul] assms(2) by simp_all
  have b: "ld8 ?s3 buf = ch" using cstr_nth [OF s3(3), of 0] by (simp add: view_def)
  have len: "ece391_strlen (view ?s3 buf) = Some 2" using ece391_strlen_cstr [OF s3(3)] by simp
  have "chosen_max ch \<le> 100000" by (simp add: chosen_max_def)
  then obtain t where t: "count_up c buf 0 (chosen_max ch) ?s3 = Some t"
    "screen_of t = fold emit (numbers_from 0 (chosen_max ch)) (screen_of ?s3)"
    using count_up_shows [OF assms(2) s3(1), of 0 "chosen_max ch"] by auto
  have ok: "\<not> (ch < 0x30 \<or> ch > 0x32)" using ch by auto
  have "counter c buf s = Some (0, t)"
    using s1(1) s2(1) b len t(1) ok unfolding counter_def counter_prompt_def by (simp add: Let_def)
  then show ?thesis using t(2) s3(2) s2(3) s1(4) by simp
qed

section \<open>A process with something typed\<close>

text \<open>The strings at 128 MB, 128 bytes apart, the array at 144 MB, and a line that was ended with Enter.
  Below them memory is \<open>g\<close>; process 0 is the only one.\<close>

definition place_of :: "string list \<Rightarrow> string \<Rightarrow> nat" where
  "place_of T str = length (takeWhile (\<lambda>x. x \<noteq> str) T)"

definition session_setting :: "string list \<Rightarrow> setting" where
  "session_setting T = idle_setting\<lparr>literal := (\<lambda>str. 0x8000000 + 128 * of_nat (place_of T str))\<rparr>"

definition session_memory :: "image \<Rightarrow> string list \<Rightarrow> image" where
  "session_memory g T = (\<lambda>a. if 0x8000000 \<le> unat a \<and> (unat a - 0x8000000) div 128 < length T
     then array_of (lit (T ! ((unat a - 0x8000000) div 128))) ((unat a - 0x8000000) mod 128) else g a)"

definition session_kernel :: "image \<Rightarrow> string list \<Rightarrow> u8 list \<Rightarrow> kernel" where
  "session_kernel g T line = sample_process\<lparr>mem := session_memory g T,
     pcb_at := (\<lambda>_. null_pcb)(pcb_addr 0 := current sample_process), terminal_read_enable_signal := True,
     kb := (kb static_kernel)\<lparr>key_buffer := (\<lambda>i. array_of line (nat i)), keyb_index := int (length line)\<rparr>\<rparr>"

lemma session_kernel_simps:
  "current_file (session_kernel g T line) i = current_file sample_process i" "ld8 (session_kernel g T line) = session_memory g T"
  "tlb (session_kernel g T line) = (\<lambda>a. a)" "con (session_kernel g T line) = con static_kernel"
  by (simp_all add: session_kernel_def current_file_def current_def sample_process_def static_kernel_def ld8_def rd_def fun_eq_iff)

lemma session_typed: "typed_line (session_kernel g T line) = line" "read_allowed (session_kernel g T line)"
  "0 \<le> keyb_index (kb (session_kernel g T line))"
proof -
  show "typed_line (session_kernel g T line) = line"
    by (rule nth_equalityI) (simp_all add: typed_line_def line_of_def session_kernel_def)
qed (simp_all add: session_kernel_def read_allowed_def get_display_tid_def sample_process_def static_kernel_def)

lemma place_of_nth: "str \<in> set T \<Longrightarrow> place_of T str < length T \<and> T ! place_of T str = str"
proof -
  assume str: "str \<in> set T"
  let ?P = "\<lambda>x. x \<noteq> str"
  have "takeWhile ?P T \<noteq> T" using str by (metis (full_types) takeWhile_eq_all_conv)
  then have "place_of T str \<noteq> length T" unfolding place_of_def by (metis takeWhile_eq_take take_all_iff order_refl)
  then have "place_of T str < length T"
    using length_takeWhile_le [of ?P T] by (simp add: place_of_def)
  then show ?thesis using nth_length_takeWhile [of ?P T] by (simp add: place_of_def)
qed

lemma session_kernel_ready:
  assumes T: "\<forall>str \<in> set T. length str < 128 \<and> 0 \<notin> set (lit str) \<and> list_all not_backspace (lit str)" "length T \<le> 100"
  shows "session_ready (session_setting T) T 0x9000000 1024 (session_kernel g T line)"
proof -
  let ?s = "session_kernel g T line"
  have screen: "a \<notin> screen_bytes ?s" if "0x8000000 \<le> unat a" for a
  proof
    assume "a \<in> screen_bytes ?s"
    then obtain k :: nat where "k < 4000" "a = 0xB8000 + of_nat k"
      by (auto simp: screen_bytes_def session_kernel_simps) (auto simp: static_kernel_def)
    then show False using that unat_of_nat_u32 [of "0xB8000 + k"] by simp
  qed
  have buf: "unat (0x9000000 + of_nat k :: u32) = 0x9000000 + k" if "k < 1024" for k
    using unat_of_nat_u32 [of "0x9000000 + k"] that by simp
  have stored: "text_kept (session_setting T) 0x9000000 1024 ?s str" if str: "str \<in> set T" for str
  proof -
    let ?k = "place_of T str"
    note k = place_of_nth [OF str]
    have l: "literal (session_setting T) str = 0x8000000 + 128 * of_nat ?k" by (simp add: session_setting_def)
    have addr: "unat (0x8000000 + 128 * of_nat ?k + of_nat i :: u32) = 0x8000000 + (128 * ?k + i)" if "i < 128" for i
      using unat_of_nat_u32 [of "0x8000000 + (128 * ?k + i)"] that k T(2) by (simp add: algebra_simps)
    have v: "view ?s (literal (session_setting T) str) i = array_of (lit str) i" if "i < 128" for i
    proof -
      have "(128 * ?k + i) div 128 = ?k" "(128 * ?k + i) mod 128 = i" using that by simp_all
      then show ?thesis
        using addr [OF that] k by (simp add: view_def l session_kernel_simps(2) session_memory_def)
    qed
    have len: "length str < 128" "0 \<notin> set (lit str)" "list_all not_backspace (lit str)" using T(1) str by simp_all
    have "cstr (view ?s (literal (session_setting T) str)) (lit str)"
      using cstr_array_of [OF len(2)] len(1) v by (simp add: cstr_def)
    moreover have "literal (session_setting T) str \<noteq> 0" using addr [of 0] by (auto simp: l)
    moreover have "clear_of ?s 0x9000000 1024 (literal (session_setting T) str + of_nat i)" if "i \<le> length str" for i
    proof -
      have a: "unat (literal (session_setting T) str + of_nat i) = 0x8000000 + (128 * ?k + i)"
        unfolding l by (rule addr) (use that len(1) in simp)
      have "literal (session_setting T) str + of_nat i \<noteq> 0x9000000 + of_nat j" if "j < 1024" for j
      proof
        assume eq: "literal (session_setting T) str + of_nat i = 0x9000000 + of_nat j"
        have "128 * ?k + i < 0x1000000" using k T(2) \<open>i \<le> length str\<close> len(1) by linarith
        then show False using a buf [OF that] unfolding eq by simp
      qed
      then show ?thesis using screen a by (simp add: clear_of_def session_kernel_simps(3))
    qed
    ultimately show ?thesis using len by (simp add: text_kept_def)
  qed
  have "inj_on (\<lambda>k. 0x9000000 + of_nat k :: u32) {..<1024}"
    by (rule inj_onI) (metis buf add_left_cancel lessThan_iff)
  moreover have files: "current_file ?s 0 = null_file\<lparr>file_op_tb := stdin_table, flag := 1\<rparr>"
    "current_file ?s (Suc 0) = null_file\<lparr>file_op_tb := stdout_table, flag := 1\<rparr>"
    by (simp_all add: session_kernel_def current_file_def current_def sample_process_def)
  moreover have "off_screen_buffer ?s 0x9000000 1024"
    using screen buf by (simp add: off_screen_buffer_def session_kernel_simps(3))
  moreover have "console_ok ?s"
    using static_console_ok by (simp add: console_ok_def screen_mapped_def session_kernel_simps)
      (simp add: static_kernel_def)
  ultimately show ?thesis
    using stored by (simp add: session_ready_def session_kernel_simps(3) files stdin_table_def stdout_table_def)
qed

theorem shell_obeys_witness:
  "\<exists>u. shell_main (session_setting shell_texts) 0x9000000 (session_kernel (\<lambda>_. 0) shell_texts (lit ''exit'' @ [10])) = Some (0, u) \<and>
    screen_of u = fold emit (lit (nl ''Starting 391 Shell'') @ lit ''391OS> '')
      (screen_of (session_kernel (\<lambda>_. 0) shell_texts (lit ''exit'' @ [10])))"
proof -
  have "session_ready (session_setting shell_texts) shell_texts 0x9000000 1024 (session_kernel (\<lambda>_. 0) shell_texts (lit ''exit'' @ [10]))"
    by (rule session_kernel_ready) (simp_all add: shell_texts_def not_backspace_def)
  from shell_obeys [OF this session_typed(2,3,1)] show ?thesis by auto
qed

theorem counter_counts_witness:
  "\<exists>t. counter (session_setting counter_texts) 0x9000000 (session_kernel (\<lambda>_. 0) counter_texts [0x30, 10]) = Some (0, t) \<and>
    screen_of t = fold emit (lit counter_prompt @ numbers_from 0 100) (screen_of (session_kernel (\<lambda>_. 0) counter_texts [0x30, 10]))"
proof -
  have "session_ready (session_setting counter_texts) counter_texts 0x9000000 1024 (session_kernel (\<lambda>_. 0) counter_texts [0x30, 10])"
    by (rule session_kernel_ready) (simp_all add: counter_texts_def counter_prompt_def not_backspace_def)
  from counter_counts [OF this _ session_typed(2,3,1)] show ?thesis by (simp add: chosen_max_def)
qed

end
