(* ===== verification/Shell_Runs.thy ===== *)
theory Shell_Runs
  imports User_Session Boot_Report Sample_Kernel
begin

text \<open>
  From a line typed at the shell to the program it names: the read of the line, the system call,
  the announcement, the lookup in the directory and the loading, and what the shell does when the
  program has ended.
\<close>

section \<open>The announcement of any command\<close>

lemma announcement_quiet: "list_all not_backspace cs \<Longrightarrow> list_all not_backspace (announcement cs i)"
  using quiet_rendered [of "Signed (of_nat i + 1)"]
  by (auto simp: announcement_def) (auto simp: not_backspace_def)

lemma announced_printed:
  assumes "console_ok s" "list_all not_backspace cs"
  shows "unseen s (announced cs i s)" "pg (announced cs i s) = pg s" "tlb (announced cs i s) = tlb s"
proof -
  let ?s = "(cli s)\<lparr>pid_var := int i\<rparr>"
  have p: "printed ?s (announced cs i s)"
    unfolding announced_def by (intro printed_fold announcement_quiet assms)
  have "console_ok ?s" using assms(1) by (simp add: console_ok_def screen_mapped_def io_defs)
  moreover have "screen_bytes ?s = screen_bytes s" by (simp add: screen_bytes_def io_defs)
  moreover have "off_screen ?s = off_screen s" by (simp add: off_screen_def screen_bytes_def io_defs cong: if_cong)
  moreover have "tlb ?s = tlb s" by (simp add: io_defs)
  ultimately show "unseen s (announced cs i s)" using printed_unseen [OF _ p] by (simp add: unseen_def)
  then show "tlb (announced cs i s) = tlb s" by (simp add: unseen_def)
qed simp

section \<open>A command is typed\<close>

text \<open>The bytes of the image: outside the windows of the programs, the screen and the shell's array.\<close>

definition image_byte :: "kernel \<Rightarrow> u32 \<Rightarrow> nat \<Rightarrow> u32 \<Rightarrow> bool" where
  "image_byte s buf n a \<longleftrightarrow> outside_window a \<and> clear_of s buf n a"

lemma second_word_length: "length (second_word cs) \<le> length cs"
proof -
  have "length (takeWhile P (dropWhile Q xs)) \<le> length xs" for P Q and xs :: "u8 list"
    using length_takeWhile_le [of P "dropWhile Q xs"] length_dropWhile_le [of Q xs] by simp
  moreover have "length (after_word cs) \<le> length cs"
    using length_dropWhile_le [of "\<lambda>c. \<not> is_space c" "dropWhile is_space cs"] length_dropWhile_le [of is_space cs]
    by (simp add: after_word_def)
  ultimately show ?thesis unfolding second_word_def first_word_def by (meson order_trans)
qed

text \<open>What the kernel finds when the shell has announced a command is what was there before.\<close>

lemma image_found:
  assumes on: "goes_on buf n s u" and ok: "console_ok u" and cs: "list_all not_backspace cs"
  shows "image_byte s buf n a \<Longrightarrow> ld8 (announced cs i u) a = ld8 s a" "tlb_current s \<Longrightarrow> tlb_current (announced cs i u)"
proof -
  note on = goes_onD [OF on] and v = announced_printed [OF ok cs, of i]
  show "ld8 (announced cs i u) a = ld8 s a" if "image_byte s buf n a"
  proof -
    have "clear_of s buf n a" using that by (simp add: image_byte_def)
    then have "ld8 u a = ld8 s a" "clear_of u buf n a" using on(7,8) by simp_all
    then show ?thesis using unseen_byte [OF v(1), of a 1 0] by (simp add: off_screen_buffer_def clear_of_def)
  qed
  show "tlb_current (announced cs i u)" if "tlb_current s" using that v(2,3) on(1,2) by (simp add: tlb_current_def)
qed

lemma command_entered:
  fixes s :: kernel and d :: dentry and i :: nat
  defines "content \<equiv> file_content (ld8 s) (fs s) (inode_id d)"
  assumes ready: "session_ready c shell_texts buf n s" "read_allowed s" "0 \<le> keyb_index (kb s)" "tlb_current s"
    and line: "typed_line s = cmd @ [10]" "0 \<notin> set cmd" "list_all not_backspace cmd" "length cmd < 127" "length cmd + 1 < n"
    and words: "cmd \<noteq> lit ''exit''" "cmd \<noteq> []" "length (first_word cmd) < 32"
    and free: "find_pcb s 0 6 = Some i"
    and image: "directory_within (image_byte s buf n) (ld8 s) (fs s)"
      "file_within (image_byte s buf n) (ld8 s) (fs s) (inode_id d)"
    and program: "map_of (directory (ld8 s) (fs s)) (first_word cmd) = Some d" "inode_id d \<le> num_inodes (ld8 s) (fs s) - 1"
      "40 \<le> length content" "length content \<le> 0x3B8000" "take 4 content = elf_magic"
  shows "\<exists>u t. session_ready c shell_texts buf n u \<and> goes_on buf n s u \<and>
    screen_of u = fold emit (lit ''391OS> '') (screen_of s) \<and> program_started i content (announced cmd i u) t \<and>
    shell_loop c buf s =
      Option.bind (child c (word_at (\<lambda>a. array_of (take 4 (drop 24 content)) (unat a)) 0) 0x83FFFFC t)
        (\<lambda>(rval, v). Option.bind (report_status c rval v) (shell_loop c buf)) \<and>
    curr_pcb t = pcb_addr (int i) \<and> cstr (argument (pcb_at t (pcb_addr (int i)))) (second_word cmd) \<and>
    load_bytes (tlb t) (mem t) 0x8048000 (length content) = content \<and> fs t = fs s"
proof -
  obtain u where u: "session_ready c shell_texts buf n u" "cstr (view u buf) cmd" "goes_on buf n s u"
    "screen_of u = fold emit (lit ''391OS> '') (screen_of s)" "shell_loop c buf s = Option.bind (ece391_execute c buf u)
       (\<lambda>(rval, v). Option.bind (report_status c rval v) (shell_loop c buf))"
    using shell_turn [OF ready(1-3) line(1,2,4,5)] words(1,2) by auto
  have ok: "console_ok u" "buf \<noteq> 0" using u(1) by (simp_all add: session_ready_def)
  note f = image_found [OF u(3) ok(1) line(3)]
  have find: "find_pcb u 0 6 = Some i" using find_pcb_cong [of u s] goes_onD(3) [OF u(3)] free by simp
  have fs: "fs u = fs s" by (rule goes_onD(5) [OF u(3)])
  have arg: "length (second_word cmd) < 128" using second_word_length [of cmd] line(4) by simp
  have outside: "outside_window a" if "image_byte s buf n a" for a using that by (simp add: image_byte_def)
  obtain t where t: "execute (kernel_esp c) (kernel_ebp c) (Some (view u buf)) u =
      Some (Entered (word_at (\<lambda>a. array_of (take 4 (drop 24 content)) (unat a)) 0) 0x83FFFFC, t)"
    "curr_pcb t = pcb_addr (int i)" "cstr (argument (pcb_at t (pcb_addr (int i)))) (second_word cmd)"
    "load_bytes (tlb t) (mem t) 0x8048000 (length content) = content" "fs t = fs s"
    "program_started i content (announced cmd i u) t"
    using execute_loads_within [where d = d, OF find u(2) words(3) arg outside f(1), unfolded fs,
        OF _ _ image program(1) program(2-5) [unfolded content_def] f(2) [OF ready(4)]]
    by (auto simp: content_def)
  have "ece391_execute c buf u = child c (word_at (\<lambda>a. array_of (take 4 (drop 24 content)) (unat a)) 0) 0x83FFFFC t"
    using t(1) ok(2) by (simp add: DO_CALL_def syscall_numbers)
  then show ?thesis using u t(2-6) by auto
qed

text \<open>
  C12: a command typed at the shell runs.  When the line names an executable in the directory and a
  process slot is free, the shell comes to the first instruction of a new process, whose window
  holds the bytes of the file and whose argument is the second word of the line; when that
  program ends the shell reports its status and takes the next line.
\<close>

theorem shell_runs_program:
  fixes s :: kernel and d :: dentry and i :: nat
  defines "content \<equiv> file_content (ld8 s) (fs s) (inode_id d)"
  assumes ready: "session_ready c shell_texts buf n s" "read_allowed s" "0 \<le> keyb_index (kb s)" "tlb_current s"
    and line: "typed_line s = cmd @ [10]" "0 \<notin> set cmd" "list_all not_backspace cmd" "length cmd < 127" "length cmd + 1 < n"
    and words: "cmd \<noteq> lit ''exit''" "cmd \<noteq> []" "length (first_word cmd) < 32"
    and free: "find_pcb s 0 6 = Some i"
    and image: "directory_within (image_byte s buf n) (ld8 s) (fs s)"
      "file_within (image_byte s buf n) (ld8 s) (fs s) (inode_id d)"
    and program: "map_of (directory (ld8 s) (fs s)) (first_word cmd) = Some d" "inode_id d \<le> num_inodes (ld8 s) (fs s) - 1"
      "40 \<le> length content" "length content \<le> 0x3B8000" "take 4 content = elf_magic"
  shows "\<exists>t. shell_loop c buf s =
      Option.bind (child c (word_at (\<lambda>a. array_of (take 4 (drop 24 content)) (unat a)) 0) 0x83FFFFC t)
        (\<lambda>(rval, v). Option.bind (report_status c rval v) (shell_loop c buf)) \<and>
    curr_pcb t = pcb_addr (int i) \<and> cstr (argument (pcb_at t (pcb_addr (int i)))) (second_word cmd) \<and>
    load_bytes (tlb t) (mem t) 0x8048000 (length content) = content \<and> fs t = fs s"
  using command_entered [of c buf n s cmd i d] assms(2-) unfolding content_def by blast

section \<open>A shell with a program to run\<close>

definition shell_session :: "image \<Rightarrow> filesys \<Rightarrow> u8 list \<Rightarrow> kernel" where
  "shell_session g f cmd = (session_kernel g shell_texts (cmd @ [10]))\<lparr>fs := f\<rparr>"

lemma shell_session_simps:
  "tlb (shell_session g f cmd) = (\<lambda>a. a)" "fs (shell_session g f cmd) = f" "con (shell_session g f cmd) = con static_kernel"
  "kb (shell_session g f cmd) = kb (session_kernel g shell_texts (cmd @ [10]))"
  "ld8 (shell_session g f cmd) = session_memory g shell_texts"
  using session_kernel_simps [of g shell_texts "cmd @ [10]"]
  by (simp_all add: shell_session_def ld8_def rd_def fun_eq_iff)

lemma shell_session_ready:
  "session_ready (session_setting shell_texts) shell_texts 0x9000000 1024 (shell_session g f cmd)"
  "typed_line (shell_session g f cmd) = cmd @ [10]" "read_allowed (shell_session g f cmd)" "0 \<le> keyb_index (kb (shell_session g f cmd))"
proof -
  let ?s = "session_kernel g shell_texts (cmd @ [10])"
  have r: "session_ready (session_setting shell_texts) shell_texts 0x9000000 1024 ?s"
    by (rule session_kernel_ready) (simp_all add: shell_texts_def not_backspace_def)
  then have "console_ok (shell_session g f cmd)"
    by (simp add: session_ready_def shell_session_def console_ok_def screen_mapped_def)
  then show "session_ready (session_setting shell_texts) shell_texts 0x9000000 1024 (shell_session g f cmd)"
    by (rule session_step [OF r]) (simp_all add: shell_session_def current_file_def ld8_def)
  show "typed_line (shell_session g f cmd) = cmd @ [10]" "0 \<le> keyb_index (kb (shell_session g f cmd))"
    using session_typed [of g shell_texts "cmd @ [10]"] by (simp_all add: typed_line_def shell_session_simps(4))
  show "read_allowed (shell_session g f cmd)"
    using session_typed(2) [of g shell_texts "cmd @ [10]"]
    by (simp add: read_allowed_def get_display_tid_def shell_session_def)
qed

lemma shell_session_low: "a < 0x8000000 \<Longrightarrow> session_memory g shell_texts a = g a"
  by (simp add: session_memory_def word_less_nat_alt)

lemma shell_session_current: "tlb_current (shell_session g f cmd)"
proof -
  have "page_dir (pg (shell_session g f cmd)) k = 0" for k
    by (simp add: shell_session_def session_kernel_def sample_process_def) (simp add: static_kernel_def)
  then show ?thesis by (simp add: tlb_current_def walk_def shell_session_simps(1))
qed

lemma shell_session_byte:
  assumes a: "0x400000 \<le> a" "a < 0x800000"
  shows "image_byte (shell_session g f cmd) 0x9000000 1024 a"
proof -
  have u: "0x400000 \<le> unat a" "unat a < 0x800000" using a by (simp_all add: word_le_nat_alt word_less_nat_alt)
  have "a \<noteq> 0xB8000 + of_nat k" if "k < 4000" for k :: nat
    using u(1) that unat_of_nat_u32 [of "0xB8000 + k"] by auto
  moreover have "a \<noteq> 0x9000000 + of_nat k" if "k < 1024" for k :: nat
    using u(2) that unat_of_nat_u32 [of "0x9000000 + k"] by auto
  moreover have "video_mem (con static_kernel) = 0xB8000" by (simp add: static_kernel_def)
  ultimately show ?thesis
    using fold_outside [OF a] by (auto simp: image_byte_def clear_of_def screen_bytes_def shell_session_simps)
qed

lemmas shell_session_image = shell_session_byte [OF above_image]

lemma shell_session_free: "find_pcb (shell_session g f cmd) 0 6 = Some 1"
proof -
  have p: "pcb_at (shell_session g f cmd) = (\<lambda>_. null_pcb)(pcb_addr 0 := current sample_process)"
    by (simp add: shell_session_def session_kernel_def)
  have "active (pcb_at (shell_session g f cmd) (pcb_addr (int 0))) \<noteq> 0"
    unfolding p by (simp add: sample_process_simps(1))
  moreover have "active (pcb_at (shell_session g f cmd) (pcb_addr (int 1))) = 0"
    unfolding p by (simp add: null_pcb_def addr_values)
  ultimately have "find_pcb (shell_session g f cmd) 0 (Suc (Suc 4)) = Some 1" unfolding find_pcb.simps by simp
  then show ?thesis by (simp only: numeral_nat)
qed

text \<open>The line \<open>shell now\<close>: process 1 has the 40 bytes of the file and the argument \<open>now\<close>.\<close>

theorem shell_runs_program_witness:
  "\<exists>t. shell_loop (session_setting shell_texts) 0x9000000 (shell_session shell_image shell_fs (lit ''shell now'')) =
      Option.bind (child (session_setting shell_texts) 0x8048000 0x83FFFFC t)
        (\<lambda>(rval, v). Option.bind (report_status (session_setting shell_texts) rval v)
          (shell_loop (session_setting shell_texts) 0x9000000)) \<and>
    curr_pcb t = pcb_addr 1 \<and> cstr (argument (pcb_at t (pcb_addr 1))) (lit ''now'') \<and>
    take 4 (load_bytes (tlb t) (mem t) 0x8048000 40) = elf_magic"
proof -
  let ?d = "dentry_at shell_image 0x410040" and ?m = "session_memory shell_image shell_texts"
  let ?cmd = "lit ''shell now''"
  have low: "?m a = shell_image a" if "0x410000 \<le> a" "a < 0x413000" for a
    by (rule shell_session_low) (use that in \<open>simp add: word_less_nat_alt\<close>)
  note facts = shell_image_facts [of ?m, OF low]
  note content = shell_image_content [of ?m, OF low]
  have d0: "inode_id ?d = 0" by (simp add: dentry_at_def word_at_def shell_image_def)
  have "dentry_at ?m 0x410040 = ?d"
    by (simp add: dentry_at_def word_at_def load_bytes_def rd_def upt_conv_Cons low)
  then have dir: "map_of (directory ?m shell_fs) (lit ''shell'') = Some ?d"
    using facts(1,3) by (simp add: directory_def dir_entry_addr_def shell_fs_def)
  have words: "first_word ?cmd = lit ''shell''" "second_word ?cmd = lit ''now''"
    by (simp_all add: second_word_def first_word_def after_word_def)
  have "image_byte (shell_session shell_image shell_fs ?cmd) 0x9000000 1024 (0x410000 + of_nat k)" if "k < 4096" for k
    using that unat_of_nat_u32 [of "0x410000 + k"]
    by (intro shell_session_image) (simp_all add: word_le_nat_alt word_less_nat_alt)
  then have within: "directory_within (image_byte (shell_session shell_image shell_fs ?cmd) 0x9000000 1024) ?m shell_fs"
    "file_within (image_byte (shell_session shell_image shell_fs ?cmd) 0x9000000 1024) ?m shell_fs 0"
    using shell_file_within [of ?m "image_byte (shell_session shell_image shell_fs ?cmd) 0x9000000 1024", OF low shell_session_image]
      facts(1) by (simp_all add: directory_within_def shell_fs_def)
  show ?thesis
    using shell_runs_program [where d = ?d and s = "shell_session shell_image shell_fs ?cmd" and cmd = ?cmd,
        OF shell_session_ready(1,3,4) shell_session_current shell_session_ready(2)
          _ _ _ _ _ _ _ shell_session_free, unfolded shell_session_simps words d0]
      within dir facts(2) content by (auto simp: shell_entry not_backspace_def words)
qed

end
