(* ===== verification/Shell_Cat.thy ===== *)
theory Shell_Cat
  imports Shell_Runs
begin

text \<open>
  From the line \<open>cat\<close> and a file name, typed at the shell, to the file on the screen: the new process
  as \<open>execute\<close> leaves it meets what \<open>cat\<close> needs of the kernel.
\<close>

section \<open>What the kernel shares with every process\<close>

text \<open>The byte is outside the window of the programs and in the low 8 MB.\<close>

definition shared :: "kernel \<Rightarrow> u32 \<Rightarrow> bool" where
  "shared s a \<longleftrightarrow> outside_window a \<and> unat (tlb s a) < 0x800000"

definition screen_shared :: "kernel \<Rightarrow> bool" where
  "screen_shared s \<longleftrightarrow> (\<forall>k < 4000. shared s (video_mem (con s) + of_nat k))"

lemma shared_cong: "tlb t = tlb s \<Longrightarrow> shared t = shared s"
  by (simp add: shared_def fun_eq_iff)

lemma window_high:
  fixes b :: u32
  assumes "i < 6" "0x8000000 \<le> unat b" "unat b + n \<le> 0x8400000" "k < n"
  shows "0x800000 \<le> unat (tlb (set_up_paging (int i) v) (b + of_nat k))"
proof -
  have u: "unat (b + of_nat k) = unat b + k" by (rule unat_add_of_nat) (use assms in simp)
  have "0x800000 \<le> tlb (set_up_paging (int i) v) (b + of_nat k)"
    by (rule user_window_high) (use u assms in \<open>simp_all add: word_le_nat_alt word_less_nat_alt\<close>)
  then show ?thesis by (simp add: word_le_nat_alt)
qed

text \<open>Process \<open>i\<close> has been started in \<open>v\<close>, with the screen among the shared bytes.\<close>

definition newborn :: "nat \<Rightarrow> u8 list \<Rightarrow> kernel \<Rightarrow> kernel \<Rightarrow> bool" where
  "newborn i content v t \<longleftrightarrow> program_started i content v t \<and> i < 6 \<and> length content \<le> 0x3B8000 \<and>
     tlb_current v \<and> screen_shared v \<and> console_ok v"

lemma started_shared:
  assumes new: "newborn i content v t" and "shared v a"
  shows "tlb t a = tlb v a" "ld8 t a = ld8 v a"
proof -
  have started: "program_started i content v t" and i: "i < 6" and current: "tlb_current v"
    and size: "length content \<le> 0x3B8000"
    using new by (simp_all add: newborn_def)
  have p: "tlb (set_up_paging (int i) v) a = tlb v a"
    using assms tlb_outside_user_window [of a "int i" v] current
    by (simp add: shared_def outside_window_def tlb_current_def)
  show tlb: "tlb t a = tlb v a" using started p by (simp add: program_started_def)
  have "mem (store_bytes 0x8048000 content (set_up_paging (int i) v)) (tlb v a) = mem (set_up_paging (int i) v) (tlb v a)"
  proof (rule store_bytes_other)
    fix k assume "k < length content"
    then have "0x800000 \<le> unat (tlb (set_up_paging (int i) v) (0x8048000 + of_nat k))"
      using window_high [OF i, of "0x8048000" "length content" k v] size by simp
    then show "tlb v a \<noteq> tlb (set_up_paging (int i) v) (0x8048000 + of_nat k)"
      using assms by (auto simp: shared_def)
  qed
  then show "ld8 t a = ld8 v a"
    using started tlb by (simp add: ld8_def rd_def program_started_def)
qed

lemma started_screen:
  assumes new: "newborn i content v t"
  shows "screen_of t = screen_of v" "console_ok t" "screen_bytes t = screen_bytes v"
proof -
  have con: "con t = con v" and v: "screen_shared v" "console_ok v"
    using new by (simp_all add: newborn_def program_started_def)
  have same: "tlb t (video_mem (con v) + of_nat k) = tlb v (video_mem (con v) + of_nat k)"
    "ld8 t (video_mem (con v) + of_nat k) = ld8 v (video_mem (con v) + of_nat k)" if "k < 4000" for k
    using started_shared [OF new] v(1) that by (simp_all add: screen_shared_def)
  then have "vbyte t k = vbyte v k" if "k < 4000" for k using that by (simp add: vbyte_def con)
  then have "grid t r c = grid v r c" if "r < 25" "c < 80" for r c using that by (simp add: grid_def)
  then show "screen_of t = screen_of v" by (simp add: screen_of_def con cong: if_cong)
  show "screen_bytes t = screen_bytes v" using same by (simp add: screen_bytes_def con)
  have "inj_on (\<lambda>k. tlb t (video_mem (con v) + of_nat k)) {..<4000} =
      inj_on (\<lambda>k. tlb v (video_mem (con v) + of_nat k)) {..<4000}"
    by (rule inj_on_cong) (simp add: same)
  then show "console_ok t" using v(2) by (simp add: console_ok_def screen_mapped_def con)
qed

text \<open>A buffer in the window of the process is memory of its own.\<close>

lemma started_buffer:
  fixes b :: u32
  assumes new: "newborn i content v t" and b: "0x8000000 \<le> unat b" "unat b + n \<le> 0x8400000"
  shows "inj_on (\<lambda>k. tlb t (b + of_nat k)) {..<n}" "off_screen_buffer t b n"
    "shared v a \<Longrightarrow> tlb v a \<notin> screen_bytes v \<Longrightarrow> clear_of t b n a"
proof -
  have tlb: "tlb t = tlb (set_up_paging (int i) v)" and i: "i < 6" and v: "screen_shared v"
    using new by (simp_all add: newborn_def program_started_def)
  show "inj_on (\<lambda>k. tlb t (b + of_nat k)) {..<n}"
    unfolding tlb by (rule window_inj_at) (use i b in simp_all)
  have high: "0x800000 \<le> unat (tlb t (b + of_nat k))" if "k < n" for k
    unfolding tlb by (rule window_high [OF i b that])
  have "tlb t (b + of_nat k) \<notin> screen_bytes t" if "k < n" for k
  proof
    assume "tlb t (b + of_nat k) \<in> screen_bytes t"
    then have "unat (tlb t (b + of_nat k)) < 0x800000"
      using v unfolding started_screen(3) [OF new]
      by (auto simp: screen_bytes_def screen_shared_def shared_def)
    then show False using high [OF that] by simp
  qed
  then show "off_screen_buffer t b n" by (simp add: off_screen_buffer_def)
  show "clear_of t b n a" if "shared v a" "tlb v a \<notin> screen_bytes v"
    using that high started_shared(1) [OF new that(1)] started_screen(3) [OF new]
    by (fastforce simp: clear_of_def shared_def)
qed

text \<open>The two terminal descriptors and no other.\<close>

lemma started_files:
  assumes new: "newborn i content v t" and "curr_pcb t = pcb_addr (int i)"
  shows "flags_ok (current t)" "\<not> fd_in_use (current t) 2" "\<forall>j < 2. fd_in_use (current t) j"
    "fop_write (file_op_tb (file_descriptor (current t) 1)) = Fn_terminal_write"
proof -
  obtain f where "file_descriptor (current t) = fresh_files f"
    using assms by (auto simp: newborn_def program_started_def current_def)
  then show "flags_ok (current t)" "\<not> fd_in_use (current t) 2" "\<forall>j < 2. fd_in_use (current t) j"
    "fop_write (file_op_tb (file_descriptor (current t) 1)) = Fn_terminal_write"
    by (auto simp: flags_ok_def fd_in_use_def fresh_files_def fill_loop_apply null_file_def stdout_table_def less_2_cases_iff)
qed

section \<open>cat at the shell\<close>

text \<open>The bytes of the image: shared, off the screen and outside the shell's array.\<close>

definition image_shared :: "kernel \<Rightarrow> u32 \<Rightarrow> nat \<Rightarrow> u32 \<Rightarrow> bool" where
  "image_shared s buf n a \<longleftrightarrow> shared s a \<and> clear_of s buf n a"

lemma announced_screen:
  assumes "console_ok u" "list_all not_backspace cmd"
  shows "console_ok (announced cmd i u)" "video_mem (con (announced cmd i u)) = video_mem (con u)"
    "screen_of (announced cmd i u) = fold emit (announcement cmd (get_scheduled_tid u)) (screen_of u)"
    "screen_bytes (announced cmd i u) = screen_bytes u"
proof -
  let ?s = "(cli u)\<lparr>pid_var := int i\<rparr>"
  have ok: "console_ok ?s" using assms(1) by (simp add: console_ok_def screen_mapped_def io_defs)
  have "grid ?s = grid u" by (simp add: grid_def vbyte_def ld8_def io_defs fun_eq_iff)
  then have "screen_of ?s = screen_of u" by (simp add: screen_of_def io_defs cong: if_cong)
  then show "console_ok (announced cmd i u)"
    "screen_of (announced cmd i u) = fold emit (announcement cmd (get_scheduled_tid u)) (screen_of u)"
    using fold_putc_sink(1,2) [OF ok announcement_quiet [OF assms(2)]] by (simp_all add: announced_def)
  show "video_mem (con (announced cmd i u)) = video_mem (con u)" by (simp add: announced_def io_defs)
  show "screen_bytes (announced cmd i u) = screen_bytes u"
    using announced_printed(1) [OF assms] by (simp add: unseen_def)
qed

text \<open>What the new process finds of the shell's state.\<close>

lemma newborn_shared:
  assumes ready: "session_ready c T buf n u" and on: "goes_on buf n s u" and started: "program_started i content (announced cmd i u) t"
    and i: "i < 6" and size: "length content \<le> 0x3B8000" and cmd: "list_all not_backspace cmd"
    and s: "tlb_current s" "screen_shared s"
  shows "newborn i content (announced cmd i u) t"
    "image_shared s buf n a \<Longrightarrow> shared (announced cmd i u) a \<and> tlb (announced cmd i u) a \<notin> screen_bytes (announced cmd i u)"
    "image_shared s buf n a \<Longrightarrow> ld8 t a = ld8 s a"
proof -
  let ?v = "announced cmd i u"
  have ok: "console_ok u" using ready by (simp add: session_ready_def)
  note on' = goes_onD [OF on] and v = announced_printed [OF ok cmd, of i] and scr = announced_screen [OF ok cmd, of i]
    and found = image_found [OF on ok cmd]
  have tlb: "tlb ?v = tlb s" using v(3) on'(2) by simp
  have "screen_shared ?v" using s(2) shared_cong [OF tlb] scr(2) on'(6) by (simp add: screen_shared_def)
  then show new: "newborn i content ?v t"
    using started i size found(2) [OF s(1)] scr(1) by (simp add: newborn_def)
  show *: "shared ?v a \<and> tlb ?v a \<notin> screen_bytes ?v" if "image_shared s buf n a"
    using that shared_cong [OF tlb] tlb scr(4) on'(2,6)
    by (simp add: image_shared_def clear_of_def screen_bytes_def)
  show "ld8 t a = ld8 s a" if a: "image_shared s buf n a"
  proof -
    have "image_byte s buf n a" using a by (simp add: image_shared_def image_byte_def shared_def)
    then show ?thesis using found(1) started_shared(2) [OF new] * [OF a] by metis
  qed
qed

text \<open>
  C11: \<open>cat\<close> and the name of a file, typed at the shell, show the file.  The shell starts \<open>cat\<close>; run
  from its first instruction with a buffer in its window, \<open>cat\<close> reads the file through the system
  calls and ends with 0, and what has come to the screen since the line was typed is the prompt,
  the kernel's announcement and the bytes of the file.
\<close>

theorem shell_cats_file:
  fixes s :: kernel and d e :: dentry and i :: nat
  defines "content \<equiv> file_content (ld8 s) (fs s) (inode_id d)"
    and "shown \<equiv> file_content (ld8 s) (fs s) (inode_id e)"
  assumes ready: "session_ready c shell_texts buf n s" "read_allowed s" "0 \<le> keyb_index (kb s)" "tlb_current s"
    and screen: "screen_shared s"
    and line: "typed_line s = cmd @ [10]" "0 \<notin> set cmd" "list_all not_backspace cmd" "length cmd < 127" "length cmd + 1 < n"
    and words: "first_word cmd = lit ''cat''" "second_word cmd \<noteq> []" "take 5 cmd \<noteq> lit ''shell''"
    and free: "find_pcb s 0 6 = Some i"
    and image: "directory_within (image_shared s buf n) (ld8 s) (fs s)"
      "file_within (image_shared s buf n) (ld8 s) (fs s) (inode_id d)"
      "file_within (image_shared s buf n) (ld8 s) (fs s) (inode_id e)"
    and program: "map_of (directory (ld8 s) (fs s)) (lit ''cat'') = Some d" "inode_id d \<le> num_inodes (ld8 s) (fs s) - 1"
      "40 \<le> length content" "length content \<le> 0x3B8000" "take 4 content = elf_magic"
    and regular: "map_of (directory (ld8 s) (fs s)) (take 32 (second_word cmd)) = Some e" "file_type e = 2"
      "inode_id e \<le> num_inodes (ld8 s) (fs s) - 1" "length shown < 2 ^ 31" "list_all not_backspace shown"
    and own: "0x8000000 \<le> unat cbuf" "unat cbuf + 1024 \<le> 0x83FFFFC"
  shows "\<exists>t t'. shell_loop c buf s =
      Option.bind (child c (word_at (\<lambda>a. array_of (take 4 (drop 24 content)) (unat a)) 0) 0x83FFFFC t)
        (\<lambda>(rval, v). Option.bind (report_status c rval v) (shell_loop c buf)) \<and>
    load_bytes (tlb t) (mem t) 0x8048000 (length content) = content \<and> cat c' cbuf t = Some (0, t') \<and>
    screen_of t' = fold emit (lit ''391OS> '' @ lit ''command is '' @ cmd @ [0x20, 0x0A] @ shown) (screen_of s)"
proof -
  have other: "cmd \<noteq> lit ''exit''" "cmd \<noteq> []" "length (first_word cmd) < 32"
    using words(1) by (auto simp: first_word_def)
  have found: "map_of (directory (ld8 s) (fs s)) (first_word cmd) = Some d" using program(1) words(1) by simp
  have byte: "image_byte s buf n a" if "image_shared s buf n a" for a
    using that by (simp add: image_shared_def image_byte_def shared_def)
  have within: "directory_within (image_byte s buf n) (ld8 s) (fs s)"
    using image(1) byte by (simp add: directory_within_def)
  obtain u t where t: "session_ready c shell_texts buf n u" "goes_on buf n s u"
    "screen_of u = fold emit (lit ''391OS> '') (screen_of s)" "program_started i content (announced cmd i u) t"
    "shell_loop c buf s =
      Option.bind (child c (word_at (\<lambda>a. array_of (take 4 (drop 24 content)) (unat a)) 0) 0x83FFFFC t)
        (\<lambda>(rval, v). Option.bind (report_status c rval v) (shell_loop c buf))"
    "curr_pcb t = pcb_addr (int i)" "cstr (argument (pcb_at t (pcb_addr (int i)))) (second_word cmd)"
    "load_bytes (tlb t) (mem t) 0x8048000 (length content) = content" "fs t = fs s"
    using command_entered [OF ready line other free within file_within_mono [OF image(2) byte] found
        program(2-5) [unfolded content_def]] unfolding content_def by blast
  let ?v = "announced cmd i u"
  have i6: "i < 6" using procs.search_free [OF TrueI free] by simp
  note new = newborn_shared [OF t(1,2,4) i6 program(4) line(3) ready(4) screen]
  note files = started_files [OF new(1) t(6)]
  have room: "unat cbuf + 1024 \<le> 0x8400000" using own(2) by simp
  note buffer = started_buffer [OF new(1) own(1) room] and scr = started_screen [OF new(1)]
  have clear: "clear_of t cbuf 1024 a" if "image_shared s buf n a" for a
    using buffer(3) new(2) [OF that] by simp
  have dir: "directory (ld8 t) (fs t) = directory (ld8 s) (fs s)"
    unfolding t(9) by (rule same_directory_within [OF image(1) new(3)])
  have same: "num_inodes (ld8 t) (fs t) = num_inodes (ld8 s) (fs s)" "file_content (ld8 t) (fs t) (inode_id e) = shown"
    "inode_length (ld8 t) (fs t) (inode_id e) = inode_length (ld8 s) (fs s) (inode_id e)"
    unfolding t(9) shown_def using same_file_within [OF image(3) new(3)] by (simp_all add: same_file_def)
  have image_t: "directory_within (clear_of t cbuf 1024) (ld8 t) (fs t)"
    "file_within (clear_of t cbuf 1024) (ld8 t) (fs t) (inode_id e)"
    unfolding t(9) using directory_within_same [OF image(1) new(3)] clear
      file_within_mono [OF file_within_same [OF image(3) new(3)] clear] by (simp_all add: directory_within_def)
  have "length (second_word cmd) < 1024" using second_word_length [of cmd] line(4) by simp
  moreover have "cstr (argument (current t)) (second_word cmd)" using t(6,7) by (simp add: current_def)
  moreover have "unat (inode_length (ld8 t) (fs t) (inode_id e)) < 2 ^ 31"
    using regular(4) by (simp add: same(3) shown_def)
  ultimately obtain t' where t': "cat c' cbuf t = Some (0, t')" "screen_of t' = fold emit shown (screen_of t)"
    using cat_prints_aux [of t 2 "second_word cmd" cbuf e c'] files words(2) own buffer(1,2) scr(2) dir regular(1-3,5)
      same image_t by auto
  have "console_ok u" using t(1) by (simp add: session_ready_def)
  from announced_screen(3) [OF this line(3), of i] have "screen_of ?v =
      fold emit (lit ''command is '' @ cmd @ [0x20, 0x0A]) (screen_of u)"
    using words(3) by (simp add: announcement_def)
  then have "screen_of t' = fold emit (lit ''391OS> '' @ lit ''command is '' @ cmd @ [0x20, 0x0A] @ shown) (screen_of s)"
    using t'(2) scr(1) t(3) by simp
  then show ?thesis using t(5,8) t'(1) by blast
qed

section \<open>An image with cat and a file\<close>

text \<open>Two entries: \<open>cat\<close>, an executable of 40 bytes, and \<open>hi\<close>, a file with the text \<open>Hi\<close>.\<close>

definition cat_image :: image where
  "cat_image a = (if a = 0x400000 then 2 else if a = 0x400004 then 2
     else if a = 0x400040 then 0x63 else if a = 0x400041 then 0x61 else if a = 0x400042 then 0x74
     else if a = 0x400060 then 2
     else if a = 0x400080 then 0x68 else if a = 0x400081 then 0x69
     else if a = 0x4000A0 then 2 else if a = 0x4000A4 then 1
     else if a = 0x401000 then 40 else if a = 0x402000 then 2 else if a = 0x402004 then 1
     else if a = 0x403000 then 0x7F else if a = 0x403001 then 0x45 else if a = 0x403002 then 0x4C
     else if a = 0x403003 then 0x46 else if a = 0x403019 then 0x80 else if a = 0x40301A then 0x04
     else if a = 0x40301B then 0x08
     else if a = 0x404000 then 0x48 else if a = 0x404001 then 0x69 else 0)"

definition cat_fs :: filesys where
  "cat_fs = \<lparr>boot_block = 0x400000, inodes = 0x401000, data_block = 0x403000,
     global_dentry = \<lparr>file_name = (\<lambda>_. 0), file_type = 0, inode_id = 0\<rparr>\<rparr>"

abbreviation cat_session :: kernel where
  "cat_session \<equiv> shell_session cat_image cat_fs (lit ''cat hi'')"

abbreviation cat_memory :: image where
  "cat_memory \<equiv> session_memory cat_image shell_texts"

lemma cat_low: "a < 0x8000000 \<Longrightarrow> cat_memory a = cat_image a"
  by (rule shell_session_low)

lemma cat_image_facts:
  "num_dir_entries cat_memory cat_fs = 2" "num_inodes cat_memory cat_fs = 2"
  "dir_name cat_memory cat_fs 0 = lit ''cat''" "dir_name cat_memory cat_fs 1 = lit ''hi''"
  "inode_length cat_memory cat_fs 0 = 40" "inode_block cat_memory cat_fs 0 0 = 0"
  "inode_length cat_memory cat_fs 1 = 2" "inode_block cat_memory cat_fs 1 0 = 1"
  by (simp_all add: num_dir_entries_def num_inodes_def cat_fs_def word_at_def cat_low cat_image_def
    dir_name_def string_in_def upt_conv_Cons dir_entry_addr_def inode_length_def inode_block_def)

abbreviation cat_entry :: "u32 \<Rightarrow> dentry" where
  "cat_entry k \<equiv> dentry_at cat_memory (dir_entry_addr cat_fs k)"

lemma cat_entry_fields: "inode_id (cat_entry 0) = 0" "inode_id (cat_entry 1) = 1" "file_type (cat_entry 1) = 2"
  by (simp_all add: dentry_at_def word_at_def cat_low dir_entry_addr_def cat_fs_def)
    (simp_all add: cat_image_def)

lemma cat_directory:
  "map_of (directory cat_memory cat_fs) (lit ''cat'') = Some (cat_entry 0)"
  "map_of (directory cat_memory cat_fs) (lit ''hi'') = Some (cat_entry 1)"
  using cat_image_facts(1,3,4) by (simp_all add: directory_def upt_conv_Cons)

lemma cat_contents:
  "length (file_content cat_memory cat_fs 0) = 40" "take 4 (file_content cat_memory cat_fs 0) = elf_magic"
  "take 4 (drop 24 (file_content cat_memory cat_fs 0)) = [0, 0x80, 4, 8]"
  "file_content cat_memory cat_fs 1 = lit ''Hi''"
proof -
  have "file_byte cat_memory cat_fs 0 k = cat_image (0x403000 + of_nat k)" if "k < 40" for k
  proof -
    have "unat (0x403000 + of_nat k :: u32) = 0x403000 + k"
      using that unat_of_nat_u32 [of "0x403000 + k"] by simp
    then have "cat_memory (0x403000 + of_nat k) = cat_image (0x403000 + of_nat k)"
      using that by (intro cat_low) (simp add: word_less_nat_alt)
    then show ?thesis using that cat_image_facts(6) by (simp add: file_byte_def block_addr_def cat_fs_def)
  qed
  then have c: "file_content cat_memory cat_fs 0 = map (\<lambda>k. cat_image (0x403000 + of_nat k)) [0..<40]"
    using cat_image_facts(5) by (simp add: file_content_def)
  show "length (file_content cat_memory cat_fs 0) = 40" by (simp add: c)
  show "take 4 (file_content cat_memory cat_fs 0) = elf_magic"
    by (simp add: c take_map upt_conv_Cons cat_image_def elf_magic_def)
  show "take 4 (drop 24 (file_content cat_memory cat_fs 0)) = [0, 0x80, 4, 8]"
    by (simp add: c take_map drop_map upt_conv_Cons cat_image_def)
  have "data_block cat_fs = 0x403000" by (simp add: cat_fs_def)
  then show "file_content cat_memory cat_fs 1 = lit ''Hi''"
    using cat_image_facts(7,8)
    by (simp add: file_content_def file_byte_def block_addr_def upt_conv_Cons cat_low cat_image_def)
qed

lemma cat_shared:
  assumes a: "0x400000 \<le> unat a" "unat a < 0x800000"
  shows "image_shared cat_session 0x9000000 1024 a"
proof -
  have "0x400000 \<le> a" "a < 0x800000" using a by (simp_all add: word_le_nat_alt word_less_nat_alt)
  from shell_session_byte [OF this] show ?thesis
    using a(2) by (simp add: image_shared_def image_byte_def shared_def shell_session_simps(1))
qed

lemma cat_within:
  "directory_within (image_shared cat_session 0x9000000 1024) cat_memory cat_fs"
  "file_within (image_shared cat_session 0x9000000 1024) cat_memory cat_fs 0"
  "file_within (image_shared cat_session 0x9000000 1024) cat_memory cat_fs 1"
proof -
  have byte: "image_shared cat_session 0x9000000 1024 (b + of_nat k)"
    if "0x400000 \<le> unat b" "unat b + k < 0x800000" for b :: u32 and k
    using unat_add_of_nat [of b k] that by (intro cat_shared) simp_all
  have f: "boot_block cat_fs = 0x400000" "inodes cat_fs = 0x401000" "data_block cat_fs = 0x403000"
    by (simp_all add: cat_fs_def)
  show "directory_within (image_shared cat_session 0x9000000 1024) cat_memory cat_fs"
    using byte by (simp add: directory_within_def cat_image_facts(1) f)
  show "file_within (image_shared cat_session 0x9000000 1024) cat_memory cat_fs 0"
    "file_within (image_shared cat_session 0x9000000 1024) cat_memory cat_fs 1"
    using byte unfolding file_within_def cat_image_facts(5,7) block_addr_def f by (auto simp: cat_image_facts(6,8))
qed

lemma cat_screen: "screen_shared cat_session"
proof -
  have "shared cat_session (0xB8000 + of_nat k)" if "k < 4000" for k
  proof -
    have u: "unat (0xB8000 + of_nat k :: u32) = 0xB8000 + k" using that unat_of_nat_u32 [of "0xB8000 + k"] by simp
    then have "unat (0xB8000 + of_nat k :: u32) div 2 ^ 22 = 0" using that by simp
    then show ?thesis
      using u that by (simp add: shared_def outside_window_def dir_index shell_session_simps(1))
  qed
  then show ?thesis by (simp add: screen_shared_def shell_session_simps(3)) (simp add: static_kernel_def)
qed

text \<open>\<open>cat hi\<close> shows \<open>Hi\<close>.\<close>

theorem shell_cats_file_witness:
  "\<exists>t t'. shell_loop (session_setting shell_texts) 0x9000000 cat_session =
      Option.bind (child (session_setting shell_texts) 0x8048000 0x83FFFFC t)
        (\<lambda>(rval, v). Option.bind (report_status (session_setting shell_texts) rval v)
          (shell_loop (session_setting shell_texts) 0x9000000)) \<and>
    cat idle_setting 0x8050000 t = Some (0, t') \<and>
    screen_of t' = fold emit (lit ''391OS> command is cat hi '' @ [0x0A] @ lit ''Hi'') (screen_of cat_session)"
proof -
  let ?cmd = "lit ''cat hi''"
  have words: "first_word ?cmd = lit ''cat''" "second_word ?cmd = lit ''hi''"
    by (simp_all add: second_word_def first_word_def after_word_def)
  have sizes: "40 \<le> length (file_content cat_memory cat_fs 0)" "length (file_content cat_memory cat_fs 0) \<le> 0x3B8000"
    by (simp_all only: cat_contents(1))
  note hyps = shell_session_simps(2,5) [of cat_image cat_fs ?cmd]
  show ?thesis
    using shell_cats_file [where s = cat_session and d = "cat_entry 0" and e = "cat_entry 1" and cmd = ?cmd
        and cbuf = "0x8050000" and c' = idle_setting,
        OF shell_session_ready(1,3,4) shell_session_current cat_screen shell_session_ready(2)
          _ _ _ _ _ _ _ shell_session_free, unfolded hyps words cat_entry_fields]
      cat_within cat_directory cat_image_facts(2) cat_contents sizes by (auto simp: shell_entry not_backspace_def words)
qed

end
