(* ===== verification/User_Signals.thy ===== *)
theory User_Signals
  imports User_Programs
begin

text \<open>
  \<open>src/syscalls/ece391sigtest.c\<close>, the test of signals.  The kernel takes \<open>set_handler\<close> and delivers no
  signal: the program is ended by the page fault that its handler was to repair.
\<close>

text \<open>The addresses of its variables.\<close>

record sigtest_vars =
  charbuf :: u32
  badbuf :: u32
  buf_var :: u32
  key_var :: u32
  signum_var :: u32
  segfault_entry :: u32
  alarm_entry :: u32

text \<open>A program halts with a status or is ended by an exception.\<close>

datatype program_end = Halts int | Faults nat

definition say_signum :: "setting \<Rightarrow> int \<Rightarrow> kernel \<Rightarrow> kernel option" where
  "say_signum c signum s =
     say_literal c (nl (if signum = 0 then ''0'' else if signum = 1 then ''1'' else if signum = 2 then ''2''
       else if signum = 3 then ''3'' else ''invalid'')) s"

definition segfault_sighandler :: "setting \<Rightarrow> sigtest_vars \<Rightarrow> int \<Rightarrow> kernel \<Rightarrow> kernel option" where
  "segfault_sighandler c v signum s =
     Option.bind (say_literal c ''Segfault signal handler called, signum: '' s) (\<lambda>s1.
     Option.bind (say_signum c signum s1) (\<lambda>s2.
     Option.bind (say_literal c (nl ''Press enter to continue...'') s2) (\<lambda>s3.
     Option.bind (ece391_read c 0 (key_var v) 1 s3) (\<lambda>(r, s4).
       say_literal c (nl ''Signal handler returning'')
         (st32 (signum_var v + 7 * 4) (charbuf v) (st32 (badbuf v) (charbuf v) s4))))))"

definition alarm_sighandler :: "setting \<Rightarrow> int \<Rightarrow> kernel \<Rightarrow> kernel option" where
  "alarm_sighandler c signum s =
     Option.bind (say_literal c ''Alarm signal handler called, signum: '' s) (say_signum c signum)"

text \<open>\<open>*badbuf = 1\<close>, where \<open>badbuf\<close> is the null pointer: it faults unless page 0 is mapped.\<close>

definition sigtest_rest :: "setting \<Rightarrow> sigtest_vars \<Rightarrow> int \<Rightarrow> kernel \<Rightarrow> (program_end \<times> kernel) option" where
  "sigtest_rest c v cnt s =
     (let bad = word_at (ld8 s) (badbuf v) in
      if walk (pg s) bad = None then Some (Faults 14, s)
      else Option.bind (say_literal c ''Hello, '' (st8 (buf_var v + of_int cnt) 0 (st8 bad 1 s))) (\<lambda>s1.
           Option.bind (ece391_fdputs c 1 (buf_var v) s1) (\<lambda>s2.
             map_option (\<lambda>t. (Halts 0, t))
               (say_literal c (nl (if ld8 s2 (charbuf v) = 1 then ''success'' else ''failure'')) s2))))"

definition sigtest :: "setting \<Rightarrow> sigtest_vars \<Rightarrow> kernel \<Rightarrow> (program_end \<times> kernel) option" where
  "sigtest c v s =
     Option.bind (ece391_getargs c (buf_var v) 1024 s) (\<lambda>(r, s1).
       if r \<noteq> 0 then map_option (\<lambda>(n, t). (Halts n, t)) (give_up c (nl ''could not read argument'') 3 s1)
       else Option.bind
         (if ld8 s1 (buf_var v) = 0x31
          then Option.bind (say_literal c (nl ''Installing signal handlers'') s1) (\<lambda>s2.
               Option.bind (ece391_set_handler c 1 (segfault_entry v) s2) (\<lambda>(r2, s3).
                 map_option snd (ece391_set_handler c 3 (alarm_entry v) s3)))
          else Some s1) (\<lambda>s4.
         Option.bind (say_literal c (''Hi, what'' @ [CHR 0x27] @ ''s your name? '') s4) (\<lambda>s5.
         Option.bind (ece391_read c 0 (buf_var v) 1023 s5) (\<lambda>(cnt, s6).
           if cnt = -1 then map_option (\<lambda>(n, t). (Halts n, t))
             (give_up c (nl (''Can'' @ [CHR 0x27] @ ''t read name from keyboard.'')) 3 s6)
           else sigtest_rest c v cnt s6))))"

text \<open>Without page 0 the program never says whether it succeeded.\<close>

lemma sigtest_faults:
  assumes "word_at (ld8 s) (badbuf v) = 0" and "walk (pg s) 0 = None"
  shows "sigtest_rest c v cnt s = Some (Faults 14, s)"
  using assms by (simp add: sigtest_rest_def)

end
