(* ===== verification/Fish_Blink.thy ===== *)
theory Fish_Blink
  imports Filesystem
begin

text \<open>
  The blinking characters of the demo \<open>src/fish\<close>: \<open>blink.S\<close> with its structure (\<open>blink.h\<close>) and the
  allocator in \<open>fish.c\<close>.  The blinks are a linked list through the array \<open>blink_array\<close>; a pointer to
  one is its index, \<open>None\<close> the null pointer.  The array is a store of its own beside the memory, which
  holds the mapped screen and the variable \<open>vmem_base_addr\<close>, at address \<open>vp\<close>.  A walk along the list is
  a \<open>partial_function\<close>: it need not end.
\<close>

section \<open>Data (blink.h, fish.c)\<close>

record mp1_blink_struct =
  location :: u16
  on_char :: u8
  off_char :: u8
  on_length :: u16
  off_length :: u16
  countdown :: u16
  status :: u16
  next_blink :: "nat option"

definition zero_blink :: mp1_blink_struct where
  "zero_blink = \<lparr>location = 0, on_char = 0, off_char = 0, on_length = 0, off_length = 0,
     countdown = 0, status = 0, next_blink = None\<rparr>"

record fish =
  mp1_list_head :: "nat option"
  blink_array :: "nat \<Rightarrow> mp1_blink_struct"

definition upd_blink :: "nat \<Rightarrow> (mp1_blink_struct \<Rightarrow> mp1_blink_struct) \<Rightarrow> fish \<Rightarrow> fish" where
  "upd_blink i g f = f\<lparr>blink_array := (blink_array f)(i := g (blink_array f i))\<rparr>"

text \<open>The program at its start: static data is zero.\<close>

definition blank_fish :: fish where
  "blank_fish = \<lparr>mp1_list_head = None, blink_array = (\<lambda>_. zero_blink)\<rparr>"

section \<open>Allocation (fish.c)\<close>

definition mp1_malloc :: "fish \<Rightarrow> nat option" where
  "mp1_malloc f = find (\<lambda>i. location (blink_array f i) = 0) [0..<80 * 25]"

definition mp1_free :: "nat \<Rightarrow> fish \<Rightarrow> fish" where
  "mp1_free i f = upd_blink i (\<lambda>_. zero_blink) f"

section \<open>The routines of blink.S\<close>

definition mp1_poke :: "u32 \<Rightarrow> u8 \<Rightarrow> u32 \<Rightarrow> kernel \<Rightarrow> kernel" where
  "mp1_poke vp cl eax s = st8 (word_at (ld8 s) vp + eax) cl s"

definition screen_offset :: "mp1_blink_struct \<Rightarrow> u32" where
  "screen_offset b = push_bit 1 (ucast (location b))"

partial_function (option) tasklet_loop :: "u32 \<Rightarrow> nat option \<Rightarrow> fish \<Rightarrow> kernel \<Rightarrow> (fish \<times> kernel) option" where
  "tasklet_loop vp ebx f s =
     (case ebx of
       None \<Rightarrow> Some (f, s)
     | Some i \<Rightarrow>
         let f1 = upd_blink i (\<lambda>b. b\<lparr>countdown := countdown b - 1\<rparr>) f;
             b = blink_array f1 i
         in if sint (countdown b) > 0 then tasklet_loop vp (next_blink b) f1 s
            else if status b AND 1 = 0
            then tasklet_loop vp (next_blink b)
                   (upd_blink i (\<lambda>b. b\<lparr>countdown := on_length b, status := status b XOR 1\<rparr>) f1)
                   (mp1_poke vp (on_char b) (screen_offset b) s)
            else tasklet_loop vp (next_blink b)
                   (upd_blink i (\<lambda>b. b\<lparr>countdown := off_length b, status := status b XOR 1\<rparr>) f1)
                   (mp1_poke vp (off_char b) (screen_offset b) s))"

definition mp1_rtc_tasklet :: "u32 \<Rightarrow> fish \<Rightarrow> kernel \<Rightarrow> (fish \<times> kernel) option" where
  "mp1_rtc_tasklet vp f s = tasklet_loop vp (mp1_list_head f) f s"

partial_function (option) find_loop :: "u16 \<Rightarrow> nat option \<Rightarrow> fish \<Rightarrow> nat option option" where
  "find_loop ax ebx f =
     (case ebx of
       None \<Rightarrow> Some None
     | Some i \<Rightarrow> if location (blink_array f i) = ax then Some (Some i)
                 else find_loop ax (next_blink (blink_array f i)) f)"

definition mp1_find_helper :: "u32 \<Rightarrow> fish \<Rightarrow> nat option option" where
  "mp1_find_helper arg f = find_loop (ucast arg) (mp1_list_head f) f"

definition mp1_ioctl_add :: "u32 \<Rightarrow> mp1_blink_struct \<Rightarrow> fish \<Rightarrow> kernel \<Rightarrow> int \<times> fish \<times> kernel" where
  "mp1_ioctl_add vp user f s =
     (if location user \<ge> 80 * 25 then (-1, f, s)
      else let temp = user\<lparr>status := 1, countdown := on_length user\<rparr> in
        case mp1_malloc f of
          None \<Rightarrow> (-1, f, s)
        | Some i \<Rightarrow>
            let f1 = upd_blink i (\<lambda>_. temp) f;
                f2 = (upd_blink i (\<lambda>b. b\<lparr>next_blink := mp1_list_head f1\<rparr>) f1)\<lparr>mp1_list_head := Some i\<rparr>;
                b = blink_array f2 i
            in (0, f2, mp1_poke vp (on_char b) (screen_offset b) s))"

text \<open>
  A cell that holds a pointer of the list: \<open>None\<close> is \<open>mp1_list_head\<close>, \<open>Some i\<close> the link of blink \<open>i\<close>.
  The search for the cell that points to the blink has no test for the end of the list; past it
  the program would fault.
\<close>

definition cell :: "nat option \<Rightarrow> fish \<Rightarrow> nat option" where
  "cell c f = (case c of None \<Rightarrow> mp1_list_head f | Some i \<Rightarrow> next_blink (blink_array f i))"

definition set_cell :: "nat option \<Rightarrow> nat option \<Rightarrow> fish \<Rightarrow> fish" where
  "set_cell c p f = (case c of None \<Rightarrow> f\<lparr>mp1_list_head := p\<rparr>
     | Some i \<Rightarrow> upd_blink i (\<lambda>b. b\<lparr>next_blink := p\<rparr>) f)"

partial_function (option) remove_find_prev :: "nat \<Rightarrow> nat option \<Rightarrow> fish \<Rightarrow> nat option option" where
  "remove_find_prev eax edx f =
     (case cell edx f of
       None \<Rightarrow> None
     | Some i \<Rightarrow> if i = eax then Some edx else remove_find_prev eax (Some i) f)"

definition mp1_ioctl_remove :: "u32 \<Rightarrow> fish \<Rightarrow> (int \<times> fish) option" where
  "mp1_ioctl_remove arg f =
     Option.bind (mp1_find_helper arg f) (\<lambda>p. case p of
       None \<Rightarrow> Some (-1, f)
     | Some i \<Rightarrow> Option.bind (remove_find_prev i None f) (\<lambda>edx.
         Some (0, mp1_free i (set_cell edx (next_blink (blink_array f i)) f))))"

text \<open>
  \<open>cmovl\<close> moves when the sign flag differs from the overflow flag; \<open>testb\<close> clears the overflow flag
  and sets the sign flag to the highest bit of the byte it computes.
\<close>

definition sync_char :: "mp1_blink_struct \<Rightarrow> u8" where
  "sync_char b =
     (let test = (ucast (status b) :: u8) AND 1; sign_flag = bit test 7; overflow_flag = False
      in if sign_flag \<noteq> overflow_flag then on_char b else off_char b)"

definition mp1_ioctl_sync :: "u32 \<Rightarrow> u32 \<Rightarrow> fish \<Rightarrow> kernel \<Rightarrow> (int \<times> fish \<times> kernel) option" where
  "mp1_ioctl_sync vp arg f s =
     Option.bind (mp1_find_helper (drop_bit 16 arg) f) (\<lambda>p. case p of
       None \<Rightarrow> Some (-1, f, s)
     | Some esi \<Rightarrow> Option.bind (mp1_find_helper (arg AND 0xFFFF) f) (\<lambda>q. case q of
         None \<Rightarrow> Some (-1, f, s)
       | Some edi \<Rightarrow>
           let a = blink_array f esi;
               f1 = upd_blink edi (\<lambda>b. b\<lparr>on_length := on_length a, off_length := off_length a,
                      countdown := countdown a, status := status a\<rparr>) f;
               b = blink_array f1 edi
           in Some (0, f1, mp1_poke vp (sync_char b) (screen_offset b) s)))"

text \<open>The caller's structure is read for its location and overwritten with the one found.\<close>

definition mp1_ioctl_find :: "mp1_blink_struct \<Rightarrow> fish \<Rightarrow> (int \<times> mp1_blink_struct) option" where
  "mp1_ioctl_find user f =
     Option.bind (mp1_find_helper (ucast (location user)) f) (\<lambda>p. case p of
       None \<Rightarrow> Some (-1, user)
     | Some i \<Rightarrow> Some (0, blink_array f i))"

text \<open>
  The jump through \<open>call_table\<close>.  \<open>user\<close> is the structure \<open>arg\<close> points to, for the commands that take a
  pointer; the second result is that structure afterwards.  There is no check of the command: past
  the table the code jumps to whatever word follows it.
\<close>

definition mp1_ioctl :: "u32 \<Rightarrow> u32 \<Rightarrow> mp1_blink_struct \<Rightarrow> u32 \<Rightarrow> fish \<Rightarrow> kernel
    \<Rightarrow> (int \<times> mp1_blink_struct \<times> fish \<times> kernel) option" where
  "mp1_ioctl vp arg user cmd f s =
     (if cmd = 0 then (let (r, f1, s1) = mp1_ioctl_add vp user f s in Some (r, user, f1, s1))
      else if cmd = 1 then map_option (\<lambda>(r, f1). (r, user, f1, s)) (mp1_ioctl_remove arg f)
      else if cmd = 2 then map_option (\<lambda>(r, u). (r, u, f, s)) (mp1_ioctl_find user f)
      else if cmd = 3 then map_option (\<lambda>(r, f1, s1). (r, user, f1, s1)) (mp1_ioctl_sync vp arg f s)
      else None)"

end
