(* ===== verification/Fish.thy ===== *)
theory Fish
  imports User_Lib Fish_Blink
begin

text \<open>
  \<open>src/fish/fish.c\<close>: the demo that shows two pictures in turn.  It maps the screen into its memory, turns
  each place where one of the pictures has a character into a blink, and lets the blinks tick with the
  real time clock.  \<open>fish_vars\<close> holds the addresses of the variables the program hands to the kernel.
\<close>

record fish_vars =
  vmem_base_addr :: u32
  file0 :: u32
  file1 :: u32
  c0_var :: u32
  c1_var :: u32
  ret_val :: u32
  garbage :: u32

abbreviation newline :: u8 where "newline \<equiv> 0x0A"

abbreviation blank :: u8 where "blank \<equiv> 0x20"

definition mp1_set_video_mode :: "setting \<Rightarrow> fish_vars \<Rightarrow> kernel \<Rightarrow> (u32 \<times> kernel) option" where
  "mp1_set_video_mode c v s =
     map_option (\<lambda>(r, s1). (if r = -1 then 0 else word_at (ld8 s1) (vmem_base_addr v), s1))
       (ece391_vidmap c (vmem_base_addr v) s)"

section \<open>The pictures\<close>

text \<open>One character of a picture: past the end of its line nothing is read.\<close>

definition read_cell :: "setting \<Rightarrow> int \<Rightarrow> u32 \<Rightarrow> bool \<Rightarrow> kernel \<Rightarrow> (bool \<times> kernel) option" where
  "read_cell c fd a eof s =
     (if ld8 s a \<noteq> newline
      then map_option (\<lambda>(num_bytes, s1). if num_bytes = 0 then (True, st8 a newline s1) else (eof, s1))
             (ece391_read c fd a 1 s)
      else Some (eof, s))"

definition frame_blink :: "mp1_blink_struct \<Rightarrow> u8 \<Rightarrow> u8 \<Rightarrow> int \<Rightarrow> int \<Rightarrow> mp1_blink_struct" where
  "frame_blink blink_struct c0 c1 row col =
     blink_struct\<lparr>on_char := (if c0 = newline then blank else c0), off_char := (if c1 = newline then blank else c1),
       location := of_int (row * 80 + col + 40)\<rparr>"

text \<open>The inner loop, one line of both pictures.\<close>

partial_function (option) frame_row :: "setting \<Rightarrow> fish_vars \<Rightarrow> mp1_blink_struct \<Rightarrow> int \<Rightarrow> int \<Rightarrow> int \<Rightarrow> int
    \<Rightarrow> bool \<Rightarrow> bool \<Rightarrow> fish \<Rightarrow> kernel \<Rightarrow> (bool \<times> bool \<times> fish \<times> kernel) option" where
  "frame_row c v blink_struct fd0 fd1 row col eof0 eof1 f s =
     Option.bind (read_cell c fd0 (c0_var v) eof0 s) (\<lambda>(eof0', s1).
     Option.bind (read_cell c fd1 (c1_var v) eof1 s1) (\<lambda>(eof1', s2).
       let c0 = ld8 s2 (c0_var v); c1 = ld8 s2 (c1_var v) in
       if c0 = newline \<and> c1 = newline then Some (eof0', eof1', f, s2)
       else if c0 \<noteq> blank \<and> c0 \<noteq> newline \<or> c1 \<noteq> blank \<and> c1 \<noteq> newline
       then Option.bind (mp1_ioctl (vmem_base_addr v) 0 (frame_blink blink_struct c0 c1 row col) 0 f s2)
              (\<lambda>(r, u, f1, s3). frame_row c v blink_struct fd0 fd1 row (col + 1) eof0' eof1' f1 s3)
       else frame_row c v blink_struct fd0 fd1 row (col + 1) eof0' eof1' f s2))"

text \<open>After a line: a picture that has ended is closed, at every later line again.\<close>

definition line_done :: "setting \<Rightarrow> int \<Rightarrow> u32 \<Rightarrow> bool \<Rightarrow> kernel \<Rightarrow> kernel option" where
  "line_done c fd a eof s =
     (if eof then map_option snd (ece391_close c fd (st8 a newline s)) else Some (st8 a 0x30 s))"

partial_function (option) frame_rows :: "setting \<Rightarrow> fish_vars \<Rightarrow> mp1_blink_struct \<Rightarrow> int \<Rightarrow> int \<Rightarrow> int
    \<Rightarrow> bool \<Rightarrow> bool \<Rightarrow> fish \<Rightarrow> kernel \<Rightarrow> (fish \<times> kernel) option" where
  "frame_rows c v blink_struct fd0 fd1 row eof0 eof1 f s =
     (if \<not> eof0 \<or> \<not> eof1
      then Option.bind (frame_row c v blink_struct fd0 fd1 row 0 eof0 eof1 f s) (\<lambda>(eof0', eof1', f1, s1).
           Option.bind (line_done c fd0 (c0_var v) eof0' s1) (\<lambda>s2.
           Option.bind (line_done c fd1 (c1_var v) eof1' s2) (\<lambda>s3.
             frame_rows c v blink_struct fd0 fd1 (row + 1) eof0' eof1' f1 s3)))
      else Some (f, s))"

text \<open>
  \<open>Inl\<close> is the \<open>ece391_halt (-1)\<close> when a picture cannot be opened.  \<open>blink_struct\<close> is the local
  variable, which starts uninitialised.
\<close>

definition add_frames :: "setting \<Rightarrow> fish_vars \<Rightarrow> mp1_blink_struct \<Rightarrow> fish \<Rightarrow> kernel
    \<Rightarrow> ((int + fish) \<times> kernel) option" where
  "add_frames c v blink_struct f s =
     (let blink = blink_struct\<lparr>on_length := 15, off_length := 15\<rparr>; s0 = st8 (c1_var v) 0x30 (st8 (c0_var v) 0x30 s) in
      Option.bind (ece391_open c (file0 v) s0) (\<lambda>(fd0, s1).
        if fd0 < 0 then Some (Inl (-1), s1)
        else Option.bind (ece391_open c (file1 v) s1) (\<lambda>(fd1, s2).
          if fd1 < 0 then Some (Inl (-1), s2)
          else map_option (\<lambda>(f1, s3). (Inr f1, s3)) (frame_rows c v blink fd0 fd1 0 False False f s2))))"

section \<open>The program\<close>

text \<open>\<open>WAIT\<close> turns of the clock.\<close>

fun wait_ticks :: "setting \<Rightarrow> fish_vars \<Rightarrow> int \<Rightarrow> nat \<Rightarrow> fish \<Rightarrow> kernel \<Rightarrow> (fish \<times> kernel) option" where
  "wait_ticks c v rtc_fd 0 f s = Some (f, s)"
| "wait_ticks c v rtc_fd (Suc n) f s =
     Option.bind (ece391_read c rtc_fd (garbage v) 4 s) (\<lambda>(r, s1).
     Option.bind (mp1_rtc_tasklet (vmem_base_addr v) f s1) (\<lambda>(f1, s2). wait_ticks c v rtc_fd n f1 s2))"

definition fish_main :: "setting \<Rightarrow> fish_vars \<Rightarrow> mp1_blink_struct \<Rightarrow> mp1_blink_struct \<Rightarrow> fish \<Rightarrow> kernel
    \<Rightarrow> (int \<times> kernel) option" where
  "fish_main c v frames_struct blink_struct f s =
     (let vp = vmem_base_addr v; f0 = f\<lparr>blink_array := (\<lambda>i. if i < 80 * 25 then zero_blink else blink_array f i)\<rparr>;
          blink = blink_struct\<lparr>on_char := 0x49, off_char := 0x4D, on_length := 7, off_length := 6, location := 6 * 80 + 60\<rparr> in
      Option.bind (mp1_set_video_mode c v s) (\<lambda>(base, s1).
        if base = 0 then Some (-1, s1)
        else Option.bind (ece391_open c (literal c ''rtc'') s1) (\<lambda>(rtc_fd, s2).
          Option.bind (add_frames c v frames_struct f0 s2) (\<lambda>(r, s3).
            case r of
              Inl halted \<Rightarrow> Some (halted, s3)
            | Inr f1 \<Rightarrow>
              Option.bind (ece391_write c rtc_fd (ret_val v) 4 (st32 (ret_val v) 32 s3)) (\<lambda>(w, s4).
              Option.bind (wait_ticks c v rtc_fd 100 f1 (st32 (ret_val v) (of_int w) s4)) (\<lambda>(f2, s5).
              Option.bind (mp1_ioctl vp 0 blink 0 f2 s5) (\<lambda>(_, _, f3, s6).
              Option.bind (wait_ticks c v rtc_fd 100 f3 s6) (\<lambda>(f4, s7).
              Option.bind (mp1_ioctl vp (push_bit 16 40 OR (6 * 80 + 60)) blink 3 f4 s7) (\<lambda>(_, _, f5, s8).
              Option.bind (wait_ticks c v rtc_fd 100 f5 s8) (\<lambda>(f6, s9).
              Option.bind (mp1_ioctl vp (6 * 80 + 60) blink 1 f6 s9) (\<lambda>(_, _, f7, s10).
              Option.bind (wait_ticks c v rtc_fd 100 f7 s10) (\<lambda>(f8, s11).
                map_option (\<lambda>(r, t). (0, t)) (ece391_close c rtc_fd s11)))))))))))))"

end
