(* ===== verification/Fish_List.thy ===== *)
theory Fish_List
  imports Fish_Blink
begin

text \<open>
  What \<open>blink.S\<close> promises: a list of blinks, newest first, on which the commands and the ticks of the
  clock act.  \<open>represents\<close> relates it to the pointers, and every command and tick is shown to return
  and to do to the pointers what the specification does to the list.
\<close>

section \<open>The specification\<close>

abbreviation plain :: "mp1_blink_struct \<Rightarrow> mp1_blink_struct" where
  "plain b \<equiv> b\<lparr>next_blink := None\<rparr>"

abbreviation at :: "u16 \<Rightarrow> mp1_blink_struct \<Rightarrow> bool" where
  "at l b \<equiv> location b = l"

fun change_first :: "u16 \<Rightarrow> (mp1_blink_struct \<Rightarrow> mp1_blink_struct) \<Rightarrow> mp1_blink_struct list \<Rightarrow> mp1_blink_struct list" where
  "change_first l g [] = []"
| "change_first l g (b # bs) = (if location b = l then g b # bs else b # change_first l g bs)"

fun drop_first :: "u16 \<Rightarrow> mp1_blink_struct list \<Rightarrow> mp1_blink_struct list" where
  "drop_first l [] = []"
| "drop_first l (b # bs) = (if location b = l then bs else b # drop_first l bs)"

definition fresh_blink :: "mp1_blink_struct \<Rightarrow> mp1_blink_struct" where
  "fresh_blink b = b\<lparr>status := 1, countdown := on_length b, next_blink := None\<rparr>"

definition in_step :: "mp1_blink_struct \<Rightarrow> mp1_blink_struct \<Rightarrow> mp1_blink_struct" where
  "in_step a b = b\<lparr>on_length := on_length a, off_length := off_length a, countdown := countdown a, status := status a\<rparr>"

text \<open>What is drawn: characters with their places, in order.\<close>

abbreviation draw :: "u32 \<Rightarrow> (u8 \<times> u32) list \<Rightarrow> kernel \<Rightarrow> kernel" where
  "draw vp ps \<equiv> fold (\<lambda>(c, off). mp1_poke vp c off) ps"

text \<open>One command: its result, the structure handed back, the list and what is drawn.\<close>

definition list_command :: "u32 \<Rightarrow> mp1_blink_struct \<Rightarrow> u32 \<Rightarrow> mp1_blink_struct list
    \<Rightarrow> int \<times> mp1_blink_struct \<times> mp1_blink_struct list \<times> (u8 \<times> u32) list" where
  "list_command arg user cmd bs =
     (if cmd = 0 then
        (if location user < 2000 \<and> length bs < 2000
         then (0, user, fresh_blink user # bs, [(on_char user, screen_offset user)])
         else (-1, user, bs, []))
      else if cmd = 1 then
        (if find (at (ucast arg)) bs = None then (-1, user, bs, []) else (0, user, drop_first (ucast arg) bs, []))
      else if cmd = 2 then
        (case find (at (location user)) bs of None \<Rightarrow> (-1, user, bs, []) | Some b \<Rightarrow> (0, b, bs, []))
      else
        (case (find (at (ucast (drop_bit 16 arg))) bs, find (at (ucast arg)) bs) of
          (Some a, Some b) \<Rightarrow>
            (0, user, change_first (ucast arg) (in_step a) bs, [(off_char b, screen_offset b)])
        | _ \<Rightarrow> (-1, user, bs, [])))"

definition expires :: "mp1_blink_struct \<Rightarrow> bool" where
  "expires b \<longleftrightarrow> \<not> sint (countdown b - 1) > 0"

definition tick_blink :: "mp1_blink_struct \<Rightarrow> mp1_blink_struct" where
  "tick_blink b =
     (if \<not> expires b then b\<lparr>countdown := countdown b - 1\<rparr>
      else b\<lparr>countdown := (if status b AND 1 = 0 then on_length b else off_length b), status := status b XOR 1\<rparr>)"

definition tick_draw :: "mp1_blink_struct \<Rightarrow> (u8 \<times> u32) list" where
  "tick_draw b =
     (if expires b then [(if status b AND 1 = 0 then on_char b else off_char b, screen_offset b)] else [])"

section \<open>The pointers\<close>

primrec path :: "(nat \<Rightarrow> mp1_blink_struct) \<Rightarrow> nat option \<Rightarrow> nat list \<Rightarrow> nat option \<Rightarrow> bool" where
  "path h p [] q \<longleftrightarrow> p = q"
| "path h p (i # is) q \<longleftrightarrow> p = Some i \<and> path h (next_blink (h i)) is q"

abbreviation chain :: "(nat \<Rightarrow> mp1_blink_struct) \<Rightarrow> nat option \<Rightarrow> nat list \<Rightarrow> bool" where
  "chain h p is \<equiv> path h p is None"

definition linked :: "fish \<Rightarrow> nat list \<Rightarrow> bool" where
  "linked f is \<longleftrightarrow> chain (blink_array f) (mp1_list_head f) is \<and> distinct is \<and>
     (\<forall>i < 2000. location (blink_array f i) \<noteq> 0 \<longleftrightarrow> i \<in> set is) \<and> set is \<subseteq> {..<2000}"

definition contents :: "fish \<Rightarrow> nat list \<Rightarrow> mp1_blink_struct list" where
  "contents f is = map (\<lambda>i. plain (blink_array f i)) is"

definition represents :: "fish \<Rightarrow> mp1_blink_struct list \<Rightarrow> bool" where
  "represents f bs \<longleftrightarrow> (\<exists>is. linked f is \<and> bs = contents f is)"

lemma blank_fish_represents: "represents blank_fish []"
  by (simp add: represents_def linked_def contents_def blank_fish_def zero_blink_def)

lemma upd_blink_simps [simp]:
  "mp1_list_head (upd_blink i g f) = mp1_list_head f"
  "blink_array (upd_blink i g f) = (blink_array f)(i := g (blink_array f i))"
  by (simp_all add: upd_blink_def)

lemma path_append: "path h p (us @ vs) q \<longleftrightarrow> (\<exists>m. path h p us m \<and> path h m vs q)"
  by (induction us arbitrary: p) auto

lemma path_upd [simp]: "i \<notin> set is \<Longrightarrow> path (h(i := b)) p is q = path h p is q"
  by (induction "is" arbitrary: p) auto

text \<open>A change of a blink in the list that keeps its link and its place keeps the list.\<close>

lemma path_same_next:
  "next_blink b = next_blink (h i) \<Longrightarrow> path (h(i := b)) p is q = path h p is q"
  by (induction "is" arbitrary: p) auto

lemma path_relink:
  assumes "path h p us m" and "distinct us" and "us \<noteq> []"
  shows "path (h(last us := (h (last us))\<lparr>next_blink := q\<rparr>)) p us q"
  using assms
proof (induction us arbitrary: p)
  case (Cons u us)
  then show ?case by (cases "us = []") auto
qed simp

lemma linked_upd:
  assumes "linked f is" and "i \<in> set is"
    and "next_blink (g (blink_array f i)) = next_blink (blink_array f i)"
    and "location (g (blink_array f i)) = location (blink_array f i)"
  shows "linked (upd_blink i g f) is"
  using assms by (auto simp: linked_def path_same_next)

lemma linked_nonzero: "linked f is \<Longrightarrow> i \<in> set is \<Longrightarrow> i < 2000 \<and> location (blink_array f i) \<noteq> 0"
  by (auto simp: linked_def)

section \<open>The walks along the list\<close>

lemma find_loop_chain:
  "chain (blink_array f) p is \<Longrightarrow> find_loop l p f = Some (find (\<lambda>i. location (blink_array f i) = l) is)"
proof (induction "is" arbitrary: p)
  case Nil
  then show ?case by (simp add: find_loop.simps)
next
  case (Cons i "is")
  then show ?case by (simp add: find_loop.simps [of l "Some i"])
qed

lemma find_helper_linked:
  "linked f is \<Longrightarrow> mp1_find_helper arg f = Some (find (\<lambda>i. location (blink_array f i) = ucast arg) is)"
  by (simp add: mp1_find_helper_def linked_def find_loop_chain)

lemma find_contents:
  "find (at l) (contents f is) = map_option (\<lambda>i. plain (blink_array f i)) (find (\<lambda>i. location (blink_array f i) = l) is)"
  by (induction "is") (auto simp: contents_def)

lemma find_someD: "find P xs = Some x \<Longrightarrow> x \<in> set xs \<and> P x"
  by (induction xs) (auto split: if_splits)

lemma find_split:
  "find P xs = Some x \<Longrightarrow> \<exists>us vs. xs = us @ x # vs \<and> (\<forall>u \<in> set us. \<not> P u) \<and> P x"
proof (induction xs)
  case (Cons a xs)
  show ?case
  proof (cases "P a")
    case True
    then have "a # xs = [] @ x # xs \<and> (\<forall>u \<in> set []. \<not> P u) \<and> P x" using Cons.prems by simp
    then show ?thesis by blast
  next
    case False
    then obtain us vs where "xs = us @ x # vs" "\<forall>u \<in> set us. \<not> P u" "P x" using Cons by auto
    then show ?thesis using False by (intro exI [of _ "a # us"] exI [of _ vs]) simp
  qed
qed simp

lemma remove_find_prev_chain:
  assumes "chain (blink_array f) (cell c f) (us @ i # vs)" and "i \<notin> set us"
  shows "remove_find_prev i c f = Some (if us = [] then c else Some (last us))"
  using assms
proof (induction us arbitrary: c)
  case Nil
  then show ?case by (simp add: remove_find_prev.simps [of i c])
next
  case (Cons u us)
  then have "cell c f = Some u" "u \<noteq> i" by simp_all
  moreover have "remove_find_prev i (Some u) f = Some (if us = [] then Some u else Some (last us))"
    using Cons by (simp add: cell_def)
  ultimately show ?case by (simp add: remove_find_prev.simps [of i c])
qed

section \<open>The commands\<close>

text \<open>The allocator finds a place unless all are in the list.\<close>

lemma find_below_None: "find P [0..<n] = None \<longleftrightarrow> (\<forall>i < n. \<not> P i)"
  by (auto simp: find_None_iff)

lemma find_below_Some: "find P [0..<n] = Some i \<Longrightarrow> i < n \<and> P i"
  by (auto dest: find_someD)

lemma malloc_None: "mp1_malloc f = None \<longleftrightarrow> (\<forall>i < 80 * 25. location (blink_array f i) \<noteq> 0)"
  unfolding mp1_malloc_def by (rule find_below_None)

lemma malloc_Some: "mp1_malloc f = Some i \<Longrightarrow> i < 80 * 25 \<and> location (blink_array f i) = 0"
  unfolding mp1_malloc_def by (rule find_below_Some)

lemma malloc_linked:
  assumes "linked f is"
  shows "length is < 2000 \<Longrightarrow> \<exists>i. mp1_malloc f = Some i \<and> i \<notin> set is \<and> i < 2000"
    and "length is \<ge> 2000 \<Longrightarrow> mp1_malloc f = None"
proof -
  have nz: "location (blink_array f i) \<noteq> 0 \<longleftrightarrow> i \<in> set is" if "i < 2000" for i
    using assms that by (simp add: linked_def)
  have sub: "set is \<subseteq> {..<2000}" and card: "card (set is) = length is"
    using assms by (simp_all add: linked_def distinct_card)
  show "\<exists>i. mp1_malloc f = Some i \<and> i \<notin> set is \<and> i < 2000" if "length is < 2000"
  proof -
    have "card (set is) \<noteq> card {..<2000 :: nat}" using card that by simp
    then have "set is \<noteq> {..<2000}" by metis
    then obtain i where "i < 2000" "i \<notin> set is" using sub by blast
    then have "mp1_malloc f \<noteq> None" unfolding malloc_None using nz by auto
    then obtain j where j: "mp1_malloc f = Some j" by blast
    then show ?thesis using malloc_Some [OF j] nz by auto
  qed
  show "mp1_malloc f = None" if "length is \<ge> 2000"
  proof -
    have "card {..<2000 :: nat} \<le> card (set is)" using card that by simp
    then have "set is = {..<2000}" by (rule card_seteq [OF finite_lessThan sub])
    then show ?thesis unfolding malloc_None using nz by auto
  qed
qed

lemma add_linked:
  assumes "linked f is" and "location user \<noteq> 0"
  shows "case list_command arg user 0 (contents f is) of (r, u, bs, ps) \<Rightarrow>
    \<exists>f'. mp1_ioctl_add vp user f s = (r, f', draw vp ps s) \<and> u = user \<and> represents f' bs"
proof (cases "location user < 2000 \<and> length is < 2000")
  case True
  then obtain i where i: "mp1_malloc f = Some i" "i \<notin> set is" "i < 2000"
    using malloc_linked(1) [OF assms(1)] by blast
  let ?b = "user\<lparr>status := 1, countdown := on_length user, next_blink := mp1_list_head f\<rparr>"
  let ?f = "(upd_blink i (\<lambda>_. ?b) f)\<lparr>mp1_list_head := Some i\<rparr>"
  have add: "mp1_ioctl_add vp user f s = (0, ?f, mp1_poke vp (on_char user) (screen_offset user) s)"
    using True i(1) by (simp add: mp1_ioctl_add_def Let_def not_le [symmetric] upd_blink_def screen_offset_def)
  have "linked ?f (i # is)"
    using assms i(2,3) by (auto simp: linked_def)
  moreover have "contents ?f (i # is) = fresh_blink user # contents f is"
    using i(2) by (auto simp: contents_def fresh_blink_def)
  ultimately have "represents ?f (fresh_blink user # contents f is)"
    unfolding represents_def by metis
  then show ?thesis using add True by (simp add: list_command_def contents_def)
next
  case False
  then have "mp1_ioctl_add vp user f s = (-1, f, s)"
    using malloc_linked(2) [OF assms(1)] by (auto simp: mp1_ioctl_add_def Let_def not_less)
  then show ?thesis using False assms(1) by (auto simp: list_command_def contents_def represents_def)
qed

text \<open>Without a lack of room.\<close>

lemma add_represents:
  assumes "represents f bs" and "location user \<noteq> 0" and "length bs < 2000"
  shows "\<exists>r f'. mp1_ioctl vp arg user 0 f s
      = Some (r, user, f', if location user < 2000 then mp1_poke vp (on_char user) (screen_offset user) s else s) \<and>
    represents f' (if location user < 2000 then fresh_blink user # bs else bs)"
proof -
  obtain "is" where l: "linked f is" and bs: "bs = contents f is" using assms(1) by (auto simp: represents_def)
  show ?thesis using add_linked [OF l assms(2), where arg = arg and vp = vp and s = s] assms(3)
    by (auto simp: mp1_ioctl_def list_command_def bs split: if_splits)
qed

lemma drop_first_split:
  "drop_first l (us @ b # vs) = us @ vs" if "\<forall>u \<in> set us. location u \<noteq> l" and "location b = l"
  using that by (induction us) auto

lemma remove_linked:
  assumes "linked f is"
  shows "case list_command arg user 1 (contents f is) of (r, u, bs, ps) \<Rightarrow>
    \<exists>f'. mp1_ioctl_remove arg f = Some (r, f') \<and> u = user \<and> ps = [] \<and> represents f' bs"
proof (cases "find (\<lambda>i. location (blink_array f i) = ucast arg) is")
  case None
  then show ?thesis
    using assms by (auto simp: mp1_ioctl_remove_def find_helper_linked list_command_def find_contents represents_def)
next
  case (Some i)
  from find_split [OF Some] obtain us vs where
    sp: "is = us @ i # vs" "\<forall>u \<in> set us. location (blink_array f u) \<noteq> ucast arg" "location (blink_array f i) = ucast arg"
    by blast
  have d: "distinct us" "i \<notin> set us" "i \<notin> set vs" "set us \<inter> set vs = {}"
    using assms by (auto simp: linked_def sp(1))
  let ?h = "blink_array f"
  let ?c = "if us = [] then None else Some (last us)"
  let ?f = "mp1_free i (set_cell ?c (next_blink (?h i)) f)"
  have p: "path ?h (mp1_list_head f) us (Some i)" "path ?h (next_blink (?h i)) vs None"
    using assms by (auto simp: linked_def sp(1) path_append)
  have "remove_find_prev i None f = Some ?c"
    using assms d(2) by (intro remove_find_prev_chain) (auto simp: linked_def sp(1) cell_def)
  then have run: "mp1_ioctl_remove arg f = Some (0, ?f)"
    by (simp add: mp1_ioctl_remove_def find_helper_linked [OF assms] Some)
  have chain: "chain (blink_array ?f) (mp1_list_head ?f) (us @ vs)"
  proof (cases "us = []")
    case True
    then show ?thesis using p d(3) by (simp add: mp1_free_def set_cell_def)
  next
    case False
    let ?g = "?h(last us := (?h (last us))\<lparr>next_blink := next_blink (?h i)\<rparr>)"
    have "last us \<in> set us" using False by simp
    then have l: "last us \<notin> set vs" using d(4) by blast
    have "path ?g (mp1_list_head f) us (next_blink (?h i))" by (rule path_relink [OF p(1) d(1) False])
    moreover have "path ?g (next_blink (?h i)) vs None" using p(2) l by simp
    ultimately have "path ?g (mp1_list_head f) (us @ vs) None" by (auto simp: path_append)
    then show ?thesis using d(2,3) False by (simp add: mp1_free_def set_cell_def)
  qed
  have loc: "location (blink_array ?f j) = (if j = i then 0 else location (?h j))" for j
    by (simp add: mp1_free_def set_cell_def zero_blink_def)
  have same: "plain (blink_array ?f j) = plain (?h j)" if "j \<noteq> i" for j
    using that by (simp add: mp1_free_def set_cell_def)
  have "linked ?f (us @ vs)"
    using assms chain d by (auto simp: linked_def sp(1) loc)
  moreover have "contents ?f (us @ vs) = map (\<lambda>j. plain (?h j)) (us @ vs)"
    unfolding contents_def by (rule map_cong [OF refl], rule same) (use d in auto)
  moreover have "drop_first (ucast arg) (contents f is) = map (\<lambda>j. plain (?h j)) (us @ vs)"
    unfolding contents_def sp(1) map_append list.map by (rule drop_first_split) (use sp(2,3) in auto)
  ultimately have "represents ?f (drop_first (ucast arg) (contents f is))"
    unfolding represents_def by metis
  then show ?thesis using run Some by (simp add: list_command_def find_contents)
qed

lemma change_first_split:
  "change_first l g (us @ b # vs) = us @ g b # vs" if "\<forall>u \<in> set us. location u \<noteq> l" and "location b = l"
  using that by (induction us) auto

lemma sync_char_off: "sync_char b = off_char b"
  by (simp add: sync_char_def Let_def bit_and_iff)

lemma sync_linked:
  assumes "linked f is"
  shows "case list_command arg user 3 (contents f is) of (r, u, bs, ps) \<Rightarrow>
    \<exists>f'. mp1_ioctl_sync vp arg f s = Some (r, f', draw vp ps s) \<and> u = user \<and> represents f' bs"
proof -
  have "arg AND 0xFFFF = take_bit 16 arg" by (simp add: take_bit_eq_mask mask_eq_exp_minus_1)
  then have low: "(ucast (arg AND 0xFFFF) :: u16) = ucast arg"
    by (intro bit_word_eqI) (simp add: bit_simps)
  show ?thesis
  proof (cases "find (\<lambda>i. location (blink_array f i) = ucast (drop_bit 16 arg)) is")
    case None
    then show ?thesis
      using assms by (auto simp: mp1_ioctl_sync_def find_helper_linked list_command_def find_contents represents_def)
  next
    case (Some k)
    show ?thesis
    proof (cases "find (\<lambda>i. location (blink_array f i) = ucast arg) is")
      case None
      then show ?thesis using Some assms
        by (auto simp: mp1_ioctl_sync_def find_helper_linked low list_command_def find_contents represents_def)
    next
      case i: (Some i)
      let ?h = "blink_array f"
      let ?g = "\<lambda>b. b\<lparr>on_length := on_length (?h k), off_length := off_length (?h k),
        countdown := countdown (?h k), status := status (?h k)\<rparr>"
      let ?f = "upd_blink i ?g f"
      have run: "mp1_ioctl_sync vp arg f s = Some (0, ?f, mp1_poke vp (off_char (?h i)) (screen_offset (?h i)) s)"
        by (simp add: mp1_ioctl_sync_def find_helper_linked [OF assms] low Some i Let_def sync_char_off screen_offset_def)
      from find_split [OF i] obtain us vs where
        sp: "is = us @ i # vs" "\<forall>u \<in> set us. location (?h u) \<noteq> ucast arg" "location (?h i) = ucast arg"
        by blast
      have d: "i \<notin> set us" "i \<notin> set vs" using assms by (auto simp: linked_def sp(1))
      have "linked ?f is" by (rule linked_upd [OF assms]) (simp_all add: sp(1))
      moreover have "contents ?f is = change_first (ucast arg) (in_step (plain (?h k))) (contents f is)"
      proof -
        have "change_first (ucast arg) (in_step (plain (?h k))) (contents f is)
            = contents f us @ in_step (plain (?h k)) (plain (?h i)) # contents f vs"
          unfolding contents_def sp(1) map_append list.map by (rule change_first_split) (use sp(2,3) in auto)
        then show ?thesis using d by (auto simp: contents_def sp(1) in_step_def)
      qed
      ultimately have "represents ?f (change_first (ucast arg) (in_step (plain (?h k))) (contents f is))"
        unfolding represents_def by metis
      then show ?thesis using run Some i by (simp add: list_command_def find_contents screen_offset_def)
    qed
  qed
qed

lemma find_linked:
  assumes "linked f is"
  shows "case list_command arg user 2 (contents f is) of (r, u, bs, ps) \<Rightarrow>
    \<exists>v. mp1_ioctl_find user f = Some (r, v) \<and> plain v = plain u \<and> bs = contents f is \<and> ps = []"
proof -
  have "(ucast (ucast (location user) :: u32) :: u16) = location user"
    by (rule bit_word_eqI) (simp add: bit_simps)
  then show ?thesis
    by (auto simp: mp1_ioctl_find_def find_helper_linked [OF assms] list_command_def find_contents split: option.split)
qed

text \<open>
  C19: \<open>mp1_ioctl\<close> returns for every command and does to the linked list in \<open>blink_array\<close> what the command
  means for the list of blinks: \<open>RTC_ADD\<close> puts the new one first, \<open>RTC_REMOVE\<close> takes out the first one
  at the place, \<open>RTC_FIND\<close> hands it back, \<open>RTC_SYNC\<close> puts one in step with another; it fails when there is
  no such blink, no room or no such place, and draws what the specification draws.  The place 0 must not be
  added: \<open>mp1_malloc\<close> takes it for the mark of a free entry.
\<close>

theorem mp1_ioctl_refines:
  assumes "represents f bs" and "cmd < 4" and "cmd = 0 \<longrightarrow> location user \<noteq> 0"
  shows "case list_command arg user cmd bs of (r, u, bs', ps) \<Rightarrow>
    \<exists>f' v. mp1_ioctl vp arg user cmd f s = Some (r, v, f', draw vp ps s) \<and> plain v = plain u \<and> represents f' bs'"
proof -
  obtain "is" where l: "linked f is" and bs: "bs = contents f is" using assms(1) by (auto simp: represents_def)
  have "cmd = 0 \<or> cmd = 1 \<or> cmd = 2 \<or> cmd = 3"
    using assms(2) by (simp add: word_less_nat_alt word_unat_eq_iff) linarith
  then consider "cmd = 0" | "cmd = 1" | "cmd = 2" | "cmd = 3" by blast
  then show ?thesis
  proof cases
    case 1
    then show ?thesis using add_linked [OF l, where user = user and arg = arg and vp = vp and s = s] assms(3)
      by (auto simp: mp1_ioctl_def bs split: prod.splits)
  next
    case 2
    then show ?thesis using remove_linked [OF l, where user = user and arg = arg]
      by (auto simp: mp1_ioctl_def bs split: prod.splits)
  next
    case 3
    then show ?thesis using find_linked [OF l, where user = user and arg = arg] l
      by (auto simp: mp1_ioctl_def bs represents_def split: prod.splits)
  next
    case 4
    then show ?thesis using sync_linked [OF l, where user = user and arg = arg and vp = vp and s = s]
      by (auto simp: mp1_ioctl_def bs split: prod.splits)
  qed
qed

text \<open>The blink that \<open>main\<close> of \<open>fish.c\<close> adds.\<close>

definition fish_main_blink :: mp1_blink_struct where
  "fish_main_blink = zero_blink\<lparr>on_char := 0x49, off_char := 0x4D, on_length := 7, off_length := 6, location := 6 * 80 + 60\<rparr>"

theorem mp1_ioctl_refines_witness:
  "\<exists>f v. mp1_ioctl 0x1000 0 fish_main_blink 0 blank_fish static_kernel
      = Some (0, v, f, mp1_poke 0x1000 0x49 1080 static_kernel) \<and> represents f [fresh_blink fish_main_blink]"
proof -
  have "list_command 0 fish_main_blink 0 [] = (0, fish_main_blink, [fresh_blink fish_main_blink], [(0x49, 1080)])"
    by (simp add: list_command_def fish_main_blink_def screen_offset_def push_bit_eq_mult)
  then show ?thesis
    using mp1_ioctl_refines [OF blank_fish_represents, where user = fish_main_blink and cmd = 0 and arg = 0
        and vp = "0x1000" and s = static_kernel]
    by (auto simp: fish_main_blink_def)
qed

end
