(* ===== verification/Fish_Ticks.thy ===== *)
theory Fish_Ticks
  imports Fish_List
begin

text \<open>
  The ticks of the blinking characters: \<open>mp1_rtc_tasklet\<close> against the specification of one tick, what the
  screen shows after any number of ticks, and the blink at place 0 that closes the list into a ring.
\<close>

section \<open>One tick\<close>

lemma tasklet_step:
  "tasklet_loop vp (Some i) f s =
     tasklet_loop vp (next_blink (blink_array f i)) (upd_blink i tick_blink f)
       (draw vp (tick_draw (blink_array f i)) s)"
proof -
  have "upd_blink i g (upd_blink i h f) = upd_blink i (\<lambda>b. g (h b)) f" for g h
    by (simp add: upd_blink_def)
  then show ?thesis
    by (subst tasklet_loop.simps)
       (auto simp: Let_def tick_draw_def expires_def screen_offset_def upd_blink_def tick_blink_def)
qed

lemma tick_blink_frame [simp]:
  "next_blink (tick_blink b) = next_blink b" "location (tick_blink b) = location b"
  "on_char (tick_blink b) = on_char b" "off_char (tick_blink b) = off_char b"
  "on_length (tick_blink b) = on_length b" "off_length (tick_blink b) = off_length b"
  by (simp_all add: tick_blink_def)

lemma tick_plain: "plain (tick_blink b) = tick_blink (plain b)" "tick_draw (plain b) = tick_draw b"
  by (simp_all add: tick_blink_def tick_draw_def expires_def screen_offset_def)

lemma tasklet_loop_chain:
  assumes "chain (blink_array f) p vs" and "distinct vs"
  shows "\<exists>f'. tasklet_loop vp p f s = Some (f', draw vp (concat (map (\<lambda>i. tick_draw (blink_array f i)) vs)) s) \<and>
    mp1_list_head f' = mp1_list_head f \<and>
    blink_array f' = (\<lambda>j. if j \<in> set vs then tick_blink (blink_array f j) else blink_array f j)"
  using assms
proof (induction vs arbitrary: p f s)
  case Nil
  then show ?case by (simp add: tasklet_loop.simps)
next
  case (Cons i vs)
  let ?f = "upd_blink i tick_blink f"
  let ?s = "draw vp (tick_draw (blink_array f i)) s"
  have i: "i \<notin> set vs" "distinct vs" "chain (blink_array f) (next_blink (blink_array f i)) vs"
    using Cons.prems by auto
  then have "chain (blink_array ?f) (next_blink (blink_array f i)) vs" by simp
  from Cons.IH [OF this i(2), where s = ?s] obtain f' where f':
    "tasklet_loop vp (next_blink (blink_array f i)) ?f ?s
       = Some (f', draw vp (concat (map (\<lambda>i. tick_draw (blink_array ?f i)) vs)) ?s)"
    "mp1_list_head f' = mp1_list_head ?f"
    "blink_array f' = (\<lambda>j. if j \<in> set vs then tick_blink (blink_array ?f j) else blink_array ?f j)"
    by blast
  have same: "map (\<lambda>i. tick_draw (blink_array ?f i)) vs = map (\<lambda>i. tick_draw (blink_array f i)) vs"
    using i(1) by (intro map_cong) auto
  have p: "p = Some i" using Cons.prems by simp
  show ?case unfolding p tasklet_step using f' i(1) unfolding same by (intro exI [of _ f']) auto
qed

lemma contents_ticked:
  "contents f' is = map tick_blink (contents f is)"
  if "\<forall>j \<in> set is. blink_array f' j = tick_blink (blink_array f j)"
  using that by (auto simp: contents_def tick_plain)

text \<open>
  A tick of the clock returns, counts every blink of the list down, and draws and turns over exactly
  those whose time is up.
\<close>

lemma mp1_rtc_tasklet_refines:
  assumes "represents f bs"
  shows "\<exists>f'. mp1_rtc_tasklet vp f s = Some (f', draw vp (concat (map tick_draw bs)) s) \<and>
    represents f' (map tick_blink bs)"
proof -
  obtain "is" where l: "linked f is" and bs: "bs = contents f is" using assms by (auto simp: represents_def)
  then have ch: "chain (blink_array f) (mp1_list_head f) is" "distinct is" by (simp_all add: linked_def)
  from tasklet_loop_chain [OF this, of vp s] obtain f' where f':
    "mp1_rtc_tasklet vp f s = Some (f', draw vp (concat (map (\<lambda>i. tick_draw (blink_array f i)) is)) s)"
    "mp1_list_head f' = mp1_list_head f"
    "blink_array f' = (\<lambda>j. if j \<in> set is then tick_blink (blink_array f j) else blink_array f j)"
    unfolding mp1_rtc_tasklet_def by blast
  have "path (blink_array f') p js q = path (blink_array f) p js q" for p js q
    by (induction js arbitrary: p) (auto simp: f'(3))
  moreover have "location (blink_array f' i) = location (blink_array f i)" for i by (simp add: f'(3))
  ultimately have "linked f' is" using l unfolding linked_def f'(2) by simp
  moreover have "contents f' is = map tick_blink bs" unfolding bs by (rule contents_ticked) (simp add: f'(3))
  moreover have "map (\<lambda>i. tick_draw (blink_array f i)) is = map tick_draw bs"
    by (simp add: bs contents_def tick_plain)
  ultimately show ?thesis using f'(1) unfolding represents_def by metis
qed

section \<open>Many ticks\<close>

primrec ticks :: "u32 \<Rightarrow> nat \<Rightarrow> fish \<Rightarrow> kernel \<Rightarrow> (fish \<times> kernel) option" where
  "ticks vp 0 f s = Some (f, s)"
| "ticks vp (Suc n) f s = Option.bind (ticks vp n f s) (\<lambda>(f1, s1). mp1_rtc_tasklet vp f1 s1)"

definition lively :: "mp1_blink_struct \<Rightarrow> bool" where
  "lively b \<longleftrightarrow> 0 < on_length b \<and> on_length b < 2 ^ 15 \<and> 0 < off_length b \<and> off_length b < 2 ^ 15"

definition period :: "mp1_blink_struct \<Rightarrow> nat" where
  "period b = unat (on_length b) + unat (off_length b)"

definition is_on :: "nat \<Rightarrow> mp1_blink_struct \<Rightarrow> bool" where
  "is_on n b \<longleftrightarrow> n mod period b < unat (on_length b)"

definition shown :: "nat \<Rightarrow> mp1_blink_struct \<Rightarrow> u8" where
  "shown n b = (if is_on n b then on_char b else off_char b)"

text \<open>The blink after \<open>n\<close> ticks.\<close>

definition phase :: "nat \<Rightarrow> mp1_blink_struct \<Rightarrow> mp1_blink_struct" where
  "phase n b = b\<lparr>status := (if is_on n b then 1 else 0),
     countdown := of_nat ((if is_on n b then unat (on_length b) else period b) - n mod period b)\<rparr>"

lemma phase_frame [simp]:
  "location (phase n b) = location b" "on_char (phase n b) = on_char b" "off_char (phase n b) = off_char b"
  "on_length (phase n b) = on_length b" "off_length (phase n b) = off_length b"
  "screen_offset (phase n b) = screen_offset b"
  by (simp_all add: phase_def screen_offset_def)

lemma phase_0: "lively b \<Longrightarrow> status b = 1 \<Longrightarrow> countdown b = on_length b \<Longrightarrow> phase 0 b = b"
  by (simp add: phase_def is_on_def lively_def unat_gt_0 word_greater_zero_iff)

lemma sint_u16: "k < 2 ^ 15 \<Longrightarrow> sint (of_nat k :: u16) = int k"
  by (simp add: signed_of_nat signed_take_bit_int_eq_self_iff)

lemma expires_nat:
  assumes "0 < k" "k < 2 ^ 15" "countdown b = of_nat k"
  shows "countdown b - 1 = of_nat (k - 1)" and "expires b \<longleftrightarrow> k = 1"
proof -
  show dec: "countdown b - 1 = of_nat (k - 1)" using assms by (simp add: of_nat_diff)
  have "sint (of_nat (k - 1) :: u16) = int (k - 1)" using assms by (intro sint_u16) simp
  then show "expires b \<longleftrightarrow> k = 1" unfolding expires_def dec using assms(1) by auto
qed

lemma next_count:
  assumes "0 < (a :: nat)" "0 < z" "m < a + z"
    and "k = (if m < a then a else a + z) - m" and "m' = (if Suc m = a + z then 0 else Suc m)"
  shows "0 < k" and "(m' < a) = (m < a) \<longleftrightarrow> k \<noteq> 1"
    and "(if m' < a then a else a + z) - m' = (if k \<noteq> 1 then k - 1 else if m < a then z else a)"
  using assms by (auto split: if_splits)

lemma tick_phase:
  assumes "lively b"
  shows "tick_blink (phase n b) = phase (Suc n) b"
    and "tick_draw (phase n b) = (if is_on (Suc n) b = is_on n b then [] else [(shown (Suc n) b, screen_offset b)])"
proof -
  let ?a = "unat (on_length b)" and ?z = "unat (off_length b)" and ?m = "n mod period b"
  let ?k = "(if is_on n b then ?a else period b) - ?m"
  have az: "0 < ?a" "?a < 2 ^ 15" "0 < ?z" "?z < 2 ^ 15"
    using assms by (simp_all add: lively_def word_less_nat_alt)
  have p: "period b = ?a + ?z" by (simp add: period_def)
  then have m: "?m < ?a + ?z" using az by simp
  have suc: "Suc n mod period b = (if Suc ?m = ?a + ?z then 0 else Suc ?m)" unfolding p by (rule mod_Suc)
  note count = next_count [OF az(1,3) m refl suc, folded p is_on_def]
  have keep: "is_on (Suc n) b = is_on n b \<longleftrightarrow> ?k \<noteq> 1"
    and next_k: "(if is_on (Suc n) b then ?a else period b) - Suc n mod period b
      = (if ?k \<noteq> 1 then ?k - 1 else if is_on n b then ?z else ?a)" and k0: "0 < ?k"
    using count by (simp_all add: is_on_def)
  have k: "?k < 2 ^ 15" using az m p by (auto simp: is_on_def)
  have st: "status (phase j b) = (if is_on j b then 1 else 0)"
    and cd: "countdown (phase j b) = of_nat ((if is_on j b then ?a else period b) - j mod period b)" for j
    by (simp_all add: phase_def)
  note dec = expires_nat(1) [OF k0 k cd] and ex = expires_nat(2) [OF k0 k cd]
  show "tick_draw (phase n b) = (if is_on (Suc n) b = is_on n b then [] else [(shown (Suc n) b, screen_offset b)])"
    unfolding tick_draw_def ex st using keep by (auto simp: shown_def)
  have c: "countdown (tick_blink (phase n b)) = countdown (phase (Suc n) b)"
    unfolding tick_blink_def ex cd [of "Suc n"] next_k using dec st [of n] by auto
  have s: "status (tick_blink (phase n b)) = status (phase (Suc n) b)"
    unfolding tick_blink_def ex st [of "Suc n"] using keep st [of n] by auto
  have n: "next_blink (phase j b) = next_blink b" for j by (simp add: phase_def)
  show "tick_blink (phase n b) = phase (Suc n) b"
    by (rule mp1_blink_struct.equality) (simp_all add: c s n)
qed

section \<open>The screen\<close>

text \<open>The window of the program does not overlap the variable that holds its address.\<close>

definition beside_variable :: "u32 \<Rightarrow> kernel \<Rightarrow> u32 \<Rightarrow> bool" where
  "beside_variable vp s off \<longleftrightarrow>
     tlb s (word_at (ld8 s) vp + off) \<notin> {tlb s vp, tlb s (vp + 1), tlb s (vp + 2), tlb s (vp + 3)}"

lemma poke_tlb [simp]: "tlb (mp1_poke vp c off s) = tlb s"
  by (simp add: mp1_poke_def)

lemma poke_beside:
  assumes "beside_variable vp s off"
  shows "word_at (ld8 (mp1_poke vp c off s)) vp = word_at (ld8 s) vp"
    and "beside_variable vp (mp1_poke vp c off s) x = beside_variable vp s x"
proof -
  have "ld8 (mp1_poke vp c off s) a = ld8 s a" if "a \<in> {vp, vp + 1, vp + 2, vp + 3}" for a
    using assms that unfolding beside_variable_def by (auto simp: mp1_poke_def ld8_def rd_def)
  then show w: "word_at (ld8 (mp1_poke vp c off s)) vp = word_at (ld8 s) vp" by (simp add: word_at_def)
  show "beside_variable vp (mp1_poke vp c off s) x = beside_variable vp s x"
    by (simp add: beside_variable_def w)
qed


lemma draw_beside:
  assumes "\<forall>(c, off) \<in> set ps. beside_variable vp s off"
  shows "word_at (ld8 (draw vp ps s)) vp = word_at (ld8 s) vp \<and> tlb (draw vp ps s) = tlb s \<and>
    (\<forall>x. beside_variable vp (draw vp ps s) x = beside_variable vp s x) \<and>
    (\<forall>a. (\<forall>(c, off) \<in> set ps. tlb s (word_at (ld8 s) vp + off) \<noteq> a) \<longrightarrow> mem (draw vp ps s) a = mem s a)"
  using assms
proof (induction ps arbitrary: s)
  case (Cons q ps)
  obtain c off where q: "q = (c, off)" by (cases q)
  then have b: "beside_variable vp s off" using Cons.prems by simp
  note p = poke_beside [OF b, of c]
  have "\<forall>(c', off') \<in> set ps. beside_variable vp (mp1_poke vp c off s) off'" using Cons.prems p(2) by auto
  from Cons.IH [OF this] show ?case using p by (auto simp: q) (simp add: mp1_poke_def)
qed simp

lemma ld8_at: "ld8 s a = mem s (tlb s a)"
  by (simp add: ld8_def rd_def)

text \<open>Blinks at different places, each drawn at most once.\<close>

lemma draw_blinks:
  assumes "word_at (ld8 s) vp = base" and "distinct (map (\<lambda>b. tlb s (base + screen_offset b)) bs)"
    and "\<forall>b \<in> set bs. beside_variable vp s (screen_offset b)"
    and "\<forall>b \<in> set bs. d b = [] \<or> (\<exists>c. d b = [(c, screen_offset b)])"
  shows "\<forall>b \<in> set bs. ld8 (draw vp (concat (map d bs)) s) (base + screen_offset b)
    = (if d b = [] then ld8 s (base + screen_offset b) else fst (hd (d b)))"
  using assms
proof (induction bs rule: rev_induct)
  case (snoc x xs)
  let ?s = "draw vp (concat (map d xs)) s"
  have cells: "(c, off) \<in> set (concat (map d xs)) \<Longrightarrow> \<exists>b \<in> set xs. off = screen_offset b" for c off
    using snoc.prems(4) by force
  then have bs: "\<forall>(c, off) \<in> set (concat (map d xs)). beside_variable vp s off"
    using snoc.prems(3) by fastforce
  note k = draw_beside [OF bs, unfolded snoc.prems(1)]
  have ih: "\<forall>b \<in> set xs. ld8 ?s (base + screen_offset b) = (if d b = [] then ld8 s (base + screen_offset b) else fst (hd (d b)))"
    using snoc by auto
  have neq: "tlb s (base + screen_offset b) \<noteq> tlb s (base + screen_offset x)" if "b \<in> set xs" for b
    using snoc.prems(2) that by (auto dest!: imageI [of b _ "\<lambda>b. tlb s (base + screen_offset b)"])
  have old: "mem ?s (tlb s (base + screen_offset x)) = mem s (tlb s (base + screen_offset x))"
    using k cells neq by fastforce
  show ?case
  proof (cases "d x = []")
    case True
    then show ?thesis using ih old k by (auto simp: ld8_at)
  next
    case False
    then obtain c where c: "d x = [(c, screen_offset x)]" using snoc.prems(4) by auto
    have "draw vp (concat (map d (xs @ [x]))) s = st8 (base + screen_offset x) c ?s"
      using c k by (simp add: mp1_poke_def)
    then show ?thesis using ih neq k c by (auto simp: ld8_at)
  qed
qed simp

text \<open>
  C20: from the moment the blinks have been added, each place of the screen shows its \<open>on_char\<close> for
  \<open>on_length\<close> ticks and its \<open>off_char\<close> for \<open>off_length\<close> ticks, over and over: what is shown after \<open>n\<close>
  ticks depends on \<open>n\<close> modulo the sum.  The places differ, the lengths are from 1 to 32767 (the countdown
  is compared as a signed number), and the window does not cover the variable \<open>vmem_base_addr\<close>.
\<close>

theorem blinks_shown:
  assumes "represents f bs" and "\<forall>b \<in> set bs. lively b \<and> status b = 1 \<and> countdown b = on_length b"
    and "word_at (ld8 s) vp = base" and "distinct (map (\<lambda>b. tlb s (base + screen_offset b)) bs)"
    and "\<forall>b \<in> set bs. beside_variable vp s (screen_offset b)"
    and "\<forall>b \<in> set bs. ld8 s (base + screen_offset b) = on_char b"
  shows "\<exists>f' s'. ticks vp n f s = Some (f', s') \<and>
    (\<forall>b \<in> set bs. ld8 s' (base + screen_offset b)
      = (if n mod (unat (on_length b) + unat (off_length b)) < unat (on_length b) then on_char b else off_char b))"
proof -
  have "\<exists>f' s'. ticks vp n f s = Some (f', s') \<and> represents f' (map (phase n) bs) \<and> word_at (ld8 s') vp = base \<and>
    tlb s' = tlb s \<and> (\<forall>b \<in> set bs. ld8 s' (base + screen_offset b) = shown n b)"
  proof (induction n)
    case 0
    have "map (phase 0) bs = bs" using assms(2) by (intro map_idI) (simp add: phase_0)
    moreover have "shown 0 b = on_char b" if "b \<in> set bs" for b
      using assms(2) that by (simp add: shown_def is_on_def lively_def unat_gt_0 word_greater_zero_iff)
    ultimately show ?case using assms(1,3,6) by simp
  next
    case (Suc n)
    then obtain f' s' where r: "ticks vp n f s = Some (f', s')" "represents f' (map (phase n) bs)"
      "word_at (ld8 s') vp = base" "tlb s' = tlb s" "\<forall>b \<in> set bs. ld8 s' (base + screen_offset b) = shown n b"
      by blast
    let ?d = "\<lambda>b. tick_draw (phase n b)"
    let ?s = "draw vp (concat (map ?d bs)) s'"
    obtain f'' where t: "mp1_rtc_tasklet vp f' s' = Some (f'', ?s)" "represents f'' (map tick_blink (map (phase n) bs))"
      using mp1_rtc_tasklet_refines [OF r(2), of vp s'] by (auto simp: comp_def)
    have beside: "beside_variable vp s' x = beside_variable vp s x" for x
      using assms(3) r(3,4) by (simp add: beside_variable_def)
    have d: "?d b = (if is_on (Suc n) b = is_on n b then [] else [(shown (Suc n) b, screen_offset b)])"
      "tick_blink (phase n b) = phase (Suc n) b" if "b \<in> set bs" for b
      using assms(2) that tick_phase by simp_all
    have "\<forall>(c, off) \<in> set (concat (map ?d bs)). beside_variable vp s' off"
      using assms(5) d(1) by (auto simp: beside split: if_splits)
    note k = draw_beside [OF this, unfolded r(3)]
    have "\<forall>b \<in> set bs. ld8 ?s (base + screen_offset b) = (if ?d b = [] then ld8 s' (base + screen_offset b) else fst (hd (?d b)))"
      by (rule draw_blinks [OF r(3)]) (use assms(4,5) r(4) beside d(1) in auto)
    then have "\<forall>b \<in> set bs. ld8 ?s (base + screen_offset b) = shown (Suc n) b"
      using r(5) d(1) by (auto simp: shown_def split: if_splits)
    moreover have "map tick_blink (map (phase n) bs) = map (phase (Suc n)) bs" using d(2) by simp
    moreover have "ticks vp (Suc n) f s = Some (f'', ?s)" using r(1) t(1) by simp
    moreover have "word_at (ld8 ?s) vp = base" "tlb ?s = tlb s" using k r(4) by simp_all
    ultimately show ?case using t(2) by metis
  qed
  then show ?thesis unfolding shown_def is_on_def period_def by blast
qed

theorem blinks_shown_witness:
  "\<exists>f s f' s'. mp1_ioctl_add 0x1000 fish_main_blink blank_fish static_kernel = (0, f, s) \<and>
    ticks 0x1000 20 f s = Some (f', s') \<and> ld8 s 0x438 = 0x49 \<and> ld8 s' 0x438 = 0x4D"
proof -
  let ?b = "fresh_blink fish_main_blink"
  have off: "screen_offset ?b = 0x438"
    by (simp add: screen_offset_def fresh_blink_def fish_main_blink_def push_bit_eq_mult)
  have cmd: "list_command 0 fish_main_blink 0 [] = (0, fish_main_blink, [?b], [(0x49, 0x438)])"
    by (simp add: list_command_def fish_main_blink_def screen_offset_def push_bit_eq_mult)
  have l: "linked blank_fish []" "contents blank_fish [] = []"
    by (simp_all add: linked_def contents_def blank_fish_def zero_blink_def)
  have nz: "location fish_main_blink \<noteq> 0" by (simp add: fish_main_blink_def)
  define s where "s = mp1_poke 0x1000 0x49 0x438 static_kernel"
  obtain f where f: "mp1_ioctl_add 0x1000 fish_main_blink blank_fish static_kernel = (0, f, s)" "represents f [?b]"
    using add_linked [OF l(1), where user = fish_main_blink and arg = 0 and vp = "0x1000" and s = static_kernel]
    unfolding l(2) cmd using nz by (auto simp: s_def)
  have s: "tlb s = (\<lambda>a. a)" "ld8 s a = (if a = 0x438 then 0x49 else 0)" for a
    by (simp_all add: s_def mp1_poke_def static_kernel_def word_at_def ld8_at)
  then have base: "word_at (ld8 s) 0x1000 = 0" by (simp add: word_at_def)
  have "\<exists>f' s'. ticks 0x1000 20 f s = Some (f', s') \<and> (\<forall>b \<in> set [?b]. ld8 s' (0 + screen_offset b)
      = (if 20 mod (unat (on_length b) + unat (off_length b)) < unat (on_length b) then on_char b else off_char b))"
    by (rule blinks_shown [OF f(2) _ base])
       (simp_all add: off s base beside_variable_def, simp_all add: lively_def fresh_blink_def fish_main_blink_def)
  then obtain f' s' where run: "ticks 0x1000 20 f s = Some (f', s')"
    "ld8 s' (0 + screen_offset ?b) = (if 20 mod (unat (on_length ?b) + unat (off_length ?b)) < unat (on_length ?b)
      then on_char ?b else off_char ?b)" by (metis list.set_intros(1))
  have "ld8 s' 0x438 = 0x4D" using run(2) unfolding off by (simp add: fresh_blink_def fish_main_blink_def)
  then show ?thesis using f(1) s(2) run(1) by fastforce
qed

section \<open>A blink at place 0\<close>

lemma tasklet_ring:
  assumes "tasklet_loop vp p f s = Some r" and "p = Some i" and "next_blink (blink_array f i) = Some i"
  shows False
proof -
  have "\<not> (\<exists>i. p = Some i \<and> next_blink (blink_array f i) = Some i)"
    using assms(1)
  proof (rule tasklet_loop.raw_induct [of "\<lambda>vp p f s r. \<not> (\<exists>i. p = Some i \<and> next_blink (blink_array f i) = Some i)", rotated])
    fix loop :: "u32 \<Rightarrow> nat option \<Rightarrow> fish \<Rightarrow> kernel \<Rightarrow> (fish \<times> kernel) option" and vp p f s r
    assume ih: "\<And>vp p f s r. loop vp p f s = Some r \<Longrightarrow> \<not> (\<exists>i. p = Some i \<and> next_blink (blink_array f i) = Some i)"
    assume "(case p of None \<Rightarrow> Some (f, s) | Some i \<Rightarrow>
         let f1 = upd_blink i (\<lambda>b. b\<lparr>countdown := countdown b - 1\<rparr>) f; b = blink_array f1 i
         in if sint (countdown b) > 0 then loop vp (next_blink b) f1 s
            else if status b AND 1 = 0
            then loop vp (next_blink b)
                   (upd_blink i (\<lambda>b. b\<lparr>countdown := on_length b, status := status b XOR 1\<rparr>) f1)
                   (mp1_poke vp (on_char b) (screen_offset b) s)
            else loop vp (next_blink b)
                   (upd_blink i (\<lambda>b. b\<lparr>countdown := off_length b, status := status b XOR 1\<rparr>) f1)
                   (mp1_poke vp (off_char b) (screen_offset b) s)) = Some r"
    then show "\<not> (\<exists>i. p = Some i \<and> next_blink (blink_array f i) = Some i)"
      by (auto simp: Let_def split: option.splits if_splits dest!: ih)
  qed
  then show False using assms(2,3) by blast
qed

lemma malloc_first: "location (blink_array f 0) = 0 \<Longrightarrow> mp1_malloc f = Some 0"
proof -
  assume "location (blink_array f 0) = 0"
  then have "find (\<lambda>i. location (blink_array f i) = 0) [0..<Suc n] = Some 0" for n
    by (subst upt_conv_Cons) simp_all
  from this [of "80 * 25 - 1"] show ?thesis unfolding mp1_malloc_def by (simp del: upt_rec_numeral)
qed

text \<open>
  \<open>mp1_malloc\<close> takes the entry of a blink at place 0 for a free one.  The next \<open>RTC_ADD\<close> puts the new blink
  into it, whose link is then the entry itself, and the next tick never returns.
\<close>

lemma place_zero_hangs:
  assumes "location b0 = 0" and "location b1 < 2000"
    and "mp1_ioctl_add vp b0 blank_fish s0 = (r1, f1, s1)" and "mp1_ioctl_add vp b1 f1 s1 = (r2, f2, s2)"
  shows "mp1_rtc_tasklet vp f2 s = None"
proof -
  have "mp1_malloc blank_fish = Some 0"
    by (rule malloc_first) (simp add: blank_fish_def zero_blink_def)
  then have f1: "f1 = (upd_blink 0 (\<lambda>_. b0\<lparr>status := 1, countdown := on_length b0, next_blink := None\<rparr>) blank_fish)\<lparr>mp1_list_head := Some 0\<rparr>"
    using assms(1,3) by (simp add: mp1_ioctl_add_def Let_def upd_blink_def blank_fish_def)
  then have "mp1_malloc f1 = Some 0" by (intro malloc_first) (simp add: assms(1))
  then have "mp1_list_head f2 = Some 0" "next_blink (blink_array f2 0) = Some 0"
    using assms(2,4) f1 by (auto simp: mp1_ioctl_add_def Let_def not_less [symmetric])
  then show ?thesis
    using tasklet_ring [of vp "Some 0" f2 s] by (cases "mp1_rtc_tasklet vp f2 s") (auto simp: mp1_rtc_tasklet_def)
qed

end
