(* ===== verification/Fish_Frames.thy ===== *)
theory Fish_Frames
  imports Fish Fish_Ticks
begin

text \<open>
  What \<open>add_frames\<close> makes of the two picture files: a blink for every place where one of them has a
  character, in the order of the lines.  The specification works on the contents of the files; the code
  reads them through the kernel, a byte at a time, into two variables of the program.
\<close>

section \<open>The specification\<close>

fun split_lines :: "u8 list \<Rightarrow> u8 list list" where
  "split_lines [] = [[]]"
| "split_lines (x # xs) = (if x = newline then [] # split_lines xs
     else (x # hd (split_lines xs)) # tl (split_lines xs))"

text \<open>The character of a line at the next column, blank past its end.\<close>

definition padded :: "u8 list \<Rightarrow> u8" where
  "padded xs = (case xs of [] \<Rightarrow> blank | x # _ \<Rightarrow> x)"

definition place_blink :: "mp1_blink_struct \<Rightarrow> int \<Rightarrow> int \<Rightarrow> u8 \<Rightarrow> u8 \<Rightarrow> mp1_blink_struct" where
  "place_blink b row col x y = b\<lparr>on_char := x, off_char := y, location := of_int (row * 80 + col + 40)\<rparr>"

function row_blinks :: "mp1_blink_struct \<Rightarrow> int \<Rightarrow> int \<Rightarrow> u8 list \<Rightarrow> u8 list \<Rightarrow> mp1_blink_struct list" where
  "row_blinks b row col xs ys =
     (if xs = [] \<and> ys = [] then []
      else (if padded xs \<noteq> blank \<or> padded ys \<noteq> blank then [place_blink b row col (padded xs) (padded ys)] else [])
        @ row_blinks b row (col + 1) (tl xs) (tl ys))"
  by pat_completeness auto
termination
  by (relation "measure (\<lambda>(b, row, col, xs, ys). length xs + length ys)")
    (auto, (case_tac xs; case_tac ys; simp)+)

declare row_blinks.simps [simp del]

definition first_line :: "u8 list list \<Rightarrow> u8 list" where
  "first_line ls = (case ls of [] \<Rightarrow> [] | l # _ \<Rightarrow> l)"

function lines_blinks :: "mp1_blink_struct \<Rightarrow> int \<Rightarrow> u8 list list \<Rightarrow> u8 list list \<Rightarrow> mp1_blink_struct list" where
  "lines_blinks b row ls ms =
     (if ls = [] \<and> ms = [] then []
      else row_blinks b row 0 (first_line ls) (first_line ms) @ lines_blinks b (row + 1) (tl ls) (tl ms))"
  by pat_completeness auto
termination
  by (relation "measure (\<lambda>(b, row, ls, ms). length ls + length ms)")
    (auto, (case_tac ls; case_tac ms; simp)+)

declare lines_blinks.simps [simp del]

text \<open>The blinks of two pictures: 15 ticks one, 15 ticks the other.\<close>

definition picture_blinks :: "mp1_blink_struct \<Rightarrow> u8 list \<Rightarrow> u8 list \<Rightarrow> mp1_blink_struct list" where
  "picture_blinks b p q =
     lines_blinks (b\<lparr>on_length := 15, off_length := 15\<rparr>) 0 (split_lines p) (split_lines q)"

text \<open>\<open>RTC_ADD\<close> refuses the places below the screen.\<close>

abbreviation accepted :: "mp1_blink_struct \<Rightarrow> bool" where
  "accepted b \<equiv> location b < 2000"

section \<open>A picture being read\<close>

text \<open>The variable with the last character, what is unread, and whether the end has been seen.\<close>

type_synonym picture = "u8 \<times> u8 list \<times> bool"

fun cell_step :: "picture \<Rightarrow> picture" where
  "cell_step (ch, xs, e) = (if ch = newline then (ch, xs, e)
     else case xs of [] \<Rightarrow> (newline, [], True) | x # ys \<Rightarrow> (x, ys, e))"

fun picture_line :: "picture \<Rightarrow> u8 list" where
  "picture_line (ch, xs, e) = (if ch = newline then [] else hd (split_lines xs))"

fun after_line :: "picture \<Rightarrow> picture" where
  "after_line (ch, xs, e) = (if ch = newline then (ch, xs, e)
     else (newline, drop (Suc (length (hd (split_lines xs)))) xs, e \<or> newline \<notin> set xs))"

lemma split_lines_nonempty [simp]: "split_lines xs \<noteq> []"
  by (cases xs) auto

lemma newline_not_in_line: "newline \<notin> set (hd (split_lines xs))"
  by (induction xs) auto

lemma cell_step_line:
  "fst (cell_step st) = newline \<longleftrightarrow> picture_line st = []"
  "picture_line (cell_step st) = tl (picture_line st)" "after_line (cell_step st) = after_line st"
  "picture_line st \<noteq> [] \<Longrightarrow> fst (cell_step st) = hd (picture_line st)"
proof -
  obtain ch xs e where st: "st = (ch, xs, e)" by (metis prod.exhaust)
  show "fst (cell_step st) = newline \<longleftrightarrow> picture_line st = []" unfolding st by (cases xs) auto
  show "picture_line (cell_step st) = tl (picture_line st)" unfolding st by (cases xs) auto
  show "after_line (cell_step st) = after_line st" unfolding st by (cases xs) auto
  show "picture_line st \<noteq> [] \<Longrightarrow> fst (cell_step st) = hd (picture_line st)" unfolding st by (cases xs) (auto split: if_splits)
qed

text \<open>Lines that are still to come, at the start of a line.\<close>

definition lines_left :: "u8 list \<Rightarrow> bool \<Rightarrow> u8 list list" where
  "lines_left xs e = (if e then [] else split_lines xs)"

lemma split_lines_rest:
  "tl (split_lines xs) = (if newline \<in> set xs then split_lines (drop (Suc (length (hd (split_lines xs)))) xs) else [])"
  by (induction xs) auto

section \<open>The kernel while the pictures are read\<close>

text \<open>
  What the program never writes: everything but its two variables and the mapped screen, which is at
  \<open>base\<close>.  \<open>s0\<close> is the state in which the pictures have been opened.
\<close>

definition window :: "kernel \<Rightarrow> u32 \<Rightarrow> u32 set" where
  "window s0 base = (\<lambda>l :: u16. tlb s0 (base + push_bit 1 (ucast l))) ` {..<2000}"

definition untouched :: "kernel \<Rightarrow> fish_vars \<Rightarrow> u32 \<Rightarrow> u32 \<Rightarrow> bool" where
  "untouched s0 v base a \<longleftrightarrow> tlb s0 a \<noteq> tlb s0 (c0_var v) \<and> tlb s0 a \<noteq> tlb s0 (c1_var v) \<and> tlb s0 a \<notin> window s0 base"

definition layout :: "kernel \<Rightarrow> fish_vars \<Rightarrow> u32 \<Rightarrow> u32 \<Rightarrow> bool" where
  "layout s0 v n0 n1 \<longleftrightarrow>
     (let base = word_at (ld8 s0) (vmem_base_addr v) in
      (\<forall>k < 4. untouched s0 v base (vmem_base_addr v + of_nat k)) \<and>
      tlb s0 (c0_var v) \<noteq> tlb s0 (c1_var v) \<and> c0_var v \<noteq> 0 \<and> c1_var v \<noteq> 0 \<and>
      tlb s0 (c0_var v) \<notin> window s0 base \<and> tlb s0 (c1_var v) \<notin> window s0 base \<and>
      file_within (untouched s0 v base) (ld8 s0) (fs s0) n0 \<and> file_within (untouched s0 v base) (ld8 s0) (fs s0) n1)"

definition steady :: "kernel \<Rightarrow> fish_vars \<Rightarrow> kernel \<Rightarrow> bool" where
  "steady s0 v s \<longleftrightarrow> tlb s = tlb s0 \<and> fs s = fs s0 \<and>
     (\<forall>a. untouched s0 v (word_at (ld8 s0) (vmem_base_addr v)) a \<longrightarrow> ld8 s a = ld8 s0 a)"

text \<open>Descriptor \<open>fd\<close> is open on the file \<open>ino\<close> with \<open>xs\<close> still unread.\<close>

definition open_on :: "kernel \<Rightarrow> u32 \<Rightarrow> u8 list \<Rightarrow> file_object \<Rightarrow> bool" where
  "open_on s0 ino xs fo \<longleftrightarrow> fop_read (file_op_tb fo) = Fn_file_read \<and> flag fo \<noteq> 0 \<and> inode fo = ino \<and>
     readable_file (ld8 s0) (fs s0) 1 fo \<and> file_rest (ld8 s0) (fs s0) fo = xs"

definition pictured :: "kernel \<Rightarrow> u32 \<Rightarrow> u32 \<Rightarrow> nat \<Rightarrow> kernel \<Rightarrow> picture \<Rightarrow> bool" where
  "pictured s0 ino a fd s = (\<lambda>(ch, xs, e). ld8 s a = ch \<and>
     (if e then xs = [] \<and> ch = newline else open_on s0 ino xs (current_file s fd)))"

lemma steady_word:
  assumes "layout s0 v n0 n1" and "steady s0 v s"
  shows "word_at (ld8 s) (vmem_base_addr v) = word_at (ld8 s0) (vmem_base_addr v)"
  by (rule word_at_same) (use assms in \<open>simp add: layout_def steady_def Let_def\<close>)

text \<open>A store to one of the variables keeps the state steady and the other variable.\<close>

lemma steady_store:
  assumes "steady s0 v s" and "a = c0_var v \<or> a = c1_var v"
  shows "steady s0 v (st8 a x s)"
  using assms by (auto simp: steady_def untouched_def ld8_at)

lemma steady_descriptor: "steady s0 v (upd_pcb p g s) = steady s0 v s"
  by (simp add: steady_def)

lemma pictured_frame:
  assumes "pictured s0 ino a fd s st" and "ld8 t a = ld8 s a" and "current_file t fd = current_file s fd"
  shows "pictured s0 ino a fd t st"
  using assms by (auto simp: pictured_def split: prod.splits)

text \<open>One character of one picture.\<close>

lemma read_cell_step:
  assumes lay: "layout s0 v n0 n1" and st: "steady s0 v s" and a: "a = c0_var v \<or> a = c1_var v"
    and ino: "ino = n0 \<or> ino = n1" and fd: "fd < 8" and p: "pictured s0 ino a fd s (ch, xs, e)"
  obtains s' where "read_cell c (int fd) a e s = Some (snd (snd (cell_step (ch, xs, e))), s')"
    and "steady s0 v s'" and "pictured s0 ino a fd s' (cell_step (ch, xs, e))"
    and "\<And>b. tlb s0 b \<noteq> tlb s0 a \<Longrightarrow> ld8 s' b = ld8 s b" and "\<And>j. j \<noteq> fd \<Longrightarrow> current_file s' j = current_file s j"
proof (cases "ch = newline")
  case True
  then show thesis using p st by (intro that [of s]) (auto simp: read_cell_def pictured_def)
next
  case False
  let ?P = "untouched s0 v (word_at (ld8 s0) (vmem_base_addr v))" and ?fo = "current_file s fd"
  have e: "\<not> e" and o: "open_on s0 ino xs ?fo" and ch: "ld8 s a = ch" using p False by (auto simp: pictured_def split: if_splits)
  have "file_within ?P (ld8 s0) (fs s0) ino" using lay ino by (auto simp: layout_def Let_def)
  then have same: "same_file (ld8 s0) (ld8 s) (fs s0) ino"
    by (rule same_file_within) (use st in \<open>simp add: steady_def\<close>)
  have tlb: "tlb s = tlb s0" and fs: "fs s = fs s0" using st by (simp_all add: steady_def)
  have a0: "a \<noteq> 0" using lay a by (auto simp: layout_def Let_def)
  have r: "readable_file (ld8 s) (fs s) a ?fo"
    using o same a0 by (auto simp: open_on_def readable_file_def same_file_def fs)
  have rest: "file_rest (ld8 s) (fs s) ?fo = xs" using o same by (auto simp: open_on_def file_rest_def same_file_def fs)
  let ?bs = "take 1 xs"
  let ?fo' = "?fo\<lparr>file_position := file_position ?fo + of_nat (length ?bs)\<rparr>"
  let ?t = "upd_pcb (curr_pcb s) (upd_fd fd (\<lambda>_. ?fo')) (store_bytes a ?bs s)"
  have run: "ece391_read c (int fd) a 1 s = Some (int (length ?bs), ?t)"
    using read_open_file [where n = 1 and c = c, OF _ _ fd r] o by (simp add: open_on_def rest)
  have files: "current_file ?t fd = ?fo'" "\<And>j. j \<noteq> fd \<Longrightarrow> current_file ?t j = current_file s j"
    by (simp_all add: current_file_def)
  show thesis
  proof (cases xs)
    case Nil
    let ?s = "st8 a newline ?t"
    show thesis
    proof (rule that [of ?s])
      show "read_cell c (int fd) a e s = Some (snd (snd (cell_step (ch, xs, e))), ?s)"
        using run False ch by (simp add: read_cell_def Nil)
      show "steady s0 v ?s" by (rule steady_store [OF _ a]) (use st in \<open>simp add: steady_descriptor Nil\<close>)
      show "pictured s0 ino a fd ?s (cell_step (ch, xs, e))" using False by (simp add: pictured_def Nil ld8_at)
      show "ld8 ?s b = ld8 s b" if "tlb s0 b \<noteq> tlb s0 a" for b using that by (simp add: ld8_at tlb Nil)
      show "current_file ?s j = current_file s j" if "j \<noteq> fd" for j using that by (simp add: current_file_def)
    qed
  next
    case (Cons x ys)
    have "file_rest (ld8 s0) (fs s0) ?fo = xs" "readable_file (ld8 s0) (fs s0) 1 ?fo"
      using o by (simp_all add: open_on_def)
    then have "file_rest (ld8 s0) (fs s0) ?fo' = ys"
      using file_position_advance [of "ld8 s0" "fs s0" 1 ?fo ?bs 1] by (simp add: Cons)
    then have o': "open_on s0 ino ys ?fo'" using o by (simp add: open_on_def)
    show thesis
    proof (rule that [of ?t])
      show "read_cell c (int fd) a e s = Some (snd (snd (cell_step (ch, xs, e))), ?t)"
        using run False ch by (simp add: read_cell_def Cons)
      show "steady s0 v ?t"
        unfolding steady_descriptor using steady_store [OF st a, of x] by (simp add: Cons)
      show "pictured s0 ino a fd ?t (cell_step (ch, xs, e))"
        using False e o' files(1) by (simp add: pictured_def Cons ld8_at)
      show "ld8 ?t b = ld8 s b" if "tlb s0 b \<noteq> tlb s0 a" for b using that by (simp add: ld8_at tlb Cons)
      show "current_file ?t j = current_file s j" if "j \<noteq> fd" for j by (rule files(2) [OF that])
    qed
  qed
qed

section \<open>A line, and the pictures\<close>

definition added :: "mp1_blink_struct list \<Rightarrow> mp1_blink_struct list \<Rightarrow> mp1_blink_struct list" where
  "added new bs = rev (map fresh_blink (filter accepted new)) @ bs"

lemma added_append: "added ys (added xs bs) = added (xs @ ys) bs"
  by (simp add: added_def)

lemma added_length: "length (added new bs) \<le> length new + length bs"
  by (simp add: added_def)

lemma added_one: "added [b] bs = (if accepted b then fresh_blink b # bs else bs)"
  by (simp add: added_def)

text \<open>The new blinks have places other than 0 and there is room for them.\<close>

definition addable :: "mp1_blink_struct list \<Rightarrow> mp1_blink_struct list \<Rightarrow> bool" where
  "addable new bs \<longleftrightarrow> (\<forall>b \<in> set new. location b \<noteq> 0) \<and> length new + length bs \<le> 2000"

lemma addable_append: "addable (xs @ ys) bs \<Longrightarrow> addable xs bs \<and> addable ys (added xs bs)"
  using added_length [of xs bs] by (auto simp: addable_def)

text \<open>\<open>RTC_ADD\<close> of one blink while the pictures are read.\<close>

lemma frame_add:
  assumes "layout s0 v n0 n1" and "steady s0 v s" and "represents f bs" and "addable [b] bs"
  obtains r u f' s' where "mp1_ioctl (vmem_base_addr v) 0 b 0 f s = Some (r, u, f', s')"
    and "represents f' (added [b] bs)" and "steady s0 v s'" and "pcb_at s' = pcb_at s" and "curr_pcb s' = curr_pcb s"
    and "ld8 s' (c0_var v) = ld8 s (c0_var v)" and "ld8 s' (c1_var v) = ld8 s (c1_var v)"
proof -
  let ?vp = "vmem_base_addr v"
  let ?s = "if location b < 2000 then mp1_poke ?vp (on_char b) (screen_offset b) s else s"
  obtain r f' where run: "mp1_ioctl ?vp 0 b 0 f s = Some (r, b, f', ?s)"
    "represents f' (if location b < 2000 then fresh_blink b # bs else bs)"
    using add_represents [OF assms(3), where user = b and arg = 0 and vp = ?vp and s = s] assms(4)
    by (auto simp: addable_def)
  have poke: "mp1_poke ?vp (on_char b) (screen_offset b) s
      = st8 (word_at (ld8 s0) ?vp + screen_offset b) (on_char b) s"
    by (simp add: mp1_poke_def steady_word [OF assms(1,2)])
  have tlb: "tlb s = tlb s0" using assms(2) by (simp add: steady_def)
  have win: "location b < 2000 \<Longrightarrow> tlb s0 (word_at (ld8 s0) ?vp + screen_offset b) \<in> window s0 (word_at (ld8 s0) ?vp)"
    by (auto simp: window_def screen_offset_def)
  have other: "ld8 ?s a = ld8 s a" if "tlb s0 a \<notin> window s0 (word_at (ld8 s0) ?vp)" for a
    using that win by (auto simp: poke ld8_at tlb)
  have "steady s0 v ?s" using assms(2) other by (auto simp: steady_def untouched_def mp1_poke_def)
  moreover have "ld8 ?s (c0_var v) = ld8 s (c0_var v)" "ld8 ?s (c1_var v) = ld8 s (c1_var v)"
    using assms(1) by (intro other, simp add: layout_def Let_def)+
  moreover have "pcb_at ?s = pcb_at s" "curr_pcb ?s = curr_pcb s" by (simp_all add: mp1_poke_def)
  ultimately show thesis using that [OF run(1)] run(2) unfolding added_one by blast
qed

lemma pictured_newline: "pictured s0 ino a fd s (ch, xs, e) \<Longrightarrow> ld8 s a = ch"
  by (simp add: pictured_def)

lemma frame_row_step:
  assumes lay: "layout s0 v n0 n1" and fd: "fd0 < 8" "fd1 < 8" "fd0 \<noteq> fd1" and st: "steady s0 v s"
    and p0: "pictured s0 n0 (c0_var v) fd0 s (ch0, xs0, e0)" and p1: "pictured s0 n1 (c1_var v) fd1 s (ch1, xs1, e1)"
  obtains s' where "steady s0 v s'"
    and "pictured s0 n0 (c0_var v) fd0 s' (cell_step (ch0, xs0, e0))"
    and "pictured s0 n1 (c1_var v) fd1 s' (cell_step (ch1, xs1, e1))"
    and "\<And>B row col f. frame_row c v B (int fd0) (int fd1) row col e0 e1 f s =
      (let c0 = fst (cell_step (ch0, xs0, e0)); c1 = fst (cell_step (ch1, xs1, e1));
           e0' = snd (snd (cell_step (ch0, xs0, e0))); e1' = snd (snd (cell_step (ch1, xs1, e1))) in
       if c0 = newline \<and> c1 = newline then Some (e0', e1', f, s')
       else if c0 \<noteq> blank \<and> c0 \<noteq> newline \<or> c1 \<noteq> blank \<and> c1 \<noteq> newline
       then Option.bind (mp1_ioctl (vmem_base_addr v) 0 (frame_blink B c0 c1 row col) 0 f s')
              (\<lambda>(r, u, f1, s3). frame_row c v B (int fd0) (int fd1) row (col + 1) e0' e1' f1 s3)
       else frame_row c v B (int fd0) (int fd1) row (col + 1) e0' e1' f s')"
proof -
  have ne: "tlb s0 (c0_var v) \<noteq> tlb s0 (c1_var v)" using lay by (simp add: layout_def Let_def)
  obtain s1 where s1: "read_cell c (int fd0) (c0_var v) e0 s = Some (snd (snd (cell_step (ch0, xs0, e0))), s1)"
    "steady s0 v s1" "pictured s0 n0 (c0_var v) fd0 s1 (cell_step (ch0, xs0, e0))"
    "\<And>b. tlb s0 b \<noteq> tlb s0 (c0_var v) \<Longrightarrow> ld8 s1 b = ld8 s b" "\<And>j. j \<noteq> fd0 \<Longrightarrow> current_file s1 j = current_file s j"
    using read_cell_step [OF lay st _ _ fd(1) p0, of c] by blast
  have p1': "pictured s0 n1 (c1_var v) fd1 s1 (ch1, xs1, e1)"
    by (rule pictured_frame [OF p1]) (use s1(4,5) ne fd(3) in auto)
  obtain s2 where s2: "read_cell c (int fd1) (c1_var v) e1 s1 = Some (snd (snd (cell_step (ch1, xs1, e1))), s2)"
    "steady s0 v s2" "pictured s0 n1 (c1_var v) fd1 s2 (cell_step (ch1, xs1, e1))"
    "\<And>b. tlb s0 b \<noteq> tlb s0 (c1_var v) \<Longrightarrow> ld8 s2 b = ld8 s1 b" "\<And>j. j \<noteq> fd1 \<Longrightarrow> current_file s2 j = current_file s1 j"
    using read_cell_step [OF lay s1(2) _ _ fd(2) p1', of c] by blast
  have p0': "pictured s0 n0 (c0_var v) fd0 s2 (cell_step (ch0, xs0, e0))"
    by (rule pictured_frame [OF s1(3)]) (use s2(4,5) ne fd(3) in auto)
  have ch: "ld8 s2 (c0_var v) = fst (cell_step (ch0, xs0, e0))" "ld8 s2 (c1_var v) = fst (cell_step (ch1, xs1, e1))"
    using p0' s2(3) by (auto simp: pictured_def split: prod.splits)
  show thesis
    by (rule that [OF s2(2) p0' s2(3)])
       (subst frame_row.simps, simp add: s1(1) s2(1) ch Let_def del: cell_step.simps)
qed

lemma frame_row_adds:
  assumes lay: "layout s0 v n0 n1" and fd: "fd0 < 8" "fd1 < 8" "fd0 \<noteq> fd1"
  shows "steady s0 v s \<Longrightarrow> pictured s0 n0 (c0_var v) fd0 s st0 \<Longrightarrow> pictured s0 n1 (c1_var v) fd1 s st1 \<Longrightarrow>
    represents f bs \<Longrightarrow> addable (row_blinks B row col (picture_line st0) (picture_line st1)) bs \<Longrightarrow>
    \<exists>f' s'. frame_row c v B (int fd0) (int fd1) row col (snd (snd st0)) (snd (snd st1)) f s
      = Some (snd (snd (after_line st0)), snd (snd (after_line st1)), f', s') \<and> steady s0 v s' \<and>
      pictured s0 n0 (c0_var v) fd0 s' (after_line st0) \<and> pictured s0 n1 (c1_var v) fd1 s' (after_line st1) \<and>
      represents f' (added (row_blinks B row col (picture_line st0) (picture_line st1)) bs)"
proof (induction "length (picture_line st0) + length (picture_line st1)" arbitrary: st0 st1 s f bs col rule: less_induct)
  case less
  let ?t0 = "cell_step st0" and ?t1 = "cell_step st1" and ?row = "row_blinks B row col (picture_line st0) (picture_line st1)"
  note step = cell_step_line(1-3)
  obtain ch0 xs0 e0 ch1 xs1 e1 where eq: "st0 = (ch0, xs0, e0)" "st1 = (ch1, xs1, e1)" by (metis prod.exhaust)
  obtain s1 where s1: "steady s0 v s1" "pictured s0 n0 (c0_var v) fd0 s1 ?t0" "pictured s0 n1 (c1_var v) fd1 s1 ?t1"
    and run: "\<And>B row col f. frame_row c v B (int fd0) (int fd1) row col (snd (snd st0)) (snd (snd st1)) f s =
      (let c0 = fst ?t0; c1 = fst ?t1; e0' = snd (snd ?t0); e1' = snd (snd ?t1) in
       if c0 = newline \<and> c1 = newline then Some (e0', e1', f, s1)
       else if c0 \<noteq> blank \<and> c0 \<noteq> newline \<or> c1 \<noteq> blank \<and> c1 \<noteq> newline
       then Option.bind (mp1_ioctl (vmem_base_addr v) 0 (frame_blink B c0 c1 row col) 0 f s1)
              (\<lambda>(r, u, f1, s3). frame_row c v B (int fd0) (int fd1) row (col + 1) e0' e1' f1 s3)
       else frame_row c v B (int fd0) (int fd1) row (col + 1) e0' e1' f s1)"
    using frame_row_step [OF lay fd less.prems(1-3) [unfolded eq], of c] unfolding eq snd_conv by blast
  show ?case
  proof (cases "picture_line st0 = [] \<and> picture_line st1 = []")
    case True
    then have "fst ?t0 = newline" "fst ?t1 = newline" using step(1) by auto
    moreover have "?t0 = after_line st0" "?t1 = after_line st1"
      using True calculation unfolding eq by (auto split: list.splits if_splits)
    ultimately show ?thesis
      using run s1 less.prems(4) True by (simp add: Let_def row_blinks.simps added_def)
  next
    case False
    let ?x = "padded (picture_line st0)" and ?y = "padded (picture_line st1)"
    have pad: "(if fst (cell_step st) = newline then blank else fst (cell_step st)) = padded (picture_line st)" for st
      using step(1) [of st] cell_step_line(4) [of st] by (auto simp: padded_def split: list.splits)
    have ends: "\<not> (fst ?t0 = newline \<and> fst ?t1 = newline)" using False step(1) by auto
    have dots: "fst ?t0 \<noteq> blank \<and> fst ?t0 \<noteq> newline \<or> fst ?t1 \<noteq> blank \<and> fst ?t1 \<noteq> newline \<longleftrightarrow> ?x \<noteq> blank \<or> ?y \<noteq> blank"
      unfolding pad [symmetric] by auto
    have blink: "frame_blink B (fst ?t0) (fst ?t1) row col = place_blink B row col ?x ?y"
      by (simp add: frame_blink_def place_blink_def pad del: cell_step.simps)
    have row: "?row = (if ?x \<noteq> blank \<or> ?y \<noteq> blank then [place_blink B row col ?x ?y] else [])
        @ row_blinks B row (col + 1) (picture_line ?t0) (picture_line ?t1)"
      using row_blinks.simps [of B row col "picture_line st0" "picture_line st1"] False
      by (simp only: step(2) if_False)
    have shorter: "length (picture_line ?t0) + length (picture_line ?t1) < length (picture_line st0) + length (picture_line st1)"
      unfolding step(2) using False by (cases "picture_line st0"; cases "picture_line st1") simp_all
    note ih = less.hyps [OF shorter, unfolded step(3)]
    show ?thesis
    proof (cases "?x \<noteq> blank \<or> ?y \<noteq> blank")
      case True
      let ?b = "place_blink B row col ?x ?y" and ?rest = "row_blinks B row (col + 1) (picture_line ?t0) (picture_line ?t1)"
      have add: "addable [?b] bs" "addable ?rest (added [?b] bs)"
        using addable_append [of "[?b]" ?rest bs] less.prems(5) True unfolding row by simp_all
      obtain r u f1 s2 where a: "mp1_ioctl (vmem_base_addr v) 0 ?b 0 f s1 = Some (r, u, f1, s2)"
        "represents f1 (added [?b] bs)" "steady s0 v s2" "pcb_at s2 = pcb_at s1" "curr_pcb s2 = curr_pcb s1"
        "ld8 s2 (c0_var v) = ld8 s1 (c0_var v)" "ld8 s2 (c1_var v) = ld8 s1 (c1_var v)"
        using frame_add [OF lay s1(1) less.prems(4) add(1)] by blast
      have files: "current_file s2 = current_file s1" by (simp add: current_file_def a(4,5) fun_eq_iff)
      have p: "pictured s0 n0 (c0_var v) fd0 s2 ?t0" "pictured s0 n1 (c1_var v) fd1 s2 ?t1"
        by (rule pictured_frame [OF s1(2) a(6)], simp add: files, rule pictured_frame [OF s1(3) a(7)], simp add: files)
      have "frame_row c v B (int fd0) (int fd1) row col (snd (snd st0)) (snd (snd st1)) f s
          = frame_row c v B (int fd0) (int fd1) row (col + 1) (snd (snd ?t0)) (snd (snd ?t1)) f1 s2"
        unfolding run Let_def dots blink if_not_P [OF ends] if_P [OF True] by (simp add: a(1) del: cell_step.simps)
      moreover have "added ?row bs = added ?rest (added [?b] bs)" using True unfolding row added_append by simp
      ultimately show ?thesis using ih [OF a(3) p a(2) add(2)] by (simp del: cell_step.simps after_line.simps)
    next
      case False
      have "frame_row c v B (int fd0) (int fd1) row col (snd (snd st0)) (snd (snd st1)) f s
          = frame_row c v B (int fd0) (int fd1) row (col + 1) (snd (snd ?t0)) (snd (snd ?t1)) f s1"
        unfolding run Let_def dots if_not_P [OF ends] if_not_P [OF False] by simp
      moreover have "?row = row_blinks B row (col + 1) (picture_line ?t0) (picture_line ?t1)" unfolding row using False by simp
      ultimately show ?thesis
        using ih [OF s1 less.prems(4), where col = "col + 1"] less.prems(5) by (simp del: cell_step.simps after_line.simps)
    qed
  qed
qed

text \<open>The end of a line: the picture that has ended is closed, the other one goes on.\<close>

definition next_line :: "picture \<Rightarrow> picture" where
  "next_line = (\<lambda>(ch, xs, e). (if e then newline else 0x30, xs, e))"

lemma line_done_step:
  assumes lay: "layout s0 v n0 n1" and st: "steady s0 v s" and a: "a = c0_var v \<or> a = c1_var v"
    and fd: "1 < fd" "fd < 8" and p: "pictured s0 ino a fd s st"
  obtains s' where "line_done c (int fd) a (snd (snd st)) s = Some s'" and "steady s0 v s'"
    and "pictured s0 ino a fd s' (next_line st)"
    and "\<And>b. tlb s0 b \<noteq> tlb s0 a \<Longrightarrow> ld8 s' b = ld8 s b" and "\<And>j. j \<noteq> fd \<Longrightarrow> current_file s' j = current_file s j"
proof -
  obtain ch xs e where eq: "st = (ch, xs, e)" by (metis prod.exhaust)
  have tlb: "tlb s = tlb s0" using st by (simp add: steady_def)
  show thesis
  proof (cases e)
    case True
    let ?s = "st8 a newline s"
    have "unat (of_nat fd :: u32) = fd" using fd(2) by (simp add: unat_of_nat_u32)
    then have fd': "sint (of_nat fd :: u32) = int fd" using sint_small [of "of_nat fd"] fd by simp
    have close: "ece391_close c (int fd) u = Some (close_fd (int fd) u)" for u unfolding stub_close by (simp add: fd')
    let ?t = "snd (close_fd (int fd) ?s)"
    have t: "ld8 ?t = ld8 ?s" "steady s0 v ?t = steady s0 v ?s" "\<And>j. j \<noteq> fd \<Longrightarrow> current_file ?t j = current_file ?s j"
      using fd by (auto simp: close_fd_def get_current_pcb_def Let_def current_file_def steady_descriptor)
    show thesis
    proof (rule that [of ?t])
      show "line_done c (int fd) a (snd (snd st)) s = Some ?t"
        unfolding line_done_def eq snd_conv if_P [OF True] close by simp
      show "steady s0 v ?t" using t(2) steady_store [OF st a] by simp
      show "pictured s0 ino a fd ?t (next_line st)"
        using p by (simp add: eq True pictured_def next_line_def t(1)) (simp add: ld8_at)
      show "ld8 ?t b = ld8 s b" if "tlb s0 b \<noteq> tlb s0 a" for b using that by (simp add: t(1)) (simp add: ld8_at tlb)
      show "current_file ?t j = current_file s j" if "j \<noteq> fd" for j using t(3) [OF that] by (simp add: current_file_def)
    qed
  next
    case False
    let ?s = "st8 a 0x30 s"
    show thesis
    proof (rule that [of ?s])
      show "line_done c (int fd) a (snd (snd st)) s = Some ?s" by (simp add: eq False line_done_def)
      show "steady s0 v ?s" by (rule steady_store [OF st a])
      show "pictured s0 ino a fd ?s (next_line st)"
        using p by (simp add: eq False pictured_def next_line_def ld8_at current_file_def)
      show "ld8 ?s b = ld8 s b" if "tlb s0 b \<noteq> tlb s0 a" for b using that by (simp add: ld8_at tlb)
      show "current_file ?s j = current_file s j" if "j \<noteq> fd" for j by (simp add: current_file_def)
    qed
  qed
qed

text \<open>At the start of a line, the lines to come are those of what is unread.\<close>

definition at_line :: "picture \<Rightarrow> bool" where
  "at_line = (\<lambda>(ch, xs, e). ch = (if e then newline else 0x30) \<and> (e \<longrightarrow> xs = []))"

abbreviation to_come :: "picture \<Rightarrow> u8 list list" where
  "to_come st \<equiv> lines_left (fst (snd st)) (snd (snd st))"

lemma line_step:
  assumes "at_line st"
  shows "picture_line st = first_line (to_come st)" and "at_line (next_line (after_line st))"
    and "to_come (next_line (after_line st)) = tl (to_come st)" and "snd (snd st) \<longleftrightarrow> to_come st = []"
proof -
  obtain ch xs e where eq: "st = (ch, xs, e)" by (metis prod.exhaust)
  have drop: "newline \<notin> set xs \<Longrightarrow> drop (Suc (length (hd (split_lines xs)))) xs = []"
    by (induction xs) auto
  show "picture_line st = first_line (to_come st)"
    using assms by (cases "split_lines xs") (auto simp: eq at_line_def lines_left_def first_line_def)
  show "at_line (next_line (after_line st))"
    using assms drop by (auto simp: eq at_line_def next_line_def)
  show "to_come (next_line (after_line st)) = tl (to_come st)"
    using assms split_lines_rest [of xs] by (auto simp: eq at_line_def next_line_def lines_left_def)
  show "snd (snd st) \<longleftrightarrow> to_come st = []" by (simp add: eq lines_left_def)
qed

lemma frame_rows_adds:
  assumes lay: "layout s0 v n0 n1" and fd: "1 < fd0" "fd0 < 8" "1 < fd1" "fd1 < 8" "fd0 \<noteq> fd1"
  shows "steady s0 v s \<Longrightarrow> pictured s0 n0 (c0_var v) fd0 s st0 \<Longrightarrow> pictured s0 n1 (c1_var v) fd1 s st1 \<Longrightarrow>
    at_line st0 \<Longrightarrow> at_line st1 \<Longrightarrow> represents f bs \<Longrightarrow> addable (lines_blinks B row (to_come st0) (to_come st1)) bs \<Longrightarrow>
    \<exists>f' s'. frame_rows c v B (int fd0) (int fd1) row (snd (snd st0)) (snd (snd st1)) f s = Some (f', s') \<and>
      represents f' (added (lines_blinks B row (to_come st0) (to_come st1)) bs)"
proof (induction "length (to_come st0) + length (to_come st1)" arbitrary: st0 st1 s f bs row rule: less_induct)
  case less
  let ?n0 = "next_line (after_line st0)" and ?n1 = "next_line (after_line st1)"
  let ?new = "row_blinks B row 0 (picture_line st0) (picture_line st1)"
  let ?rest = "lines_blinks B (row + 1) (to_come ?n0) (to_come ?n1)"
  note l0 = line_step [OF less.prems(4)] and l1 = line_step [OF less.prems(5)]
  have all: "lines_blinks B row (to_come st0) (to_come st1)
      = (if to_come st0 = [] \<and> to_come st1 = [] then [] else ?new @ ?rest)"
    unfolding l0(1,3) l1(1,3) by (subst lines_blinks.simps) (rule refl)
  have ne: "tlb s0 (c0_var v) \<noteq> tlb s0 (c1_var v)" using lay by (simp add: layout_def Let_def)
  show ?case
  proof (cases "to_come st0 = [] \<and> to_come st1 = []")
    case True
    then have "snd (snd st0)" "snd (snd st1)" using l0(4) l1(4) by blast+
    then show ?thesis using less.prems(6) True unfolding all by (simp add: frame_rows.simps added_def)
  next
    case False
    then have more: "\<not> snd (snd st0) \<or> \<not> snd (snd st1)" using l0(4) l1(4) by blast
    have add: "addable ?new bs" "addable ?rest (added ?new bs)"
      using less.prems(7) addable_append [of ?new ?rest bs] unfolding all if_not_P [OF False] by simp_all
    obtain f1 s1 where row: "frame_row c v B (int fd0) (int fd1) row 0 (snd (snd st0)) (snd (snd st1)) f s
        = Some (snd (snd (after_line st0)), snd (snd (after_line st1)), f1, s1)" "steady s0 v s1"
      "pictured s0 n0 (c0_var v) fd0 s1 (after_line st0)" "pictured s0 n1 (c1_var v) fd1 s1 (after_line st1)"
      "represents f1 (added ?new bs)"
      using frame_row_adds [OF lay fd(2,4,5) less.prems(1-3,6) add(1), of c] by blast
    obtain s2 where s2: "line_done c (int fd0) (c0_var v) (snd (snd (after_line st0))) s1 = Some s2" "steady s0 v s2"
      "pictured s0 n0 (c0_var v) fd0 s2 ?n0" "\<And>b. tlb s0 b \<noteq> tlb s0 (c0_var v) \<Longrightarrow> ld8 s2 b = ld8 s1 b"
      "\<And>j. j \<noteq> fd0 \<Longrightarrow> current_file s2 j = current_file s1 j"
      using line_done_step [OF lay row(2) _ fd(1,2) row(3), of c] by blast
    have p1: "pictured s0 n1 (c1_var v) fd1 s2 (after_line st1)"
      by (rule pictured_frame [OF row(4)]) (use s2(4,5) ne fd(5) in auto)
    obtain s3 where s3: "line_done c (int fd1) (c1_var v) (snd (snd (after_line st1))) s2 = Some s3" "steady s0 v s3"
      "pictured s0 n1 (c1_var v) fd1 s3 ?n1" "\<And>b. tlb s0 b \<noteq> tlb s0 (c1_var v) \<Longrightarrow> ld8 s3 b = ld8 s2 b"
      "\<And>j. j \<noteq> fd1 \<Longrightarrow> current_file s3 j = current_file s2 j"
      using line_done_step [OF lay s2(2) _ fd(3,4) p1, of c] by blast
    have p0: "pictured s0 n0 (c0_var v) fd0 s3 ?n0"
      by (rule pictured_frame [OF s2(3)]) (use s3(4,5) ne fd(5) in auto)
    have e: "snd (snd (next_line st)) = snd (snd st)" for st by (cases st) (auto simp: next_line_def)
    have run: "frame_rows c v B (int fd0) (int fd1) row (snd (snd st0)) (snd (snd st1)) f s
        = frame_rows c v B (int fd0) (int fd1) (row + 1) (snd (snd ?n0)) (snd (snd ?n1)) f1 s3"
      by (subst frame_rows.simps, unfold if_P [OF more] e) (simp add: row(1) s2(1) s3(1))
    have "length (to_come ?n0) + length (to_come ?n1) < length (to_come st0) + length (to_come st1)"
      unfolding l0(3) l1(3) using False by (cases "to_come st0"; cases "to_come st1") simp_all
    from less.hyps [OF this s3(2) p0 s3(3) l0(2) l1(2) row(5) add(2)] obtain f2 s4 where
      "frame_rows c v B (int fd0) (int fd1) (row + 1) (snd (snd ?n0)) (snd (snd ?n1)) f1 s3 = Some (f2, s4)"
      "represents f2 (added ?rest (added ?new bs))" by blast
    then show ?thesis unfolding run all if_not_P [OF False] added_append by blast
  qed
qed

section \<open>The whole routine\<close>

text \<open>The state after the initialisation of \<open>c0\<close> and \<open>c1\<close>.\<close>

definition frames_start :: "fish_vars \<Rightarrow> kernel \<Rightarrow> kernel" where
  "frames_start v s = st8 (c1_var v) 0x30 (st8 (c0_var v) 0x30 s)"

text \<open>An open of a regular file.\<close>

definition opened :: "nat \<Rightarrow> dentry \<Rightarrow> kernel \<Rightarrow> kernel \<Rightarrow> bool" where
  "opened i d s t \<longleftrightarrow> ld8 t = ld8 s \<and> tlb t = tlb s \<and> (\<exists>g. fs t = (fs s)\<lparr>global_dentry := g\<rparr>) \<and>
     current t = upd_fd i (open_file d) (current s)"

lemma open_opened:
  assumes "flags_ok (current s)" and "i < 8" and "\<not> fd_in_use (current s) i" and "\<forall>j < i. fd_in_use (current s) j"
    and "a \<noteq> 0" and "map_of (directory (ld8 s) (fs s)) (string_in 32 (view s a)) = Some d" and "file_type d = 2"
  obtains t where "ece391_open c a s = Some (int i, t)" and "opened i d s t"
proof -
  have ft: "0 \<le> sint (file_type d)" "sint (file_type d) \<le> 2" using assms(7) by simp_all
  obtain t g where t: "open_fd a s = Some (int i, t)"
    "pcb_at t = (pcb_at s)(curr_pcb s := upd_fd i (open_file d) (current s))" "curr_pcb t = curr_pcb s"
    "mem t = mem s" "tlb t = tlb s" "fs t = (fs s)\<lparr>global_dentry := g\<rparr>"
    using open_fd_installs [OF assms(1-6) ft] by blast
  have "opened i d s t" using t(2-6) by (auto simp: opened_def current_def ld8_def rd_def fun_eq_iff)
  then show thesis using that t(1) by (simp add: stub_open)
qed

lemma opened_file:
  assumes "opened i d s t" and "file_type d = 2"
  shows "current_file t i = open_file d (file_descriptor (current s) i)"
    and "j \<noteq> i \<Longrightarrow> current_file t j = current_file s j"
    and "flags_ok (current s) \<Longrightarrow> flags_ok (current t)" and "fd_in_use (current t) j \<longleftrightarrow> j = i \<or> fd_in_use (current s) j"
    and "view t a = view s a" and "directory (ld8 t) (fs t) = directory (ld8 s) (fs s)"
proof -
  have c: "current t = upd_fd i (open_file d) (current s)" and e: "ld8 t = ld8 s" using assms(1) by (simp_all add: opened_def)
  have flag: "flag (open_file d f) = 1" for f using assms(2) by (simp add: open_file_def Let_def)
  show "current_file t i = open_file d (file_descriptor (current s) i)" "j \<noteq> i \<Longrightarrow> current_file t j = current_file s j"
    using c by (simp_all add: current_file_def current_def)
  show "flags_ok (current s) \<Longrightarrow> flags_ok (current t)" using flag by (auto simp: c flags_ok_def)
  show "fd_in_use (current t) j \<longleftrightarrow> j = i \<or> fd_in_use (current s) j" using flag by (auto simp: c fd_in_use_def)
  show "view t a = view s a" by (simp add: view_def e)
  show "directory (ld8 t) (fs t) = directory (ld8 s) (fs s)" using assms(1) by (auto simp: opened_def directory_fs)
qed

text \<open>The file that has just been opened is unread.\<close>

lemma open_on_new:
  assumes "fs t = (fs s)\<lparr>global_dentry := g\<rparr>" and "ld8 t = ld8 s" and "file_type d = 2"
    and "inode_id d \<le> num_inodes (ld8 s) (fs s) - 1" and "unat (inode_length (ld8 s) (fs s) (inode_id d)) < 2 ^ 31"
  shows "open_on t (inode_id d) (file_content (ld8 s) (fs s) (inode_id d)) (open_file d f)"
proof -
  have "inode (open_file d f) = inode_id d" "file_position (open_file d f) = 0"
    "fop_read (file_op_tb (open_file d f)) = Fn_file_read" "flag (open_file d f) = 1"
    using assms(3) by (simp_all add: open_file_def open_table_def file_table_def Let_def)
  then show ?thesis
    using assms(4,5)
    by (simp add: open_on_def assms(1,2) readable_file_fs file_rest_def file_content_fs) (simp add: readable_file_def)
qed

lemma layout_fs:
  assumes "layout s v n0 n1" and "ld8 t = ld8 s" and "tlb t = tlb s" and "fs t = (fs s)\<lparr>global_dentry := g\<rparr>"
  shows "layout t v n0 n1"
proof -
  have "file_within P (ld8 t) (fs t) n = file_within P (ld8 s) (fs s) n" for P n
    unfolding assms(2,4) by (simp add: file_within_def inode_length_def inode_block_def block_addr_def)
  moreover have "untouched t = untouched s" "window t = window s"
    by (simp_all add: untouched_def window_def assms(3) fun_eq_iff)
  ultimately show ?thesis using assms(1) unfolding layout_def Let_def assms(2,3) by simp
qed

text \<open>
  C18: \<open>add_frames\<close> opens the two pictures, reads them to their ends and returns with the list of blinks
  that the specification makes of their contents: one for each place where a picture has a character,
  with the characters of both, in the order of the lines (newest first), without those below the
  screen.  The blinks must not be at place 0 or more than the 2000 of \<open>blink_array\<close>, and the program's
  variables, its window and the image of the file system are apart.
\<close>

theorem add_frames_pictures:
  assumes "u = frames_start v s" and "flags_ok (current u)"
    and i: "1 < i" "i < j" "j < 8" "\<not> fd_in_use (current u) i" "\<not> fd_in_use (current u) j"
      "\<forall>k < j. k \<noteq> i \<longrightarrow> fd_in_use (current u) k"
    and names: "file0 v \<noteq> 0" "file1 v \<noteq> 0"
      "map_of (directory (ld8 u) (fs u)) (string_in 32 (view u (file0 v))) = Some d0" "file_type d0 = 2"
      "map_of (directory (ld8 u) (fs u)) (string_in 32 (view u (file1 v))) = Some d1" "file_type d1 = 2"
    and regular: "inode_id d0 \<le> num_inodes (ld8 u) (fs u) - 1" "unat (inode_length (ld8 u) (fs u) (inode_id d0)) < 2 ^ 31"
      "inode_id d1 \<le> num_inodes (ld8 u) (fs u) - 1" "unat (inode_length (ld8 u) (fs u) (inode_id d1)) < 2 ^ 31"
    and lay: "layout u v (inode_id d0) (inode_id d1)"
    and new: "new = picture_blinks b (file_content (ld8 u) (fs u) (inode_id d0)) (file_content (ld8 u) (fs u) (inode_id d1))"
    and room: "represents f bs" "addable new bs"
  shows "\<exists>f' t. add_frames c v b f s = Some (Inr f', t) \<and> represents f' (added new bs)"
proof -
  let ?p0 = "file_content (ld8 u) (fs u) (inode_id d0)" and ?p1 = "file_content (ld8 u) (fs u) (inode_id d1)"
  let ?B = "b\<lparr>on_length := 15, off_length := 15\<rparr>"
  have used: "\<forall>k < i. fd_in_use (current u) k" using i by auto
  obtain t0 where t0: "ece391_open c (file0 v) u = Some (int i, t0)" "opened i d0 u t0"
    using open_opened [OF assms(2) _ i(4) used names(1,3,4)] i by auto
  note f0 = opened_file [OF t0(2) names(4)]
  have "\<not> fd_in_use (current t0) j" "\<forall>k < j. fd_in_use (current t0) k" using i by (auto simp: f0(4))
  moreover have "map_of (directory (ld8 t0) (fs t0)) (string_in 32 (view t0 (file1 v))) = Some d1"
    unfolding f0(5,6) by (rule names(5))
  ultimately obtain t1 where t1: "ece391_open c (file1 v) t0 = Some (int j, t1)" "opened j d1 t0 t1"
    using open_opened [OF f0(3) [OF assms(2)] i(3)] names(2,6) by metis
  note f1 = opened_file [OF t1(2) names(6)]
  obtain g where g: "fs t1 = (fs u)\<lparr>global_dentry := g\<rparr>" and e: "ld8 t1 = ld8 u" "tlb t1 = tlb u"
    using t0(2) t1(2) by (auto simp: opened_def)
  have files: "current_file t1 i = open_file d0 (file_descriptor (current u) i)"
    "current_file t1 j = open_file d1 (file_descriptor (current t0) j)"
    using f1(1) f1(2) [of i] f0(1) i(2) by simp_all
  have lay1: "layout t1 v (inode_id d0) (inode_id d1)" by (rule layout_fs [OF lay e g])
  have vars: "ld8 u (c0_var v) = 0x30" "ld8 u (c1_var v) = 0x30"
    using lay by (simp_all add: assms(1) frames_start_def ld8_at layout_def Let_def)
  let ?s0 = "(0x30, ?p0, False) :: picture" and ?s1 = "(0x30, ?p1, False) :: picture"
  have p: "pictured t1 (inode_id d0) (c0_var v) i t1 ?s0" "pictured t1 (inode_id d1) (c1_var v) j t1 ?s1"
    using open_on_new [OF g e(1) names(4) regular(1,2)] open_on_new [OF g e(1) names(6) regular(3,4)]
    by (simp_all add: pictured_def vars e files)
  have st: "steady t1 v t1" by (simp add: steady_def)
  have at: "at_line ?s0" "at_line ?s1" by (simp_all add: at_line_def)
  have spec: "lines_blinks ?B 0 (to_come ?s0) (to_come ?s1) = new" by (simp add: new picture_blinks_def lines_left_def)
  obtain f' t where rows: "frame_rows c v ?B (int i) (int j) 0 False False f t1 = Some (f', t)" "represents f' (added new bs)"
    using frame_rows_adds [OF lay1 i(1) _ _ i(3) _ st p at room(1), of ?B 0 c] i(1,2,3) room(2) unfolding spec by auto
  have "add_frames c v b f s = Some (Inr f', t)"
    using t0(1) t1(1) rows(1) by (simp add: add_frames_def Let_def assms(1) frames_start_def)
  then show ?thesis using rows(2) by blast
qed

text \<open>Both pictures are the file \<open>a\<close> of the sample image; the window is the text screen.\<close>

definition fish_kernel :: kernel where
  "fish_kernel = sample_process\<lparr>mem := (mem sample_process)(0x8000201 := 0x80, 0x8000202 := 0x0B)\<rparr>"

definition sample_vars :: fish_vars where
  "sample_vars = \<lparr>vmem_base_addr = 0x8000200, file0 = 0x8000000, file1 = 0x8000000, c0_var = 0x8000300,
     c1_var = 0x8000301, ret_val = 0x8000304, garbage = 0x8000308\<rparr>"

lemma sample_vars_simps:
  "vmem_base_addr sample_vars = 0x8000200" "file0 sample_vars = 0x8000000" "file1 sample_vars = 0x8000000"
  "c0_var sample_vars = 0x8000300" "c1_var sample_vars = 0x8000301"
  by (simp_all add: sample_vars_def)

abbreviation fish_start :: kernel where
  "fish_start \<equiv> frames_start sample_vars fish_kernel"

lemma fish_start_simps:
  "ld8 fish_start = sample_image(0x8000000 := 0x61, 0x8000201 := 0x80, 0x8000202 := 0x0B, 0x8000300 := 0x30, 0x8000301 := 0x30)"
  "fs fish_start = sample_fs" "tlb fish_start = (\<lambda>a. a)" "current fish_start = current sample_process"
  by (simp_all add: frames_start_def fish_kernel_def sample_vars_def current_def ld8_def rd_def fun_eq_iff
      sample_process_simps(3,4)) (simp_all add: sample_process_def static_kernel_def)

lemma fish_start_fields:
  "num_dir_entries (ld8 fish_start) (fs fish_start) = 1" "num_inodes (ld8 fish_start) (fs fish_start) = 1"
  "inode_length (ld8 fish_start) (fs fish_start) 0 = 3" "inode_block (ld8 fish_start) (fs fish_start) 0 0 = 0"
  "word_at (ld8 fish_start) 0x8000200 = 0xB8000"
  by (simp_all add: num_dir_entries_def num_inodes_def inode_length_def inode_block_def fish_start_simps word_at_def
      sample_image_def sample_fs_def)

lemma fish_start_content: "file_content (ld8 fish_start) (fs fish_start) 0 = lit ''abc''"
  unfolding file_content_def fish_start_fields
  by (simp add: upt_conv_Cons file_byte_def fish_start_fields [simplified] fish_start_fields block_addr_def)
    (simp add: fish_start_simps sample_image_def sample_fs_def)

abbreviation fish_entry :: dentry where
  "fish_entry \<equiv> dentry_at (ld8 fish_start) 64"

lemma fish_entry_fields: "file_type fish_entry = 2" "inode_id fish_entry = 0"
  by (simp_all add: dentry_at_def fish_start_simps word_at_def sample_image_def)

lemma fish_start_lookup:
  "map_of (directory (ld8 fish_start) (fs fish_start)) (string_in 32 (view fish_start 0x8000000)) = Some fish_entry"
proof -
  have a: "dir_entry_addr sample_fs 0 = 64" by (simp add: dir_entry_addr_def sample_fs_def)
  have "dir_name (ld8 fish_start) sample_fs 0 = [0x61]"
    unfolding dir_name_def
    by (rule string_in_cstr) (simp_all add: cstr_def a fish_start_simps sample_image_def)
  then have "directory (ld8 fish_start) (fs fish_start) = [([0x61], fish_entry)]"
    unfolding directory_def fish_start_fields(1) by (simp add: a fish_start_simps(2))
  moreover have "string_in 32 (view fish_start 0x8000000) = [0x61]"
    by (rule string_in_cstr) (simp_all add: cstr_def view_def fish_start_simps(1) sample_image_def)
  ultimately show ?thesis by simp
qed

lemma fish_start_layout: "layout fish_start sample_vars 0 0"
proof -
  have win: "a \<notin> window fish_start 0xB8000" if "unat a < 0xB8000 \<or> 0xB9000 \<le> unat a" for a
  proof
    assume "a \<in> window fish_start 0xB8000"
    then obtain l :: u16 where l: "l < 2000" "a = 0xB8000 + push_bit 1 (ucast l)"
      by (auto simp: window_def fish_start_simps)
    then have n: "unat l < 2000" by (simp add: word_less_nat_alt)
    have "(ucast l :: u32) = of_nat (unat l)" by simp
    then have "a = of_nat (0xB8000 + 2 * unat l)" using l(2) by (simp add: push_bit_eq_mult)
    then have "unat a = 0xB8000 + 2 * unat l" using n by (simp add: unat_of_nat_u32 del: of_nat_add)
    then show False using that n by linarith
  qed
  have out: "untouched fish_start sample_vars 0xB8000 a"
    if "unat a < 0x3000 \<or> unat a \<in> {0x8000200..<0x8000300}" for a
    using that win [of a] by (auto simp: untouched_def fish_start_simps sample_vars_simps)
  have low: "untouched fish_start sample_vars 0xB8000 (of_nat n + of_nat k)" if "n + k < 0x3000" for n k
    using out [of "of_nat (n + k)"] that unat_of_nat_u32 [of "n + k"] by simp
  have var: "untouched fish_start sample_vars 0xB8000 (0x8000200 + of_nat k)" if "k < 4" for k
    using out [of "of_nat (0x8000200 + k)"] that unat_of_nat_u32 [of "0x8000200 + k"] by simp
  have f: "boot_block (fs fish_start) = of_nat 0" "inodes (fs fish_start) = of_nat 4096" "data_block (fs fish_start) = of_nat 8192"
    by (simp_all add: fish_start_simps sample_fs_def)
  have "file_within (untouched fish_start sample_vars 0xB8000) (ld8 fish_start) (fs fish_start) 0"
    unfolding file_within_def block_addr_def f fish_start_fields
    using low [of 0] low [of 4096] low [of 8192]
    by (simp add: fish_start_fields [simplified] fish_start_fields)
  moreover have "word_at (ld8 fish_start) (vmem_base_addr sample_vars) = 0xB8000"
    by (simp add: sample_vars_simps fish_start_fields)
  ultimately show ?thesis
    using var win by (simp add: layout_def Let_def) (simp add: sample_vars_simps fish_start_simps)
qed

theorem add_frames_pictures_witness:
  "\<exists>f' t. add_frames idle_setting sample_vars zero_blink blank_fish fish_kernel = Some (Inr f', t) \<and>
    represents f' (added (picture_blinks zero_blink (lit ''abc'') (lit ''abc'')) [])"
proof (rule add_frames_pictures [where u = fish_start and i = 2 and j = 3 and ?d0.0 = fish_entry and ?d1.0 = fish_entry])
  show "flags_ok (current fish_start)" "\<not> fd_in_use (current fish_start) 2"
    "\<not> fd_in_use (current fish_start) 3" "\<forall>k < 3. k \<noteq> 2 \<longrightarrow> fd_in_use (current fish_start) k"
    using sample_flags by (auto simp: fish_start_simps(4) less_Suc_eq numeral_3_eq_3)
      (simp_all add: sample_process_simps fd_in_use_def null_file_def)
  show "map_of (directory (ld8 fish_start) (fs fish_start)) (string_in 32 (view fish_start (file0 sample_vars))) = Some fish_entry"
    "map_of (directory (ld8 fish_start) (fs fish_start)) (string_in 32 (view fish_start (file1 sample_vars))) = Some fish_entry"
    using fish_start_lookup by (simp_all add: sample_vars_simps)
  show "layout fish_start sample_vars (inode_id fish_entry) (inode_id fish_entry)"
    using fish_start_layout by (simp add: fish_entry_fields)
  show "picture_blinks zero_blink (lit ''abc'') (lit ''abc'') = picture_blinks zero_blink
      (file_content (ld8 fish_start) (fs fish_start) (inode_id fish_entry))
      (file_content (ld8 fish_start) (fs fish_start) (inode_id fish_entry))"
    by (simp add: fish_entry_fields fish_start_content)
  show "represents blank_fish []" by (rule blank_fish_represents)
  show "addable (picture_blinks zero_blink (lit ''abc'') (lit ''abc'')) []"
    by (simp add: picture_blinks_def lines_blinks.simps row_blinks.simps first_line_def padded_def place_blink_def addable_def)
qed (simp_all add: sample_vars_simps fish_entry_fields fish_start_fields)

end
