(* ===== verification/Fish_Bytes.thy ===== *)
theory Fish_Bytes
  imports Fish_Blink C_Memory
begin

text \<open>
  The array of blinks as the program keeps it, in 16 bytes for each structure, and the two byte
  loops of \<open>fish.c\<close> that clear and copy structures: on the bytes they do what the store of
  \<open>Fish_Blink\<close> says of structures.
\<close>

section \<open>The byte loops (fish.c)\<close>

definition ece391_memset :: "translation \<Rightarrow> memory \<Rightarrow> u32 \<Rightarrow> u8 \<Rightarrow> int \<Rightarrow> memory" where
  "ece391_memset tr m mm c n = for_loop (nat n) (\<lambda>i m. wr tr m (mm + of_nat i) c) m"

definition ece391_memcpy :: "translation \<Rightarrow> memory \<Rightarrow> u32 \<Rightarrow> u32 \<Rightarrow> int \<Rightarrow> int \<times> memory" where
  "ece391_memcpy tr m d s n = (0, for_loop (nat n) (\<lambda>i m. wr tr m (d + of_nat i) (rd tr m (s + of_nat i))) m)"

lemma memset_loop_filled: "filled tr m (for_loop n (\<lambda>i m. wr tr m (a + of_nat i) c) m) a c n"
proof (induction n)
  case (Suc n)
  then show ?case using filled_trans [OF _ filled_byte [of tr _ "a + of_nat n" c]] by simp
qed simp

lemma memcpy_loop_copied:
  "apart tr d s n \<Longrightarrow> copied tr m (for_loop n (\<lambda>i m. wr tr m (d + of_nat i) (rd tr m (s + of_nat i))) m) d s n"
proof (induction n)
  case (Suc n)
  then have "copied tr m (for_loop n (\<lambda>i m. wr tr m (d + of_nat i) (rd tr m (s + of_nat i))) m) d s n"
    using apart_take [of tr d s "Suc n" n] by simp
  then show ?case
    using copied_trans [of tr d s n 1, OF _ _ copied_byte [of tr _ "d + of_nat n" "s + of_nat n"]] Suc.prems by simp
qed simp

interpretation fish_copy: copier "\<lambda>tr m d s n. snd (ece391_memcpy tr m d s (int n))"
  by unfold_locales (simp add: ece391_memcpy_def memcpy_loop_copied)

section \<open>A blink in memory (blink.h)\<close>

definition link_address :: "u32 \<Rightarrow> nat option \<Rightarrow> u32" where
  "link_address base p = (case p of None \<Rightarrow> 0 | Some i \<Rightarrow> base + 16 * of_nat i)"

definition half_bytes :: "u16 \<Rightarrow> u8 list" where
  "half_bytes w = [ucast w, ucast (drop_bit 8 w)]"

definition blink_bytes :: "u32 \<Rightarrow> mp1_blink_struct \<Rightarrow> u8 list" where
  "blink_bytes base b =
     (let p = link_address base (next_blink b) in
      half_bytes (location b) @ [on_char b, off_char b] @ half_bytes (on_length b) @ half_bytes (off_length b) @
      half_bytes (countdown b) @ half_bytes (status b) @ [byte_of p 0, byte_of p 1, byte_of p 2, byte_of p 3])"

lemma blink_bytes_length [simp]: "length (blink_bytes base b) = 16"
  by (simp add: blink_bytes_def half_bytes_def Let_def)

definition half_at :: "u8 list \<Rightarrow> nat \<Rightarrow> u16" where
  "half_at bs k = ucast (bs ! k) OR push_bit 8 (ucast (bs ! (k + 1)))"

definition blink_of :: "u32 \<Rightarrow> u8 list \<Rightarrow> mp1_blink_struct" where
  "blink_of base bs =
     (let p = word_at (\<lambda>a. bs ! unat a) 12
      in \<lparr>location = half_at bs 0, on_char = bs ! 2, off_char = bs ! 3, on_length = half_at bs 4,
          off_length = half_at bs 6, countdown = half_at bs 8, status = half_at bs 10,
          next_blink = (if p = 0 then None else Some (unat (p - base) div 16))\<rparr>)"

lemma half_word: "ucast (ucast w :: u8) OR push_bit 8 (ucast (ucast (drop_bit 8 w) :: u8)) = (w :: u16)"
  by (rule bit_word_eqI) (auto simp: bit_simps)

lemma whole_word:
  "ucast (byte_of w 0) OR push_bit 8 (ucast (byte_of w 1)) OR push_bit 16 (ucast (byte_of w 2))
     OR push_bit 24 (ucast (byte_of w 3)) = (w :: u32)"
proof (rule bit_word_eqI)
  fix n assume "n < LENGTH(32)"
  then show "bit (ucast (byte_of w 0) OR push_bit 8 (ucast (byte_of w 1)) OR push_bit 16 (ucast (byte_of w 2))
     OR push_bit 24 (ucast (byte_of w 3)) :: u32) n = bit w n"
    by (cases "n < 8"; cases "n < 16"; cases "n < 24") (auto simp: byte_of_def bit_simps)
qed

text \<open>A link into the array comes back, so the bytes hold all there is of a blink.\<close>

lemma link_back:
  assumes "base \<noteq> 0" "unat base + 32000 < 2 ^ 32" "case p of None \<Rightarrow> True | Some i \<Rightarrow> i < 80 * 25"
  shows "(if link_address base p = 0 then None else Some (unat (link_address base p - base) div 16)) = p"
proof (cases p)
  case (Some i)
  have u: "unat (base + of_nat (16 * i)) = unat base + 16 * i"
    by (rule unat_add_of_nat) (use assms(2,3) Some in simp)
  have "base + 16 * of_nat i = base + of_nat (16 * i)" by simp
  moreover have "base + of_nat (16 * i) \<noteq> 0" using u assms(1) by (metis add_is_0 unat_0 unat_eq_zero)
  moreover have "unat (of_nat (16 * i) :: u32) = 16 * i" by (rule unat_of_nat_u32) (use assms(3) Some in simp)
  ultimately show ?thesis using Some by (simp add: link_address_def)
qed (simp add: link_address_def)

lemma blink_of_bytes:
  assumes "base \<noteq> 0" "unat base + 32000 < 2 ^ 32" "case next_blink b of None \<Rightarrow> True | Some i \<Rightarrow> i < 80 * 25"
  shows "blink_of base (blink_bytes base b) = b"
proof -
  have n: "blink_bytes base b ! unat (12 :: u32) = byte_of (link_address base (next_blink b)) 0"
    "blink_bytes base b ! unat (13 :: u32) = byte_of (link_address base (next_blink b)) 1"
    "blink_bytes base b ! unat (14 :: u32) = byte_of (link_address base (next_blink b)) 2"
    "blink_bytes base b ! unat (15 :: u32) = byte_of (link_address base (next_blink b)) 3"
    by (simp_all add: blink_bytes_def half_bytes_def Let_def)
  have w: "word_at (\<lambda>a. blink_bytes base b ! unat a) 12 = link_address base (next_blink b)"
    unfolding word_at_def using whole_word [of "link_address base (next_blink b)"] n by simp
  have h: "half_at (blink_bytes base b) 0 = location b" "half_at (blink_bytes base b) 4 = on_length b"
    "half_at (blink_bytes base b) 6 = off_length b" "half_at (blink_bytes base b) 8 = countdown b"
    "half_at (blink_bytes base b) 10 = status b"
    by (simp_all add: half_at_def blink_bytes_def half_bytes_def Let_def half_word)
  have c: "blink_bytes base b ! 2 = on_char b" "blink_bytes base b ! 3 = off_char b"
    by (simp_all add: blink_bytes_def half_bytes_def Let_def)
  show ?thesis
    unfolding blink_of_def w Let_def h c link_back [OF assms] by simp
qed

section \<open>The array in memory\<close>

definition array_in_memory :: "u32 \<Rightarrow> translation \<Rightarrow> memory \<Rightarrow> fish \<Rightarrow> bool" where
  "array_in_memory base tr m f \<longleftrightarrow>
     (\<forall>i < 80 * 25. load_bytes tr m (base + 16 * of_nat i) 16 = blink_bytes base (blink_array f i))"

abbreviation array_mapped :: "u32 \<Rightarrow> translation \<Rightarrow> bool" where
  "array_mapped base tr \<equiv> inj_on (\<lambda>k. tr (base + of_nat k)) {..<32000}"

lemma cell_byte: "base + 16 * of_nat i + of_nat k = base + (of_nat (16 * i + k) :: u32)"
  by simp

lemma cells_disjoint:
  assumes "array_mapped base tr" "i < 80 * 25" "j < 80 * 25" "i \<noteq> j"
  shows "disjoint_ranges tr (base + 16 * of_nat i) 16 (base + 16 * of_nat j) 16"
  unfolding disjoint_ranges_def
proof (intro allI impI)
  fix k l :: nat assume kl: "k < 16" "l < 16"
  have "16 * i + k \<noteq> 16 * j + l" using assms(4) kl by (metis div_mult_self4 mult.commute div_less add.right_neutral zero_neq_numeral)
  then show "tr (base + 16 * of_nat i + of_nat k) \<noteq> tr (base + 16 * of_nat j + of_nat l)"
    using inj_onD [OF assms(1), of "16 * i + k" "16 * j + l"] assms(2,3) kl unfolding cell_byte by fastforce
qed

text \<open>A cell is overwritten, and nothing else of the array.\<close>

lemma array_update:
  assumes "array_in_memory base tr m f"
    and "\<And>j. j < 80 * 25 \<Longrightarrow> j \<noteq> i \<Longrightarrow> load_bytes tr m' (base + 16 * of_nat j) 16 = load_bytes tr m (base + 16 * of_nat j) 16"
    and "load_bytes tr m' (base + 16 * of_nat i) 16 = blink_bytes base b"
  shows "array_in_memory base tr m' (upd_blink i (\<lambda>_. b) f)"
  using assms by (simp add: array_in_memory_def upd_blink_def)

lemma zero_bytes: "blink_bytes base zero_blink = replicate 16 0"
  by (simp add: blink_bytes_def zero_blink_def half_bytes_def link_address_def byte_of_def numeral_eq_Suc)

lemma memset_bytes: "k < nat n \<Longrightarrow> ece391_memset tr m a c n (tr (a + of_nat k)) = c"
  and memset_elsewhere: "(\<And>k. k < nat n \<Longrightarrow> p \<noteq> tr (a + of_nat k)) \<Longrightarrow> ece391_memset tr m a c n p = m p"
  using memset_loop_filled [of tr m "nat n" a c] by (simp_all add: filled_def ece391_memset_def)

lemma load_same: "(\<And>k. k < n \<Longrightarrow> m' (tr (a + of_nat k)) = m (tr (b + of_nat k))) \<Longrightarrow> load_bytes tr m' a n = load_bytes tr m b n"
  by (simp add: load_bytes_def rd_def)

lemma cleared_cell:
  assumes "array_mapped base tr" "i < 80 * 25" "array_in_memory base tr m f"
  shows "array_in_memory base tr (ece391_memset tr m (base + 16 * of_nat i) 0 16) (mp1_free i f)"
  unfolding mp1_free_def
proof (rule array_update [OF assms(3)])
  let ?m = "ece391_memset tr m (base + 16 * of_nat i) 0 16"
  show "load_bytes tr ?m (base + 16 * of_nat j) 16 = load_bytes tr m (base + 16 * of_nat j) 16"
    if "j < 80 * 25" "j \<noteq> i" for j
    using cells_disjoint [OF assms(1) that(1) assms(2) that(2)]
    by (intro load_same memset_elsewhere) (simp add: disjoint_ranges_def)
  show "load_bytes tr ?m (base + 16 * of_nat i) 16 = blink_bytes base zero_blink"
    unfolding zero_bytes by (rule nth_equalityI) (simp_all add: memset_bytes)
qed

lemma cleared_array:
  assumes "array_mapped base tr"
  shows "array_in_memory base tr (ece391_memset tr m base 0 (16 * 80 * 25)) blank_fish"
  unfolding array_in_memory_def
proof (intro allI impI)
  fix i :: nat assume i: "i < 80 * 25"
  have "load_bytes tr (ece391_memset tr m base 0 (16 * 80 * 25)) (base + 16 * of_nat i) 16 = replicate 16 0"
  proof (rule nth_equalityI)
    fix k assume "k < length (load_bytes tr (ece391_memset tr m base 0 (16 * 80 * 25)) (base + 16 * of_nat i) 16)"
    then have k: "k < 16" by simp
    have "16 * i + k < nat (16 * 80 * 25)" using i k by simp
    from memset_bytes [OF this, of tr m base 0] show
      "load_bytes tr (ece391_memset tr m base 0 (16 * 80 * 25)) (base + 16 * of_nat i) 16 ! k = replicate 16 0 ! k"
      using k by (simp add: algebra_simps)
  qed simp
  then show "load_bytes tr (ece391_memset tr m base 0 (16 * 80 * 25)) (base + 16 * of_nat i) 16 =
      blink_bytes base (blink_array blank_fish i)"
    by (simp add: zero_bytes blank_fish_def)
qed

text \<open>A structure elsewhere: 16 bytes of their own, apart from the array.\<close>

definition outside_array :: "u32 \<Rightarrow> translation \<Rightarrow> u32 \<Rightarrow> bool" where
  "outside_array base tr a \<longleftrightarrow> inj_on (\<lambda>k. tr (a + of_nat k)) {..<16} \<and> disjoint_ranges tr a 16 base 32000"

lemma outside_cell: "outside_array base tr a \<Longrightarrow> i < 80 * 25 \<Longrightarrow> disjoint_ranges tr a 16 (base + 16 * of_nat i) 16"
  unfolding outside_array_def disjoint_ranges_def cell_byte
proof (elim conjE, intro allI impI)
  fix k l :: nat
  assume out: "\<forall>k < 16. \<forall>j < 32000. tr (a + of_nat k) \<noteq> tr (base + of_nat j)" and i: "i < 80 * 25" "k < 16" "l < 16"
  have "16 * i + l < 32000" using i by simp
  then show "tr (a + of_nat k) \<noteq> tr (base + of_nat (16 * i + l))" using out i(2) by blast
qed

lemma disjoint_sym: "disjoint_ranges tr a n b k \<Longrightarrow> disjoint_ranges tr b k a n"
  unfolding disjoint_ranges_def by metis

lemma apart_cells:
  "inj_on (\<lambda>k. tr (d + of_nat k)) {..<n} \<Longrightarrow> disjoint_ranges tr d n s n \<Longrightarrow> apart tr d s n"
  by (auto simp: apart_def disjoint_ranges_def inj_on_def)

lemma cell_inj:
  assumes "array_mapped base tr" "i < 80 * 25"
  shows "inj_on (\<lambda>k. tr (base + 16 * of_nat i + of_nat k)) {..<16}"
proof (rule inj_onI)
  fix k l :: nat assume "k \<in> {..<16}" "l \<in> {..<16}" and eq: "tr (base + 16 * of_nat i + of_nat k) = tr (base + 16 * of_nat i + of_nat l)"
  then show "k = l"
    using inj_onD [OF assms(1), of "16 * i + k" "16 * i + l"] assms(2) unfolding cell_byte by fastforce
qed

lemma stored_cell:
  assumes map: "array_mapped base tr" "i < 80 * 25" "array_in_memory base tr m f"
    and src: "outside_array base tr a" "load_bytes tr m a 16 = blink_bytes base b"
  shows "array_in_memory base tr (snd (ece391_memcpy tr m (base + 16 * of_nat i) a 16)) (upd_blink i (\<lambda>_. b) f)"
proof (rule array_update [OF map(3)])
  have ap: "apart tr (base + 16 * of_nat i) a 16"
    by (rule apart_cells [OF cell_inj [OF map(1,2)] disjoint_sym [OF outside_cell [OF src(1) map(2)]]])
  show "load_bytes tr (snd (ece391_memcpy tr m (base + 16 * of_nat i) a 16)) (base + 16 * of_nat i) 16 = blink_bytes base b"
    using fish_copy.cp_load [OF ap, of m] src(2) by simp
  show "load_bytes tr (snd (ece391_memcpy tr m (base + 16 * of_nat i) a 16)) (base + 16 * of_nat j) 16 =
      load_bytes tr m (base + 16 * of_nat j) 16" if "j < 80 * 25" "j \<noteq> i" for j
    using fish_copy.cp_load_other [OF ap cells_disjoint [OF map(1) that(1) map(2) that(2)], of m] by simp
qed

lemma fetched_cell:
  assumes map: "i < 80 * 25" "array_in_memory base tr m f" and dst: "outside_array base tr a"
  shows "load_bytes tr (snd (ece391_memcpy tr m a (base + 16 * of_nat i) 16)) a 16 = blink_bytes base (blink_array f i)"
    "array_in_memory base tr (snd (ece391_memcpy tr m a (base + 16 * of_nat i) 16)) f"
proof -
  have ap: "apart tr a (base + 16 * of_nat i) 16"
    by (rule apart_cells [OF _ outside_cell [OF dst map(1)]]) (use dst in \<open>simp add: outside_array_def\<close>)
  show "load_bytes tr (snd (ece391_memcpy tr m a (base + 16 * of_nat i) 16)) a 16 = blink_bytes base (blink_array f i)"
    using fish_copy.cp_load [OF ap, of m] map by (simp add: array_in_memory_def)
  show "array_in_memory base tr (snd (ece391_memcpy tr m a (base + 16 * of_nat i) 16)) f"
    unfolding array_in_memory_def
  proof (intro allI impI)
    fix j :: nat assume j: "j < 80 * 25"
    show "load_bytes tr (snd (ece391_memcpy tr m a (base + 16 * of_nat i) 16)) (base + 16 * of_nat j) 16 =
        blink_bytes base (blink_array f j)"
      using fish_copy.cp_load_other [OF ap disjoint_sym [OF outside_cell [OF dst j]], of m] map(2) j
      by (simp add: array_in_memory_def)
  qed
qed

text \<open>
  C21: on the 32000 bytes of \<open>blink_array\<close> the byte loops of the demo do what the model says of the
  structures: clearing the whole array leaves no blink, \<open>mp1_free\<close> clears its structure, \<open>RTC_ADD\<close>
  stores the structure it is given and \<open>RTC_FIND\<close> fetches the one found, each without touching
  another structure; and the bytes of a linked blink read back as the blink.
\<close>

theorem blink_array_bytes:
  assumes "array_mapped base tr" "base \<noteq> 0" "unat base + 32000 < 2 ^ 32" and i: "i < 80 * 25"
    and array: "array_in_memory base tr m f" and user: "outside_array base tr a"
  shows "array_in_memory base tr (ece391_memset tr m base 0 (16 * 80 * 25)) blank_fish \<and>
    array_in_memory base tr (ece391_memset tr m (base + 16 * of_nat i) 0 16) (mp1_free i f) \<and>
    (load_bytes tr m a 16 = blink_bytes base b \<longrightarrow>
      array_in_memory base tr (snd (ece391_memcpy tr m (base + 16 * of_nat i) a 16)) (upd_blink i (\<lambda>_. b) f)) \<and>
    (let m' = snd (ece391_memcpy tr m a (base + 16 * of_nat i) 16) in
      array_in_memory base tr m' f \<and> load_bytes tr m' a 16 = blink_bytes base (blink_array f i) \<and>
      (pred_option (\<lambda>j. j < 80 * 25) (next_blink (blink_array f i)) \<longrightarrow>
        blink_of base (load_bytes tr m' a 16) = blink_array f i))"
proof -
  have "blink_of base (blink_bytes base (blink_array f i)) = blink_array f i"
    if "pred_option (\<lambda>j. j < 80 * 25) (next_blink (blink_array f i))"
    using that by (intro blink_of_bytes assms(2,3), cases "next_blink (blink_array f i)") simp_all
  then show ?thesis
    using cleared_array [OF assms(1)] cleared_cell [OF assms(1) i array] stored_cell [OF assms(1) i array user]
      fetched_cell [OF i array user] by (simp add: Let_def)
qed

text \<open>The array at 128 MB, empty, and one blink of the user at 144 MB.\<close>

definition star :: mp1_blink_struct where
  "star = \<lparr>location = 81, on_char = 0x2A, off_char = 0x20, on_length = 15, off_length = 300,
     countdown = 0, status = 0, next_blink = Some 7\<rparr>"

definition star_memory :: memory where
  "star_memory = (\<lambda>p. if 0x9000000 \<le> unat p \<and> unat p < 0x9000010
     then blink_bytes 0x8000000 star ! (unat p - 0x9000000) else 0)"

lemma star_addresses:
  "k < 0x1000000 \<Longrightarrow> unat (0x8000000 + of_nat k :: u32) = 0x8000000 + k"
  "k < 0x1000000 \<Longrightarrow> unat (0x9000000 + of_nat k :: u32) = 0x9000000 + k"
  by (rule unat_add_of_nat [of "0x8000000" k, simplified], simp)
    (rule unat_add_of_nat [of "0x9000000" k, simplified], simp)

lemma star_hyps:
  "array_mapped 0x8000000 (\<lambda>a. a)" "outside_array 0x8000000 (\<lambda>a. a) 0x9000000"
  "array_in_memory 0x8000000 (\<lambda>a. a) star_memory blank_fish"
  "load_bytes (\<lambda>a. a) star_memory 0x9000000 16 = blink_bytes 0x8000000 star"
proof -
  have same: "k = l" if "k < 0x1000000" "l < 0x1000000" "of_nat k = (of_nat l :: u32)" for k l
    using that of_nat_inj_u32 [of k l] by simp
  then show "array_mapped 0x8000000 (\<lambda>a. a)" by (simp add: inj_on_def)
  have "inj_on (\<lambda>k. 0x9000000 + of_nat k :: u32) {..<16}" using same by (simp add: inj_on_def)
  moreover have "0x9000000 + of_nat k \<noteq> (0x8000000 + of_nat l :: u32)" if "k < 16" "l < 32000" for k l :: nat
  proof
    assume "0x9000000 + of_nat k = (0x8000000 + of_nat l :: u32)"
    then have "unat (0x9000000 + of_nat k :: u32) = unat (0x8000000 + of_nat l :: u32)" by (simp only:)
    then show False using that star_addresses(2) [of k] star_addresses(1) [of l] by linarith
  qed
  ultimately show "outside_array 0x8000000 (\<lambda>a. a) 0x9000000"
    unfolding outside_array_def disjoint_ranges_def by blast
  show "array_in_memory 0x8000000 (\<lambda>a. a) star_memory blank_fish"
    unfolding array_in_memory_def
  proof (intro allI impI)
    fix i :: nat assume i: "i < 80 * 25"
    have "star_memory (0x8000000 + 16 * of_nat i + of_nat k) = 0" if "k < 16" for k
    proof -
      have "unat (0x8000000 + of_nat (16 * i + k) :: u32) = 0x8000000 + (16 * i + k)"
        by (rule star_addresses(1)) (use i that in simp)
      then show ?thesis unfolding cell_byte using i that by (simp add: star_memory_def del: of_nat_add of_nat_mult)
    qed
    then have "load_bytes (\<lambda>a. a) star_memory (0x8000000 + 16 * of_nat i) 16 = replicate 16 0"
      by (intro nth_equalityI) simp_all
    then show "load_bytes (\<lambda>a. a) star_memory (0x8000000 + 16 * of_nat i) 16 = blink_bytes 0x8000000 (blink_array blank_fish i)"
      by (simp add: blank_fish_def zero_bytes)
  qed
  show "load_bytes (\<lambda>a. a) star_memory 0x9000000 16 = blink_bytes 0x8000000 star"
  proof (rule nth_equalityI)
    fix k assume "k < length (load_bytes (\<lambda>a. a) star_memory 0x9000000 16)"
    then have k: "k < 16" by simp
    then have "unat (0x9000000 + of_nat k :: u32) = 0x9000000 + k" by (intro star_addresses(2)) simp
    then have "star_memory (0x9000000 + of_nat k) = blink_bytes 0x8000000 star ! k"
      unfolding star_memory_def using k by simp
    then show "load_bytes (\<lambda>a. a) star_memory 0x9000000 16 ! k = blink_bytes 0x8000000 star ! k" using k by simp
  qed simp
qed

theorem blink_array_bytes_witness:
  "array_in_memory 0x8000000 (\<lambda>a. a) (snd (ece391_memcpy (\<lambda>a. a) star_memory (0x8000000 + 16 * 3) 0x9000000 16))
    (upd_blink 3 (\<lambda>_. star) blank_fish)"
  using blink_array_bytes [OF star_hyps(1) _ _ _ star_hyps(3,2), of 3 star] star_hyps(4) by simp

end
