(* ===== verification/Emulation.thy ===== *)
theory Emulation
  imports User_Lib
begin

text \<open>
  \<open>src/fish/ece391emulate.c\<close> (and its copy in \<open>src/syscalls\<close>): the system calls of the kernel made
  out of those of Linux, so that the programs run there.  Local arrays and the buffers of the
  caller are arrays of their own; a pointer into one is an index.
\<close>

section \<open>Linux and its C library\<close>

text \<open>
  The calls the emulation makes, on a state of the machine and with directory handles of some
  type.  \<open>sys_fork\<close> says whether there is a child; \<open>sys_execv\<close>, called in the child, gives the status
  with which the program ends, or \<open>None\<close> if it cannot be executed; the three direct calls
  return what the kernel leaves in EAX; \<open>lib_readdir\<close> gives the name of the next entry.
\<close>

record ('w, 'd) linux =
  sys_fork :: "'w \<Rightarrow> bool \<times> 'w"
  sys_execv :: "u8 list \<Rightarrow> u8 list list \<Rightarrow> 'w \<Rightarrow> (u32 \<times> 'w) option"
  sys_read :: "int \<Rightarrow> int \<Rightarrow> 'w \<Rightarrow> u32 \<times> u8 list \<times> 'w"
  sys_write :: "int \<Rightarrow> bytes \<Rightarrow> int \<Rightarrow> 'w \<Rightarrow> u32 \<times> 'w"
  sys_close :: "int \<Rightarrow> 'w \<Rightarrow> u32 \<times> 'w"
  sys_open :: "bytes \<Rightarrow> u32 \<Rightarrow> 'w \<Rightarrow> u32 \<times> 'w"
  lib_open :: "string \<Rightarrow> u32 \<Rightarrow> 'w \<Rightarrow> int \<times> 'w"
  lib_close :: "int \<Rightarrow> 'w \<Rightarrow> 'w"
  lib_opendir :: "string \<Rightarrow> 'w \<Rightarrow> 'd option \<times> 'w"
  lib_readdir :: "'d \<Rightarrow> 'w \<Rightarrow> bytes option \<times> 'w"
  lib_closedir :: "'d \<Rightarrow> 'w \<Rightarrow> 'w"
  lib_mmap :: "nat \<Rightarrow> int \<Rightarrow> 'w \<Rightarrow> u32 \<times> 'w"
  lib_perror :: "string \<Rightarrow> 'w \<Rightarrow> 'w"

text \<open>The static variables.\<close>

record 'd emulator =
  dir_fd :: int
  dir :: "'d option"
  mem_fd :: int

definition fresh_emulator :: "'d emulator" where
  "fresh_emulator = \<lparr>dir_fd = -1, dir = None, mem_fd = -1\<rparr>"

text \<open>The comparison with \<open>0xFFFFC000\<close> in \<open>DO_CALL\<close> and in \<open>ece391_open\<close>.\<close>

definition emulated_result :: "u32 \<Rightarrow> int" where
  "emulated_result rval = (if rval > 0xFFFFC000 then -1 else sint rval)"

section \<open>Executing a program\<close>

partial_function (option) array_strcpy :: "bytes \<Rightarrow> nat \<Rightarrow> bytes \<Rightarrow> nat \<Rightarrow> bytes option" where
  "array_strcpy dst i src j =
     (let dst1 = dst(i := src j) in
      if src j \<noteq> 0 then array_strcpy dst1 (i + 1) src (j + 1) else Some dst1)"

definition ends_word :: "u8 \<Rightarrow> bool" where
  "ends_word c \<longleftrightarrow> c = 0 \<or> c = 0x20 \<or> c = 0x0A"

partial_function (option) scan_word :: "bytes \<Rightarrow> nat \<Rightarrow> nat option" where
  "scan_word buf scan = (if \<not> ends_word (buf scan) then scan_word buf (scan + 1) else Some scan)"

partial_function (option) scan_spaces :: "bytes \<Rightarrow> nat \<Rightarrow> nat option" where
  "scan_spaces buf scan = (if buf scan = 0x20 then scan_spaces buf (scan + 1) else Some scan)"

text \<open>The array and the indices in it that \<open>args\<close> points to.\<close>

partial_function (option) parse_args :: "bytes \<Rightarrow> nat \<Rightarrow> nat list \<Rightarrow> (bytes \<times> nat list) option" where
  "parse_args buf scan args =
     Option.bind (scan_spaces buf scan) (\<lambda>s1.
       if buf s1 = 0 \<or> buf s1 = 0x0A then Some (buf(s1 := 0), args)
       else Option.bind (scan_word buf s1) (\<lambda>s2.
         if buf s2 \<noteq> 0 then parse_args (buf(s2 := 0)) (s2 + 1) (args @ [s1])
         else parse_args buf s2 (args @ [s1])))"

text \<open>\<open>junk\<close> is what the uninitialised array holds.\<close>

definition parse_command :: "bytes \<Rightarrow> bytes \<Rightarrow> (bytes \<times> nat list) option" where
  "parse_command junk command =
     Option.bind (array_strcpy (junk(0 := 0x2E, 1 := 0x2F)) 2 command 0) (\<lambda>buf.
     Option.bind (scan_word buf 2) (\<lambda>scan.
       if buf scan \<noteq> 0 then parse_args (buf(scan := 0)) (scan + 1) [0] else Some (buf, [0])))"

text \<open>\<open>WIFEXITED\<close>, \<open>WEXITSTATUS\<close> and \<open>WTERMSIG\<close> of \<open>sys/wait.h\<close>.\<close>

definition wait_result :: "u32 \<Rightarrow> int" where
  "wait_result status =
     (if status AND 0x7F = 0 then uint (drop_bit 8 status AND 0xFF)
      else if status AND 0x7F = 9 then -1 else 256)"

text \<open>
  \<open>unset\<close> is what the uninitialised \<open>status\<close> holds: without a child, \<open>wait\<close> fails and leaves it.
  A child that cannot execute the program kills itself with signal 9.
\<close>

definition emulated_execute ::
    "('w, 'd) linux \<Rightarrow> bytes \<Rightarrow> u32 \<Rightarrow> bytes \<Rightarrow> 'w \<Rightarrow> (int \<times> 'w) option" where
  "emulated_execute sys junk unset command w =
     Option.bind (ece391_strlen command) (\<lambda>len.
       if 1023 < len then Some (-1, w)
       else Option.bind (parse_command junk command) (\<lambda>(buf, args).
         let string_from = (\<lambda>i. string_in (1026 - i) (\<lambda>k. buf (i + k)));
             (child, w1) = sys_fork sys w;
             (status, w2) =
               (if \<not> child then (unset, w1)
                else case sys_execv sys (string_from 0) (map string_from args) w1 of
                       Some (st, w') \<Rightarrow> (st, w') | None \<Rightarrow> (9, w1))
         in Some (wait_result status, w2)))"

section \<open>The arguments\<close>

text \<open>
  The loop over \<open>argv\<close>, of which the arguments are the strings from \<open>idx\<close> on; \<open>i\<close> is the
  index that \<open>buf\<close> has come to.
\<close>

definition end_args :: "bytes \<Rightarrow> nat \<Rightarrow> int \<Rightarrow> int \<times> bytes" where
  "end_args buf i nbytes = (if nbytes < 1 then (-1, buf) else (0, buf(i := 0)))"

fun copy_args :: "bytes list \<Rightarrow> bytes \<Rightarrow> nat \<Rightarrow> int \<Rightarrow> (int \<times> bytes) option" where
  "copy_args [] buf i nbytes = Some (end_args buf i nbytes)"
| "copy_args (arg # rest) buf i nbytes =
     Option.bind (ece391_strlen arg) (\<lambda>len.
       if int len > nbytes then Some (-1, buf)
       else Option.bind (array_strcpy buf i arg 0) (\<lambda>buf1.
         if rest = [] then Some (end_args buf1 (i + len) (nbytes - int len))
         else if nbytes - int len < 1 then Some (-1, buf1)
         else copy_args rest (buf1(i + len := 0x20)) (i + len + 1) (nbytes - int len - 1)))"

definition emulated_getargs :: "bytes list \<Rightarrow> bytes \<Rightarrow> int \<Rightarrow> (int \<times> bytes) option" where
  "emulated_getargs argv buf nbytes = copy_args (drop 1 argv) buf 0 nbytes"

section \<open>Files and directories\<close>

definition emulated_open ::
    "('w, 'd) linux \<Rightarrow> bytes \<Rightarrow> 'd emulator \<times> 'w \<Rightarrow> (int \<times> 'd emulator \<times> 'w) option" where
  "emulated_open sys filename ew =
     (let (e, w) = ew in
      Option.bind (ece391_strcmp filename (array_of (lit ''.''))) (\<lambda>d.
        if d = 0
        then let (dp, w1) = lib_opendir sys ''.'' w;
                 (fd, w2) = lib_open sys ''/dev/null'' 0 w1
             in Some (fd, e\<lparr>dir := dp, dir_fd := fd\<rparr>, w2)
        else let (rval, w1) = sys_open sys filename 0 w in Some (emulated_result rval, e, w1)))"

text \<open>The two loops of \<open>ece391_read\<close>, the first with its returns.\<close>

function pad_name :: "int \<Rightarrow> nat \<Rightarrow> bytes \<Rightarrow> int \<times> bytes" where
  "pad_name nbytes ncopied buf =
     (if nbytes > int ncopied \<and> 32 > ncopied then pad_name nbytes (ncopied + 1) (buf(ncopied := 0))
      else (int ncopied, buf))"
  by pat_completeness auto
termination
  by (relation "measure (\<lambda>(n, c, b). 32 - c)") auto

declare pad_name.simps [simp del]

partial_function (option) copy_name :: "bytes \<Rightarrow> int \<Rightarrow> nat \<Rightarrow> bytes \<Rightarrow> (int \<times> bytes) option" where
  "copy_name from nbytes ncopied buf =
     (if from ncopied = 0 then Some (pad_name nbytes ncopied buf)
      else let buf1 = buf(ncopied := from ncopied) in
        if int (ncopied + 1) = nbytes then Some (nbytes, buf1)
        else if ncopied + 1 = 32 then Some (32, buf1)
        else copy_name from nbytes (ncopied + 1) buf1)"

definition emulated_read :: "('w, 'd) linux \<Rightarrow> int \<Rightarrow> bytes \<Rightarrow> int \<Rightarrow> 'd emulator \<times> 'w
    \<Rightarrow> (int \<times> bytes \<times> 'd emulator \<times> 'w) option" where
  "emulated_read sys fd buf nbytes ew =
     (let (e, w) = ew in
      case dir e of
        Some d \<Rightarrow>
          if dir_fd e = fd
          then (case lib_readdir sys d w of
              (None, w1) \<Rightarrow> Some (0, buf, e, w1)
            | (Some name, w1) \<Rightarrow> map_option (\<lambda>(r, b). (r, b, e, w1)) (copy_name name nbytes 0 buf))
          else let (r, bs, w1) = sys_read sys fd nbytes w in Some (emulated_result r, overwrite buf 0 bs, e, w1)
      | None \<Rightarrow> let (r, bs, w1) = sys_read sys fd nbytes w in Some (emulated_result r, overwrite buf 0 bs, e, w1))"

definition emulated_write ::
    "('w, 'd) linux \<Rightarrow> int \<Rightarrow> bytes \<Rightarrow> int \<Rightarrow> 'd emulator \<times> 'w \<Rightarrow> int \<times> 'd emulator \<times> 'w" where
  "emulated_write sys fd buf nbytes ew =
     (let (e, w) = ew in
      if dir e = None \<or> dir_fd e \<noteq> fd
      then let (r, w1) = sys_write sys fd buf nbytes w in (emulated_result r, e, w1)
      else (-1, e, w))"

definition emulated_close :: "('w, 'd) linux \<Rightarrow> int \<Rightarrow> 'd emulator \<times> 'w \<Rightarrow> int \<times> 'd emulator \<times> 'w" where
  "emulated_close sys fd ew =
     (let (e, w) = ew in
      case dir e of
        Some d \<Rightarrow>
          if dir_fd e = fd
          then (0, e\<lparr>dir := None, dir_fd := -1\<rparr>, lib_close sys (dir_fd e) (lib_closedir sys d w))
          else let (r, w1) = sys_close sys fd w in (emulated_result r, e, w1)
      | None \<Rightarrow> let (r, w1) = sys_close sys fd w in (emulated_result r, e, w1))"

text \<open>The screen, if the low memory of the machine could be mapped.\<close>

definition emulated_vidmap :: "('w, 'd) linux \<Rightarrow> 'd emulator \<times> 'w \<Rightarrow> int \<times> u32 option \<times> 'd emulator \<times> 'w" where
  "emulated_vidmap sys ew =
     (let (e, w) = ew;
          (e1, w1) = (if mem_fd e = -1
                      then let (fd, w') = lib_open sys ''/dev/mem'' 2 w in (e\<lparr>mem_fd := fd\<rparr>, w')
                      else (e, w));
          (mem_image, w2) = lib_mmap sys (1024 * 1024) (mem_fd e1) w1
      in if mem_image = 0xFFFFFFFF then (-1, None, e1, lib_perror sys ''mmap low memory'' w2)
         else (0, Some (mem_image + 0xB8000), e1, w2))"

section \<open>Strings inside an array\<close>

abbreviation string_at :: "bytes \<Rightarrow> nat \<Rightarrow> u8 list \<Rightarrow> bool" where
  "string_at buf i xs \<equiv> cstr (\<lambda>k. buf (i + k)) xs"

lemma string_at_Nil [simp]: "string_at buf i [] \<longleftrightarrow> buf i = 0"
  by (simp add: cstr_def)

lemma string_at_Cons [simp]: "string_at buf i (x # xs) \<longleftrightarrow> buf i = x \<and> x \<noteq> 0 \<and> string_at buf (Suc i) xs"
  by (auto simp: cstr_def nth_Cons less_Suc_eq_0_disj)

lemma string_at_append: "string_at buf i (xs @ ys) \<Longrightarrow> string_at buf (i + length xs) ys"
proof (induction xs arbitrary: i)
  case (Cons x xs)
  then have "string_at buf (Suc i) (xs @ ys)" by simp
  from Cons.IH [OF this] show ?case by simp
qed simp

lemma string_at_cong: "string_at buf i xs \<Longrightarrow> (\<And>k. k \<le> length xs \<Longrightarrow> buf' (i + k) = buf (i + k)) \<Longrightarrow> string_at buf' i xs"
  by (simp add: cstr_def)

lemma string_at_cut:
  "string_at buf i (xs @ ys) \<Longrightarrow> buf' (i + length xs) = 0 \<Longrightarrow> (\<And>k. k < length xs \<Longrightarrow> buf' (i + k) = buf (i + k)) \<Longrightarrow>
   string_at buf' i xs"
  by (simp add: cstr_def nth_append)

lemma string_at_next:
  assumes "string_at b i (x # xs)"
  shows "b i \<noteq> 0" "string_at (b(i := 0)) (i + 1) xs"
  using assms by (auto simp: cstr_def)

lemma string_at_dropWhile: "string_at buf i xs \<Longrightarrow> string_at buf (i + length (takeWhile P xs)) (dropWhile P xs)"
  using string_at_append [of buf i "takeWhile P xs" "dropWhile P xs"] by simp

lemma array_strcpy_string:
  "string_at src j xs \<Longrightarrow> array_strcpy dst i src j = Some (overwrite dst i (xs @ [0]))"
proof (induction xs arbitrary: i j dst)
  case Nil
  then show ?case
    by (simp add: array_strcpy.simps [of dst i src j] overwrite_def fun_eq_iff)
next
  case (Cons x xs)
  then show ?case
    using overwrite_Cons [of dst i x "xs @ [0]"] by (simp add: array_strcpy.simps [of dst i src j])
qed

section \<open>The words of a command\<close>

definition breaks :: "u8 \<Rightarrow> bool" where
  "breaks c \<longleftrightarrow> c = 0x20 \<or> c = 0x0A"

text \<open>A newline before an argument ends the command, one after an argument does not.\<close>

function args_of :: "u8 list \<Rightarrow> u8 list list" where
  "args_of xs =
     (case dropWhile is_space xs of
        [] \<Rightarrow> []
      | c # cs \<Rightarrow>
          if c = 0x0A then []
          else takeWhile (\<lambda>c. \<not> breaks c) (c # cs) # args_of (drop 1 (dropWhile (\<lambda>c. \<not> breaks c) cs)))"
  by pat_completeness auto
termination
proof (relation "measure length")
  fix xs c and cs :: "u8 list"
  assume d: "dropWhile is_space xs = c # cs"
  have "length (drop 1 (dropWhile (\<lambda>c. \<not> breaks c) cs)) \<le> length cs"
    using length_dropWhile_le [of "\<lambda>c. \<not> breaks c" cs] by simp
  also have "\<dots> < length (dropWhile is_space xs)" by (simp add: d)
  also have "\<dots> \<le> length xs" by (rule length_dropWhile_le)
  finally show "(drop 1 (dropWhile (\<lambda>c. \<not> breaks c) cs), xs) \<in> measure length" by simp
qed simp

declare args_of.simps [simp del]

definition command_args :: "u8 list \<Rightarrow> u8 list list" where
  "command_args cs = (lit ''./'' @ takeWhile (\<lambda>c. \<not> breaks c) cs) # args_of (drop 1 (dropWhile (\<lambda>c. \<not> breaks c) cs))"

lemma args_of_Nil [simp]: "args_of [] = []"
  by (simp add: args_of.simps)

lemma scan_word_string:
  "string_at buf i xs \<Longrightarrow> scan_word buf i = Some (i + length (takeWhile (\<lambda>c. \<not> breaks c) xs))"
  by (induction xs arbitrary: i)
    (simp_all add: scan_word.simps [of buf] ends_word_def breaks_def)

lemma scan_spaces_string:
  "string_at buf i xs \<Longrightarrow> scan_spaces buf i = Some (i + length (takeWhile is_space xs))"
  by (induction xs arbitrary: i) (simp_all add: scan_spaces.simps [of buf])

text \<open>The loop leaves the arguments where \<open>args\<close> points, inside the command, and nothing before them changes.\<close>

lemma parse_args_words:
  "string_at buf i xs \<Longrightarrow> \<exists>buf' offs. parse_args buf i args = Some (buf', args @ offs) \<and>
     list_all2 (\<lambda>k w. string_at buf' k w \<and> k + length w \<le> i + length xs) offs (args_of xs) \<and> (\<forall>j < i. buf' j = buf j)"
proof (induction xs arbitrary: buf i args rule: args_of.induct)
  case (1 xs)
  let ?ys = "dropWhile is_space xs" and ?s1 = "i + length (takeWhile is_space xs)"
  have sp: "scan_spaces buf i = Some ?s1" by (rule scan_spaces_string [OF "1.prems"])
  have ys: "string_at buf ?s1 ?ys" by (rule string_at_dropWhile [OF "1.prems"])
  have len: "?s1 + length ?ys = i + length xs" using length_dropWhile_add [of is_space xs] by simp
  show ?case
  proof (cases "?ys = [] \<or> hd ?ys = 0x0A")
    case True
    then have "buf ?s1 = 0 \<or> buf ?s1 = 0x0A" using ys by (cases ?ys) auto
    moreover have "args_of xs = []" using True by (cases ?ys) (auto simp: args_of.simps [of xs] simp del: dropWhile_eq_Nil_conv)
    ultimately show ?thesis by (simp add: parse_args.simps [of buf i] sp)
  next
    case False
    then obtain c cs where c: "?ys = c # cs" "c \<noteq> 0x0A" by (cases ?ys) auto
    have "c \<noteq> 0x20" using c(1) hd_dropWhile [of is_space xs] by auto
    then have nb: "\<not> breaks c" using c(2) by (simp add: breaks_def)
    let ?w = "takeWhile (\<lambda>c. \<not> breaks c) ?ys" and ?r = "dropWhile (\<lambda>c. \<not> breaks c) ?ys"
    let ?s2 = "?s1 + length ?w"
    have r: "string_at buf ?s2 ?r" by (rule string_at_dropWhile [OF ys])
    have lenr: "?s2 + length ?r = i + length xs" using length_dropWhile_add [of _ ?ys] len by simp
    have at1: "buf ?s1 \<noteq> 0" "buf ?s1 \<noteq> 0x0A" using ys c by auto
    have args: "args_of xs = ?w # args_of (drop 1 ?r)"
      using c nb by (simp add: args_of.simps [of xs])
    have step: "parse_args buf i args = (if buf ?s2 \<noteq> 0
        then parse_args (buf(?s2 := 0)) (?s2 + 1) (args @ [?s1]) else parse_args buf ?s2 (args @ [?s1]))"
      using at1 scan_word_string [OF ys] by (simp add: parse_args.simps [of buf i] sp)
    show ?thesis
    proof (cases ?r)
      case Nil
      have z: "buf ?s2 = 0" using r unfolding Nil by simp
      have "scan_spaces buf ?s2 = Some ?s2" using scan_spaces_string [OF r] Nil by simp
      then have "parse_args buf i args = Some (buf(?s2 := 0), args @ [?s1])"
        using step z by (simp add: parse_args.simps [of buf ?s2])
      moreover have "string_at (buf(?s2 := 0)) ?s1 ?w"
        by (rule string_at_cut [of buf _ _ ?r]) (use ys in simp_all)
      ultimately show ?thesis using args Nil lenr by (intro exI conjI) auto
    next
      case (Cons b r')
      have z: "buf ?s2 \<noteq> 0" and r': "string_at (buf(?s2 := 0)) (?s2 + 1) r'"
        using string_at_next [OF r [unfolded Cons]] .
      have ih_arg: "drop 1 (dropWhile (\<lambda>c. \<not> breaks c) cs) = r'" using c(1) nb Cons by simp
      obtain buf' offs where ih: "parse_args (buf(?s2 := 0)) (?s2 + 1) (args @ [?s1]) = Some (buf', (args @ [?s1]) @ offs)"
        "list_all2 (\<lambda>k w. string_at buf' k w \<and> k + length w \<le> ?s2 + 1 + length r') offs (args_of r')"
        "\<forall>j < ?s2 + 1. buf' j = (buf(?s2 := 0)) j"
        using "1.IH" [OF c(1) c(2), unfolded ih_arg, OF r', of "args @ [?s1]"] by blast
      have "string_at buf' ?s1 ?w"
        by (rule string_at_cut [of buf _ _ ?r]) (use ys ih(3) in simp_all)
      then have "list_all2 (\<lambda>k w. string_at buf' k w \<and> k + length w \<le> i + length xs) (?s1 # offs) (args_of xs)"
        using ih(2) lenr Cons args by (auto elim: list_all2_mono)
      moreover have "\<forall>j < i. buf' j = buf j" using ih(3) by auto
      ultimately show ?thesis using step z ih(1) by (intro exI [of _ buf'] exI [of _ "?s1 # offs"]) simp
    qed
  qed
qed

section \<open>What the program is started with\<close>

lemma parse_command_words:
  assumes "cstr command cs"
  shows "\<exists>buf args. parse_command junk command = Some (buf, args) \<and> string_at buf 0 (hd (command_args cs)) \<and>
    list_all2 (\<lambda>k w. string_at buf k w \<and> k + length w \<le> 2 + length cs) args (command_args cs)"
proof -
  let ?w = "takeWhile (\<lambda>c. \<not> breaks c) cs" and ?r = "dropWhile (\<lambda>c. \<not> breaks c) cs"
  let ?s = "2 + length ?w" and ?p = "lit ''./'' @ takeWhile (\<lambda>c. \<not> breaks c) cs"
  define b where "b = overwrite (junk(0 := 0x2E, 1 := 0x2F)) 2 (cs @ [0])"
  have copy: "array_strcpy (junk(0 := 0x2E, 1 := 0x2F)) 2 command 0 = Some b"
    using array_strcpy_string [of command 0 cs] assms by (simp add: b_def)
  have b2: "string_at b (Suc (Suc 0)) cs" "string_at b 2 cs"
    using cstr_no_nul [OF assms] by (auto simp: cstr_def overwrite_def nth_append b_def)
  have dots: "b 0 = 0x2E" "b (Suc 0) = 0x2F" by (simp_all add: overwrite_def b_def)
  have "string_at b (Suc 0) (0x2F # cs)" unfolding string_at_Cons using b2(1) dots(2) by simp
  then have "string_at b 0 (0x2E # 0x2F # cs)" unfolding string_at_Cons using dots(1) by simp
  then have whole: "string_at b 0 (?p @ ?r)" by simp
  have len: "?s + length ?r = 2 + length cs" using length_dropWhile_add [of _ cs] by simp
  have r: "string_at b ?s ?r" by (rule string_at_dropWhile [OF b2(2)])
  have step: "parse_command junk command =
      (if b ?s \<noteq> 0 then parse_args (b(?s := 0)) (?s + 1) [0] else Some (b, [0]))"
    unfolding parse_command_def copy bind.bind_lunit scan_word_string [OF b2(2)] ..
  have args: "command_args cs = ?p # args_of (drop 1 ?r)" by (simp only: command_args_def)
  show ?thesis
  proof (cases ?r)
    case Nil
    have "b ?s = 0" using r unfolding Nil string_at_Nil .
    moreover have "string_at b 0 ?p" using whole unfolding Nil append_Nil2 .
    ultimately show ?thesis
      unfolding step args Nil using len by (intro exI [of _ b] exI [of _ "[0]"]) simp
  next
    case (Cons x r')
    have z: "b ?s \<noteq> 0" and r': "string_at (b(?s := 0)) (?s + 1) r'"
      using string_at_next [OF r [unfolded Cons]] .
    obtain buf offs where p: "parse_args (b(?s := 0)) (?s + 1) [0] = Some (buf, [0] @ offs)"
      "list_all2 (\<lambda>k w. string_at buf k w \<and> k + length w \<le> ?s + 1 + length r') offs (args_of r')"
      "\<forall>j < ?s + 1. buf j = (b(?s := 0)) j"
      using parse_args_words [OF r', of "[0]"] by blast
    have "string_at buf 0 ?p"
      by (rule string_at_cut [OF whole]) (use p(3) in simp_all)
    moreover from this have "list_all2 (\<lambda>k w. string_at buf k w \<and> k + length w \<le> 2 + length cs) ([0] @ offs)
        (?p # args_of r')"
      using p(2) len Cons by (auto elim: list_all2_mono)
    ultimately show ?thesis
      unfolding step args Cons using p(1) z by (intro exI [of _ buf] exI [of _ "[0] @ offs"]) simp
  qed
qed

text \<open>\<open>args[0]\<close> is the array.\<close>

lemma parse_args_first:
  assumes "parse_args buf i args = Some r" and "args \<noteq> []"
  shows "snd r \<noteq> [] \<and> hd (snd r) = hd args"
proof -
  have "args \<noteq> [] \<longrightarrow> snd r \<noteq> [] \<and> hd (snd r) = hd args"
    using _ assms(1)
  proof (rule parse_args.raw_induct [where P = "\<lambda>buf i as r. as \<noteq> [] \<longrightarrow> snd r \<noteq> [] \<and> hd (snd r) = hd as"])
    fix f buf i as r
    assume IH: "\<And>buf i as r. f buf i as = Some r \<Longrightarrow> as \<noteq> [] \<longrightarrow> snd r \<noteq> [] \<and> hd (snd r) = hd as"
      and body: "Option.bind (scan_spaces buf i) (\<lambda>s1.
        if buf s1 = 0 \<or> buf s1 = 0x0A then Some (buf(s1 := 0), as)
        else Option.bind (scan_word buf s1) (\<lambda>s2.
          if buf s2 \<noteq> 0 then f (buf(s2 := 0)) (s2 + 1) (as @ [s1]) else f buf s2 (as @ [s1]))) = Some r"
    have rec: "as \<noteq> [] \<longrightarrow> snd r \<noteq> [] \<and> hd (snd r) = hd as" if "f b j (as @ [s1]) = Some r" for b j s1
      using IH [OF that] by auto
    show "as \<noteq> [] \<longrightarrow> snd r \<noteq> [] \<and> hd (snd r) = hd as"
      using body rec by (auto simp only: bind_eq_Some_conv option.inject snd_conv split: if_splits)
  qed
  then show ?thesis using assms(2) by blast
qed

lemma parse_command_first:
  assumes "parse_command junk command = Some (buf, args)"
  shows "hd args = 0"
proof -
  obtain b s where "(if b s \<noteq> 0 then parse_args (b(s := 0)) (s + 1) [0] else Some (b, [0])) = Some (buf, args)"
    using assms by (auto simp only: parse_command_def bind_eq_Some_conv)
  then show ?thesis using parse_args_first [of "b(s := 0)" "s + 1" "[0]" "(buf, args)"] by (auto split: if_splits)
qed

text \<open>At most half of the characters begin an argument: 1024 pointers are enough for 1023 characters.\<close>

lemma args_of_length: "2 * length (args_of xs) \<le> length xs + 1"
proof (induction xs rule: args_of.induct)
  case (1 xs)
  show ?case
  proof (cases "dropWhile is_space xs")
    case Nil
    then show ?thesis by (simp add: args_of.simps [of xs] del: dropWhile_eq_Nil_conv)
  next
    case (Cons c cs)
    let ?r = "dropWhile (\<lambda>c. \<not> breaks c) cs"
    have l: "length (c # cs) \<le> length xs" "length ?r \<le> length cs"
      using length_dropWhile_le [of is_space xs] length_dropWhile_le [of _ cs] Cons by simp_all
    show ?thesis
    proof (cases "c = 0x0A")
      case False
      have "2 * length (args_of (drop 1 ?r)) \<le> length (drop 1 ?r) + 1" using "1.IH" [OF Cons False] .
      then show ?thesis using l False Cons
        by (cases ?r) (simp_all add: args_of.simps [of xs] del: dropWhile_eq_Nil_conv)
    qed (simp add: args_of.simps [of xs] Cons)
  qed
qed

lemma command_args_fit:
  assumes "cstr command cs" "length cs \<le> 1023"
  shows "\<exists>buf args. parse_command junk command = Some (buf, args) \<and> length args < 1024 \<and>
    (\<forall>k \<in> set args. k < 1026)"
proof -
  obtain buf args where p: "parse_command junk command = Some (buf, args)"
    "list_all2 (\<lambda>k w. string_at buf k w \<and> k + length w \<le> 2 + length cs) args (command_args cs)"
    using parse_command_words [OF assms(1)] by blast
  let ?r = "dropWhile (\<lambda>c. \<not> breaks c) cs"
  have "length args = length (command_args cs)" by (rule list_all2_lengthD [OF p(2)])
  also have "\<dots> = 1 + length (args_of (drop 1 ?r))" by (simp add: command_args_def)
  also have "\<dots> < 1024"
    using args_of_length [of "drop 1 ?r"] length_dropWhile_le [of "\<lambda>c. \<not> breaks c" cs] assms(2) by simp
  moreover have "k < 1026" if "k \<in> set args" for k
    using that p(2) assms(2) by (fastforce simp: list_all2_conv_all_nth in_set_conv_nth)
  ultimately show ?thesis using p(1) by auto
qed

text \<open>
  The emulated \<open>execute\<close> of a command of at most 1023 characters starts, in a child, the
  program of the current directory that the first word names, with the words of the command
  as its arguments, waits for it and returns its exit code, -1 if it cannot be executed or
  was killed with signal 9, and 256 if another signal ended it.
\<close>

lemma emulated_execute_starts:
  assumes "cstr command cs" and "length cs \<le> 1023" and "sys_fork sys w = (True, w1)"
  shows "emulated_execute sys junk unset command w =
    Some (case sys_execv sys (hd (command_args cs)) (command_args cs) w1 of
        Some (st, w2) \<Rightarrow> (wait_result st, w2) | None \<Rightarrow> (-1, w1))"
proof -
  obtain buf args where p: "parse_command junk command = Some (buf, args)" "string_at buf 0 (hd (command_args cs))"
    "list_all2 (\<lambda>k w. string_at buf k w \<and> k + length w \<le> 2 + length cs) args (command_args cs)"
    using parse_command_words [OF assms(1)] by blast
  have "map (\<lambda>i. string_in (1026 - i) (\<lambda>k. buf (i + k))) args = command_args cs"
  proof (rule nth_equalityI)
    show "length (map (\<lambda>i. string_in (1026 - i) (\<lambda>k. buf (i + k))) args) = length (command_args cs)"
      using list_all2_lengthD [OF p(3)] by simp
  next
    fix j assume "j < length (map (\<lambda>i. string_in (1026 - i) (\<lambda>k. buf (i + k))) args)"
    then have j: "j < length args" by simp
    then have "string_at buf (args ! j) (command_args cs ! j)" "args ! j + length (command_args cs ! j) \<le> 2 + length cs"
      using list_all2_nthD [OF p(3)] by auto
    then show "map (\<lambda>i. string_in (1026 - i) (\<lambda>k. buf (i + k))) args ! j = command_args cs ! j"
      using j assms(2) by (simp add: string_in_cstr)
  qed
  moreover have "string_in 1026 buf = hd (command_args cs)"
  proof (rule string_in_cstr)
    have "length (takeWhile (\<lambda>c. \<not> breaks c) cs) \<le> length cs" by (rule length_takeWhile_le)
    then show "length (hd (command_args cs)) < 1026" using assms(2) by (simp add: command_args_def)
  qed (use p(2) in simp)
  moreover have "ece391_strlen command = Some (length cs)" by (rule ece391_strlen_cstr [OF assms(1)])
  ultimately show ?thesis
    using assms(2,3) p(1) by (simp add: emulated_execute_def wait_result_def Let_def split: option.splits)
qed

text \<open>A Linux that logs what it is asked to execute; every program exits with 3.\<close>

definition sample_linux :: "(u8 list list, nat) linux" where
  "sample_linux = \<lparr>sys_fork = (\<lambda>w. (True, w)), sys_execv = (\<lambda>path args w. Some (0x300, w @ path # args)),
     sys_read = (\<lambda>fd n w. (0, [], w)), sys_write = (\<lambda>fd buf n w. (0, w)), sys_close = (\<lambda>fd w. (0, w)),
     sys_open = (\<lambda>name flags w. (0xFFFFFFFE, w)), lib_open = (\<lambda>name flags w. (3, w)), lib_close = (\<lambda>fd w. w),
     lib_opendir = (\<lambda>name w. (Some 0, w)), lib_readdir = (\<lambda>d w. (Some (array_of (lit ''frame0.txt'')), w)),
     lib_closedir = (\<lambda>d w. w), lib_mmap = (\<lambda>len fd w. (0xFFFFFFFF, w)), lib_perror = (\<lambda>m w. w)\<rparr>"

lemma emulated_execute_starts_example:
  "emulated_execute sample_linux (\<lambda>_. 0) 0 (array_of (lit ''grep  fish frame0'')) [] =
    Some (3, [lit ''./grep'', lit ''./grep'', lit ''fish'', lit ''frame0''])"
proof -
  have "cstr (array_of (lit ''grep  fish frame0'')) (lit ''grep  fish frame0'')" by (rule cstr_array_of) simp
  moreover have "command_args (lit ''grep  fish frame0'') = [lit ''./grep'', lit ''fish'', lit ''frame0'']"
    by (simp add: command_args_def breaks_def args_of.simps [of "a # b" for a b])
  ultimately show ?thesis
    using emulated_execute_starts [of "array_of (lit ''grep  fish frame0'')" "lit ''grep  fish frame0''" sample_linux "[]" "[]"
        "\<lambda>_. 0" 0]
    by (simp add: sample_linux_def wait_result_def)
qed

section \<open>What the program is told\<close>

fun unwords :: "u8 list list \<Rightarrow> u8 list" where
  "unwords [] = []"
| "unwords (w # ws) = (if ws = [] then w else w @ 0x20 # unwords ws)"

lemma overwrite_append: "overwrite (overwrite f i xs) (i + length xs) ys = overwrite f i (xs @ ys)"
  by (auto simp: overwrite_def fun_eq_iff nth_append)

lemma overwrite_last: "(overwrite f i (xs @ [a]))(i + length xs := b) = overwrite f i (xs @ [b])"
  by (auto simp: overwrite_def fun_eq_iff nth_append)

lemma overwrite_one: "f(i := a) = overwrite f i [a]"
  by (auto simp: overwrite_def)

lemma overwrite_two: "overwrite ((overwrite f i (xs @ [a]))(i + length xs := b)) (i + length xs + 1) ys = overwrite f i (xs @ b # ys)"
  unfolding overwrite_last using overwrite_append [of f i "xs @ [b]" ys] by simp

lemma copy_args_joined:
  "list_all2 cstr args ws \<Longrightarrow> int (length (unwords ws)) < n \<Longrightarrow>
   copy_args args buf i n = Some (0, overwrite buf i (unwords ws @ [0]))"
proof (induction ws arbitrary: args buf i n)
  case Nil
  then show ?case by (simp add: end_args_def overwrite_one)
next
  case (Cons w ws)
  then obtain a rest where a: "args = a # rest" "cstr a w" "list_all2 cstr rest ws"
    by (auto simp: list_all2_Cons2)
  have copy: "array_strcpy buf i a 0 = Some (overwrite buf i (w @ [0]))"
    using array_strcpy_string [of a 0 w] a(2) by simp
  show ?case
  proof (cases "ws = []")
    case True
    then show ?thesis
      using a Cons.prems(2) copy by (simp add: ece391_strlen_cstr end_args_def overwrite_last)
  next
    case False
    then have "rest \<noteq> []" using a(3) by auto
    then have "copy_args args buf i n = copy_args rest ((overwrite buf i (w @ [0]))(i + length w := 0x20))
        (i + length w + 1) (n - int (length w) - 1)"
      using a(1) ece391_strlen_cstr [OF a(2)] Cons.prems(2) copy False by simp
    also have "\<dots> = Some (0, overwrite ((overwrite buf i (w @ [0]))(i + length w := 0x20)) (i + length w + 1) (unwords ws @ [0]))"
      by (rule Cons.IH [OF a(3)]) (use Cons.prems(2) False in simp)
    finally show ?thesis unfolding overwrite_two using False by simp
  qed
qed

lemma copy_args_too_long:
  "list_all2 cstr args ws \<Longrightarrow> n \<le> int (length (unwords ws)) \<Longrightarrow> \<exists>b. copy_args args buf i n = Some (-1, b)"
proof (induction ws arbitrary: args buf i n)
  case Nil
  then show ?case by (simp add: end_args_def)
next
  case (Cons w ws)
  then obtain a rest where a: "args = a # rest" "cstr a w" "list_all2 cstr rest ws"
    by (auto simp: list_all2_Cons2)
  have copy: "array_strcpy buf i a 0 = Some (overwrite buf i (w @ [0]))"
    using array_strcpy_string [of a 0 w] a(2) by simp
  have "rest = [] \<longleftrightarrow> ws = []" using a(3) by (auto dest: list_all2_lengthD)
  then show ?case
    using a(1) ece391_strlen_cstr [OF a(2)] copy Cons.IH [OF a(3), of "n - int (length w) - 1"] Cons.prems(2)
    by (auto simp: end_args_def)
qed

text \<open>
  The length is compared before the NUL is counted: an argument as long as the buffer is
  refused only after its NUL was written one byte past the end.
\<close>

lemma getargs_overrun:
  assumes "cstr arg w"
  shows "emulated_getargs [prog, arg] buf (int (length w)) = Some (-1, overwrite buf 0 (w @ [0]))"
  using array_strcpy_string [of arg 0 w] assms
  by (simp add: emulated_getargs_def ece391_strlen_cstr end_args_def)

section \<open>Words joined by single spaces\<close>

definition proper_word :: "u8 list \<Rightarrow> bool" where
  "proper_word w \<longleftrightarrow> w \<noteq> [] \<and> list_all (\<lambda>c. \<not> breaks c) w"

lemma proper_split:
  assumes "proper_word w" "r = [] \<or> breaks (hd r)"
  shows "takeWhile (\<lambda>c. \<not> breaks c) (w @ r) = w" "dropWhile (\<lambda>c. \<not> breaks c) (w @ r) = r"
  using assms by (cases r; simp add: proper_word_def list_all_iff)+

lemma args_of_unwords: "list_all proper_word ws \<Longrightarrow> args_of (unwords ws) = ws"
proof (induction ws)
  case (Cons w ws)
  then obtain c cs where w: "w = c # cs" "\<not> breaks c" by (cases w) (auto simp: proper_word_def)
  define r where "r = (if ws = [] then [] else 0x20 # unwords ws)"
  have u: "unwords (w # ws) = c # (cs @ r)" by (simp add: r_def w)
  have "takeWhile (\<lambda>c. \<not> breaks c) (w @ r) = w" "dropWhile (\<lambda>c. \<not> breaks c) (w @ r) = r"
    using proper_split [of w r] Cons.prems by (simp_all add: r_def breaks_def)
  then have "takeWhile (\<lambda>c. \<not> breaks c) (cs @ r) = cs" "dropWhile (\<lambda>c. \<not> breaks c) (cs @ r) = r"
    using w by simp_all
  moreover have "args_of (drop 1 r) = ws" using Cons by (simp add: r_def)
  moreover have "c \<noteq> 0x20" "c \<noteq> 0x0A" using w(2) by (simp_all add: breaks_def)
  ultimately show ?case
    unfolding u by (simp add: args_of.simps [of "c # (cs @ r)"] w)
qed simp

lemma command_args_unwords:
  assumes "proper_word w0" "list_all proper_word ws"
  shows "command_args (unwords (w0 # ws)) = (lit ''./'' @ w0) # ws"
proof -
  define r where "r = (if ws = [] then [] else 0x20 # unwords ws)"
  have "unwords (w0 # ws) = w0 @ r" by (simp add: r_def)
  moreover have "args_of (drop 1 r) = ws" using args_of_unwords [OF assms(2)] by (simp add: r_def)
  ultimately show ?thesis
    using proper_split [OF assms(1), of r] by (simp add: command_args_def r_def breaks_def)
qed

text \<open>The strings that the pointers in \<open>args\<close> point to are what \<open>execv\<close> hands to the program.\<close>

abbreviation handed_over :: "bytes \<Rightarrow> nat list \<Rightarrow> bytes list" where
  "handed_over buf args \<equiv> map (\<lambda>i k. buf (i + k)) args"

lemma parsed_words:
  assumes "cstr command (unwords (w0 # ws))" "proper_word w0" "list_all proper_word ws"
  obtains buf args where "parse_command junk command = Some (buf, 0 # args)" "cstr buf (lit ''./'' @ w0)"
    "list_all2 cstr (handed_over buf args) ws"
proof -
  obtain buf args where p: "parse_command junk command = Some (buf, args)" "string_at buf 0 (lit ''./'' @ w0)"
    "list_all2 (\<lambda>k w. string_at buf k w \<and> k + length w \<le> 2 + length (unwords (w0 # ws))) args ((lit ''./'' @ w0) # ws)"
    using parse_command_words [OF assms(1), of junk] unfolding command_args_unwords [OF assms(2,3)] by auto
  obtain k rest where a: "args = k # rest"
    "list_all2 (\<lambda>k w. string_at buf k w \<and> k + length w \<le> 2 + length (unwords (w0 # ws))) rest ws"
    using p(3) by (auto simp: list_all2_Cons2)
  have "k = 0" using parse_command_first [OF p(1)] a(1) by simp
  moreover have "list_all2 cstr (handed_over buf rest) ws"
    using a(2) by (auto simp: list_all2_conv_all_nth)
  ultimately show ?thesis using that p(1,2) a(1) by simp
qed

lemma getargs_joined:
  assumes "list_all2 cstr args ws"
  shows "if int (length (unwords ws)) < n
    then \<exists>b. emulated_getargs (prog # args) buf n = Some (0, b) \<and> cstr b (unwords ws) \<and> (\<forall>j. n \<le> int j \<longrightarrow> b j = buf j)
    else \<exists>b. emulated_getargs (prog # args) buf n = Some (-1, b)"
proof -
  have nul: "0 \<notin> set (unwords vs)" if "list_all2 cstr as vs" for as vs
    using that by (induction as vs rule: list_all2_induct) (auto simp: cstr_def)
  have "cstr (overwrite buf 0 (unwords ws @ [0])) (unwords ws)"
    using nul [OF assms] by (simp add: cstr_def overwrite_def nth_append)
  then show ?thesis
    using copy_args_joined [OF assms, of n buf 0] copy_args_too_long [OF assms, of n buf 0]
    by (auto simp: emulated_getargs_def overwrite_def)
qed

text \<open>
  C40: the arguments go round.  A command made of words joined by single spaces is parsed into
  pointers to the program, \<open>./\<close> and the first word, and to the other words; \<open>execute\<close> starts that
  program with these words, returning -1 when Linux does not find it; and \<open>getargs\<close> in the program
  gives back the text after the first word, writing nothing past the buffer, or refuses a buffer
  too small for the text and its NUL.
\<close>

theorem emulated_arguments_return:
  assumes "cstr command (unwords (w0 # ws))" "proper_word w0" "list_all proper_word ws"
    and "length (unwords (w0 # ws)) \<le> 1023" "sys_fork sys w = (True, w1)"
  shows "\<exists>cbuf args. parse_command junk command = Some (cbuf, args) \<and>
    list_all2 cstr (handed_over cbuf args) ((lit ''./'' @ w0) # ws) \<and>
    emulated_execute sys junk unset command w =
      Some (case sys_execv sys (lit ''./'' @ w0) ((lit ''./'' @ w0) # ws) w1 of
          Some (st, w2) \<Rightarrow> (wait_result st, w2) | None \<Rightarrow> (-1, w1)) \<and>
    (if int (length (unwords ws)) < n
     then \<exists>b. emulated_getargs (handed_over cbuf args) buf n = Some (0, b) \<and> cstr b (unwords ws) \<and>
       (\<forall>j. n \<le> int j \<longrightarrow> b j = buf j)
     else \<exists>b. emulated_getargs (handed_over cbuf args) buf n = Some (-1, b))"
proof -
  obtain cbuf args where p: "parse_command junk command = Some (cbuf, 0 # args)" "cstr cbuf (lit ''./'' @ w0)"
    "list_all2 cstr (handed_over cbuf args) ws" by (rule parsed_words [OF assms(1-3)])
  show ?thesis
    unfolding emulated_execute_starts [OF assms(1,4,5)] command_args_unwords [OF assms(2,3)]
    using p getargs_joined [OF p(3), of n cbuf buf]
    by (intro exI [of _ cbuf] exI [of _ "0 # args"]) simp
qed

theorem emulated_arguments_return_witness:
  "\<exists>cbuf args b. parse_command (\<lambda>_. 1) (array_of (lit ''cat frame0 frame1'')) = Some (cbuf, args) \<and>
    emulated_getargs (handed_over cbuf args) (\<lambda>_. 0) 14 = Some (0, b) \<and> cstr b (lit ''frame0 frame1'')"
proof -
  let ?ws = "map lit [''frame0'', ''frame1'']"
  have p: "proper_word (lit ''cat'')" "list_all proper_word ?ws" by (simp_all add: proper_word_def breaks_def)
  have c: "cstr (array_of (lit ''cat frame0 frame1'')) (unwords (lit ''cat'' # ?ws))"
    using cstr_array_of [of "lit ''cat frame0 frame1''"] by simp
  have f: "sys_fork sample_linux [] = (True, [])" by (simp add: sample_linux_def)
  show ?thesis
    using emulated_arguments_return [OF c p _ f, of "\<lambda>_. 1" 0 14 "\<lambda>_. 0"] by auto
qed

section \<open>The same text as from the kernel\<close>

lemma first_word_split:
  assumes "proper_word w" "r = [] \<or> is_space (hd r)"
  shows "first_word (w @ r) = w" "after_word (w @ r) = r"
proof -
  obtain c cs where w: "w = c # cs" "\<not> is_space c" "\<forall>x \<in> set w. \<not> is_space x"
    using assms(1) by (cases w) (auto simp: proper_word_def breaks_def list_all_iff)
  then have d: "dropWhile is_space (w @ r) = w @ r" by simp
  show "first_word (w @ r) = w" "after_word (w @ r) = r"
    unfolding first_word_def after_word_def d using w(3) assms(2) by (cases r; simp)+
qed

text \<open>
  C39: for a program with at most one argument, both within the arrays of the kernel's \<open>execute\<close>,
  the kernel and the emulation tell the program the same.  The file that \<open>parse_cmd\<close> of the kernel
  takes from the command is the one that the emulation's \<open>execute\<close> puts behind \<open>./\<close> at the start of
  its array, and the argument it takes is the text that the emulated \<open>getargs\<close> delivers from the
  pointers that \<open>execute\<close> made.
\<close>

theorem emulation_agrees_with_kernel:
  assumes "cstr command (unwords (w0 # ws))" and "proper_word w0" "list_all proper_word ws" "length ws \<le> 1"
    and "length w0 < 32" "length (unwords ws) < 128" "int (length (unwords ws)) < n"
  shows "\<exists>f a cbuf args b. parse_cmd command filename (Some kbuf) = Some (0, f, Some a) \<and>
    parse_command junk command = Some (cbuf, args) \<and>
    emulated_getargs (handed_over cbuf args) buf n = Some (0, b) \<and>
    cstr f w0 \<and> cstr cbuf (lit ''./'' @ w0) \<and> cstr a (unwords ws) \<and> cstr b (unwords ws)"
proof -
  define r where "r = (if ws = [] then [] else 0x20 # unwords ws)"
  have u: "unwords (w0 # ws) = w0 @ r" by (simp add: r_def)
  note f = first_word_split [OF assms(2), of r]
  have r: "r = [] \<or> is_space (hd r)" by (simp add: r_def)
  have "second_word (unwords (w0 # ws)) = unwords ws"
  proof (cases ws)
    case Nil
    then show ?thesis unfolding u second_word_def f(2) [OF r] by (simp add: r_def first_word_def)
  next
    case (Cons v vs)
    then have v: "ws = [v]" "proper_word v" using assms(3,4) by auto
    then have "first_word (0x20 # v) = v" using first_word_split(1) [of v "[]"] by (simp add: first_word_def)
    then show ?thesis unfolding u second_word_def f(2) [OF r] by (simp add: r_def v)
  qed
  moreover have "first_word (unwords (w0 # ws)) = w0" unfolding u by (rule f(1) [OF r])
  ultimately have k: "\<exists>f a. parse_cmd command filename (Some kbuf) = Some (0, f, Some a) \<and> cstr f w0 \<and> cstr a (unwords ws)"
    using parse_cmd_words [OF assms(1), of filename kbuf] assms(6) by auto
  obtain cbuf args where p: "parse_command junk command = Some (cbuf, 0 # args)" "cstr cbuf (lit ''./'' @ w0)"
    "list_all2 cstr (handed_over cbuf args) ws" by (rule parsed_words [OF assms(1-3)])
  show ?thesis
    using k p(1,2) getargs_joined [OF p(3), of n cbuf buf] assms(7) by fastforce
qed

theorem emulation_agrees_with_kernel_witness:
  "\<exists>f a cbuf args b. parse_cmd (array_of (lit ''cat frame0'')) (\<lambda>_. 0) (Some (\<lambda>_. 0)) = Some (0, f, Some a) \<and>
    parse_command (\<lambda>_. 1) (array_of (lit ''cat frame0'')) = Some (cbuf, args) \<and>
    emulated_getargs (handed_over cbuf args) (\<lambda>_. 0) 1024 = Some (0, b) \<and>
    cstr f (lit ''cat'') \<and> cstr cbuf (lit ''./cat'') \<and> cstr a (lit ''frame0'') \<and> cstr b (lit ''frame0'')"
proof -
  let ?ws = "map lit [''frame0'']"
  have p: "proper_word (lit ''cat'')" "list_all proper_word ?ws" by (simp_all add: proper_word_def breaks_def)
  have c: "cstr (array_of (lit ''cat frame0'')) (unwords (lit ''cat'' # ?ws))"
    using cstr_array_of [of "lit ''cat frame0''"] by simp
  from emulation_agrees_with_kernel [OF c p, of 1024 "\<lambda>_. 0" "\<lambda>_. 0" "\<lambda>_. 1" "\<lambda>_. 0"] show ?thesis by auto
qed

text \<open>With more than one argument they differ: the kernel takes the second word only.\<close>

lemma emulation_differs:
  "second_word (lit ''grep fish frame0'') = lit ''fish''"
  "tl (command_args (lit ''grep fish frame0'')) = map lit [''fish'', ''frame0'']"
  by (simp_all add: second_word_def first_word_def after_word_def command_args_def breaks_def args_of.simps [of "a # b" for a b])

section \<open>Reading a directory\<close>

lemma pad_name_zeros:
  "pad_name n k buf = (if int k < min n 32 then (min n 32, overwrite buf k (replicate (nat (min n 32) - k) 0)) else (int k, buf))"
proof (induction n k buf rule: pad_name.induct)
  case (1 n k buf)
  show ?case
  proof (cases "int k < min n 32")
    case True
    then have k: "n > int k \<and> 32 > k" by auto
    have m: "nat (min n 32) - k = Suc (nat (min n 32) - Suc k)" using True by linarith
    have IH: "pad_name n (k + 1) (buf(k := 0)) = (if int (k + 1) < min n 32
        then (min n 32, overwrite (buf(k := 0)) (k + 1) (replicate (nat (min n 32) - (k + 1)) 0))
        else (int (k + 1), buf(k := 0)))"
      by (rule "1.IH" [OF k])
    have "pad_name n k buf = pad_name n (k + 1) (buf(k := 0))" using k by (simp add: pad_name.simps [of n k])
    also have "\<dots> = (min n 32, overwrite buf k (0 # replicate (nat (min n 32) - Suc k) 0))"
    proof (cases "int (k + 1) < min n 32")
      case True
      then show ?thesis using IH overwrite_Cons [of buf k 0] by simp
    next
      case False
      then have "min n 32 = int (Suc k)" using \<open>int k < min n 32\<close> by linarith
      then show ?thesis using False IH by (simp add: overwrite_one)
    qed
    finally show ?thesis using True m by simp
  next
    case False
    then have "\<not> (n > int k \<and> 32 > k)" by auto
    then have "pad_name n k buf = (int k, buf)" by (simp only: pad_name.simps [of n k] if_False)
    then show ?thesis using False by (simp only: if_False)
  qed
qed

lemma copy_name_padded:
  "string_at name k xs \<Longrightarrow> int k < n \<Longrightarrow> k < 32 \<Longrightarrow>
   copy_name name n k buf = Some (min n 32, overwrite buf k (take (nat (min n 32) - k) (xs @ replicate 32 0)))"
proof (induction xs arbitrary: k buf)
  case Nil
  then have "nat (min n 32) - k \<le> 32" by auto
  then show ?case using Nil by (simp add: copy_name.simps [of name n k] pad_name_zeros)
next
  case (Cons x xs)
  note x = string_at_next [OF Cons.prems(1)] 
  have at: "name k = x" "string_at name (k + 1) xs" using Cons.prems(1) by simp_all
  have m: "nat (min n 32) - k = Suc (nat (min n 32) - (k + 1))" using Cons.prems(2,3) by linarith
  consider "int (k + 1) = n" | "int (k + 1) \<noteq> n" "k + 1 = 32" | "int (k + 1) < n" "k + 1 < 32"
    using Cons.prems(2,3) by linarith
  then show ?case
  proof cases
    case 1
    then have "min n 32 = n" "nat (min n 32) - (k + 1) = 0" using Cons.prems(3) by auto
    then show ?thesis unfolding m using 1 x(1) at(1) by (simp add: copy_name.simps [of name n k] overwrite_one)
  next
    case 2
    then have "min n 32 = 32" "nat (min n 32) - (k + 1) = 0" using Cons.prems(2) by auto
    then show ?thesis
      unfolding m using 2 x(1) at(1) by (simp add: copy_name.simps [of name n k] copy_name.simps [of name n 31] overwrite_one)
  next
    case 3
    have "copy_name name n k buf = copy_name name n (k + 1) (buf(k := x))"
      using 3 x(1) at(1) by (simp add: copy_name.simps [of name n k])
    also have "\<dots> = Some (min n 32, overwrite (buf(k := x)) (k + 1) (take (nat (min n 32) - (k + 1)) (xs @ replicate 32 0)))"
      by (rule Cons.IH [OF at(2) 3])
    finally show ?thesis unfolding m using overwrite_Cons [of buf k x] by simp
  qed
qed

text \<open>
  A read of the open directory delivers the name of the next entry as the kernel keeps names, in
  32 bytes padded with zeros, cut to the size of the buffer, and nothing else in the buffer changes.
\<close>

lemma emulated_read_directory:
  assumes "dir e = Some d" "dir_fd e = fd" "lib_readdir sys d w = (Some name, w1)"
    and "cstr name xs" "0 < n"
  shows "emulated_read sys fd buf n (e, w) =
    Some (min n 32, overwrite buf 0 (take (nat (min n 32)) (xs @ replicate 32 0)), e, w1)"
  using copy_name_padded [of name 0 xs n buf] assms by (simp add: emulated_read_def)

lemma emulated_read_directory_example:
  "emulated_read sample_linux 3 (\<lambda>_. 1) 12 (\<lparr>dir_fd = 3, dir = Some 0, mem_fd = -1\<rparr>, []) =
    Some (12, overwrite (\<lambda>_. 1) 0 (lit ''frame0.txt'' @ [0, 0]), \<lparr>dir_fd = 3, dir = Some 0, mem_fd = -1\<rparr>, [])"
proof -
  let ?e = "\<lparr>dir_fd = 3, dir = Some 0, mem_fd = -1\<rparr> :: nat emulator"
  have "cstr (array_of (lit ''frame0.txt'')) (lit ''frame0.txt'')" by (rule cstr_array_of) simp
  then show ?thesis
    using emulated_read_directory [of ?e 0 3 sample_linux "[]" "array_of (lit ''frame0.txt'')" "[]" "lit ''frame0.txt''" 12]
    by (simp add: sample_linux_def numeral_eq_Suc)
qed

text \<open>With no room at all the name is copied nevertheless: the test is for equality.\<close>

lemma read_zero_overruns:
  "emulated_read sample_linux 3 (\<lambda>_. 1) 0 (\<lparr>dir_fd = 3, dir = Some 0, mem_fd = -1\<rparr>, []) =
    Some (10, overwrite (\<lambda>_. 1) 0 (lit ''frame0.txt''), \<lparr>dir_fd = 3, dir = Some 0, mem_fd = -1\<rparr>, [])"
proof -
  have "copy_name name 0 k buf = Some (int (k + length xs), overwrite buf k xs)"
    if "string_at name k xs" "k + length xs < 32" for name k xs buf
    using that
  proof (induction xs arbitrary: k buf)
    case Nil
    then show ?case by (simp add: copy_name.simps [of name 0 k] pad_name.simps)
  next
    case (Cons x xs)
    then show ?case
      using Cons.IH [of "k + 1"] overwrite_Cons [of buf k x xs]
      by (simp add: copy_name.simps [of name 0 k])
  qed
  from this [of "array_of (lit ''frame0.txt'')" 0 "lit ''frame0.txt''"] show ?thesis
    using cstr_array_of [of "lit ''frame0.txt''"] by (simp add: emulated_read_def sample_linux_def)
qed

end
