(* ===== verification/Self_Tests.thy ===== *)
theory Self_Tests
  imports Idt
begin

text \<open>
  The kernel's self tests, \<open>student-distrib/tests.c\<close>.  A test returns PASS or FAIL, or is ended by an
  exception.  \<open>launch_tests\<close> has an empty body: its calls are commented out.
\<close>

section \<open>The tests\<close>

datatype test_end = Returns bool | Traps nat

abbreviation PASS :: test_end where "PASS \<equiv> Returns True"

abbreviation FAIL :: test_end where "FAIL \<equiv> Returns False"

definition TEST_HEADER :: "string \<Rightarrow> nat \<Rightarrow> kernel \<Rightarrow> kernel option" where
  "TEST_HEADER name line s =
     map_option snd (printf (array_of (lit (''[TEST %s] Running %s at %s:%d'' @ [CHR 0x0A])))
       [Str (array_of (lit name)), Str (array_of (lit name)), Str (array_of (lit ''tests.c'')), Num (of_nat line)] s)"

definition assertion_failure :: test_end where
  "assertion_failure = Traps 15"

fun idt_check :: "idt \<Rightarrow> nat \<Rightarrow> nat \<Rightarrow> test_end" where
  "idt_check idt i 0 = PASS"
| "idt_check idt i (Suc n) =
     (if offset_15_00 (idt i) = 0 \<and> offset_31_16 (idt i) = 0 then assertion_failure else idt_check idt (i + 1) n)"

definition idt_test :: "idt \<Rightarrow> kernel \<Rightarrow> (test_end \<times> kernel) option" where
  "idt_test idt s = map_option (\<lambda>s1. (idt_check idt 0 10, s1)) (TEST_HEADER ''idt_test'' 38 s)"

text \<open>\<open>der = *(uint8_t *)a\<close>: the load faults when the page is not mapped.  \<open>der\<close> is the address of the variable.\<close>

definition load_der :: "u32 \<Rightarrow> u32 \<Rightarrow> kernel \<Rightarrow> test_end \<times> kernel" where
  "load_der der a s = (case walk (pg s) a of None \<Rightarrow> (Traps 14, s) | Some q \<Rightarrow> (PASS, st8 der (ld8 s a) s))"

definition video_mem_test_start :: "u32 \<Rightarrow> kernel \<Rightarrow> (test_end \<times> kernel) option" where
  "video_mem_test_start der s = map_option (load_der der 0xB8000) (TEST_HEADER ''video_mem_test_start'' 63 s)"

definition video_mem_test_end :: "u32 \<Rightarrow> kernel \<Rightarrow> (test_end \<times> kernel) option" where
  "video_mem_test_end der s = map_option (load_der der 0xB8FFF) (TEST_HEADER ''video_mem_test_end'' 75 s)"

definition kernel_page_start :: "u32 \<Rightarrow> kernel \<Rightarrow> (test_end \<times> kernel) option" where
  "kernel_page_start der s = map_option (load_der der 0x400000) (TEST_HEADER ''kernel_page_start'' 87 s)"

definition kernel_page_end :: "u32 \<Rightarrow> kernel \<Rightarrow> (test_end \<times> kernel) option" where
  "kernel_page_end der s = map_option (load_der der 0x4FFFFF) (TEST_HEADER ''kernel_page_end'' 99 s)"

definition between_kernel_video_mem_test :: "u32 \<Rightarrow> kernel \<Rightarrow> (test_end \<times> kernel) option" where
  "between_kernel_video_mem_test der s =
     map_option (load_der der 0x312345) (TEST_HEADER ''between_kernel_video_mem_test'' 111 s)"

definition after_kernel_page_test :: "u32 \<Rightarrow> kernel \<Rightarrow> (test_end \<times> kernel) option" where
  "after_kernel_page_test der s = map_option (load_der der 0x512343) (TEST_HEADER ''after_kernel_page_test'' 123 s)"

definition before_video_memory :: "u32 \<Rightarrow> kernel \<Rightarrow> (test_end \<times> kernel) option" where
  "before_video_memory der s = map_option (load_der der 0xB7FFF) (TEST_HEADER ''before_video_memory'' 135 s)"

definition SIMD_floating_point_test :: "kernel \<Rightarrow> (test_end \<times> kernel) option" where
  "SIMD_floating_point_test s = map_option (\<lambda>s1. (Traps 19, s1)) (TEST_HEADER ''SIMD_floating_point_test'' 148 s)"

text \<open>\<open>test1\<close> is the address of the local array of 33 bytes.\<close>

definition test_terminal_write :: "u32 \<Rightarrow> kernel \<Rightarrow> (test_end \<times> kernel) option" where
  "test_terminal_write test1 s =
     map_option (\<lambda>s1.
       let s2 = store_bytes test1 (lit (''MP3 CHECK POINT 2 WRITE TEST!!!'' @ [CHR 0x0A]) @ [0]) s1;
           (r, s3) = terminal_write 0 test1 33 s2
       in (Returns (r = 33), s3)) (TEST_HEADER ''test_terminal_write'' 161 s)"

text \<open>One round of the test of reading; what comes in is up to \<open>env\<close>.\<close>

definition read_round :: "(nat \<Rightarrow> kernel \<Rightarrow> kernel) \<Rightarrow> u32 \<Rightarrow> nat \<Rightarrow> u32 \<Rightarrow> kernel \<Rightarrow> kernel option" where
  "read_round env test1 r nbytes s =
     Option.bind (printf (array_of (lit (''Terminal read test ROUND %d begin'' @ [CHR 0x0A]))) [Num (of_nat r)] s) (\<lambda>(_, s1).
     Option.bind (terminal_read env 0 test1 nbytes s1) (\<lambda>(nbytes_success, s2).
     Option.bind (printf (array_of (lit (''input_bytes: %d'' @ [CHR 0x0A]))) [Num (of_int nbytes_success)] s2) (\<lambda>(_, s3).
       map_option snd (printf (array_of (lit (''Terminal read test ROUND %d end'' @ [CHR 0x0A]))) [Num (of_nat r)] s3))))"

fun read_rounds :: "(nat \<Rightarrow> kernel \<Rightarrow> kernel) \<Rightarrow> u32 \<Rightarrow> nat \<Rightarrow> nat \<Rightarrow> kernel \<Rightarrow> kernel option" where
  "read_rounds env test1 i 0 s = Some s"
| "read_rounds env test1 i (Suc n) s =
     Option.bind (if i < 2 then read_round env test1 i (128 - of_nat i) s
                  else read_round env test1 i (128 + 2 - of_nat (i - 2)) (set_read_signal_enable s))
       (read_rounds env test1 (i + 1) n)"

definition test_terminal_read :: "(nat \<Rightarrow> kernel \<Rightarrow> kernel) \<Rightarrow> u32 \<Rightarrow> kernel \<Rightarrow> (test_end \<times> kernel) option" where
  "test_terminal_read env test1 s =
     Option.bind (TEST_HEADER ''test_terminal_read'' 175 s) (\<lambda>s1.
       map_option (\<lambda>s2. (PASS, s2)) (read_rounds env test1 0 (2 + 5) s1))"

definition launch_tests :: "kernel \<Rightarrow> kernel" where
  "launch_tests s = s"

text \<open>\<open>delay\<close> of \<open>lib.c\<close>, which only the tests use: \<open>while (x--)\<close>, twice.\<close>

function count_down :: "u32 \<Rightarrow> (kernel \<Rightarrow> kernel) \<Rightarrow> kernel \<Rightarrow> kernel" where
  "count_down x body s = (if x = 0 then s else count_down (x - 1) body (body s))"
  by pat_completeness auto
termination
proof (relation "measure (\<lambda>(x, body, s). unat x)")
  fix x :: u32 and body :: "kernel \<Rightarrow> kernel" and s
  assume "x \<noteq> 0"
  then have "unat (x - 1) < unat x" by (simp add: unat_minus_one unat_gt_0)
  then show "((x - 1, body, body s), x, body, s) \<in> measure (\<lambda>(x, body, s). unat x)" by simp
qed simp

declare count_down.simps [simp del]

definition delay :: "u32 \<Rightarrow> kernel \<Rightarrow> kernel" where
  "delay t s = count_down t (count_down 0x800000 (\<lambda>s. s)) s"

lemma count_down_idle: "body = (\<lambda>s. s) \<Longrightarrow> count_down x body s = s"
proof (induction x body s rule: count_down.induct)
  case (1 x body s)
  then show ?case by (subst count_down.simps) simp
qed

lemma delay_idle: "delay t s = s"
  unfolding delay_def by (intro count_down_idle ext refl)

section \<open>How the tests come out\<close>

lemma TEST_HEADER_prints:
  assumes "0 \<notin> set (lit name)"
  shows "\<exists>cs. TEST_HEADER name line s = Some (fold putc cs s)"
proof -
  let ?n = "array_of (lit name)"
  let ?file = "array_of (lit ''tests.c'')"
  let ?ds = "map Text (lit ''[TEST '') @ [String_at ?n (lit name)] @ map Text (lit ''] Running '') @ [String_at ?n (lit name)]
    @ map Text (lit '' at '') @ [String_at ?file (lit ''tests.c'')] @ map Text (lit '':'') @ [Signed (of_nat line)] @ [Text 0x0A]"
  let ?fmt = "lit (''[TEST %s] Running %s at %s:%d'' @ [CHR 0x0A])"
  have wf: "list_all well_formed ?ds"
    using assms cstr_array_of [of "lit name"] cstr_array_of [of "lit ''tests.c''"] by simp
  have t: "concat (map template ?ds) = ?fmt" by simp
  have "cstr (array_of ?fmt) ?fmt" by (rule cstr_array_of) simp
  then have loop: "printf_loop (array_of ?fmt) 0 (concat (map arguments ?ds)) s
      = Some (0 + length ?fmt, fold putc (concat (map rendered ?ds)) s)"
    using printf_loop_directives [OF wf, of "array_of ?fmt" 0 s] unfolding t by simp
  have "concat (map arguments ?ds) = [Str ?n, Str ?n, Str ?file, Num (of_nat line)]" by simp
  then have "printf (array_of ?fmt) [Str ?n, Str ?n, Str ?file, Num (of_nat line)] s
      = Some (0 + length ?fmt, fold putc (concat (map rendered ?ds)) s)"
    using loop unfolding printf_def by (simp only:)
  then show ?thesis
    unfolding TEST_HEADER_def by (intro exI [of _ "concat (map rendered ?ds)"]) (simp only: option.simps(9) snd_conv)
qed

lemma TEST_HEADER_frame:
  assumes "0 \<notin> set (lit name)"
  obtains t where "TEST_HEADER name line s = Some t" and "pg t = pg s" and "tlb t = tlb s"
  using TEST_HEADER_prints [OF assms, of line s] by auto

lemma entry_nonzero: "offset_15_00 (SET_IDT_ENTRY a d) = 0 \<and> offset_31_16 (SET_IDT_ENTRY a d) = 0 \<Longrightarrow> a = 0"
proof (rule bit_word_eqI)
  fix n assume z: "offset_15_00 (SET_IDT_ENTRY a d) = 0 \<and> offset_31_16 (SET_IDT_ENTRY a d) = 0" and n: "n < LENGTH(32)"
  have eq: "(0xFFFF :: u32) = mask 16" by (simp add: mask_eq_exp_minus_1)
  have ones: "bit (0xFFFF :: u32) k" if "k < 16" for k
    using that unfolding eq by (simp add: bit_mask_iff del: mask_eq_exp_minus_1)
  show "bit a n = bit 0 n"
  proof (cases "n < 16")
    case True
    have "\<not> bit (offset_15_00 (SET_IDT_ENTRY a d)) n" using z by simp
    then show ?thesis using True ones by (simp add: SET_IDT_ENTRY_def bit_simps)
  next
    case False
    have "\<not> bit (offset_31_16 (SET_IDT_ENTRY a d)) (n - 16)" using z by simp
    moreover have "n - 16 < 16" "n - 16 < 32" using False n by simp_all
    ultimately show ?thesis using False n ones [of "n - 16"] by (simp add: SET_IDT_ENTRY_def bit_simps)
  qed
qed

lemma idt_check_all: "\<forall>k < n. \<not> (offset_15_00 (idt (i + k)) = 0 \<and> offset_31_16 (idt (i + k)) = 0) \<Longrightarrow> idt_check idt i n = PASS"
proof (induction n arbitrary: i)
  case (Suc n)
  have "\<forall>k < n. \<not> (offset_15_00 (idt (i + 1 + k)) = 0 \<and> offset_31_16 (idt (i + 1 + k)) = 0)"
    using Suc.prems by (metis Suc_eq_plus1_left Suc_less_eq add.assoc)
  then show ?case using Suc.IH [of "i + 1"] Suc.prems by auto
qed simp

text \<open>
  Run after \<open>init_paging\<close> and \<open>init_idt\<close>, the tests that load from the ends of the screen and of the
  kernel's page pass, those that load between the two and before the screen end in a page fault, and
  \<open>idt_test\<close> passes, whatever the addresses of the handlers but 0.  The test of the byte after the kernel's
  page passes too: the page ends at 8 MB, not at the 5 MB of \<open>tests.h\<close>.
\<close>

lemma self_tests_paging:
  assumes "page_table_addr (pg s) AND 0xFFF = 0" and "\<And>h. addr h \<noteq> 0"
  shows "map (\<lambda>test. map_option fst (test (init_paging s)))
      [video_mem_test_start der, video_mem_test_end der, kernel_page_start der, kernel_page_end der,
       after_kernel_page_test der, between_kernel_video_mem_test der, before_video_memory der,
       idt_test (init_idt addr idt0)]
    = [Some PASS, Some PASS, Some PASS, Some PASS, Some PASS, Some (Traps 14), Some (Traps 14), Some PASS]"
proof -
  note map = init_paging_walk [OF assms(1)]
  have load: "fst (load_der der a t) = (if walk (pg (init_paging s)) a = None then Traps 14 else PASS)"
    if "pg t = pg (init_paging s)" for a t
    using that by (simp add: load_der_def split: option.split)
  have run: "map_option fst (map_option (load_der der a) (TEST_HEADER name line (init_paging s)))
      = Some (if walk (pg (init_paging s)) a = None then Traps 14 else PASS)" if nul: "0 \<notin> set (lit name)" for a name line
  proof -
    obtain t where "TEST_HEADER name line (init_paging s) = Some t" "pg t = pg (init_paging s)"
      using TEST_HEADER_frame [OF nul, of line "init_paging s"] by metis
    then show ?thesis using load by simp
  qed
  have idt: "idt_check (init_idt addr idt0) 0 10 = PASS"
  proof (rule idt_check_all, intro allI impI)
    fix k :: nat assume "k < 10"
    then have "init_idt addr idt0 (0 + k) = SET_IDT_ENTRY (addr (Exception k)) (blank_gate (idt0 k))"
      by (simp add: init_idt_entry)
    then show "\<not> (offset_15_00 (init_idt addr idt0 (0 + k)) = 0 \<and> offset_31_16 (init_idt addr idt0 (0 + k)) = 0)"
      using entry_nonzero assms(2) by metis
  qed
  obtain t where "TEST_HEADER ''idt_test'' 38 (init_paging s) = Some t"
    using TEST_HEADER_frame [of "''idt_test''"] by (simp) blast
  then show ?thesis
    by (simp add: video_mem_test_start_def video_mem_test_end_def kernel_page_start_def kernel_page_end_def
        after_kernel_page_test_def between_kernel_video_mem_test_def before_video_memory_def run map idt_test_def idt
        del: option.map_comp)
qed

lemma self_tests_paging_example:
  "\<forall>der idt0. map (\<lambda>test. map_option fst (test (init_paging static_kernel)))
      [video_mem_test_start der, video_mem_test_end der, kernel_page_start der, kernel_page_end der,
       after_kernel_page_test der, between_kernel_video_mem_test der, before_video_memory der,
       idt_test (init_idt (\<lambda>_. 0x400000) idt0)]
    = [Some PASS, Some PASS, Some PASS, Some PASS, Some PASS, Some (Traps 14), Some (Traps 14), Some PASS]"
  by (intro allI, rule self_tests_paging) (simp_all add: static_kernel_def)

lemma test_terminal_write_passes: "\<exists>t. test_terminal_write test1 s = Some (PASS, t)"
proof -
  obtain u where "TEST_HEADER ''test_terminal_write'' 161 s = Some u"
    using TEST_HEADER_frame [of "''test_terminal_write''" 161 s] by auto
  then show ?thesis by (simp add: test_terminal_write_def terminal_write_def Let_def)
qed

end
