(* ===== verification/Spec2Isabelle.thy ===== *)
theory Spec2Isabelle
  imports Boot_Shell Descriptor_Types User_Ls Shell_Cat User_Signals Fish_Frames Fish_Bytes Emulation Self_Tests
begin

text \<open>
  A verification development for the operating system kernel under \<open>src/student-distrib\<close>: a
  32-bit x86 kernel with three text terminals, a read-only file system, paging, six
  process slots and a round-robin scheduler.

  \<^bold>\<open>The parts of the program and the theories that model them\<close>

  \<^item> \<open>Prelude\<close>: byte arrays seen through a pointer, C strings, bounded loops, the collections
    \<open>kernel_simps\<close> and \<open>frame_simps\<close>.
  \<^item> \<open>Kernel_State\<close>: the structures of \<open>types.h\<close> and \<open>filesystem.h\<close> as records, and one record
    \<open>kernel\<close> with every global variable of the C files, physical memory, the translation in
    force, the bytes sent to I/O ports and the interrupt flag.
  \<^item> \<open>C_Memory\<close>, \<open>Lib_String\<close>, \<open>Console\<close>, \<open>Screen\<close>, \<open>Printf\<close>: \<open>lib.c\<close> with the inline assembly of
    \<open>memset\<close>, \<open>memcpy\<close> and \<open>memmove\<close>, the string routines, the text console and \<open>printf\<close>.
  \<^item> \<open>Page\<close>: \<open>page.c\<close> and the page walk of the processor; \<open>Video_Pages\<close>: the video pages of the
    terminals; \<open>Terminal\<close>, \<open>Keyb_Buffer\<close>, \<open>Keyboard\<close>: \<open>terminal.c\<close> and \<open>keyboard.c\<close>.
  \<^item> \<open>Filesystem\<close>, \<open>Files\<close>: \<open>filesystem.c\<close>, first the image, then the two drivers.
  \<^item> \<open>I8259\<close>, \<open>Rtc\<close>, \<open>Timer\<close>: \<open>i8259.c\<close>, \<open>rtc.c\<close>, \<open>pit.c\<close> (its initialisation), \<open>cursor.c\<close>.
  \<^item> \<open>Descriptors\<close>: \<open>open\<close>, \<open>read\<close>, \<open>write\<close>, \<open>close\<close> of \<open>syscall.c\<close> and the dispatch through the
    tables of functions; \<open>Syscall\<close>: the other calls and the dispatch by number of
    \<open>syscall_handler.S\<close>.
  \<^item> \<open>Commands\<close>, \<open>Execute\<close>: \<open>execute.c\<close>, that is \<open>parse_cmd\<close>, \<open>execute\<close>, \<open>halt\<close>, \<open>scheduler\<close>.
  \<^item> \<open>Idt\<close>: \<open>idt.c\<close>, the exception handlers and the descriptor table as the processor reads it.
  \<^item> \<open>Boot\<close>: \<open>entry\<close> of \<open>kernel.c\<close> with the structures of \<open>multiboot.h\<close> and the segment descriptors;
    \<open>Boot_Report\<close>: what \<open>entry\<close> prints of the boot loader's data; \<open>Boot_Shell\<close>: from the boot loader
    to the first shell.
  \<^item> \<open>Kernel_Steps\<close>: the kernel as a state machine whose steps are system calls, exceptions, timer
    ticks, keys and clock ticks.

  \<^item> \<open>User_Lib\<close>, \<open>User_Programs\<close>, \<open>User_Cat\<close>, \<open>User_Tests\<close>: the programs of \<open>src/syscalls\<close>, run on the
    kernel through its system calls: the library \<open>ece391support.c\<close> and the stubs, the programs,
    what \<open>cat\<close> shows, and the authors' error tests \<open>ece391syserr.c\<close>; \<open>User_Ls\<close>: what \<open>ls\<close> shows;
    \<open>User_Session\<close>: the shell and the counter at a terminal; \<open>Shell_Runs\<close>: from the
    typed line to the program it names; \<open>Shell_Cat\<close>: from there to the file that \<open>cat\<close> shows; \<open>User_Signals\<close>: \<open>ece391sigtest.c\<close>.
  \<^item> \<open>Emulation\<close>: \<open>src/fish/ece391emulate.c\<close>, the system calls made out of those of Linux, which
    are parameters collected in the record \<open>linux\<close>.
  \<^item> \<open>Fish_Blink\<close>: \<open>src/fish/blink.S\<close>, the linked list of blinking characters in \<open>blink_array\<close>;
    \<open>Fish\<close>: \<open>fish.c\<close>, run on the kernel as the other programs are; \<open>Fish_List\<close>, \<open>Fish_Ticks\<close>, \<open>Fish_Frames\<close>:
    its specification and what is proved of it; \<open>Fish_Bytes\<close>: \<open>blink_array\<close> as bytes.
  \<^item> \<open>Self_Tests\<close>: the kernel's own tests, \<open>tests.c\<close>, and \<open>delay\<close> of \<open>lib.c\<close>.
  \<^item> \<open>Descriptor_Types\<close>: the type invariant of the tables of open files, over the steps of the kernel.

  A program enters the kernel through \<open>syscall_linkage\<close>, a device through its handler.  All of
  them act on the one record \<open>kernel\<close>; a C function becomes a definition of the same name that
  takes the state and returns it updated, with its result.  A C function that does not return to
  its caller (\<open>iret\<close>, or \<open>leave; ret\<close> on a stack that another call left) yields an \<open>outcome\<close>:
  returned, user code entered, or a suspended frame resumed.  The values of the stack pointers
  that the code stores are arguments.

  \<^bold>\<open>Conventions\<close>

  Machine words keep their width where the code computes with them; an \<open>int\<close> or \<open>nat\<close> stands
  for a C variable whose arithmetic cannot leave its range.  An array is the function that reads
  it: an access outside is the memory next to it, and a property that depends on bounds says so.
  Where the code itself goes over an end: a command whose words do not fit \<open>filename[32]\<close> and
  \<open>argument[128]\<close> makes the model's \<open>execute\<close> \<open>None\<close> (\<open>overruns\<close>); \<open>key_buffer[128]\<close>, which the keyboard
  handler fills without a test, has no end in the model and the properties ask for less than 128
  keys; the 8000 bytes that \<open>terminal_init\<close> clears from an array of 2000 clear in the model what
  lies there in the kernel that the repository has built, among it the copies of the interrupt
  masks and the file system's variables (\<open>wipe_display_buf\<close>); and the rows that hold the lines of
  hidden terminals, a local array of \<open>terminal_init\<close> that is gone when they are used, are bytes
  \<open>line_rows\<close> that any step of the kernel may change (\<open>rows_reused\<close>).
  Loads and stores go through the translation \<open>tlb\<close>, which changes when the code flushes it.  Process
  control blocks live at the addresses \<open>pcb_addr\<close> in a store of their own beside \<open>mem\<close>: the
  kernel stacks, which share their 8 KB, are not modelled, nor is a program writing there (the
  page is not accessible to it).  A loop that may not end is a \<open>partial_function (option)\<close>, with
  \<open>None\<close> for not returning: strings without an end, \<open>terminal_read\<close> and \<open>rtc_read\<close> waiting for an
  interrupt, and the boot loader's memory map.  \<open>read_data\<close> fetches the bytes of the file before it
  stores them, which differs from the code's copies only when the buffer lies in the image.  What happens to the kernel while such a call
  waits is a parameter \<open>env\<close>.  Every other loop is a structural recursion or has a measure; there is
  no fuel.

  \<^bold>\<open>What the lemmas show\<close>

  \<^item> The library: each routine against the list or number it is about (copies, fills, digits,
    comparisons); \<open>putc\<close> implements an abstract screen of 25 rows (\<open>Screen\<close>), stays within the 4000
    bytes of the display, and \<open>printf\<close> prints what its format means.
  \<^item> Paging: what each table maps; programs of different processes never share a byte.
  \<^item> Files: reading in pieces gives the content of the abstract file; \<open>open\<close>, \<open>read\<close>, \<open>close\<close> over the
    table of descriptors.
  \<^item> Terminals and keyboard: the handler is a line editor with echo on the displayed screen; a
    switch of terminals saves and restores screens and, as long as nothing else has written to
    their rows, lines.
  \<^item> Processes: \<open>Process_Stacks\<close> gives the abstract specification, a stack of processes for every
    terminal. \<open>execute\<close> pushes, \<open>halt\<close> pops and continues the caller, a timer tick goes to the next
    terminal and comes back after three; \<open>Program_Loading\<close> follows \<open>execute\<close> from the command line
    to the bytes in the new program's memory.  \<open>Kernel_Steps\<close> shows that every orderly step of the
    kernel keeps the representation, and \<open>Boot\<close> that \<open>entry\<close> establishes it.  \<open>Process_Theorems\<close> states the
    results and applies them to the kernels of \<open>Sample_Kernel\<close>.
  \<^item> Boot: the report of the boot loader's data ends and prints to the screen only, the
    initialisations leave the image of the file system alone, and the first \<open>execute\<close> finds the
    shell in it and loads it: \<open>entry\<close> comes to the shell's first instruction.

  \<^item> User programs: \<open>cat\<close> shows the file its argument names, for every length; \<open>ls\<close> shows every name of
    the directory; every test of \<open>syserr\<close> passes; \<open>pingpong\<close> never halts; the shell
    executes exactly the line typed, and with an executable named in it comes to the first
    instruction of the program, so that \<open>cat\<close> and a file name, typed at the shell, end with the
    bytes of the file on the screen; \<open>counter\<close> shows the numbers up to the chosen limit; the \<open>itoa\<close> of the
    programs writes what the kernel's does.
  \<^item> Emulation: the words of a command become the arguments of the child and come back through
    \<open>getargs\<close>; for commands of at most two words the kernel tells a program the same.
  \<^item> Fish: the commands on the linked list do what they mean for a list of blinks; the ticks of the
    clock return, and after any number of them each place shows the character of its phase; reading
    the two picture files through the kernel gives the blinks of their contents.  On the bytes of the
    array the copies and fills of \<open>fish.c\<close> do what is said of its structures.  With a blink at
    place 0 the list becomes a ring and a tick never returns (\<open>place_zero_hangs\<close>).
  \<^item> Self tests: which of the paging tests pass and which fault, and that \<open>idt_test\<close> passes.
  \<^item> Types: in every orderly history the descriptors of the processes hold the tables of the five
    drivers, so no call goes through a null pointer, and \<open>open\<close> and \<open>write\<close> always return.

  The contracts between the components are locales: \<open>copier\<close> (\<open>memcpy\<close>, \<open>memmove\<close> and
  the loop of \<open>fish.c\<close>), \<open>char_sink\<close>
  (\<open>putc\<close> under \<open>printf\<close>), \<open>irq_controller\<close>, \<open>sequential\<close> (reading files and directories to the
  end), \<open>slot_table\<close> (file descriptors and process slots).  Each is interpreted on the kernel's own
  functions.

  \<^bold>\<open>The step relation\<close>

  \<open>kernel_step ord\<close> has as steps the system calls, exceptions, timer ticks, keys and clock ticks, each
  with everything the handler does.  A \<open>terminal_read\<close> or \<open>rtc_read\<close> that waits may also be cut in two:
  the rest of it is a step of its own (\<open>line_read\<close>, \<open>clock_read\<close>), so that timer ticks and other
  programs come between.  \<open>execute\<close>, \<open>halt\<close> and the scheduler are one step each, although the code
  does not quite keep them together: \<open>set_up_paging\<close> ends with \<open>sti\<close>, and a timer tick after it, before
  \<open>execute\<close> has marked the process slot it chose, can give the slot to the shell of another terminal.
  System calls come through a trap gate, so a tick may interrupt the others as well.  Histories
  with such ticks are not described, and nothing is claimed of them.

  With \<open>ord\<close>, a step that has to start a base shell (\<open>halt\<close> of a base shell, or a tick to a terminal
  that has none) starts it.  When the shell cannot be started the code goes on with a process table
  that no longer matches the terminals: those steps are in the relation without \<open>ord\<close>, and the
  invariants of processes are stated for the histories with \<open>ord\<close> throughout, the orderly ones.

  \<^bold>\<open>Not modelled\<close>

  \<open>boot.S\<close>, \<open>intr_wrapper.S\<close> and \<open>x86_desc.S\<close> (assembly; the addresses and sizes they fix are
  arguments), the macros of \<open>debug.h\<close> and the port and flag macros of \<open>lib.h\<close> that nothing uses (\<open>inw\<close>,
  \<open>outl\<close>, \<open>cli_and_save\<close>), the table \<open>fail_table\<close> of \<open>execute.c\<close>, which
  nothing uses, page faults in the kernel (an access to an unmapped page keeps its address in the
  model, see \<open>flush_tlb\<close>; the tests and \<open>sigtest\<close>, which are there to fault, say when they do).  The descriptor
  fields of \<open>x86_desc.h\<close> that the kernel never touches are left out.
\<close>

end
